(* ===== verification/Prelude.thy ===== *)
theory Prelude
  imports Complex_Main "HOL-Library.AList" "HOL-Library.List_Lexorder" "HOL-Library.Char_ord"
    "HOL-Library.Product_Lexorder"
begin

text \<open>
  What the components share: the hint collections, time stamps and their text order, names of
  stored records, outcomes of a store's writes, and the generic lemmas on association lists
  (a directory of record files, a SQLite table, a Python dict in insertion order).
\<close>

named_theorems inv_intros \<open>introduction rules for the component invariants\<close>
named_theorems step_simps \<open>unfolding of the operations of the state machines\<close>

section \<open>Time stamps\<close>

text \<open>
  An instant is its count of microseconds since the epoch, the resolution of Python's
  \<^verbatim>\<open>datetime\<close>. \<open>utc_now\<close> (utils.py) renders it with \<open>isoformat\<close>, which leaves the fraction
  out when it is zero: \<^verbatim>\<open>12:00:00Z\<close> against \<^verbatim>\<open>12:00:00.000001Z\<close>. Where the code compares the
  rendered strings (sorting a listing by \<open>created_at\<close>), \<^verbatim>\<open>"." < "Z"\<close> puts the whole second
  after its fractions; \<open>stamp_text_key\<close> is that order.
\<close>

type_synonym stamp = int

definition stamp_text_key :: "stamp \<Rightarrow> int \<times> int" where
  "stamp_text_key t =
     (t div 1000000, if t mod 1000000 = 0 then 1000000 else t mod 1000000)"

definition minutes_us :: "int \<Rightarrow> stamp" where
  "minutes_us m = m * 60 * 1000000"

lemma stamp_text_key_inj: "stamp_text_key s = stamp_text_key t \<longleftrightarrow> s = t"
proof
  assume eq: "stamp_text_key s = stamp_text_key t"
  have lt: "x mod 1000000 < (1000000::int)" for x by simp
  from eq have d: "s div 1000000 = t div 1000000" by (simp add: stamp_text_key_def)
  from eq have "s mod 1000000 = t mod 1000000"
    using lt [of s] lt [of t] by (auto simp: stamp_text_key_def split: if_splits)
  with d show "s = t" by (metis div_mult_mod_eq)
qed simp

section \<open>Names of records\<close>

text \<open>
  \<open>record_path\<close> (utils.py) gives a file only to an id that fully matches
  \<^verbatim>\<open>[A-Za-z0-9][A-Za-z0-9._-]{0,127}\<close>, and raises \<open>KeyError\<close> otherwise.
\<close>

definition alnum_char :: "char \<Rightarrow> bool" where
  "alnum_char c \<longleftrightarrow>
     (CHR ''A'' \<le> c \<and> c \<le> CHR ''Z'') \<or> (CHR ''a'' \<le> c \<and> c \<le> CHR ''z'') \<or>
     (CHR ''0'' \<le> c \<and> c \<le> CHR ''9'')"

definition record_char :: "char \<Rightarrow> bool" where
  "record_char c \<longleftrightarrow> alnum_char c \<or> c \<in> set ''._-''"

fun record_path :: "string \<Rightarrow> string \<Rightarrow> string option" where
  "record_path [] suffix = None"
| "record_path (c # cs) suffix =
     (if alnum_char c \<and> list_all record_char cs \<and> length cs \<le> 127
      then Some (c # cs @ suffix) else None)"

declare record_path.simps [simp del]

lemma record_path_no_slash:
  assumes "record_path rid suffix = Some p" and "CHR ''/'' \<notin> set suffix"
  shows "CHR ''/'' \<notin> set p"
proof -
  have "\<not> record_char (CHR ''/'')" and "\<not> alnum_char (CHR ''/'')" by code_simp+
  with assms show ?thesis
    by (cases rid) (auto simp: record_path.simps list_all_iff split: if_splits)
qed

lemma record_path_inj:
  "record_path a suffix = Some p \<Longrightarrow> record_path b suffix = Some p \<Longrightarrow> a = b"
  by (cases a; cases b) (auto simp: record_path.simps split: if_splits)

section \<open>Association lists\<close>

text \<open>Deleting and updating one key, as the lookup sees it.\<close>

lemma map_of_update: "map_of (AList.update k v xs) k' = (if k' = k then Some v else map_of xs k')"
  by (simp add: update_conv')

lemma map_of_delete_key: "map_of (AList.delete k xs) k' = (if k' = k then None else map_of xs k')"
  by (simp add: delete_conv')

lemma map_of_filter_distinct:
  "distinct (map fst entries) \<Longrightarrow>
   map_of (filter keep entries) key =
     (case map_of entries key of None \<Rightarrow> None | Some found \<Rightarrow> if keep (key, found) then Some found else None)"
proof (induction entries)
  case (Cons a entries)
  then show ?case
    by (cases a) (auto split: option.splits dest: map_of_SomeD simp: rev_image_eqI)
qed simp

lemma distinct_keys_filter: "distinct (map fst xs) \<Longrightarrow> distinct (map fst (filter P xs))"
  by (induction xs) auto

lemma distinct_keys_update: "distinct (map fst xs) \<Longrightarrow> distinct (map fst (AList.update k v xs))"
  by (simp add: distinct_update)

lemma distinct_keys_delete: "distinct (map fst xs) \<Longrightarrow> distinct (map fst (AList.delete k xs))"
  by (simp add: distinct_delete)

lemma set_map_filter_iff: "y \<in> set (List.map_filter f xs) \<longleftrightarrow> (\<exists>x \<in> set xs. f x = Some y)"
  by (induction xs) (auto simp: List.map_filter_simps split: option.splits)

text \<open>A dict of records by a key of their own, as \<^verbatim>\<open>{r.id: r for r in rs}\<close>.\<close>

lemma map_of_keyed_None: "map_of (map (\<lambda>r. (f r, r)) rs) i = None \<longleftrightarrow> i \<notin> f ` set rs"
  by (induction rs) auto

lemma map_of_keyed_Some: "map_of (map (\<lambda>r. (f r, r)) rs) i = Some r \<Longrightarrow> r \<in> set rs \<and> f r = i"
  by (auto dest!: map_of_SomeD)

lemma map_of_keyed_distinct:
  "distinct (map f rs) \<Longrightarrow> r \<in> set rs \<Longrightarrow> map_of (map (\<lambda>r. (f r, r)) rs) (f r) = Some r"
  by (induction rs) (auto simp: rev_image_eqI)

lemma map_of_keyed_filter:
  "distinct (map f rs) \<Longrightarrow> map_of (map (\<lambda>r. (f r, r)) (filter P rs)) i =
     (case map_of (map (\<lambda>r. (f r, r)) rs) i of None \<Rightarrow> None | Some r \<Rightarrow> if P r then Some r else None)"
proof (induction rs)
  case (Cons r rs)
  then have "map_of (map (\<lambda>r. (f r, r)) rs) (f r) = None"
    by (simp add: map_of_keyed_None)
  with Cons show ?case by (auto split: option.split)
qed simp

lemmas alist_lookup = map_of_update map_of_delete_key
lemmas alist_distinct = distinct_keys_filter distinct_keys_update distinct_keys_delete

section \<open>Sorting newest first\<close>

text \<open>
  Python's \<open>sort(key=f, reverse=True)\<close> keeps the order of equal keys: it reverses, sorts
  (stably) and reverses again.
\<close>

definition sort_desc :: "('a \<Rightarrow> 'k::linorder) \<Rightarrow> 'a list \<Rightarrow> 'a list" where
  "sort_desc f xs = rev (sort_key f (rev xs))"

lemma set_sort_desc [simp]: "set (sort_desc f xs) = set xs"
  by (simp add: sort_desc_def)

lemma distinct_map_sort_desc [simp]: "distinct (map g (sort_desc f xs)) = distinct (map g xs)"
  by (simp add: sort_desc_def distinct_map)

lemma sort_desc_sorted: "sorted_wrt (\<lambda>x y. f x \<ge> f y) (sort_desc f xs)"
proof -
  have "sorted_wrt (\<lambda>x y. f x \<le> f y) (sort_key f (rev xs))"
    using sorted_sort_key [of f "rev xs"] by (simp add: sorted_wrt_map)
  then show ?thesis by (simp add: sort_desc_def sorted_wrt_rev)
qed

text \<open>Distinct elements that are all equal are at most one.\<close>

lemma distinct_all_equal:
  assumes d: "distinct xs" and eq: "\<And>x y. x \<in> set xs \<Longrightarrow> y \<in> set xs \<Longrightarrow> x = y"
  shows "length xs \<le> 1"
proof (rule ccontr)
  assume "\<not> length xs \<le> 1"
  then obtain a b ys where xs: "xs = a # b # ys" by (metis Suc_le_length_iff not_less_eq_eq One_nat_def)
  then have "a = b" by (intro eq) simp_all
  with d xs show False by simp
qed

end
