(* ===== verification/Ownership.thy ===== *)
theory Ownership
  imports Prelude
begin

text \<open>
  Who may use what (session_ownership.py) and the current operator of a task (audit.py). The
  context variable \<open>_CURRENT_OPERATOR\<close> is a stack-like value: \<open>set\<close> returns a token that restores
  what was there; here each operation takes the variable's value and returns the new one, and the
  token is the old value.
\<close>

record operator_identity =
  op_id :: string
  op_name :: "string option"
  op_source :: string
  op_asserted_id :: "string option"

type_synonym operator_var = "operator_identity option"

definition ANONYMOUS :: operator_identity where
  "ANONYMOUS = \<lparr>op_id = ''anonymous'', op_name = None, op_source = ''anonymous'', op_asserted_id = None\<rparr>"

definition SYSTEM_SOURCE :: string where
  "SYSTEM_SOURCE = ''system''"

text \<open>\<open>str.strip\<close> on 8-bit characters: tab to carriage return, file to unit separator, space, NEL and NBSP.\<close>

definition py_space :: "char \<Rightarrow> bool" where
  "py_space c \<longleftrightarrow> (let n = of_char c :: nat in (9 \<le> n \<and> n \<le> 13) \<or> (28 \<le> n \<and> n \<le> 32) \<or> n = 133 \<or> n = 160)"

definition py_strip :: "string \<Rightarrow> string" where
  "py_strip s = rev (dropWhile py_space (rev (dropWhile py_space s)))"

text \<open>Python's \<open>x or d\<close> on an optional string: None and the empty string are both falsy.\<close>

definition truthy :: "string option \<Rightarrow> bool" where
  "truthy s \<longleftrightarrow> s \<noteq> None \<and> s \<noteq> Some []"

definition or_none :: "string option \<Rightarrow> string option" where
  "or_none s = (if truthy s then s else None)"

definition set_current_operator ::
  "string option \<Rightarrow> string option \<Rightarrow> string \<Rightarrow> string option \<Rightarrow> operator_var \<Rightarrow> operator_var \<times> operator_var" where
  "set_current_operator operator_id name source asserted_id cur =
     (let given = (if truthy operator_id then the operator_id else ''anonymous'');
          stripped = py_strip given
      in (Some \<lparr>op_id = (if stripped = [] then ''anonymous'' else stripped),
                op_name = or_none name,
                op_source = (if truthy operator_id then source else ''anonymous''),
                op_asserted_id = or_none asserted_id\<rparr>, cur))"

definition reset_current_operator :: "operator_var \<Rightarrow> operator_var" where
  "reset_current_operator token = token"

definition get_current_operator :: "operator_var \<Rightarrow> operator_identity" where
  "get_current_operator cur = (case cur of None \<Rightarrow> ANONYMOUS | Some op \<Rightarrow> op)"

definition verified_operator :: "operator_var \<Rightarrow> string option" where
  "verified_operator cur =
     (let op = get_current_operator cur in
      if op_source op = ''token'' then Some (op_id op) else None)"

definition may_use :: "operator_var \<Rightarrow> string option \<Rightarrow> bool" where
  "may_use cur owner =
     (case owner of
        None \<Rightarrow> True
      | Some o' \<Rightarrow>
          let op = get_current_operator cur in
          if op_source op = SYSTEM_SOURCE then True
          else op_source op = ''token'' \<and> op_id op = o')"

definition owner_identity :: "string option \<Rightarrow> operator_identity option" where
  "owner_identity owner =
     (if truthy owner
      then Some \<lparr>op_id = the owner, op_name = None, op_source = ''token'', op_asserted_id = None\<rparr>
      else None)"

text \<open>
  The two context managers: the block runs with the changed variable, and its end (normal or by an
  exception, both are just its result) puts the saved one back.
\<close>

definition acting_as ::
  "operator_identity option \<Rightarrow> (operator_var \<Rightarrow> 'r \<times> operator_var) \<Rightarrow> operator_var \<Rightarrow> 'r \<times> operator_var" where
  "acting_as identity block cur =
     (case identity of
        None \<Rightarrow> block cur
      | Some i \<Rightarrow>
          let (cur', token) = set_current_operator (Some (op_id i)) (op_name i) (op_source i) (op_asserted_id i) cur;
              (r, _) = block cur'
          in (r, reset_current_operator token))"

definition as_system :: "(operator_var \<Rightarrow> 'r \<times> operator_var) \<Rightarrow> operator_var \<Rightarrow> 'r \<times> operator_var" where
  "as_system block cur =
     (let (cur', token) = set_current_operator (Some ''system'') None SYSTEM_SOURCE None cur;
          (r, _) = block cur'
      in (r, reset_current_operator token))"

section \<open>Lemmas\<close>

lemma truthy_Some [simp]: "truthy (Some s) \<longleftrightarrow> s \<noteq> []"
  by (simp add: truthy_def)

lemma truthy_None [simp]: "\<not> truthy None"
  by (simp add: truthy_def)

lemma dropWhile_hd: "(xs = [] \<or> \<not> P (hd xs)) \<Longrightarrow> dropWhile P xs = xs"
  by (cases xs) auto

lemma py_strip_id: "s = [] \<or> (\<not> py_space (hd s) \<and> \<not> py_space (last s)) \<Longrightarrow> py_strip s = s"
  by (auto simp: py_strip_def dropWhile_hd hd_rev)

lemma verified_operator_may_use: "verified_operator cur = Some o' \<Longrightarrow> may_use cur (Some o')"
  by (auto simp: verified_operator_def may_use_def Let_def split: if_splits)

lemma acting_as_restores:
  "identity \<noteq> None \<Longrightarrow> snd (acting_as identity block cur) = cur"
  by (auto simp: acting_as_def set_current_operator_def reset_current_operator_def Let_def
      split: prod.splits)

lemma as_system_restores: "snd (as_system block cur) = cur"
  by (auto simp: as_system_def set_current_operator_def reset_current_operator_def Let_def
      split: prod.splits)

text \<open>
  an owned thing is usable by exactly its owner, proven by a token, and by the system.
\<close>

lemma may_use_owned_iff:
  "may_use cur (Some owner) \<longleftrightarrow>
     op_source (get_current_operator cur) = SYSTEM_SOURCE \<or> verified_operator cur = Some owner"
  by (auto simp: may_use_def verified_operator_def Let_def)

text \<open>
  a block run as the owner of something may use what that owner owns, uses nothing another
  operator owns, and leaves the current operator as it was.
\<close>

lemma acting_as_owner:
  assumes "owner \<noteq> []" and "py_strip owner = owner"
  shows "acting_as (owner_identity (Some owner)) (\<lambda>cur. (map (may_use cur) asked, cur)) cur =
    (map (\<lambda>x. x = None \<or> x = Some owner) asked, cur)"
  using assms
  by (auto simp: acting_as_def owner_identity_def set_current_operator_def reset_current_operator_def
      may_use_def get_current_operator_def SYSTEM_SOURCE_def split: option.splits)

lemma acting_as_owner_witness:
  "acting_as (owner_identity (Some ''ann'')) (\<lambda>cur. (map (may_use cur) [None, Some ''ann'', Some ''bob''], cur)) None
     = ([True, True, False], None)"
proof -
  have "py_strip ''ann'' = ''ann''" by code_simp
  then show ?thesis
    using acting_as_owner [of "''ann''" "[None, Some ''ann'', Some ''bob'']" None] by simp
qed

end
