(* ===== verification/ApprovalModel.thy ===== *)
theory ApprovalModel
  imports Ownership
begin

text \<open>
  The data of the approval subsystem: the action an approval is asked for and the stored record
  (models.py), what of an action an approval binds (approval_display.py), how an action is recorded
  with its sensitive text as a keyed digest, and the refusals the subsystem raises. Floating-point
  fields are rationals: every finite Python float is one, and the code only compares them.
\<close>

datatype approval_kind = KWrite | KUpload | KPost | KPayment | KAccountChange | KDestructive
datatype approval_status = Pending | Approved | Rejected | Executed
datatype approval_decider = Operator | Agent
datatype approval_origin = ActionOrigin | ToolCallOrigin

record action_decision =
  act_action :: string
  act_reason :: string
  act_confidence :: "rat option"
  act_risk_category :: "string option"
  act_element_id :: "string option"
  act_selector :: "string option"
  act_x :: "rat option"
  act_y :: "rat option"
  act_text :: "string option"
  act_clear_first :: bool
  act_sensitive :: bool
  act_key :: "string option"
  act_value :: "string option"
  act_label :: "string option"
  act_index :: "nat option"
  act_delta_x :: rat
  act_delta_y :: rat
  act_wait_ms :: nat
  act_url :: "string option"
  act_file_path :: "string option"
  act_recipient :: "string option"
  act_platform :: "string option"
  act_username :: "string option"

text \<open>The observation stored beside a record is opaque JSON text; nothing here reads it.\<close>

record approval_record =
  ar_id :: string
  ar_session_id :: string
  ar_kind :: approval_kind
  ar_status :: approval_status
  ar_created_at :: stamp
  ar_updated_at :: stamp
  ar_reason :: string
  ar_action :: action_decision
  ar_observation :: "string option"
  ar_decision_comment :: "string option"
  ar_decided_at :: "stamp option"
  ar_decided_via :: "approval_decider option"
  ar_approved_expires_at :: "stamp option"
  ar_executed_at :: "stamp option"
  ar_owner :: "string option"
  ar_origin :: approval_origin
  ar_arguments_size :: "nat option"
  ar_arguments_sha256 :: "string option"

definition CONTROLLER_SCOPE :: string where
  "CONTROLLER_SCOPE = ''controller''"

definition SENSITIVE_TEXT_PREFIX :: string where
  "SENSITIVE_TEXT_PREFIX = ''[sensitive text] hmac-sha256:''"

definition SENSITIVE_TEXT_RETENTION :: stamp where
  "SENSITIVE_TEXT_RETENTION = minutes_us (24 * 60)"

text \<open>
  \<open>UNBOUND_FIELDS\<close>: the dump of an action without its reason and confidence. Two such dumps are
  equal when every other field is.
\<close>

definition bound_fields :: "action_decision \<Rightarrow> action_decision" where
  "bound_fields a = a\<lparr>act_reason := [], act_confidence := None\<rparr>"

text \<open>
  \<open>_stored_action\<close>: the keyed digest (\<open>hmac\<close> with SHA-256, as hex) is a parameter \<open>digest\<close> that
  takes this process's key and the text.
\<close>

definition stored_action :: "(string \<Rightarrow> string) \<Rightarrow> action_decision \<Rightarrow> action_decision" where
  "stored_action digest a =
     (if \<not> (act_sensitive a \<and> truthy (act_text a)) then a
      else a\<lparr>act_text := Some (SENSITIVE_TEXT_PREFIX @ digest (the (act_text a)))\<rparr>)"

definition actions_match :: "(string \<Rightarrow> string) \<Rightarrow> action_decision \<Rightarrow> action_decision \<Rightarrow> bool" where
  "actions_match digest stored requested \<longleftrightarrow>
     bound_fields stored = bound_fields (stored_action digest requested)"

definition starts_with :: "string \<Rightarrow> string \<Rightarrow> bool" where
  "starts_with prefix s \<longleftrightarrow> take (length prefix) s = prefix"

definition needs_held_text :: "approval_record \<Rightarrow> bool" where
  "needs_held_text r \<longleftrightarrow>
     (let a = ar_action r in
      act_sensitive a \<and> truthy (act_text a) \<and> starts_with SENSITIVE_TEXT_PREFIX (the (act_text a)))"

section \<open>Expiry\<close>

definition has_expired :: "stamp \<Rightarrow> approval_record \<Rightarrow> bool" where
  "has_expired now r =
     (case ar_approved_expires_at r of None \<Rightarrow> False | Some e \<Rightarrow> e \<le> now)"

definition expiry_timestamp :: "stamp \<Rightarrow> stamp \<Rightarrow> stamp" where
  "expiry_timestamp ttl decided_at = decided_at + ttl"

definition later_than :: "stamp \<Rightarrow> stamp \<Rightarrow> stamp" where
  "later_than now s = (if now > s then now else s + 1)"

definition approval_ttl :: "int \<Rightarrow> stamp" where
  "approval_ttl approval_ttl_minutes = minutes_us (max 1 approval_ttl_minutes)"

section \<open>Refusals\<close>

datatype claim_conflict_reason =
    AlreadySpent | RunningToolCall | ActionBegun | AgentApprovesClaimed | AgentRejectsClaimed | ApprovedForThatAction

datatype refusal_code = ApprovalReleased | ApprovalRejected | ApprovalAlreadyUsed

text \<open>
  One constructor per raise of the subsystem: \<open>KeyErr\<close> and \<open>UnreadableErr\<close> (both \<open>KeyError\<close>),
  the \<open>PermissionError\<close>s by what they say, \<open>ServerStateRefusal\<close> and its subclass
  \<open>ClaimedApprovalError\<close>, \<open>ApprovalRefusal\<close> with its code, an I/O failure of a store, and the
  caller's cancellation.
\<close>

datatype approval_error =
    KeyErr string
  | UnreadableErr string
  | WrongSession string
  | KindNotCovered string
  | WrongOrigin string
  | NotApproved string
  | Expired string
  | DoesNotMatch string
  | SpentRefusal string
  | ClaimedNotBegun string
  | AlreadyDecided string approval_status
  | OperatorRejectedBefore string
  | TextNoLongerHeld string
  | ServerStateArguments string
  | ServerStateText string
  | ClaimedApproval string claim_conflict_reason
  | ApprovalRefusal string refusal_code
  | StoreFailure
  | StoresUntrusted "string list"
  | SessionNotFound
  | OtherError
  | CancelledErr

fun is_key_error :: "approval_error \<Rightarrow> bool" where
  "is_key_error (KeyErr _) = True"
| "is_key_error (UnreadableErr _) = True"
| "is_key_error _ = False"

section \<open>Lemmas\<close>

lemma bound_fields_idem [simp]: "bound_fields (bound_fields a) = bound_fields a"
  by (simp add: bound_fields_def)

lemma later_than_gt [simp]: "s < later_than now s"
  by (simp add: later_than_def)

lemma later_than_ge_now: "now \<le> later_than now s"
  by (simp add: later_than_def)

lemma starts_with_append [simp]: "starts_with p (p @ s)"
  by (simp add: starts_with_def)

lemma stored_action_plain:
  "\<not> act_sensitive a \<or> \<not> truthy (act_text a) \<Longrightarrow> stored_action digest a = a"
  by (auto simp: stored_action_def)

lemma stored_action_flags [simp]:
  "act_sensitive (stored_action digest a) = act_sensitive a"
  "act_action (stored_action digest a) = act_action a"
  "act_url (stored_action digest a) = act_url a"
  by (simp_all add: stored_action_def)

lemma truthy_stored: "truthy (act_text (stored_action digest a)) = truthy (act_text a)"
  by (simp add: stored_action_def SENSITIVE_TEXT_PREFIX_def)

lemma actions_match_stored [simp]: "actions_match digest (stored_action digest a) a"
  by (simp add: actions_match_def)

lemma needs_held_text_stored:
  "ar_action r = stored_action digest a \<Longrightarrow> act_sensitive a \<Longrightarrow> truthy (act_text a) \<Longrightarrow> needs_held_text r"
  by (simp add: needs_held_text_def Let_def stored_action_def SENSITIVE_TEXT_PREFIX_def starts_with_def)

lemma bound_fields_eqD:
  assumes "bound_fields a = bound_fields b"
  shows "act_text a = act_text b" and "act_sensitive a = act_sensitive b"
    and "act_action a = act_action b" and "act_url a = act_url b"
    and "act_element_id a = act_element_id b" and "act_selector a = act_selector b"
proof -
  have "act_text (bound_fields a) = act_text (bound_fields b)" using assms by simp
  then show "act_text a = act_text b" by (simp add: bound_fields_def)
  have "act_sensitive (bound_fields a) = act_sensitive (bound_fields b)" using assms by simp
  then show "act_sensitive a = act_sensitive b" by (simp add: bound_fields_def)
  have "act_action (bound_fields a) = act_action (bound_fields b)" using assms by simp
  then show "act_action a = act_action b" by (simp add: bound_fields_def)
  have "act_url (bound_fields a) = act_url (bound_fields b)" using assms by simp
  then show "act_url a = act_url b" by (simp add: bound_fields_def)
  have "act_element_id (bound_fields a) = act_element_id (bound_fields b)" using assms by simp
  then show "act_element_id a = act_element_id b" by (simp add: bound_fields_def)
  have "act_selector (bound_fields a) = act_selector (bound_fields b)" using assms by simp
  then show "act_selector a = act_selector b" by (simp add: bound_fields_def)
qed

lemma stored_match_same_text:
  assumes "\<And>s t. digest s = digest t \<Longrightarrow> s = t"
    and "act_sensitive a" and "truthy (act_text a)"
    and "actions_match digest (stored_action digest a) b"
  shows "act_sensitive b \<and> act_text b = act_text a \<and> bound_fields b = bound_fields a"
proof -
  have eq: "bound_fields (stored_action digest a) = bound_fields (stored_action digest b)"
    using assms(4) by (simp add: actions_match_def)
  have sens: "act_sensitive b"
    using bound_fields_eqD(2) [OF eq] assms(2) by simp
  have tb: "truthy (act_text b)"
    using bound_fields_eqD(1) [OF eq] assms(3) truthy_stored by metis
  have "digest (the (act_text a)) = digest (the (act_text b))"
    using bound_fields_eqD(1) [OF eq] sens tb assms(2,3) by (simp add: stored_action_def)
  then have "the (act_text a) = the (act_text b)" by (rule assms(1))
  then have same_text: "act_text b = act_text a"
    using tb assms(3) by (auto simp: truthy_def)
  have "(bound_fields (stored_action digest a))\<lparr>act_text := act_text a\<rparr> = bound_fields a"
    "(bound_fields (stored_action digest b))\<lparr>act_text := act_text b\<rparr> = bound_fields b"
    by (simp_all add: bound_fields_def stored_action_def)
  with eq same_text sens show ?thesis by metis
qed

text \<open>
  with a digest that tells texts apart, the stored form of a sensitive action matches a request
  only if that request is sensitive too, asks for the same action with the same bound fields, and
  carries the very text the approval was asked for: the digest stands for the text.
\<close>

lemma sensitive_match_same_text:
  assumes "\<And>s t. digest s = digest t \<Longrightarrow> s = t"
    and "act_sensitive a" and "truthy (act_text a)"
    and "actions_match digest (stored_action digest a) b"
  shows "act_sensitive b \<and> act_text b = act_text a \<and> bound_fields b = bound_fields a"
  using assms by (rule stored_match_same_text)

definition sample_action :: action_decision where
  "sample_action = \<lparr>act_action = ''type'', act_reason = ''log in'', act_confidence = None,
     act_risk_category = Some ''write'', act_element_id = None, act_selector = Some ''#pw'',
     act_x = None, act_y = None, act_text = Some ''hunter2'', act_clear_first = True,
     act_sensitive = True, act_key = None, act_value = None, act_label = None, act_index = None,
     act_delta_x = 0, act_delta_y = 600, act_wait_ms = 1000, act_url = None, act_file_path = None,
     act_recipient = None, act_platform = None, act_username = None\<rparr>"

lemma sensitive_match_same_text_witness:
  "act_sensitive (sample_action\<lparr>act_reason := ''again''\<rparr>) \<and>
   act_text (sample_action\<lparr>act_reason := ''again''\<rparr>) = act_text sample_action \<and>
   bound_fields (sample_action\<lparr>act_reason := ''again''\<rparr>) = bound_fields sample_action"
proof (rule sensitive_match_same_text [of rev])
  show "rev s = rev t \<Longrightarrow> s = t" for s t :: string by simp
  show "act_sensitive sample_action" "truthy (act_text sample_action)"
    by (simp_all add: sample_action_def)
  show "actions_match rev (stored_action rev sample_action) (sample_action\<lparr>act_reason := ''again''\<rparr>)"
    by (simp add: actions_match_def bound_fields_def stored_action_def sample_action_def)
qed

end
