(* ===== verification/ApprovalHolds.thy ===== *)
theory ApprovalHolds
  imports ApprovalModel
begin

text \<open>
  How an execution holds an approval (approval_execution.py): the hold object, the task context that
  carries holds, the moment an action may first change something, the refusals around a claim, when an
  ending gives the approval back, and the notes a refusal carries.

  Hold objects are shared between tasks, so they live in a heap \<open>hold_id \<Rightarrow> execution_hold\<close>; a task's
  context variable \<open>_HELD_APPROVALS\<close> is an association list from approval ids to hold ids, in
  insertion order as the Python dict.
\<close>

datatype exn_kind = SessionNotFoundError | BrowserActionError | ApprovalRequiredError | OtherException

datatype note_message = RejectedWhileWaiting | ExpiredWhileWaiting | SessionHasClosed | StillApproved

record given_back_note =
  note_approval_id :: string
  note_status :: string
  note_message :: note_message

text \<open>
  An exception object: its identity (the code compares with \<open>is\<close>), its class, the notes set on it
  and what its answer's details or payload got of them.
\<close>

record exn =
  exn_id :: nat
  exn_kind :: exn_kind
  exn_notes :: "given_back_note list"
  exn_answer :: "(given_back_note \<times> given_back_note list) option"

text \<open>How a block ended: it returned, an exception, or the task's cancellation.\<close>

datatype ending = Returned | Raised exn | CancelledEnding

record execution_hold =
  h_approval_id :: string
  h_origin :: approval_origin
  h_may_give_back :: bool
  h_active :: bool
  h_effect :: bool
  h_refusal :: "exn option"
  h_rejection :: "(string option \<times> approval_decider) option"
  h_stopped :: bool
  h_claim_cancelled :: bool
  h_gives_back_on_its_own :: bool

type_synonym hold_id = nat
type_synonym hold_heap = "hold_id \<Rightarrow> execution_hold"
type_synonym hold_context = "(string \<times> hold_id) list"

definition new_hold :: "string \<Rightarrow> approval_origin \<Rightarrow> execution_hold" where
  "new_hold approval_id origin =
     \<lparr>h_approval_id = approval_id, h_origin = origin, h_may_give_back = False, h_active = True,
      h_effect = False, h_refusal = None, h_rejection = None, h_stopped = False,
      h_claim_cancelled = False, h_gives_back_on_its_own = False\<rparr>"

definition active_hold :: "hold_heap \<Rightarrow> hold_context \<Rightarrow> string \<Rightarrow> hold_id option" where
  "active_hold heap ctx approval_id =
     (case map_of ctx approval_id of
        None \<Rightarrow> None
      | Some h \<Rightarrow> if h_active (heap h) then Some h else None)"

section \<open>The effect\<close>

text \<open>
  \<open>effect_started\<close>: the first loop, over the context's holds in order, raises at the first hold that
  is released, rejected (marking it stopped) or used up; only then does the second loop mark them all.
\<close>

fun effect_check :: "hold_id list \<Rightarrow> hold_heap \<Rightarrow> hold_heap \<times> approval_error option" where
  "effect_check [] heap = (heap, None)"
| "effect_check (h # hs) heap =
     (if \<not> h_active (heap h) then
        (heap, Some (ApprovalRefusal (h_approval_id (heap h)) ApprovalReleased))
      else if h_rejection (heap h) \<noteq> None then
        (heap(h := (heap h)\<lparr>h_stopped := True\<rparr>),
         Some (ApprovalRefusal (h_approval_id (heap h)) ApprovalRejected))
      else if h_effect (heap h) \<and> h_origin (heap h) = ActionOrigin then
        (heap, Some (ApprovalRefusal (h_approval_id (heap h)) ApprovalAlreadyUsed))
      else effect_check hs heap)"

fun mark_effects :: "hold_id list \<Rightarrow> hold_heap \<Rightarrow> hold_heap" where
  "mark_effects [] heap = heap"
| "mark_effects (h # hs) heap = mark_effects hs (heap(h := (heap h)\<lparr>h_effect := True\<rparr>))"

definition effect_started :: "hold_context \<Rightarrow> hold_heap \<Rightarrow> hold_heap \<times> approval_error option" where
  "effect_started ctx heap =
     (case effect_check (map snd ctx) heap of
        (heap', Some e) \<Rightarrow> (heap', Some e)
      | (heap', None) \<Rightarrow> (mark_effects (map snd ctx) heap', None))"

fun refused_before_effect_in :: "exn \<Rightarrow> hold_id list \<Rightarrow> hold_heap \<Rightarrow> hold_heap" where
  "refused_before_effect_in e [] heap = heap"
| "refused_before_effect_in e (h # hs) heap =
     refused_before_effect_in e hs
       (if h_active (heap h) \<and> \<not> h_effect (heap h)
        then heap(h := (heap h)\<lparr>h_refusal := Some e\<rparr>) else heap)"

definition refused_before_effect :: "exn \<Rightarrow> hold_context \<Rightarrow> hold_heap \<Rightarrow> hold_heap" where
  "refused_before_effect e ctx heap = refused_before_effect_in e (map snd ctx) heap"

definition held_status :: "hold_heap \<Rightarrow> hold_context \<Rightarrow> string \<Rightarrow> approval_status option" where
  "held_status heap ctx approval_id =
     (case active_hold heap ctx approval_id of
        None \<Rightarrow> None
      | Some h \<Rightarrow>
          if h_effect (heap h) then Some Executed
          else if h_rejection (heap h) \<noteq> None then Some Rejected else Some Approved)"

fun held_action_approval :: "hold_heap \<Rightarrow> hold_context \<Rightarrow> string option" where
  "held_action_approval heap [] = None"
| "held_action_approval heap ((approval_id, h) # rest) =
     (if h_active (heap h) \<and> h_origin (heap h) = ActionOrigin then Some approval_id
      else held_action_approval heap rest)"

section \<open>Refusals of an approval that is executed\<close>

definition spent_refusal :: "approval_record \<Rightarrow> approval_error" where
  "spent_refusal r = SpentRefusal (ar_id r)"

definition executed_refusal :: "approval_record \<Rightarrow> execution_hold option \<Rightarrow> approval_error" where
  "executed_refusal r claim =
     (case claim of
        Some c \<Rightarrow> if h_may_give_back c \<and> \<not> h_effect c then ClaimedNotBegun (ar_id r) else spent_refusal r
      | None \<Rightarrow> spent_refusal r)"

definition claim_conflict ::
  "approval_record \<Rightarrow> execution_hold option \<Rightarrow> approval_decider \<Rightarrow> approval_status \<Rightarrow> approval_error" where
  "claim_conflict r claim decided_via status =
     ClaimedApproval (ar_id r)
       (case claim of
          None \<Rightarrow> AlreadySpent
        | Some c \<Rightarrow>
            if \<not> h_may_give_back c then RunningToolCall
            else if h_effect c then ActionBegun
            else if decided_via = Agent then
              (if status = Approved then AgentApprovesClaimed else AgentRejectsClaimed)
            else ApprovedForThatAction)"

section \<open>Giving back\<close>

definition gives_back_on_its_own :: "execution_hold \<Rightarrow> ending \<Rightarrow> bool" where
  "gives_back_on_its_own hold ended =
     (if \<not> h_may_give_back hold \<or> h_effect hold then False
      else case ended of
             CancelledEnding \<Rightarrow> True
           | Raised e \<Rightarrow> (case h_refusal hold of None \<Rightarrow> False | Some r \<Rightarrow> exn_id e = exn_id r)
           | Returned \<Rightarrow> False)"

definition gives_back :: "execution_hold \<Rightarrow> ending \<Rightarrow> bool" where
  "gives_back hold ended =
     (if \<not> h_may_give_back hold \<or> h_effect hold then False
      else h_rejection hold \<noteq> None \<or> gives_back_on_its_own hold ended)"

definition given_back_notes :: "exn \<Rightarrow> (given_back_note \<times> given_back_note list) option" where
  "given_back_notes e = (if exn_notes e = [] then None else Some (last (exn_notes e), exn_notes e))"

definition report_given_back :: "exn \<Rightarrow> approval_record \<Rightarrow> bool \<Rightarrow> exn" where
  "report_given_back refusal r expired =
     (let (status, message) =
        (if ar_status r = Rejected then (''rejected'', RejectedWhileWaiting)
         else if expired then (''expired'', ExpiredWhileWaiting)
         else if exn_kind refusal = SessionNotFoundError then (''approved'', SessionHasClosed)
         else (''approved'', StillApproved));
        note = \<lparr>note_approval_id = ar_id r, note_status = status, note_message = message\<rparr>;
        refusal' = refusal\<lparr>exn_notes := exn_notes refusal @ [note]\<rparr>
      in if exn_kind refusal = BrowserActionError \<or> exn_kind refusal = ApprovalRequiredError
         then refusal'\<lparr>exn_answer := given_back_notes refusal'\<rparr> else refusal')"

section \<open>Running an awaitable through its caller's cancellation\<close>

text \<open>
  \<open>_run_through\<close> sees a sequence of events at its \<open>await asyncio.shield(task)\<close>: the caller's
  cancellation, or the end of the task it waits for. \<open>None\<close>: the task has not ended yet.
\<close>

datatype 'a task_event = CallerCancelled | TaskDone 'a | TaskFailed approval_error | TaskCancelled

fun run_through :: "bool \<Rightarrow> 'a task_event list \<Rightarrow> (approval_error + 'a \<times> bool) option" where
  "run_through cancelled [] = None"
| "run_through cancelled (CallerCancelled # es) = run_through True es"
| "run_through cancelled (TaskDone v # es) = Some (Inr (v, cancelled))"
| "run_through cancelled (TaskFailed e # es) = Some (Inl (if cancelled then CancelledErr else e))"
| "run_through cancelled (TaskCancelled # es) = Some (Inl CancelledErr)"


section \<open>Lemmas\<close>

lemma new_hold_simps [simp]:
  "h_approval_id (new_hold i origin) = i" "h_origin (new_hold i origin) = origin"
  "h_active (new_hold i origin)" "\<not> h_effect (new_hold i origin)"
  "h_rejection (new_hold i origin) = None" "\<not> h_may_give_back (new_hold i origin)"
  "h_refusal (new_hold i origin) = None" "\<not> h_stopped (new_hold i origin)"
  by (simp_all add: new_hold_def)

text \<open>A hold that lets the action begin.\<close>

definition hold_ready :: "execution_hold \<Rightarrow> bool" where
  "hold_ready h \<longleftrightarrow> h_active h \<and> h_rejection h = None \<and> \<not> (h_effect h \<and> h_origin h = ActionOrigin)"

lemma effect_check_None_iff:
  "snd (effect_check hs heap) = None \<longleftrightarrow> (\<forall>h \<in> set hs. hold_ready (heap h))"
  by (induction hs) (auto simp: hold_ready_def simp del: not_None_eq)

lemma effect_check_ready: "\<forall>h \<in> set hs. hold_ready (heap h) \<Longrightarrow> effect_check hs heap = (heap, None)"
  by (induction hs) (auto simp: hold_ready_def)

text \<open>The check writes nothing but \<open>h_stopped\<close>.\<close>

lemma effect_check_frame:
  "\<exists>b. fst (effect_check hs heap) k = (heap k)\<lparr>h_stopped := b\<rparr>"
proof (induction hs)
  case Nil
  have "heap k = (heap k)\<lparr>h_stopped := h_stopped (heap k)\<rparr>" by simp
  then show ?case by (metis effect_check.simps(1) fst_conv)
next
  case (Cons h hs)
  have "\<exists>b. heap k = (heap k)\<lparr>h_stopped := b\<rparr>" by (rule exI [of _ "h_stopped (heap k)"]) simp
  with Cons show ?case by auto
qed

lemma effect_check_fields [simp]:
  "h_active (fst (effect_check hs heap) k) = h_active (heap k)"
  "h_effect (fst (effect_check hs heap) k) = h_effect (heap k)"
  "h_rejection (fst (effect_check hs heap) k) = h_rejection (heap k)"
  "h_approval_id (fst (effect_check hs heap) k) = h_approval_id (heap k)"
  "h_origin (fst (effect_check hs heap) k) = h_origin (heap k)"
  "h_may_give_back (fst (effect_check hs heap) k) = h_may_give_back (heap k)"
  "h_gives_back_on_its_own (fst (effect_check hs heap) k) = h_gives_back_on_its_own (heap k)"
  using effect_check_frame [of hs heap k] by auto

lemma mark_effects_apply:
  "mark_effects hs heap k = (if k \<in> set hs then (heap k)\<lparr>h_effect := True\<rparr> else heap k)"
  by (induction hs arbitrary: heap) auto

lemma effect_started_eq:
  "effect_started ctx heap =
     (if snd (effect_check (map snd ctx) heap) = None
      then (mark_effects (map snd ctx) (fst (effect_check (map snd ctx) heap)), None)
      else effect_check (map snd ctx) heap)"
  by (auto simp: effect_started_def split: prod.splits option.splits)

lemma effect_started_fields [simp]:
  "h_active (fst (effect_started ctx heap) k) = h_active (heap k)"
  "h_rejection (fst (effect_started ctx heap) k) = h_rejection (heap k)"
  "h_approval_id (fst (effect_started ctx heap) k) = h_approval_id (heap k)"
  "h_origin (fst (effect_started ctx heap) k) = h_origin (heap k)"
  "h_may_give_back (fst (effect_started ctx heap) k) = h_may_give_back (heap k)"
  "h_gives_back_on_its_own (fst (effect_started ctx heap) k) = h_gives_back_on_its_own (heap k)"
  by (simp_all add: effect_started_eq mark_effects_apply)

lemma effect_started_effect:
  "h_effect (fst (effect_started ctx heap) k) \<longleftrightarrow>
     h_effect (heap k) \<or> (snd (effect_started ctx heap) = None \<and> k \<in> set (map snd ctx))"
  by (auto simp: effect_started_eq mark_effects_apply simp del: not_None_eq)

lemma effect_started_None_iff:
  "snd (effect_started ctx heap) = None \<longleftrightarrow> (\<forall>h \<in> set (map snd ctx). hold_ready (heap h))"
proof -
  have "snd (effect_started ctx heap) = snd (effect_check (map snd ctx) heap)"
    by (simp add: effect_started_eq)
  then show ?thesis using effect_check_None_iff by simp
qed

lemma refused_before_effect_in_apply:
  "distinct hs \<Longrightarrow> refused_before_effect_in e hs heap k =
     (if k \<in> set hs \<and> h_active (heap k) \<and> \<not> h_effect (heap k)
      then (heap k)\<lparr>h_refusal := Some e\<rparr> else heap k)"
  by (induction hs arbitrary: heap) auto

lemma refused_before_effect_in_fields [simp]:
  "h_active (refused_before_effect_in e hs heap k) = h_active (heap k)"
  "h_effect (refused_before_effect_in e hs heap k) = h_effect (heap k)"
  "h_rejection (refused_before_effect_in e hs heap k) = h_rejection (heap k)"
  "h_approval_id (refused_before_effect_in e hs heap k) = h_approval_id (heap k)"
  "h_origin (refused_before_effect_in e hs heap k) = h_origin (heap k)"
  "h_may_give_back (refused_before_effect_in e hs heap k) = h_may_give_back (heap k)"
  "h_gives_back_on_its_own (refused_before_effect_in e hs heap k) = h_gives_back_on_its_own (heap k)"
  by (induction hs arbitrary: heap) auto

lemma refused_before_effect_fields [simp]:
  "h_active (refused_before_effect e ctx heap k) = h_active (heap k)"
  "h_effect (refused_before_effect e ctx heap k) = h_effect (heap k)"
  "h_rejection (refused_before_effect e ctx heap k) = h_rejection (heap k)"
  "h_approval_id (refused_before_effect e ctx heap k) = h_approval_id (heap k)"
  "h_origin (refused_before_effect e ctx heap k) = h_origin (heap k)"
  "h_may_give_back (refused_before_effect e ctx heap k) = h_may_give_back (heap k)"
  "h_gives_back_on_its_own (refused_before_effect e ctx heap k) = h_gives_back_on_its_own (heap k)"
  by (simp_all add: refused_before_effect_def)

lemma gives_back_no_effect: "gives_back hold ended \<Longrightarrow> h_may_give_back hold \<and> \<not> h_effect hold"
  by (simp add: gives_back_def split: if_splits)

lemma own_imp_gives_back: "gives_back_on_its_own hold ended \<Longrightarrow> gives_back hold ended"
  by (simp add: gives_back_def gives_back_on_its_own_def split: if_splits)

lemma report_given_back_appends:
  "\<exists>n. exn_notes (report_given_back e r x) = exn_notes e @ [n] \<and> note_approval_id n = ar_id r"
  by (auto simp: report_given_back_def Let_def)

lemma report_given_back_id [simp]: "exn_id (report_given_back e r x) = exn_id e"
  by (simp add: report_given_back_def Let_def split: prod.split)

text \<open>
  an action may begin exactly when every hold its task carries is live, is not rejected by an
  operator and, for an action approval, has not been used; the check is all or nothing, so a refused
  start leaves every hold's effect flag as it was.
\<close>

lemma effect_started_spec:
  "(snd (effect_started ctx heap) = None \<longleftrightarrow> list_all (\<lambda>h. hold_ready (heap h)) (map snd ctx)) \<and>
   (h_effect (fst (effect_started ctx heap) k) \<longleftrightarrow>
      h_effect (heap k) \<or> (snd (effect_started ctx heap) = None \<and> k \<in> set (map snd ctx)))"
  using effect_started_None_iff [of ctx heap] effect_started_effect [of ctx heap k]
  by (simp add: list_all_iff)

lemma run_through_skip:
  "run_through c (replicate n CallerCancelled @ es) = run_through (c \<or> n > 0) es"
  by (induction n arbitrary: c) auto

lemma run_through_split:
  "\<exists>n e rest. es = replicate n CallerCancelled @ rest \<and> (rest = [] \<or> hd rest \<noteq> CallerCancelled)"
proof (induction es)
  case Nil
  show ?case by (rule exI [of _ 0]) simp
next
  case (Cons a es)
  show ?case
  proof (cases "a = CallerCancelled")
    case True
    from Cons obtain n rest where "es = replicate n CallerCancelled @ rest"
      "rest = [] \<or> hd rest \<noteq> CallerCancelled" by blast
    with True show ?thesis by (intro exI [of _ "Suc n"] exI [of _ rest]) simp
  next
    case False
    then show ?thesis by (intro exI [of _ 0] exI [of _ "a # es"]) simp
  qed
qed


end
