(* ===== verification/ApprovalBackends.thy ===== *)
theory ApprovalBackends
  imports ApprovalHolds
begin

text \<open>
  Where approval records are kept (approval_backends.py): one JSON file each, with the arguments of a
  tool call beside it, or a row each of a SQLite table. A stored payload either validates as a record
  or does not (\<open>Unreadable\<close>, an earlier version's). The contract both keep towards the store is the
  locale \<open>record_backend\<close>; each is an instance.
\<close>

datatype stored = Readable approval_record | Unreadable

fun valid_record :: "stored \<Rightarrow> approval_record option" where
  "valid_record (Readable r) = Some r"
| "valid_record Unreadable = None"

type_synonym listing_key = "(int \<times> int) \<times> string"

definition listing_key :: "approval_record \<Rightarrow> listing_key" where
  "listing_key r = (stamp_text_key (ar_created_at r), ar_id r)"

definition wanted :: "approval_status option \<Rightarrow> string option \<Rightarrow> approval_record \<Rightarrow> bool" where
  "wanted status session_id r \<longleftrightarrow>
     (status = None \<or> status = Some (ar_status r)) \<and> (session_id = None \<or> session_id = Some (ar_session_id r))"

section \<open>The file store\<close>

text \<open>
  The directory: record files by the stem of their names, and argument files by their whole names.
\<close>

record file_store =
  fs_records :: "(string \<times> stored) list"
  fs_arguments :: "(string \<times> string) list"

definition file_list :: "file_store \<Rightarrow> approval_status option \<Rightarrow> string option \<Rightarrow> approval_record list" where
  "file_list fs status session_id =
     sort_desc listing_key
       (filter (wanted status session_id)
         (List.map_filter (\<lambda>(name, s). valid_record s) (sort_desc fst (fs_records fs))))"

definition file_get :: "file_store \<Rightarrow> string \<Rightarrow> approval_error + approval_record" where
  "file_get fs approval_id =
     (case record_path approval_id ''.json'' of
        None \<Rightarrow> Inl (KeyErr approval_id)
      | Some _ \<Rightarrow>
         (case map_of (fs_records fs) approval_id of
            None \<Rightarrow> Inl (KeyErr approval_id)
          | Some s \<Rightarrow>
             (case valid_record s of
                None \<Rightarrow> Inl (UnreadableErr approval_id)
              | Some r \<Rightarrow> Inr r)))"

text \<open>
  A write either replaces the whole file (\<open>atomic_write_text\<close>) or raises and leaves it: \<open>ok\<close> says
  which, for this call.
\<close>

definition file_upsert :: "bool \<Rightarrow> approval_record \<Rightarrow> file_store \<Rightarrow> approval_error + file_store" where
  "file_upsert ok r fs =
     (case record_path (ar_id r) ''.json'' of
        None \<Rightarrow> Inl (KeyErr (ar_id r))
      | Some _ \<Rightarrow>
          if ok then Inr (fs\<lparr>fs_records := AList.update (ar_id r) (Readable r) (fs_records fs)\<rparr>)
          else Inl StoreFailure)"

definition file_remove :: "bool \<Rightarrow> string \<Rightarrow> file_store \<Rightarrow> approval_error + file_store" where
  "file_remove ok approval_id fs =
     (case record_path approval_id ''.json'' of
        None \<Rightarrow> Inl (KeyErr approval_id)
      | Some _ \<Rightarrow>
          if ok then Inr (fs\<lparr>fs_records := AList.delete approval_id (fs_records fs)\<rparr>)
          else Inl StoreFailure)"

definition arguments_path :: "string \<Rightarrow> string option" where
  "arguments_path approval_id = record_path approval_id ''.arguments''"

definition write_arguments :: "bool \<Rightarrow> string \<Rightarrow> string \<Rightarrow> file_store \<Rightarrow> approval_error + file_store" where
  "write_arguments ok approval_id arguments fs =
     (case arguments_path approval_id of
        None \<Rightarrow> Inl (KeyErr approval_id)
      | Some p \<Rightarrow>
          if ok then Inr (fs\<lparr>fs_arguments := AList.update p arguments (fs_arguments fs)\<rparr>)
          else Inl StoreFailure)"

definition read_arguments :: "file_store \<Rightarrow> string \<Rightarrow> approval_error + string" where
  "read_arguments fs approval_id =
     (case arguments_path approval_id of
        None \<Rightarrow> Inl (KeyErr approval_id)
      | Some p \<Rightarrow>
         (case map_of (fs_arguments fs) p of
            None \<Rightarrow> Inl (KeyErr approval_id)
          | Some t \<Rightarrow> Inr t))"

definition delete_arguments :: "bool \<Rightarrow> string \<Rightarrow> file_store \<Rightarrow> approval_error + file_store" where
  "delete_arguments ok approval_id fs =
     (case arguments_path approval_id of
        None \<Rightarrow> Inl (KeyErr approval_id)
      | Some p \<Rightarrow>
          if ok then Inr (fs\<lparr>fs_arguments := AList.delete p (fs_arguments fs)\<rparr>) else Inl StoreFailure)"

definition has_arguments :: "file_store \<Rightarrow> string \<Rightarrow> approval_error + bool" where
  "has_arguments fs approval_id =
     (case arguments_path approval_id of
        None \<Rightarrow> Inl (KeyErr approval_id)
      | Some p \<Rightarrow> Inr (map_of (fs_arguments fs) p \<noteq> None))"

text \<open>
  \<open>_arguments_ids_sync\<close>: of the names \<^verbatim>\<open>*.arguments\<close>, the stems that this store would have written
  under that name.
\<close>

definition arguments_stem :: "string \<Rightarrow> string option" where
  "arguments_stem name =
     (let stem = take (length name - length ''.arguments'') name in
      if arguments_path stem = Some name then Some stem else None)"

definition arguments_ids :: "file_store \<Rightarrow> string list" where
  "arguments_ids fs = sort (List.map_filter arguments_stem (map fst (fs_arguments fs)))"

section \<open>The SQLite store\<close>

record sqlite_row =
  row_session_id :: string
  row_kind :: approval_kind
  row_status :: approval_status
  row_created_at :: stamp
  row_updated_at :: stamp
  row_payload :: stored

type_synonym sqlite_store = "(string \<times> sqlite_row) list"

definition row_of :: "approval_record \<Rightarrow> sqlite_row" where
  "row_of r = \<lparr>row_session_id = ar_session_id r, row_kind = ar_kind r, row_status = ar_status r,
     row_created_at = ar_created_at r, row_updated_at = ar_updated_at r, row_payload = Readable r\<rparr>"

text \<open>The \<open>WHERE\<close> clause reads the columns; validation comes after the \<open>ORDER BY\<close>.\<close>

definition row_wanted :: "approval_status option \<Rightarrow> string option \<Rightarrow> string \<times> sqlite_row \<Rightarrow> bool" where
  "row_wanted status session_id p \<longleftrightarrow>
     (status = None \<or> status = Some (row_status (snd p))) \<and>
     (session_id = None \<or> session_id = Some (row_session_id (snd p)))"

definition sqlite_list :: "sqlite_store \<Rightarrow> approval_status option \<Rightarrow> string option \<Rightarrow> approval_record list" where
  "sqlite_list db status session_id =
     List.map_filter (\<lambda>(i, row). valid_record (row_payload row))
       (sort_desc (\<lambda>(i, row). (stamp_text_key (row_created_at row), i))
         (filter (row_wanted status session_id) db))"

definition sqlite_get :: "sqlite_store \<Rightarrow> string \<Rightarrow> approval_error + approval_record" where
  "sqlite_get db approval_id =
     (case map_of db approval_id of
        None \<Rightarrow> Inl (KeyErr approval_id)
      | Some row \<Rightarrow>
         (case valid_record (row_payload row) of
            None \<Rightarrow> Inl (UnreadableErr approval_id)
          | Some r \<Rightarrow> Inr r))"

text \<open>\<open>INSERT OR REPLACE\<close> on the primary key, in one transaction.\<close>

definition sqlite_upsert :: "bool \<Rightarrow> approval_record \<Rightarrow> sqlite_store \<Rightarrow> approval_error + sqlite_store" where
  "sqlite_upsert ok r db =
     (if ok then Inr (AList.update (ar_id r) (row_of r) db) else Inl StoreFailure)"

section \<open>The contract of a backend\<close>

text \<open>
  \<open>held b i\<close> is what the backend keeps for id \<open>i\<close>; \<open>usable i\<close> says \<open>i\<close> can name a record in it.
\<close>

locale record_backend =
  fixes held :: "'b \<Rightarrow> string \<Rightarrow> stored option"
    and wf :: "'b \<Rightarrow> bool"
    and usable :: "string \<Rightarrow> bool"
    and get :: "'b \<Rightarrow> string \<Rightarrow> approval_error + approval_record"
    and upsert :: "bool \<Rightarrow> approval_record \<Rightarrow> 'b \<Rightarrow> approval_error + 'b"
    and listing :: "'b \<Rightarrow> approval_status option \<Rightarrow> string option \<Rightarrow> approval_record list"
  assumes get_held: "usable i \<Longrightarrow> get b i =
      (case held b i of None \<Rightarrow> Inl (KeyErr i) | Some Unreadable \<Rightarrow> Inl (UnreadableErr i) | Some (Readable r) \<Rightarrow> Inr r)"
    and get_unusable: "\<not> usable i \<Longrightarrow> get b i = Inl (KeyErr i)"
    and upsert_held: "upsert ok r b = Inr b' \<Longrightarrow> usable (ar_id r) \<and> held b' = (held b)(ar_id r \<mapsto> Readable r)"
    and upsert_ok: "usable (ar_id r) \<Longrightarrow> \<exists>b'. upsert True r b = Inr b'"
    and wf_upsert: "wf b \<Longrightarrow> upsert ok r b = Inr b' \<Longrightarrow> wf b'"
    and set_listing: "wf b \<Longrightarrow>
      set (listing b status session_id) = {r. held b (ar_id r) = Some (Readable r) \<and> wanted status session_id r}"
    and wf_held: "wf b \<Longrightarrow> held b i = Some (Readable r) \<Longrightarrow> ar_id r = i \<and> usable i"
begin

lemma get_upsert_same: "upsert ok r b = Inr b' \<Longrightarrow> get b' (ar_id r) = Inr r"
  by (auto dest!: upsert_held simp: get_held)

lemma get_upsert_other: "upsert ok r b = Inr b' \<Longrightarrow> i \<noteq> ar_id r \<Longrightarrow> get b' i = get b i"
  by (cases "usable i") (auto dest!: upsert_held simp: get_held get_unusable)

lemma get_upsert: "upsert ok r b = Inr b' \<Longrightarrow> get b' = (get b)(ar_id r := Inr r)"
  by (rule ext) (simp add: get_upsert_same get_upsert_other)

lemma get_Inr_held: "get b i = Inr r \<longleftrightarrow> usable i \<and> held b i = Some (Readable r)"
  by (cases "usable i") (auto simp: get_held get_unusable split: option.splits stored.splits)

lemma get_Inr_id: "wf b \<Longrightarrow> get b i = Inr r \<Longrightarrow> ar_id r = i"
  by (auto simp: get_Inr_held dest: wf_held)

lemma get_error_key: "get b i = Inl e \<Longrightarrow> is_key_error e"
  by (cases "usable i") (auto simp: get_held get_unusable split: option.splits stored.splits)

lemma listing_iff_get:
  "wf b \<Longrightarrow> r \<in> set (listing b status session_id) \<longleftrightarrow> get b (ar_id r) = Inr r \<and> wanted status session_id r"
  by (auto simp: set_listing get_Inr_held dest: wf_held)

lemma listing_after_upsert:
  "wf b \<Longrightarrow> upsert ok r b = Inr b' \<Longrightarrow>
   set (listing b' status session_id) =
     {x \<in> set (listing b status session_id). ar_id x \<noteq> ar_id r} \<union> (if wanted status session_id r then {r} else {})"
  using wf_upsert [of b ok r b'] upsert_held [of ok r b b']
  by (auto simp: set_listing split: if_splits)

end


section \<open>Both stores keep the contract\<close>

definition file_held :: "file_store \<Rightarrow> string \<Rightarrow> stored option" where
  "file_held fs i = map_of (fs_records fs) i"

definition file_usable :: "string \<Rightarrow> bool" where
  "file_usable i \<longleftrightarrow> record_path i ''.json'' \<noteq> None"

definition file_wf :: "file_store \<Rightarrow> bool" where
  "file_wf fs \<longleftrightarrow> distinct (map fst (fs_records fs)) \<and>
     (\<forall>k r. map_of (fs_records fs) k = Some (Readable r) \<longrightarrow> ar_id r = k \<and> file_usable k)"

definition sqlite_held :: "sqlite_store \<Rightarrow> string \<Rightarrow> stored option" where
  "sqlite_held db i = map_option row_payload (map_of db i)"

definition sqlite_wf :: "sqlite_store \<Rightarrow> bool" where
  "sqlite_wf db \<longleftrightarrow> distinct (map fst db) \<and>
     (\<forall>k row r. map_of db k = Some row \<longrightarrow> row_payload row = Readable r \<longrightarrow> ar_id r = k \<and> row = row_of r)"

lemma valid_record_Some [simp]: "valid_record s = Some r \<longleftrightarrow> s = Readable r"
  by (cases s) auto

lemma row_payload_row_of [simp]: "row_payload (row_of r) = Readable r"
  by (simp add: row_of_def)

lemma file_list_set:
  assumes "file_wf fs"
  shows "set (file_list fs status session_id) =
    {r. file_held fs (ar_id r) = Some (Readable r) \<and> wanted status session_id r}"
proof -
  have "(\<exists>k. (k, Readable r) \<in> set (fs_records fs)) \<longleftrightarrow> map_of (fs_records fs) (ar_id r) = Some (Readable r)" for r
    using assms by (auto simp: file_wf_def)
  moreover have "r \<in> set (file_list fs status session_id) \<longleftrightarrow>
      (\<exists>k. (k, Readable r) \<in> set (fs_records fs)) \<and> wanted status session_id r" for r
    by (auto simp: file_list_def set_map_filter_iff Bex_def)
  ultimately show ?thesis by (auto simp: file_held_def)
qed

lemma row_wanted_row_of: "row_wanted status session_id (k, row_of r) \<longleftrightarrow> wanted status session_id r"
  by (simp add: row_wanted_def wanted_def row_of_def)

lemma sqlite_list_set:
  assumes wf: "sqlite_wf db"
  shows "set (sqlite_list db status session_id) =
    {r. sqlite_held db (ar_id r) = Some (Readable r) \<and> wanted status session_id r}"
proof -
  have d: "distinct (map fst db)" using wf by (simp add: sqlite_wf_def)
  have row: "(k, row) \<in> set db \<and> row_payload row = Readable r \<longleftrightarrow>
      k = ar_id r \<and> row = row_of r \<and> map_of db k = Some row" for k row r
  proof
    assume *: "(k, row) \<in> set db \<and> row_payload row = Readable r"
    then have "map_of db k = Some row" using d by simp
    with * wf show "k = ar_id r \<and> row = row_of r \<and> map_of db k = Some row"
      unfolding sqlite_wf_def by metis
  next
    assume "k = ar_id r \<and> row = row_of r \<and> map_of db k = Some row"
    then show "(k, row) \<in> set db \<and> row_payload row = Readable r" by (auto dest: map_of_SomeD)
  qed
  have "r \<in> set (sqlite_list db status session_id) \<longleftrightarrow>
      (\<exists>k row. ((k, row) \<in> set db \<and> row_payload row = Readable r) \<and> row_wanted status session_id (k, row))" for r
    by (auto simp: sqlite_list_def set_map_filter_iff Bex_def)
  then have "r \<in> set (sqlite_list db status session_id) \<longleftrightarrow>
      map_of db (ar_id r) = Some (row_of r) \<and> wanted status session_id r" for r
    unfolding row by (auto simp: row_wanted_row_of)
  moreover have "sqlite_held db (ar_id r) = Some (Readable r) \<longleftrightarrow> map_of db (ar_id r) = Some (row_of r)" for r
    using row [of "ar_id r" _ r] d by (auto simp: sqlite_held_def)
  ultimately show ?thesis by auto
qed

interpretation file_backend: record_backend file_held file_wf file_usable file_get file_upsert file_list
proof unfold_locales
  show "file_usable i \<Longrightarrow> file_get b i = (case file_held b i of None \<Rightarrow> Inl (KeyErr i)
      | Some Unreadable \<Rightarrow> Inl (UnreadableErr i) | Some (Readable r) \<Rightarrow> Inr r)" for i b
    by (auto simp: file_usable_def file_get_def file_held_def split: option.splits stored.splits)
  show "\<not> file_usable i \<Longrightarrow> file_get b i = Inl (KeyErr i)" for i b
    by (simp add: file_usable_def file_get_def)
  show "file_upsert ok r b = Inr b' \<Longrightarrow> file_usable (ar_id r) \<and> file_held b' = (file_held b)(ar_id r \<mapsto> Readable r)"
    for ok r b b'
    by (auto simp: file_usable_def file_upsert_def file_held_def fun_eq_iff alist_lookup
        split: option.splits if_splits)
  show "file_usable (ar_id r) \<Longrightarrow> \<exists>b'. file_upsert True r b = Inr b'" for r b
    by (auto simp: file_usable_def file_upsert_def)
  show "file_wf b \<Longrightarrow> file_upsert ok r b = Inr b' \<Longrightarrow> file_wf b'" for b ok r b'
    by (auto simp: file_wf_def file_usable_def file_upsert_def alist_lookup alist_distinct
        split: option.splits if_splits)
  show "file_wf b \<Longrightarrow> set (file_list b status session_id) =
      {r. file_held b (ar_id r) = Some (Readable r) \<and> wanted status session_id r}" for b status session_id
    by (rule file_list_set)
  show "file_wf b \<Longrightarrow> file_held b i = Some (Readable r) \<Longrightarrow> ar_id r = i \<and> file_usable i" for b i r
    by (simp add: file_wf_def file_held_def)
qed

interpretation sqlite_backend: record_backend sqlite_held sqlite_wf "\<lambda>_. True" sqlite_get sqlite_upsert sqlite_list
proof unfold_locales
  show "sqlite_get b i = (case sqlite_held b i of None \<Rightarrow> Inl (KeyErr i)
      | Some Unreadable \<Rightarrow> Inl (UnreadableErr i) | Some (Readable r) \<Rightarrow> Inr r)" for i b
    by (auto simp: sqlite_get_def sqlite_held_def split: option.splits stored.splits)
  show "\<not> True \<Longrightarrow> sqlite_get b i = Inl (KeyErr i)" for i b by simp
  show "sqlite_upsert ok r b = Inr b' \<Longrightarrow> True \<and> sqlite_held b' = (sqlite_held b)(ar_id r \<mapsto> Readable r)"
    for ok r b b'
    by (auto simp: sqlite_upsert_def sqlite_held_def fun_eq_iff alist_lookup split: if_splits)
  show "\<exists>b'. sqlite_upsert True r b = Inr b'" for r b
    by (simp add: sqlite_upsert_def)
  show "sqlite_wf b \<Longrightarrow> sqlite_upsert ok r b = Inr b' \<Longrightarrow> sqlite_wf b'" for b ok r b'
    by (auto simp: sqlite_wf_def sqlite_upsert_def alist_lookup alist_distinct split: if_splits)
  show "sqlite_wf b \<Longrightarrow> set (sqlite_list b status session_id) =
      {r. sqlite_held b (ar_id r) = Some (Readable r) \<and> wanted status session_id r}" for b status session_id
    by (rule sqlite_list_set)
  show "sqlite_wf b \<Longrightarrow> sqlite_held b i = Some (Readable r) \<Longrightarrow> ar_id r = i \<and> True" for b i r
    by (auto simp: sqlite_wf_def sqlite_held_def)
qed

lemma file_list_newest_first: "sorted_wrt (\<lambda>x y. listing_key x \<ge> listing_key y) (file_list fs status session_id)"
  by (simp add: file_list_def sort_desc_sorted)

lemma file_held_remove:
  "file_remove ok i fs = Inr fs' \<Longrightarrow> file_held fs' = (file_held fs)(i := None) \<and> fs_arguments fs' = fs_arguments fs"
  by (auto simp: file_remove_def file_held_def fun_eq_iff alist_lookup split: option.splits if_splits)

lemma file_wf_remove: "file_wf fs \<Longrightarrow> file_remove ok i fs = Inr fs' \<Longrightarrow> file_wf fs'"
  by (auto simp: file_remove_def file_wf_def alist_lookup alist_distinct split: option.splits if_splits)

lemma arguments_path_inj: "arguments_path a = Some p \<Longrightarrow> arguments_path b = Some p \<Longrightarrow> a = b"
  unfolding arguments_path_def by (rule record_path_inj)

lemma read_after_write_arguments:
  "write_arguments ok i t fs = Inr fs' \<Longrightarrow> read_arguments fs' i = Inr t \<and> has_arguments fs' i = Inr True"
  by (auto simp: write_arguments_def read_arguments_def has_arguments_def alist_lookup
      split: option.splits if_splits)

lemma read_after_delete_arguments:
  "delete_arguments ok i fs = Inr fs' \<Longrightarrow> read_arguments fs' i = Inl (KeyErr i)"
  by (auto simp: delete_arguments_def read_arguments_def alist_lookup split: option.splits if_splits)

text \<open>
  the two stores list the same records for the same filters whenever they hold the same ones: a
  SQLite row's columns are those of its record, so filtering on the columns and filtering the parsed
  records agree.
\<close>

lemma listings_agree:
  assumes "file_wf fs" and "sqlite_wf db" and "\<And>i. file_held fs i = sqlite_held db i"
  shows "set (file_list fs status session_id) = set (sqlite_list db status session_id)"
  using assms by (simp add: file_backend.set_listing sqlite_backend.set_listing)

end
