(* ===== verification/ApprovalStore.thy ===== *)
theory ApprovalStore
  imports ApprovalBackends
begin

text \<open>
  The approval store of one process (approvals.py): the two backends, the texts and claims it keeps in
  memory, and every operation under its lock. Each operation is a function of the store and of what
  its environment answers: the clocks, the current operator, a fresh id, and which of the call's
  reads and writes fail (\<open>approval_io\<close>). It returns the store it leaves, on the error paths too.
\<close>

record approval_io =
  io_read_ok :: "string \<Rightarrow> bool"      \<comment> \<open>the primary store's read of an id\<close>
  io_before_ok :: bool                \<comment> \<open>\<open>_write\<close>'s read of what SQLite holds\<close>
  io_file_ok :: bool                  \<comment> \<open>the record's file write\<close>
  io_sqlite_ok :: bool                \<comment> \<open>the record's SQLite write\<close>
  io_put_back_ok :: bool              \<comment> \<open>putting the file record back\<close>
  io_arguments_ok :: "string \<Rightarrow> bool" \<comment> \<open>writing or removing an id's arguments\<close>
  io_audit_ok :: bool
  io_receipt_ok :: bool
  io_cancelled :: bool                \<comment> \<open>the caller was cancelled while the write ran\<close>

record approval_env =
  env_io :: approval_io
  env_now :: stamp                    \<comment> \<open>\<open>utc_now\<close> of a record's change\<close>
  env_check_now :: stamp              \<comment> \<open>\<open>datetime.now\<close> of the expiry check before it\<close>
  env_monotonic :: stamp
  env_operator :: operator_var
  env_new_id :: string                \<comment> \<open>\<open>uuid4().hex[:12]\<close>\<close>
  env_digest :: "string \<Rightarrow> string"     \<comment> \<open>HMAC-SHA-256 under this process's key\<close>
  env_sha256 :: "string \<Rightarrow> string"

record approval_audit =
  aa_event_type :: string
  aa_status :: string
  aa_action :: string
  aa_session_id :: string
  aa_approval_id :: string
  aa_kind :: approval_kind
  aa_decision :: "(string option \<times> approval_decider option) option"

record approval_store =
  as_file :: file_store
  as_sqlite :: "sqlite_store option"
  as_sqlite_primary :: bool
  as_ttl :: stamp
  as_texts :: "(string \<times> string \<times> stamp) list"
  as_claims :: "(string \<times> hold_id) list"
  as_heap :: hold_heap
  as_next_hold :: hold_id
  as_audit :: "approval_audit list option"
  as_receipts :: "string list option"

definition primary_is_sqlite :: "approval_store \<Rightarrow> bool" where
  "primary_is_sqlite s \<longleftrightarrow> as_sqlite s \<noteq> None \<and> as_sqlite_primary s"

definition store_list ::
  "approval_store \<Rightarrow> approval_status option \<Rightarrow> string option \<Rightarrow> approval_record list" where
  "store_list s status session_id =
     (if primary_is_sqlite s then sqlite_list (the (as_sqlite s)) status session_id
      else file_list (as_file s) status session_id)"

definition primary_get :: "approval_store \<Rightarrow> string \<Rightarrow> approval_error + approval_record" where
  "primary_get s i =
     (if primary_is_sqlite s then sqlite_get (the (as_sqlite s)) i else file_get (as_file s) i)"

definition store_get :: "approval_io \<Rightarrow> approval_store \<Rightarrow> string \<Rightarrow> approval_error + approval_record" where
  "store_get io s i = (if io_read_ok io i then primary_get s i else Inl StoreFailure)"

section \<open>Writing a record\<close>

definition put_the_file_back :: "approval_io \<Rightarrow> string \<Rightarrow> approval_record option \<Rightarrow> file_store \<Rightarrow> file_store" where
  "put_the_file_back io approval_id before fs =
     (case (case before of
              None \<Rightarrow> file_remove (io_put_back_ok io) approval_id fs
            | Some r \<Rightarrow> file_upsert (io_put_back_ok io) r fs) of
        Inr fs' \<Rightarrow> fs'
      | Inl _ \<Rightarrow> fs)"

definition store_write ::
  "approval_io \<Rightarrow> approval_record \<Rightarrow> approval_store \<Rightarrow> approval_store \<times> approval_error option" where
  "store_write io r s =
     (if \<not> primary_is_sqlite s then
        (case file_upsert (io_file_ok io) r (as_file s) of
           Inl e \<Rightarrow> (s, Some e)
         | Inr fs \<Rightarrow> (s\<lparr>as_file := fs\<rparr>, None))
      else if \<not> io_before_ok io then (s, Some StoreFailure)
      else
        let db = the (as_sqlite s);
            before = (case sqlite_get db (ar_id r) of Inl _ \<Rightarrow> None | Inr b \<Rightarrow> Some b)
        in case file_upsert (io_file_ok io) r (as_file s) of
             Inl e \<Rightarrow> (s, Some e)
           | Inr fs \<Rightarrow>
               (case sqlite_upsert (io_sqlite_ok io) r db of
                  Inr db' \<Rightarrow> (s\<lparr>as_file := fs, as_sqlite := Some db'\<rparr>, None)
                | Inl e \<Rightarrow> (s\<lparr>as_file := put_the_file_back io (ar_id r) before fs\<rparr>, Some e)))"

text \<open>\<open>_persist\<close>: the write runs through, then the caller's cancellation is raised.\<close>

definition store_persist ::
  "approval_io \<Rightarrow> approval_record \<Rightarrow> approval_store \<Rightarrow> approval_store \<times> approval_error option" where
  "store_persist io r s =
     (case store_write io r s of (s', e) \<Rightarrow> (s', if io_cancelled io then Some CancelledErr else e))"

section \<open>Sensitive texts and arguments\<close>

definition prune_sensitive_texts :: "stamp \<Rightarrow> approval_store \<Rightarrow> approval_store" where
  "prune_sensitive_texts monotonic s =
     s\<lparr>as_texts := filter (\<lambda>(_, _, kept_at). \<not> kept_at < monotonic - SENSITIVE_TEXT_RETENTION) (as_texts s)\<rparr>"

definition hold_text :: "stamp \<Rightarrow> string \<Rightarrow> string \<Rightarrow> approval_store \<Rightarrow> approval_store" where
  "hold_text monotonic approval_id text s =
     (let s' = prune_sensitive_texts monotonic s
      in s'\<lparr>as_texts := AList.update approval_id (text, monotonic) (as_texts s')\<rparr>)"

definition drop_text :: "string \<Rightarrow> approval_store \<Rightarrow> approval_store" where
  "drop_text approval_id s = s\<lparr>as_texts := AList.delete approval_id (as_texts s)\<rparr>"

definition held_text :: "stamp \<Rightarrow> approval_record \<Rightarrow> approval_store \<Rightarrow> approval_store \<times> string option" where
  "held_text monotonic r s =
     (let s' = prune_sensitive_texts monotonic s
      in (s', map_option fst (map_of (as_texts s') (ar_id r))))"

definition executable_action ::
  "stamp \<Rightarrow> approval_record \<Rightarrow> approval_store \<Rightarrow> approval_store \<times> (approval_error + action_decision)" where
  "executable_action monotonic r s =
     (if \<not> needs_held_text r then (s, Inr (ar_action r))
      else case held_text monotonic r s of
             (s', None) \<Rightarrow> (s', Inl (TextNoLongerHeld (ar_id r)))
           | (s', Some t) \<Rightarrow> (s', Inr ((ar_action r)\<lparr>act_text := Some t\<rparr>)))"

definition store_arguments :: "approval_store \<Rightarrow> string \<Rightarrow> approval_error + string" where
  "store_arguments s approval_id = read_arguments (as_file s) approval_id"

text \<open>
  \<open>discard_arguments\<close> catches an \<open>OSError\<close> only; the id it is given always names a record.
\<close>

definition discard_arguments :: "approval_io \<Rightarrow> string \<Rightarrow> approval_store \<Rightarrow> approval_store" where
  "discard_arguments io approval_id s =
     (case delete_arguments (io_arguments_ok io approval_id) approval_id (as_file s) of
        Inr fs \<Rightarrow> s\<lparr>as_file := fs\<rparr>
      | Inl _ \<Rightarrow> s)"

definition rejection_has_lapsed :: "stamp \<Rightarrow> stamp \<Rightarrow> approval_record \<Rightarrow> bool" where
  "rejection_has_lapsed now ttl r =
     (case ar_decided_at r of None \<Rightarrow> False | Some d \<Rightarrow> d + ttl \<le> now)"

definition sweeps :: "approval_env \<Rightarrow> bool \<Rightarrow> approval_store \<Rightarrow> string \<Rightarrow> bool" where
  "sweeps env startup s approval_id =
     (case store_get (env_io env) s approval_id of
        Inl (KeyErr _) \<Rightarrow> startup
      | Inl _ \<Rightarrow> False
      | Inr r \<Rightarrow>
          if ar_status r = Executed then startup
          else ar_status r = Rejected \<and> rejection_has_lapsed (env_check_now env) (as_ttl s) r)"

definition sweep_arguments :: "approval_env \<Rightarrow> bool \<Rightarrow> approval_store \<Rightarrow> approval_store" where
  "sweep_arguments env startup s =
     fold (\<lambda>i s'. if sweeps env startup s' i then discard_arguments (env_io env) i s' else s')
       (arguments_ids (as_file s)) s"

section \<open>Asking for an approval\<close>

definition find_matching_pending ::
  "approval_env \<Rightarrow> approval_store \<Rightarrow> string \<Rightarrow> approval_kind \<Rightarrow> action_decision \<Rightarrow> string option \<Rightarrow>
   approval_origin \<Rightarrow> approval_record option" where
  "find_matching_pending env s session_id kind action owner origin =
     find (\<lambda>r. \<not> (session_id = CONTROLLER_SCOPE \<and> ar_owner r \<noteq> owner) \<and>
               ar_kind r = kind \<and> ar_origin r = origin \<and>
               actions_match (env_digest env) (ar_action r) action)
       (store_list s (Some Pending) (Some session_id))"

definition new_approval ::
  "approval_env \<Rightarrow> string \<Rightarrow> approval_kind \<Rightarrow> string \<Rightarrow> action_decision \<Rightarrow> string option \<Rightarrow> approval_origin \<Rightarrow>
   string option \<Rightarrow> approval_record" where
  "new_approval env session_id kind reason action observation origin arguments =
     \<lparr>ar_id = env_new_id env, ar_session_id = session_id, ar_kind = kind, ar_status = Pending,
      ar_created_at = env_now env, ar_updated_at = env_now env, ar_reason = reason,
      ar_action = stored_action (env_digest env) action, ar_observation = observation,
      ar_decision_comment = None, ar_decided_at = None, ar_decided_via = None,
      ar_approved_expires_at = None, ar_executed_at = None,
      ar_owner = verified_operator (env_operator env), ar_origin = origin,
      ar_arguments_size = map_option length arguments,
      ar_arguments_sha256 = map_option (env_sha256 env) arguments\<rparr>"

definition create_or_reuse_pending ::
  "approval_env \<Rightarrow> string \<Rightarrow> approval_kind \<Rightarrow> string \<Rightarrow> action_decision \<Rightarrow> string option \<Rightarrow> approval_origin \<Rightarrow>
   string option \<Rightarrow> approval_store \<Rightarrow> approval_store \<times> (approval_error + approval_record)" where
  "create_or_reuse_pending env session_id kind reason action observation origin arguments s =
     (let s1 = sweep_arguments env False s;
          owner = verified_operator (env_operator env);
          sensitive = act_sensitive action \<and> truthy (act_text action)
      in case find_matching_pending env s1 session_id kind action owner origin of
           Some r \<Rightarrow>
             (if sensitive then hold_text (env_monotonic env) (ar_id r) (the (act_text action)) s1 else s1, Inr r)
         | None \<Rightarrow>
             let r = new_approval env session_id kind reason action observation origin arguments;
                 written = (case arguments of
                     None \<Rightarrow> Inr (as_file s1)
                   | Some t \<Rightarrow> write_arguments (io_arguments_ok (env_io env) (ar_id r)) (ar_id r) t (as_file s1))
             in case written of
                  Inl e \<Rightarrow> (s1, Inl e)
                | Inr fs \<Rightarrow>
                    (case store_persist (env_io env) r (s1\<lparr>as_file := fs\<rparr>) of
                       (s2, Some e) \<Rightarrow> (s2, Inl e)
                     | (s2, None) \<Rightarrow>
                         (if sensitive then hold_text (env_monotonic env) (ar_id r) (the (act_text action)) s2 else s2,
                          Inr r)))"

section \<open>Decisions\<close>

datatype on_claim = Deferred | Withdrawn | WithdrawnAfterRefusal | WithdrawnSpent

record decision =
  dec_record :: approval_record
  dec_on_claim :: "on_claim option"

definition claim_of :: "approval_store \<Rightarrow> string \<Rightarrow> execution_hold option" where
  "claim_of s approval_id = map_option (as_heap s) (map_of (as_claims s) approval_id)"

definition set_hold :: "hold_id \<Rightarrow> execution_hold \<Rightarrow> approval_store \<Rightarrow> approval_store" where
  "set_hold h hold s = s\<lparr>as_heap := (as_heap s)(h := hold)\<rparr>"

text \<open>\<open>refusal_for_executed\<close> reads the live claim of the approval.\<close>

definition refusal_for_executed :: "approval_store \<Rightarrow> approval_record \<Rightarrow> approval_error" where
  "refusal_for_executed s r = executed_refusal r (claim_of s (ar_id r))"

definition refuse_what_is_no_longer_whole ::
  "stamp \<Rightarrow> approval_record \<Rightarrow> approval_store \<Rightarrow> approval_store \<times> approval_error option" where
  "refuse_what_is_no_longer_whole monotonic r s =
     (if ar_arguments_size r \<noteq> None \<and> has_arguments (as_file s) (ar_id r) \<noteq> Inr True
      then (s, Some (ServerStateArguments (ar_id r)))
      else if needs_held_text r
      then (case held_text monotonic r s of
              (s', None) \<Rightarrow> (s', Some (ServerStateText (ar_id r)))
            | (s', Some _) \<Rightarrow> (s', None))
      else (s, None))"

definition operator_rejected :: "approval_store \<Rightarrow> approval_record \<Rightarrow> bool" where
  "operator_rejected s r =
     list_ex (\<lambda>other. (ar_session_id r \<noteq> CONTROLLER_SCOPE \<or> ar_owner other = ar_owner r) \<and>
                ar_kind other = ar_kind r \<and> ar_decided_via other \<noteq> Some Agent \<and>
                bound_fields (ar_action other) = bound_fields (ar_action r))
       (store_list s (Some Rejected) (Some (ar_session_id r)))"

definition decided_record ::
  "stamp \<Rightarrow> stamp \<Rightarrow> approval_status \<Rightarrow> string option \<Rightarrow> approval_decider \<Rightarrow> approval_record \<Rightarrow> approval_record" where
  "decided_record now ttl status comment decided_via r =
     (let t = later_than now (ar_updated_at r) in
      r\<lparr>ar_status := status, ar_updated_at := t, ar_decided_at := Some t,
        ar_decision_comment := comment, ar_decided_via := Some decided_via,
        ar_approved_expires_at := (if status = Approved then Some (expiry_timestamp ttl t) else None)\<rparr>)"

text \<open>
  The claimed branch of \<open>decide\<close>: an operator's decision on an approval its action holds goes to the
  hold, while the action has not begun and a refusal would still give it back.
\<close>

definition decide_claimed ::
  "approval_record \<Rightarrow> approval_status \<Rightarrow> string option \<Rightarrow> approval_decider \<Rightarrow> approval_store \<Rightarrow>
   approval_store \<times> (approval_error + decision)" where
  "decide_claimed r status comment decided_via s =
     (let conflict = (s, Inl (claim_conflict r (claim_of s (ar_id r)) decided_via status)) in
      case map_of (as_claims s) (ar_id r) of
        None \<Rightarrow> conflict
      | Some h \<Rightarrow>
          let c = as_heap s h in
          if decided_via \<noteq> Agent \<and> h_may_give_back c \<and> \<not> h_effect c then
            if status = Rejected then
              (set_hold h (c\<lparr>h_rejection := Some (comment, decided_via)\<rparr>) s,
               Inr \<lparr>dec_record = r, dec_on_claim = Some Deferred\<rparr>)
            else if h_rejection c \<noteq> None then
              (set_hold h (c\<lparr>h_rejection := None\<rparr>) s,
               Inr \<lparr>dec_record = r, dec_on_claim = Some
                 (if \<not> h_active c \<and> \<not> h_gives_back_on_its_own c then WithdrawnSpent
                  else if h_stopped c \<or> \<not> h_active c \<or> h_refusal c \<noteq> None then WithdrawnAfterRefusal
                  else Withdrawn)\<rparr>)
            else conflict
          else conflict)"

definition decide ::
  "approval_env \<Rightarrow> string \<Rightarrow> approval_status \<Rightarrow> string option \<Rightarrow> approval_decider \<Rightarrow> approval_store \<Rightarrow>
   approval_store \<times> (approval_error + decision)" where
  "decide env approval_id status comment decided_via s =
     (case store_get (env_io env) s approval_id of
        Inl e \<Rightarrow> (s, Inl e)
      | Inr r \<Rightarrow>
          if ar_status r = Executed then decide_claimed r status comment decided_via s
          else if decided_via = Agent \<and> ar_status r \<noteq> Pending then (s, Inl (AlreadyDecided approval_id (ar_status r)))
          else if decided_via = Agent \<and> status = Approved \<and> operator_rejected s r
          then (s, Inl (OperatorRejectedBefore approval_id))
          else
            let (s1, refusal) = (if status = Approved then refuse_what_is_no_longer_whole (env_monotonic env) r s
                                 else (s, None))
            in case refusal of
                 Some e \<Rightarrow> (s1, Inl e)
               | None \<Rightarrow>
                   let r' = decided_record (env_now env) (as_ttl s1) status comment decided_via r;
                       s2 = (if status = Approved then s1 else drop_text approval_id s1)
                   in case store_persist (env_io env) r' s2 of
                        (s3, Some e) \<Rightarrow> (s3, Inl e)
                      | (s3, None) \<Rightarrow> (s3, Inr \<lparr>dec_record = r', dec_on_claim = None\<rparr>))"

definition approve ::
  "approval_env \<Rightarrow> string \<Rightarrow> string option \<Rightarrow> approval_decider \<Rightarrow> approval_store \<Rightarrow>
   approval_store \<times> (approval_error + approval_record)" where
  "approve env approval_id comment decided_via s =
     (case decide env approval_id Approved comment decided_via s of
        (s', Inl e) \<Rightarrow> (s', Inl e) | (s', Inr d) \<Rightarrow> (s', Inr (dec_record d)))"

definition reject ::
  "approval_env \<Rightarrow> string \<Rightarrow> string option \<Rightarrow> approval_decider \<Rightarrow> approval_store \<Rightarrow>
   approval_store \<times> (approval_error + approval_record)" where
  "reject env approval_id comment decided_via s =
     (case decide env approval_id Rejected comment decided_via s of
        (s', Inl e) \<Rightarrow> (s', Inl e) | (s', Inr d) \<Rightarrow> (s', Inr (dec_record d)))"

section \<open>Spending an approval\<close>

definition executed_record :: "stamp \<Rightarrow> approval_record \<Rightarrow> approval_record" where
  "executed_record now r = r\<lparr>ar_status := Executed, ar_updated_at := now, ar_executed_at := Some now\<rparr>"

text \<open>\<open>_mark_executed\<close>: the record, and whether the caller was cancelled while it was written.\<close>

definition mark_executed_locked ::
  "approval_env \<Rightarrow> string \<Rightarrow> approval_store \<Rightarrow> approval_store \<times> (approval_error + approval_record \<times> bool)" where
  "mark_executed_locked env approval_id s =
     (case store_get (env_io env) s approval_id of
        Inl e \<Rightarrow> (s, Inl e)
      | Inr r \<Rightarrow>
          if ar_status r = Executed then (s, Inl (refusal_for_executed s r))
          else if ar_status r \<noteq> Approved then (s, Inl (NotApproved approval_id))
          else if has_expired (env_check_now env) r then (s, Inl (Expired approval_id))
          else
            let r' = executed_record (env_now env) r in
            case store_write (env_io env) r' s of
              (s', Some e) \<Rightarrow> (s', Inl (if io_cancelled (env_io env) then CancelledErr else e))
            | (s', None) \<Rightarrow> (s', Inr (r', io_cancelled (env_io env))))"

definition mark_executed ::
  "approval_env \<Rightarrow> string \<Rightarrow> approval_store \<Rightarrow> approval_store \<times> (approval_error + approval_record)" where
  "mark_executed env approval_id s =
     (case mark_executed_locked env approval_id s of
        (s', Inl e) \<Rightarrow> (s', Inl e)
      | (s', Inr (r, cancelled)) \<Rightarrow> (s', if cancelled then Inl CancelledErr else Inr r))"

text \<open>
  \<open>claim_execution\<close> in a task with context \<open>ctx\<close>: no new hold when the task already holds it,
  otherwise the record is spent and the hold made, under one lock.
\<close>

definition claim_execution ::
  "approval_env \<Rightarrow> string \<Rightarrow> hold_context \<Rightarrow> approval_store \<Rightarrow>
   approval_store \<times> hold_context \<times> (approval_error + hold_id option)" where
  "claim_execution env approval_id ctx s =
     (if active_hold (as_heap s) ctx approval_id \<noteq> None then (s, ctx, Inr None)
      else case mark_executed_locked env approval_id s of
             (s', Inl e) \<Rightarrow> (s', ctx, Inl e)
           | (s', Inr (r, cancelled)) \<Rightarrow>
               let h = as_next_hold s';
                   hold = (new_hold approval_id (ar_origin r))\<lparr>h_claim_cancelled := cancelled\<rparr>
               in (s'\<lparr>as_heap := (as_heap s')(h := hold), as_next_hold := Suc h,
                      as_claims := AList.update approval_id h (as_claims s')\<rparr>,
                   AList.update approval_id h ctx, Inr (Some h)))"

definition revoke_execution :: "hold_id \<Rightarrow> approval_store \<Rightarrow> approval_store" where
  "revoke_execution h s =
     (let hold = as_heap s h; s' = set_hold h (hold\<lparr>h_active := False\<rparr>) s in
      if map_of (as_claims s') (h_approval_id hold) = Some h
      then s'\<lparr>as_claims := AList.delete (h_approval_id hold) (as_claims s')\<rparr> else s')"

definition release_execution ::
  "hold_id \<Rightarrow> bool \<Rightarrow> hold_context \<Rightarrow> approval_store \<Rightarrow> approval_store \<times> hold_context" where
  "release_execution h spent ctx s =
     (let approval_id = h_approval_id (as_heap s h);
          s' = revoke_execution h s;
          ctx' = (if map_of ctx approval_id = Some h then AList.delete approval_id ctx else ctx)
      in (if spent then drop_text approval_id s' else s', ctx'))"

definition given_back_record :: "stamp \<Rightarrow> execution_hold \<Rightarrow> approval_record \<Rightarrow> approval_record" where
  "given_back_record now hold r =
     (let t = later_than now (ar_updated_at r);
          r' = r\<lparr>ar_status := Approved, ar_updated_at := t, ar_executed_at := None\<rparr>
      in case h_rejection hold of
           None \<Rightarrow> r'
         | Some (comment, decided_via) \<Rightarrow>
             r'\<lparr>ar_status := Rejected, ar_decision_comment := comment, ar_decided_via := Some decided_via,
                ar_decided_at := Some t, ar_approved_expires_at := None\<rparr>)"

definition give_back ::
  "approval_env \<Rightarrow> hold_id \<Rightarrow> approval_store \<Rightarrow> approval_store \<times> (approval_error + approval_record option)" where
  "give_back env h s =
     (let hold = as_heap s h in
      if h_rejection hold = None \<and> \<not> h_gives_back_on_its_own hold then (s, Inr None)
      else case store_get (env_io env) s (h_approval_id hold) of
             Inl e \<Rightarrow> (s, Inl e)
           | Inr r \<Rightarrow>
               let r' = given_back_record (env_now env) hold r;
                   s1 = (if h_rejection hold \<noteq> None then drop_text (h_approval_id hold) s else s)
               in case store_persist (env_io env) r' s1 of
                    (s2, Some e) \<Rightarrow> (s2, Inl e)
                  | (s2, None) \<Rightarrow> (s2, Inr (Some r')))"

section \<open>The trail\<close>

definition append_audit :: "approval_io \<Rightarrow> approval_audit \<Rightarrow> approval_store \<Rightarrow> approval_store" where
  "append_audit io a s =
     (case as_audit s of
        None \<Rightarrow> s
      | Some entries \<Rightarrow> if io_audit_ok io then s\<lparr>as_audit := Some (entries @ [a])\<rparr> else s)"

definition status_name :: "approval_status \<Rightarrow> string" where
  "status_name st = (case st of Pending \<Rightarrow> ''pending'' | Approved \<Rightarrow> ''approved''
     | Rejected \<Rightarrow> ''rejected'' | Executed \<Rightarrow> ''executed'')"

definition record_given_back :: "approval_env \<Rightarrow> approval_record \<Rightarrow> approval_store \<Rightarrow> approval_store" where
  "record_given_back env r s =
     (let rejected = ar_status r = Rejected;
          s1 = append_audit (env_io env)
            \<lparr>aa_event_type = ''approval_given_back'', aa_status = status_name (ar_status r),
             aa_action = ''give_back'', aa_session_id = ar_session_id r, aa_approval_id = ar_id r,
             aa_kind = ar_kind r,
             aa_decision = (if rejected then Some (ar_decision_comment r, ar_decided_via r) else None)\<rparr> s
      in case as_receipts s1 of
           Some rs \<Rightarrow> if rejected \<and> io_receipt_ok (env_io env) then s1\<lparr>as_receipts := Some (rs @ [ar_id r])\<rparr> else s1
         | None \<Rightarrow> s1)"

definition record_cancelled_claim :: "approval_env \<Rightarrow> hold_id \<Rightarrow> approval_store \<Rightarrow> approval_store" where
  "record_cancelled_claim env h s =
     (case store_get (env_io env) s (h_approval_id (as_heap s h)) of
        Inl _ \<Rightarrow> s
      | Inr r \<Rightarrow> append_audit (env_io env)
          \<lparr>aa_event_type = ''approval_claim_cancelled'', aa_status = ''spent'', aa_action = ''claim'',
           aa_session_id = ar_session_id r, aa_approval_id = ar_id r, aa_kind = ar_kind r,
           aa_decision = None\<rparr> s)"

definition record_rejection_not_applied :: "approval_env \<Rightarrow> hold_id \<Rightarrow> approval_store \<Rightarrow> approval_store" where
  "record_rejection_not_applied env h s =
     (case h_rejection (as_heap s h) of
        None \<Rightarrow> s
      | Some (comment, decided_via) \<Rightarrow>
         (case store_get (env_io env) s (h_approval_id (as_heap s h)) of
            Inl _ \<Rightarrow> s
          | Inr r \<Rightarrow> append_audit (env_io env)
              \<lparr>aa_event_type = ''approval_decision'', aa_status = ''not_applied'', aa_action = ''reject'',
               aa_session_id = ar_session_id r, aa_approval_id = ar_id r, aa_kind = ar_kind r,
               aa_decision = Some (comment, Some decided_via)\<rparr> s))"

section \<open>Checking an approval a request carries\<close>

definition require_approved ::
  "approval_env \<Rightarrow> string \<Rightarrow> string \<Rightarrow> approval_kind \<Rightarrow> action_decision \<Rightarrow> approval_origin \<Rightarrow> hold_context \<Rightarrow>
   approval_store \<Rightarrow> approval_error + approval_record" where
  "require_approved env approval_id session_id kind action origin ctx s =
     (case store_get (env_io env) s approval_id of
        Inl e \<Rightarrow> Inl e
      | Inr r \<Rightarrow>
          if ar_session_id r \<noteq> session_id then Inl (WrongSession approval_id)
          else if session_id = CONTROLLER_SCOPE \<and> \<not> may_use (env_operator env) (ar_owner r) then Inl (KeyErr approval_id)
          else if ar_kind r \<noteq> kind then Inl (KindNotCovered approval_id)
          else if ar_origin r \<noteq> origin then Inl (WrongOrigin approval_id)
          else
            let held = active_hold (as_heap s) ctx approval_id \<noteq> None in
            if ar_status r = Executed \<and> \<not> held then Inl (refusal_for_executed s r)
            else if ar_status r \<noteq> (if held then Executed else Approved) then Inl (NotApproved approval_id)
            else if \<not> held \<and> has_expired (env_check_now env) r then Inl (Expired approval_id)
            else if \<not> actions_match (env_digest env) (ar_action r) action then Inl (DoesNotMatch approval_id)
            else Inr r)"

section \<open>What the housekeeping of the arguments leaves alone\<close>

lemma discard_arguments_frame [simp]:
  "as_sqlite (discard_arguments io i s) = as_sqlite s"
  "as_sqlite_primary (discard_arguments io i s) = as_sqlite_primary s"
  "fs_records (as_file (discard_arguments io i s)) = fs_records (as_file s)"
  "as_heap (discard_arguments io i s) = as_heap s"
  "as_claims (discard_arguments io i s) = as_claims s"
  "as_next_hold (discard_arguments io i s) = as_next_hold s"
  "as_texts (discard_arguments io i s) = as_texts s"
  "as_ttl (discard_arguments io i s) = as_ttl s"
  by (auto simp: discard_arguments_def delete_arguments_def split: option.splits sum.splits if_splits)

lemma sweep_arguments_frame [simp]:
  "as_sqlite (sweep_arguments env b s) = as_sqlite s"
  "as_sqlite_primary (sweep_arguments env b s) = as_sqlite_primary s"
  "fs_records (as_file (sweep_arguments env b s)) = fs_records (as_file s)"
  "as_heap (sweep_arguments env b s) = as_heap s"
  "as_claims (sweep_arguments env b s) = as_claims s"
  "as_next_hold (sweep_arguments env b s) = as_next_hold s"
  "as_texts (sweep_arguments env b s) = as_texts s"
  "as_ttl (sweep_arguments env b s) = as_ttl s"
proof -
  have "as_sqlite (fold f xs s) = as_sqlite s \<and> as_sqlite_primary (fold f xs s) = as_sqlite_primary s \<and>
      fs_records (as_file (fold f xs s)) = fs_records (as_file s) \<and> as_heap (fold f xs s) = as_heap s \<and>
      as_claims (fold f xs s) = as_claims s \<and> as_next_hold (fold f xs s) = as_next_hold s \<and>
      as_texts (fold f xs s) = as_texts s \<and> as_ttl (fold f xs s) = as_ttl s"
    if "f = (\<lambda>i s'. if sweeps env b s' i then discard_arguments (env_io env) i s' else s')" for f xs
    using that by (induction xs arbitrary: s) (auto simp: discard_arguments_frame)
  then show "as_sqlite (sweep_arguments env b s) = as_sqlite s"
    "as_sqlite_primary (sweep_arguments env b s) = as_sqlite_primary s"
    "fs_records (as_file (sweep_arguments env b s)) = fs_records (as_file s)"
    "as_heap (sweep_arguments env b s) = as_heap s" "as_claims (sweep_arguments env b s) = as_claims s"
    "as_next_hold (sweep_arguments env b s) = as_next_hold s"
    "as_texts (sweep_arguments env b s) = as_texts s" "as_ttl (sweep_arguments env b s) = as_ttl s"
    unfolding sweep_arguments_def by blast+
qed

lemma primary_get_sweep [simp]: "primary_get (sweep_arguments env b s) i = primary_get s i"
  by (simp add: primary_get_def primary_is_sqlite_def file_get_def split: option.split)

lemma file_get_sweep [simp]: "file_get (as_file (sweep_arguments env b s)) i = file_get (as_file s) i"
  by (simp add: file_get_def split: option.split)

lemma file_get_discard [simp]: "file_get (as_file (discard_arguments io j s)) i = file_get (as_file s) i"
  by (simp add: file_get_def split: option.split)

lemma primary_get_discard [simp]: "primary_get (discard_arguments io j s) i = primary_get s i"
  by (simp add: primary_get_def primary_is_sqlite_def split: option.split)

section \<open>A sample store\<close>

definition sample_record :: approval_record where
  "sample_record = \<lparr>ar_id = ''a1'', ar_session_id = ''s1'', ar_kind = KWrite, ar_status = Approved,
     ar_created_at = 5, ar_updated_at = 7, ar_reason = ''r'', ar_action = stored_action rev sample_action,
     ar_observation = None, ar_decision_comment = None, ar_decided_at = Some 7,
     ar_decided_via = Some Operator, ar_approved_expires_at = Some 1000, ar_executed_at = None,
     ar_owner = None, ar_origin = ActionOrigin, ar_arguments_size = None, ar_arguments_sha256 = None\<rparr>"

definition sample_files :: file_store where
  "sample_files = \<lparr>fs_records = [(''a1'', Readable sample_record)], fs_arguments = []\<rparr>"

definition sample_db :: sqlite_store where
  "sample_db = [(''a1'', row_of (executed_record 6 sample_record))]"

lemma record_path_a1 [simp]: "record_path ''a1'' ''.json'' = Some ''a1.json''"
  by code_simp

lemma record_path_a1_arguments [simp]: "record_path ''a1'' ''.arguments'' = Some ''a1.arguments''"
  by code_simp

lemma sample_wf: "file_wf sample_files" "sqlite_wf sample_db"
  by (auto simp: file_wf_def sample_files_def sample_record_def file_usable_def sqlite_wf_def
      sample_db_def executed_record_def split: if_splits)

lemma listings_agree_witness:
  "set (file_list sample_files (Some Approved) None) =
     set (sqlite_list [(''a1'', row_of sample_record)] (Some Approved) None)"
proof (rule listings_agree [OF sample_wf(1)])
  show "sqlite_wf [(''a1'', row_of sample_record)]" by (auto simp: sqlite_wf_def sample_record_def split: if_splits)
  show "file_held sample_files i = sqlite_held [(''a1'', row_of sample_record)] i" for i
    by (simp add: file_held_def sqlite_held_def sample_files_def)
qed

definition sample_store :: approval_store where
  "sample_store = \<lparr>as_file = sample_files, as_sqlite = Some sample_db, as_sqlite_primary = True,
     as_ttl = minutes_us 15, as_texts = [], as_claims = [], as_heap = (\<lambda>_. new_hold [] ActionOrigin),
     as_next_hold = 0, as_audit = Some [], as_receipts = Some []\<rparr>"

definition sample_io :: approval_io where
  "sample_io = \<lparr>io_read_ok = (\<lambda>_. True), io_before_ok = True, io_file_ok = True, io_sqlite_ok = True,
     io_put_back_ok = True, io_arguments_ok = (\<lambda>_. True), io_audit_ok = True, io_receipt_ok = True,
     io_cancelled = False\<rparr>"

definition sample_env :: approval_env where
  "sample_env = \<lparr>env_io = sample_io, env_now = 20, env_check_now = 20, env_monotonic = 20,
     env_operator = None, env_new_id = ''b2'', env_digest = rev, env_sha256 = rev\<rparr>"

text \<open>The same store on the file store alone, and with a SQLite that agrees with it.\<close>

definition file_sample :: approval_store where
  "file_sample = sample_store\<lparr>as_sqlite := None, as_sqlite_primary := False\<rparr>"

definition twin_sample :: approval_store where
  "twin_sample = sample_store\<lparr>as_sqlite := Some [(''a1'', row_of sample_record)]\<rparr>"

lemma sample_gets:
  "primary_get file_sample ''a1'' = Inr sample_record" "primary_get twin_sample ''a1'' = Inr sample_record"
  by (simp_all add: file_sample_def twin_sample_def sample_store_def primary_get_def primary_is_sqlite_def
      file_get_def sqlite_get_def sample_files_def)

text \<open>The same with a second, pending approval of the same action.\<close>

definition pending_record :: approval_record where
  "pending_record = sample_record\<lparr>ar_id := ''b1'', ar_status := Pending, ar_decided_via := None\<rparr>"

definition pair_sample :: approval_store where
  "pair_sample = file_sample\<lparr>as_file := \<lparr>fs_records = [(''a1'', Readable sample_record), (''b1'', Readable pending_record)],
     fs_arguments = []\<rparr>\<rparr>"

lemma record_path_b1 [simp]: "record_path ''b1'' ''.json'' = Some ''b1.json''"
  by code_simp

lemma record_path_b2 [simp]: "record_path ''b2'' ''.json'' = Some ''b2.json''"
  by code_simp

lemma pair_gets: "primary_get pair_sample ''a1'' = Inr sample_record" "primary_get pair_sample ''b1'' = Inr pending_record"
  by (simp_all add: pair_sample_def file_sample_def sample_store_def primary_get_def primary_is_sqlite_def file_get_def)

end
