(* ===== verification/ApprovalStartup.thy ===== *)
theory ApprovalStartup
  imports ApprovalStore
begin

text \<open>
  A start of the approval store (approvals.py, \<open>startup\<close> and \<open>_catch_sqlite_up\<close>): which store is
  primary, and how SQLite and the file store are brought to agree after starts that ran on the file
  store alone. \<open>startup_io\<close> says which of the start's reads and writes fail.
\<close>

record startup_io =
  su_sqlite_starts :: bool
  su_sqlite_lists :: bool
  su_file_lists :: bool
  su_repair_ok :: "string \<Rightarrow> bool"    \<comment> \<open>writing SQLite's record over the file's\<close>
  su_copy_ok :: "string \<Rightarrow> bool"      \<comment> \<open>copying the file's record into SQLite\<close>

definition KEPT_OVER_THE_FILE :: "approval_status list" where
  "KEPT_OVER_THE_FILE = [Executed, Rejected]"

definition undoes_a_final_decision :: "approval_record \<Rightarrow> approval_record \<Rightarrow> bool" where
  "undoes_a_final_decision kept r \<longleftrightarrow>
     (if ar_status kept \<notin> set KEPT_OVER_THE_FILE \<or> ar_status r = ar_status kept then False
      else if ar_status kept = Executed then True
      else ar_updated_at r \<le> ar_updated_at kept)"

text \<open>
  The loop over the file's records: the file store it leaves (some records replaced by SQLite's), the
  records to copy into SQLite, and the ids whose repair failed.
\<close>

fun compare_records ::
  "startup_io \<Rightarrow> (string \<Rightarrow> approval_record option) \<Rightarrow> approval_record list \<Rightarrow> file_store \<Rightarrow>
   file_store \<times> approval_record list \<times> string list" where
  "compare_records io held [] fs = (fs, [], [])"
| "compare_records io held (r # rs) fs =
     (case held (ar_id r) of
        None \<Rightarrow> (let (fs', copies, un) = compare_records io held rs fs in (fs', r # copies, un))
      | Some kept \<Rightarrow>
          if kept = r then compare_records io held rs fs
          else if \<not> undoes_a_final_decision kept r then
            (let (fs', copies, un) = compare_records io held rs fs in (fs', r # copies, un))
          else
            (case file_upsert (su_repair_ok io (ar_id r)) kept fs of
               Inr fs1 \<Rightarrow> compare_records io held rs fs1
             | Inl _ \<Rightarrow> (let (fs', copies, un) = compare_records io held rs fs in (fs', copies, ar_id r # un))))"

fun copy_records :: "startup_io \<Rightarrow> approval_record list \<Rightarrow> sqlite_store \<Rightarrow> sqlite_store \<times> bool" where
  "copy_records io [] db = (db, True)"
| "copy_records io (r # rs) db =
     (case sqlite_upsert (su_copy_ok io (ar_id r)) r db of
        Inl _ \<Rightarrow> (db, False)
      | Inr db' \<Rightarrow> copy_records io rs db')"

definition held_by_sqlite :: "sqlite_store \<Rightarrow> string \<Rightarrow> approval_record option" where
  "held_by_sqlite db i = map_of (map (\<lambda>r. (ar_id r, r)) (sqlite_list db None None)) i"

definition catch_sqlite_up ::
  "startup_io \<Rightarrow> file_store \<Rightarrow> sqlite_store \<Rightarrow> file_store \<times> sqlite_store \<times> approval_error option" where
  "catch_sqlite_up io fs db =
     (if \<not> su_sqlite_lists io \<or> \<not> su_file_lists io then (fs, db, Some StoreFailure)
      else
        let (fs', copies, unrepaired) = compare_records io (held_by_sqlite db) (file_list fs None None) fs;
            (db', copied) = copy_records io copies db
        in (fs', db', if copied then None
                      else if unrepaired \<noteq> [] then Some (StoresUntrusted unrepaired) else Some StoreFailure))"

text \<open>
  What a process keeps in memory is gone at a start; \<open>startup\<close> then chooses the primary store and
  sweeps the arguments. An error is the refusal to start.
\<close>

definition forget_memory :: "approval_store \<Rightarrow> approval_store" where
  "forget_memory s = s\<lparr>as_texts := [], as_claims := [],
     as_heap := (\<lambda>_. (new_hold [] ActionOrigin)\<lparr>h_active := False\<rparr>), as_next_hold := 0, as_sqlite_primary := False\<rparr>"

definition startup :: "startup_io \<Rightarrow> approval_env \<Rightarrow> approval_store \<Rightarrow> approval_store \<times> approval_error option" where
  "startup io env s0 =
     (let s = s0\<lparr>as_sqlite_primary := False\<rparr> in
      case as_sqlite s of
        None \<Rightarrow> (sweep_arguments env True s, None)
      | Some db \<Rightarrow>
          if \<not> su_sqlite_starts io then (sweep_arguments env True s, None)
          else
            let (fs, db', e) = catch_sqlite_up io (as_file s) db;
                s1 = s\<lparr>as_file := fs, as_sqlite := Some db'\<rparr>
            in case e of
                 Some (StoresUntrusted ids) \<Rightarrow> (s1, Some (StoresUntrusted ids))
               | Some _ \<Rightarrow> (sweep_arguments env True s1, None)
               | None \<Rightarrow> (sweep_arguments env True (s1\<lparr>as_sqlite_primary := True\<rparr>), None))"

section \<open>Both stores after the catch-up\<close>

text \<open>What one id ends as, from SQLite's record of it and the file's.\<close>

definition caught_up :: "approval_record option \<Rightarrow> approval_record \<Rightarrow> approval_record" where
  "caught_up kept r =
     (case kept of None \<Rightarrow> r | Some k \<Rightarrow> if undoes_a_final_decision k r then k else r)"

lemma undoes_self [simp]: "\<not> undoes_a_final_decision r r"
  by (simp add: undoes_a_final_decision_def)

lemma caught_up_executed:
  "kept = Some k \<Longrightarrow> ar_status k = Executed \<Longrightarrow> ar_status (caught_up kept r) = Executed"
  by (auto simp: caught_up_def undoes_a_final_decision_def KEPT_OVER_THE_FILE_def split: if_splits)

lemma held_by_sqlite_eq:
  assumes "sqlite_wf db"
  shows "held_by_sqlite db i = (case sqlite_get db i of Inl _ \<Rightarrow> None | Inr r \<Rightarrow> Some r)"
proof (cases "held_by_sqlite db i")
  case None
  then have "i \<notin> ar_id ` set (sqlite_list db None None)"
    by (simp add: held_by_sqlite_def map_of_keyed_None)
  moreover have "sqlite_get db i = Inr r \<Longrightarrow> r \<in> set (sqlite_list db None None) \<and> ar_id r = i" for r
    using sqlite_backend.listing_iff_get [OF assms] sqlite_backend.get_Inr_id [OF assms]
    by (auto simp: wanted_def)
  ultimately show ?thesis using None by (force split: sum.split)
next
  case (Some r)
  then have "r \<in> set (sqlite_list db None None)" and "ar_id r = i"
    by (auto simp: held_by_sqlite_def dest!: map_of_keyed_Some)
  then have "sqlite_get db i = Inr r"
    using sqlite_backend.listing_iff_get [OF assms, of r None None] by simp
  with Some show ?thesis by simp
qed

text \<open>One turn of the loop, on the file store.\<close>

definition repaired :: "startup_io \<Rightarrow> (string \<Rightarrow> approval_record option) \<Rightarrow> approval_record \<Rightarrow> file_store \<Rightarrow> file_store" where
  "repaired io held r fs =
     (case held (ar_id r) of
        None \<Rightarrow> fs
      | Some k \<Rightarrow> if undoes_a_final_decision k r
                 then (case file_upsert (su_repair_ok io (ar_id r)) k fs of Inr fs1 \<Rightarrow> fs1 | Inl _ \<Rightarrow> fs)
                 else fs)"

lemma compare_records_step:
  "compare_records io held (r # rs) fs = (fs', copies, un) \<Longrightarrow>
   \<exists>c u. compare_records io held rs (repaired io held r fs) = (fs', c, u)"
  by (cases "held (ar_id r)") (auto simp: repaired_def split: if_splits prod.splits sum.splits)

text \<open>What the file store is to hold for an id, given its record there.\<close>

definition file_target ::
  "startup_io \<Rightarrow> (string \<Rightarrow> approval_record option) \<Rightarrow> approval_record \<Rightarrow> stored option \<Rightarrow> stored option" where
  "file_target io held r old =
     (case held (ar_id r) of
        None \<Rightarrow> old
      | Some k \<Rightarrow> if undoes_a_final_decision k r \<and> su_repair_ok io (ar_id r) \<and> file_usable (ar_id r)
                 then Some (Readable k) else old)"

lemma repaired_held:
  assumes "\<And>i k. held i = Some k \<Longrightarrow> ar_id k = i"
  shows "file_held (repaired io held r fs) i =
    (if i = ar_id r then file_target io held r (file_held fs i) else file_held fs i)"
proof (cases "held (ar_id r)")
  case None
  then show ?thesis by (simp add: repaired_def file_target_def)
next
  case (Some k)
  then have k: "ar_id k = ar_id r" by (rule assms)
  show ?thesis
  proof (cases "file_upsert (su_repair_ok io (ar_id r)) k fs")
    case (Inl e)
    then have "\<not> (su_repair_ok io (ar_id r) \<and> file_usable (ar_id r))"
      by (auto simp: file_upsert_def file_usable_def k split: option.splits if_splits)
    with Some Inl show ?thesis by (auto simp: repaired_def file_target_def)
  next
    case (Inr fs1)
    then have "su_repair_ok io (ar_id r)"
      by (auto simp: file_upsert_def split: option.splits if_splits)
    with Some Inr k file_backend.upsert_held [OF Inr] show ?thesis
      by (auto simp: repaired_def file_target_def)
  qed
qed

lemma compare_records_file:
  assumes "compare_records io held rs fs = (fs', copies, un)"
    and "distinct (map ar_id rs)" and "\<And>i k. held i = Some k \<Longrightarrow> ar_id k = i"
  shows "file_held fs' i =
    (case map_of (map (\<lambda>r. (ar_id r, r)) rs) i of
       None \<Rightarrow> file_held fs i | Some r \<Rightarrow> file_target io held r (file_held fs i))"
  using assms(1,2)
proof (induction rs arbitrary: fs copies un)
  case (Cons r rs)
  have no: "map_of (map (\<lambda>r. (ar_id r, r)) rs) (ar_id r) = None"
    using Cons.prems(2) by (simp add: map_of_keyed_None)
  obtain c u where "compare_records io held rs (repaired io held r fs) = (fs', c, u)"
    using compare_records_step [OF Cons.prems(1)] by blast
  from Cons.IH [OF this] Cons.prems(2) no repaired_held [of held io r fs i, OF assms(3)]
  show ?case by (cases "i = ar_id r") (auto split: option.split)
qed simp

definition needs_copy :: "(string \<Rightarrow> approval_record option) \<Rightarrow> approval_record \<Rightarrow> bool" where
  "needs_copy held r \<longleftrightarrow>
     (case held (ar_id r) of None \<Rightarrow> True | Some k \<Rightarrow> k \<noteq> r \<and> \<not> undoes_a_final_decision k r)"

lemma compare_records_copies:
  "compare_records io held rs fs = (fs', copies, un) \<Longrightarrow> copies = filter (needs_copy held) rs"
proof (induction rs arbitrary: fs fs' copies un)
  case (Cons r rs)
  then show ?case
    using needs_copy_def [of held r]
    by (auto dest!: Cons.IH split: option.splits if_splits prod.splits sum.splits)
qed simp

lemma compare_records_wf:
  "compare_records io held rs fs = (fs', copies, un) \<Longrightarrow> file_wf fs \<Longrightarrow> file_wf fs'"
  by (induction rs arbitrary: fs fs' copies un)
    (auto split: option.splits if_splits prod.splits sum.splits dest: file_backend.wf_upsert)

lemma copy_records_all:
  assumes "copy_records io rs db = (db', True)" and "distinct (map ar_id rs)"
  shows "sqlite_held db' i =
    (case map_of (map (\<lambda>r. (ar_id r, r)) rs) i of None \<Rightarrow> sqlite_held db i | Some r \<Rightarrow> Some (Readable r))"
  using assms
proof (induction rs arbitrary: db)
  case (Cons r rs)
  then obtain db1 where u: "sqlite_upsert (su_copy_ok io (ar_id r)) r db = Inr db1"
    and c: "copy_records io rs db1 = (db', True)"
    by (auto split: sum.splits)
  have no: "map_of (map (\<lambda>r. (ar_id r, r)) rs) (ar_id r) = None"
    using Cons.prems(2) by (simp add: map_of_keyed_None)
  have "sqlite_held db1 = (sqlite_held db)(ar_id r \<mapsto> Readable r)"
    using sqlite_backend.upsert_held [OF u] by simp
  with Cons.IH [OF c] Cons.prems(2) no show ?case by (auto split: option.split)
qed simp

lemma copy_records_wf: "copy_records io rs db = (db', b) \<Longrightarrow> sqlite_wf db \<Longrightarrow> sqlite_wf db'"
  by (induction rs arbitrary: db) (auto split: sum.splits dest: sqlite_backend.wf_upsert)


lemma copy_records_distinct: "distinct (map ar_id rs) \<Longrightarrow> distinct (map ar_id (filter P rs))"
  by (induction rs) auto

lemma file_list_ids_distinct:
  assumes "file_wf fs"
  shows "distinct (map ar_id (file_list fs status session_id))"
proof -
  have keys: "map_of (fs_records fs) k = Some (Readable r) \<Longrightarrow> ar_id r = k" for k r
    using assms by (simp add: file_wf_def)
  have gen: "distinct (map ar_id (List.map_filter (\<lambda>(name, s). valid_record s) xs))"
    if "distinct (map fst xs)" "\<And>k r. (k, Readable r) \<in> set xs \<Longrightarrow> ar_id r = k" for xs
    using that
  proof (induction xs)
    case (Cons x xs)
    let ?rest = "List.map_filter (\<lambda>(name, s). valid_record s) xs"
    have ih: "distinct (map ar_id ?rest)" using Cons by simp
    have rest: "\<exists>k. (k, Readable r) \<in> set xs" if "r \<in> set ?rest" for r
      using that by (auto simp: set_map_filter_iff)
    show ?case
    proof (cases "snd x")
      case (Readable r)
      have "ar_id r = fst x" using Cons.prems(2) [of "fst x" r] Readable by (cases x) simp
      moreover have "fst x \<notin> ar_id ` set ?rest"
      proof
        assume "fst x \<in> ar_id ` set ?rest"
        then obtain r' where "r' \<in> set ?rest" and id': "ar_id r' = fst x" by auto
        then obtain k where "(k, Readable r') \<in> set xs" using rest by blast
        with Cons.prems(2) [of k r'] id' have "(fst x, Readable r') \<in> set xs" by simp
        then have "fst x \<in> fst ` set xs" by (rule rev_image_eqI) simp
        with Cons.prems(1) show False by simp
      qed
      ultimately show ?thesis using ih Readable by (cases x) (simp add: List.map_filter_simps)
    next
      case Unreadable
      with ih show ?thesis by (cases x) (simp add: List.map_filter_simps)
    qed
  qed (simp add: List.map_filter_simps)
  have d: "distinct (map fst (fs_records fs))" using assms by (simp add: file_wf_def)
  then have "distinct (map fst (sort_desc fst (fs_records fs)))" by simp
  moreover have "(k, Readable r) \<in> set (sort_desc fst (fs_records fs)) \<Longrightarrow> ar_id r = k" for k r
    using keys d by simp
  ultimately have "distinct (map ar_id (filter (wanted status session_id)
      (List.map_filter (\<lambda>(name, s). valid_record s) (sort_desc fst (fs_records fs)))))"
    by (intro copy_records_distinct gen)
  then show ?thesis by (simp add: file_list_def)
qed


text \<open>
  when a start's repairs and copies all land, the two stores agree on every record the file store
  had, and what they agree on is the catch-up rule's choice: SQLite's spent record whatever the file
  says, its rejection unless the file's record is later, and the file's record otherwise.
\<close>

lemma catch_up_agrees:
  assumes "file_wf fs" and "sqlite_wf db" and "\<forall>i. su_repair_ok io i"
    and run: "catch_sqlite_up io fs db = (fs', db', None)"
    and r: "file_get fs i = Inr r"
  shows "file_get fs' i = Inr (caught_up (held_by_sqlite db i) r) \<and>
         sqlite_get db' i = Inr (caught_up (held_by_sqlite db i) r)"
proof -
  let ?held = "held_by_sqlite db" and ?rs = "file_list fs None None"
  have idr: "ar_id r = i" and usable: "file_usable i"
    using file_backend.get_Inr_id [OF assms(1) r] file_backend.get_Inr_held [of fs i r] r by auto
  have rin: "r \<in> set ?rs"
    using file_backend.listing_iff_get [OF assms(1), of r None None] r idr by (simp add: wanted_def)
  have dist: "distinct (map ar_id ?rs)" by (rule file_list_ids_distinct [OF assms(1)])
  have look: "map_of (map (\<lambda>r. (ar_id r, r)) ?rs) i = Some r"
    using map_of_keyed_distinct [OF dist rin] idr by simp
  have held: "?held j = Some k \<longleftrightarrow> sqlite_get db j = Inr k" for j k
    by (simp add: held_by_sqlite_eq [OF assms(2)] split: sum.split)
  have held_id: "ar_id k = j" if "?held j = Some k" for j k
    using that held sqlite_backend.get_Inr_id [OF assms(2)] by blast
  obtain copies un where cmp: "compare_records io ?held ?rs fs = (fs', copies, un)"
    and cpy: "copy_records io copies db = (db', True)"
    using run by (auto simp: catch_sqlite_up_def Let_def split: if_splits prod.splits)
  have "file_held fs' i = file_target io ?held r (file_held fs i)"
    using compare_records_file [OF cmp dist held_id, of i] look by simp
  moreover have "file_held fs i = Some (Readable r)"
    using r file_backend.get_Inr_held by blast
  ultimately have on_file: "file_held fs' i = Some (Readable (caught_up (?held i) r))"
    using idr usable assms(3) by (simp add: file_target_def caught_up_def split: option.split)
  have "sqlite_held db' i =
      (if needs_copy ?held r then Some (Readable r) else sqlite_held db i)"
    using copy_records_all [OF cpy, of i] map_of_keyed_filter [OF dist] look
      compare_records_copies [OF cmp] copy_records_distinct [OF dist]
    by (simp split: if_splits)
  moreover have "sqlite_held db i = Some (Readable k)" if "?held i = Some k" for k
    using that held sqlite_backend.get_Inr_held by blast
  ultimately have "sqlite_held db' i = Some (Readable (caught_up (?held i) r))"
    by (auto simp: needs_copy_def caught_up_def idr split: option.splits)
  then show ?thesis
    using on_file usable file_backend.get_Inr_held sqlite_backend.get_Inr_held by blast
qed


definition all_good :: startup_io where
  "all_good = \<lparr>su_sqlite_starts = True, su_sqlite_lists = True, su_file_lists = True,
     su_repair_ok = (\<lambda>_. True), su_copy_ok = (\<lambda>_. True)\<rparr>"

lemma sample_catch_up:
  "catch_sqlite_up all_good sample_files sample_db =
     (\<lparr>fs_records = [(''a1'', Readable (executed_record 6 sample_record))], fs_arguments = []\<rparr>, sample_db, None)"
  by (simp add: catch_sqlite_up_def all_good_def file_list_def sqlite_list_def held_by_sqlite_def
      sample_files_def sample_db_def sort_desc_def wanted_def row_wanted_def List.map_filter_simps
      undoes_a_final_decision_def KEPT_OVER_THE_FILE_def executed_record_def sample_record_def
      file_upsert_def)

lemma catch_up_agrees_witness:
  "file_get (fst (catch_sqlite_up all_good sample_files sample_db)) ''a1'' =
     Inr (caught_up (held_by_sqlite sample_db ''a1'') sample_record) \<and>
   sqlite_get (fst (snd (catch_sqlite_up all_good sample_files sample_db))) ''a1'' =
     Inr (caught_up (held_by_sqlite sample_db ''a1'') sample_record)"
proof -
  have ok: "\<forall>i. su_repair_ok all_good i" by (simp add: all_good_def)
  have get: "file_get sample_files ''a1'' = Inr sample_record"
    by (simp add: file_get_def sample_files_def)
  show ?thesis
    using catch_up_agrees [OF sample_wf ok sample_catch_up get] by (simp add: sample_catch_up)
qed

section \<open>A spent approval stays spent\<close>

lemma compare_records_step_repaired:
  assumes "compare_records io held (r # rs) fs = (fs', copies, [])"
  shows "\<exists>fs1 c. compare_records io held rs fs1 = (fs', c, [])"
    and "held (ar_id r) = Some k \<Longrightarrow> undoes_a_final_decision k r \<Longrightarrow>
      \<exists>fs1. file_upsert (su_repair_ok io (ar_id r)) k fs = Inr fs1"
  using assms by (auto split: option.splits if_splits prod.splits sum.splits)

lemma compare_records_repaired:
  assumes "compare_records io held rs fs = (fs', copies, [])" and "r \<in> set rs"
    and "held (ar_id r) = Some k" and "ar_id k = ar_id r" and "undoes_a_final_decision k r"
  shows "su_repair_ok io (ar_id r) \<and> file_usable (ar_id r)"
  using assms(1,2)
proof (induction rs arbitrary: fs copies)
  case (Cons x rs)
  show ?case
  proof (cases "r = x")
    case True
    then obtain fs1 where "file_upsert (su_repair_ok io (ar_id r)) k fs = Inr fs1"
      using compare_records_step_repaired(2) Cons.prems(1) assms(3,5) by blast
    then show ?thesis using assms(4)
      by (auto simp: file_upsert_def file_usable_def split: option.splits if_splits)
  next
    case False
    then show ?thesis
      using compare_records_step_repaired(1) [OF Cons.prems(1)] Cons.IH Cons.prems(2) by auto
  qed
qed simp

lemma copy_records_held:
  "copy_records io rs db = (db', ok) \<Longrightarrow>
   sqlite_held db' i = sqlite_held db i \<or> (\<exists>r \<in> set rs. ar_id r = i \<and> sqlite_held db' i = Some (Readable r))"
proof (induction rs arbitrary: db)
  case (Cons r rs)
  show ?case
  proof (cases "sqlite_upsert (su_copy_ok io (ar_id r)) r db")
    case (Inl e)
    with Cons.prems show ?thesis by simp
  next
    case (Inr db1)
    with Cons.prems have "copy_records io rs db1 = (db', ok)" by simp
    from Cons.IH [OF this] sqlite_backend.upsert_held [OF Inr] show ?thesis
      by (auto split: if_splits)
  qed
qed simp

text \<open>
  The catch-up, on an approval SQLite holds as spent and the file store holds in any state: SQLite
  still reads spent, and so does the file store when nothing was left unrepaired.
\<close>

lemma catch_up_keeps_spent:
  assumes "file_wf fs" and "sqlite_wf db"
    and cmp: "compare_records io (held_by_sqlite db) (file_list fs None None) fs = (fs', copies, un)"
    and cpy: "copy_records io copies db = (db', ok)"
    and k: "sqlite_get db i = Inr k" "ar_status k = Executed" and r: "file_get fs i = Inr r"
  shows "\<exists>x. sqlite_get db' i = Inr x \<and> ar_status x = Executed"
    and "un = [] \<Longrightarrow> \<exists>x. file_get fs' i = Inr x \<and> ar_status x = Executed"
proof -
  let ?held = "held_by_sqlite db" and ?rs = "file_list fs None None"
  have idr: "ar_id r = i" and usable: "file_usable i"
    using file_backend.get_Inr_id [OF assms(1) r] file_backend.get_Inr_held [of fs i r] r by auto
  have rin: "r \<in> set ?rs"
    using file_backend.listing_iff_get [OF assms(1), of r None None] r idr by (simp add: wanted_def)
  have dist: "distinct (map ar_id ?rs)" by (rule file_list_ids_distinct [OF assms(1)])
  have look: "map_of (map (\<lambda>r. (ar_id r, r)) ?rs) i = Some r"
    using map_of_keyed_distinct [OF dist rin] idr by simp
  have held: "?held j = Some x \<longleftrightarrow> sqlite_get db j = Inr x" for j x
    by (simp add: held_by_sqlite_eq [OF assms(2)] split: sum.split)
  have held_id: "ar_id x = j" if "?held j = Some x" for j x
    using that held sqlite_backend.get_Inr_id [OF assms(2)] by blast
  have hk: "?held i = Some k" using held k(1) by blast
  have kept: "sqlite_held db i = Some (Readable k)"
    using k(1) sqlite_backend.get_Inr_held by blast
  have spent: "ar_status x = Executed" if "x \<in> set copies" "ar_id x = i" for x
    using that compare_records_copies [OF cmp] hk k(2)
    by (auto simp: needs_copy_def undoes_a_final_decision_def KEPT_OVER_THE_FILE_def split: if_splits)
  have "\<exists>x. sqlite_held db' i = Some (Readable x) \<and> ar_status x = Executed"
    using copy_records_held [OF cpy, of i] kept k(2) spent by auto
  then show "\<exists>x. sqlite_get db' i = Inr x \<and> ar_status x = Executed"
    using sqlite_backend.get_Inr_held by blast
  assume "un = []"
  with cmp have cmp0: "compare_records io ?held ?rs fs = (fs', copies, [])" by simp
  have "file_held fs i = Some (Readable r)" using r file_backend.get_Inr_held by blast
  moreover have "undoes_a_final_decision k r \<Longrightarrow> su_repair_ok io i"
    using compare_records_repaired [OF cmp0 rin, of k] hk idr held_id by simp
  moreover have "\<not> undoes_a_final_decision k r \<Longrightarrow> ar_status r = Executed"
    using k(2) by (auto simp: undoes_a_final_decision_def KEPT_OVER_THE_FILE_def split: if_splits)
  ultimately have "\<exists>x. file_held fs' i = Some (Readable x) \<and> ar_status x = Executed"
    using compare_records_file [OF cmp dist held_id, of i] look hk idr usable k(2)
    by (auto simp: file_target_def)
  then show "\<exists>x. file_get fs' i = Inr x \<and> ar_status x = Executed"
    using usable file_backend.get_Inr_held by blast
qed


text \<open>The copy into SQLite fails here, so the start runs on the repaired file store.\<close>

definition two_files :: file_store where
  "two_files = \<lparr>fs_records = [(''a1'', Readable sample_record), (''b1'', Readable (sample_record\<lparr>ar_id := ''b1''\<rparr>))],
     fs_arguments = []\<rparr>"


section \<open>A clock set back between two writes\<close>

definition rejected_store :: approval_store where
  "rejected_store = file_sample\<lparr>
     as_file := \<lparr>fs_records = [(''a1'', Readable (sample_record\<lparr>ar_status := Rejected, ar_updated_at := 30\<rparr>))],
       fs_arguments = []\<rparr>,
     as_texts := [(''a1'', ''hunter2'', 20)],
     as_sqlite := Some [(''a1'', row_of (sample_record\<lparr>ar_status := Rejected, ar_updated_at := 30\<rparr>))]\<rparr>"

text \<open>
  \<open>_mark_executed\<close> stamps its record with the wall clock as it reads, not with \<open>_later_than\<close> as a
  decision and a give-back do. While SQLite is unavailable and holds a rejection stamped later than the
  clock now reads, an approve, the spend after it and the next start leave the rejection: the spend is
  lost, and an operator's approve would let the action run again.
\<close>

lemma backward_clock_loses_a_spend:
  "let (s1, _) = decide sample_env ''a1'' Approved None Operator rejected_store;
       (s2, m) = mark_executed sample_env ''a1'' s1;
       (s3, _) = startup all_good sample_env s2
   in (case m of Inr r \<Rightarrow> ar_status r = Executed | Inl _ \<Rightarrow> False) \<and>
      (case primary_get s3 ''a1'' of Inr r \<Rightarrow> ar_status r = Rejected | Inl _ \<Rightarrow> False)"
  by code_simp

end
