(* ===== verification/ApprovalFacts.thy ===== *)
theory ApprovalFacts
  imports ApprovalStore
begin

text \<open>
  What the operations of the approval store (ApprovalStore) guarantee: what a write leaves in the two
  backends on every path, what a decision changes, that an agent cannot get round an operator's
  reject, and that a sensitive text comes back exactly as it was asked for.
\<close>

definition store_wf :: "approval_store \<Rightarrow> bool" where
  "store_wf s \<longleftrightarrow> file_wf (as_file s) \<and> (\<forall>db. as_sqlite s = Some db \<longrightarrow> sqlite_wf db)"

text \<open>The two backends hold the same readable records.\<close>

definition stores_agree :: "approval_store \<Rightarrow> bool" where
  "stores_agree s \<longleftrightarrow>
     (\<forall>db. as_sqlite s = Some db \<longrightarrow> (\<forall>i r. file_get (as_file s) i = Inr r \<longleftrightarrow> sqlite_get db i = Inr r))"

section \<open>A write\<close>

lemma file_upsert_arguments: "file_upsert ok r fs = Inr fs' \<Longrightarrow> fs_arguments fs' = fs_arguments fs"
  by (auto simp: file_upsert_def split: option.splits if_splits)

lemma put_the_file_back_wf:
  "file_wf fs \<Longrightarrow> file_wf (put_the_file_back io i before fs)"
  unfolding put_the_file_back_def
  by (cases before) (auto split: sum.split intro: file_wf_remove file_backend.wf_upsert)

lemma put_the_file_back_arguments [simp]:
  "fs_arguments (put_the_file_back io i before fs) = fs_arguments fs"
  by (auto simp: put_the_file_back_def file_upsert_arguments file_held_remove split: option.splits sum.splits)

lemma store_write_cases:
  assumes "store_write io r s = (s', e)"
  obtains (unchanged) x where "s' = s" and "e = Some x"
  | (file_only) fs where "\<not> primary_is_sqlite s" and "file_upsert (io_file_ok io) r (as_file s) = Inr fs"
      and "s' = s\<lparr>as_file := fs\<rparr>" and "e = None"
  | (both) fs db db' where "primary_is_sqlite s" and "as_sqlite s = Some db"
      and "file_upsert (io_file_ok io) r (as_file s) = Inr fs"
      and "sqlite_upsert (io_sqlite_ok io) r db = Inr db'"
      and "s' = s\<lparr>as_file := fs, as_sqlite := Some db'\<rparr>" and "e = None"
  | (put_back) fs db x where "primary_is_sqlite s" and "as_sqlite s = Some db"
      and "file_upsert (io_file_ok io) r (as_file s) = Inr fs"
      and "s' = s\<lparr>as_file := put_the_file_back io (ar_id r)
             (case sqlite_get db (ar_id r) of Inl _ \<Rightarrow> None | Inr b \<Rightarrow> Some b) fs\<rparr>" and "e = Some x"
proof (cases "primary_is_sqlite s")
  case False
  show ?thesis
  proof (cases "file_upsert (io_file_ok io) r (as_file s)")
    case (Inl x)
    with False assms have "s' = s" "e = Some x" by (simp_all add: store_write_def)
    then show ?thesis by (rule unchanged)
  next
    case (Inr fs)
    with False assms have "s' = s\<lparr>as_file := fs\<rparr>" "e = None" by (simp_all add: store_write_def)
    with False Inr show ?thesis by (rule file_only)
  qed
next
  case True
  then obtain db where db: "as_sqlite s = Some db" by (auto simp: primary_is_sqlite_def)
  show ?thesis
  proof (cases "io_before_ok io")
    case False
    with True assms have "s' = s" "e = Some StoreFailure" by (simp_all add: store_write_def)
    then show ?thesis by (rule unchanged)
  next
    case before: True
    show ?thesis
    proof (cases "file_upsert (io_file_ok io) r (as_file s)")
      case (Inl x)
      with True before assms have "s' = s" "e = Some x" by (simp_all add: store_write_def Let_def)
      then show ?thesis by (rule unchanged)
    next
      case fs: (Inr fs)
      show ?thesis
      proof (cases "sqlite_upsert (io_sqlite_ok io) r db")
        case (Inl x)
        with True before fs db assms have "s' = s\<lparr>as_file := put_the_file_back io (ar_id r)
             (case sqlite_get db (ar_id r) of Inl _ \<Rightarrow> None | Inr b \<Rightarrow> Some b) fs\<rparr>" "e = Some x"
          by (simp_all add: store_write_def Let_def)
        with True db fs show ?thesis by (rule put_back)
      next
        case (Inr db')
        with True before fs db assms have "s' = s\<lparr>as_file := fs, as_sqlite := Some db'\<rparr>" "e = None"
          by (simp_all add: store_write_def Let_def)
        with True db fs Inr show ?thesis by (rule both)
      qed
    qed
  qed
qed

lemma store_write_frame:
  assumes "store_write io r s = (s', e)"
  shows "as_heap s' = as_heap s" "as_claims s' = as_claims s" "as_next_hold s' = as_next_hold s"
    "as_texts s' = as_texts s" "as_ttl s' = as_ttl s" "as_audit s' = as_audit s" "as_receipts s' = as_receipts s"
    "as_sqlite_primary s' = as_sqlite_primary s" "primary_is_sqlite s' = primary_is_sqlite s"
    "fs_arguments (as_file s') = fs_arguments (as_file s)"
  using assms by (rule store_write_cases; auto simp: primary_is_sqlite_def file_upsert_arguments)+

lemma store_write_wf: "store_write io r s = (s', e) \<Longrightarrow> store_wf s \<Longrightarrow> store_wf s'"
  by (erule store_write_cases)
    (auto simp: store_wf_def intro: put_the_file_back_wf file_backend.wf_upsert sqlite_backend.wf_upsert)

text \<open>A write that failed left what the primary store reads as it was.\<close>

lemma store_write_failed: "store_write io r s = (s', Some x) \<Longrightarrow> primary_get s' = primary_get s"
  by (erule store_write_cases) (auto simp: primary_get_def primary_is_sqlite_def fun_eq_iff)

lemma store_write_landed:
  assumes "store_write io r s = (s', None)"
  shows "primary_get s' = (primary_get s)(ar_id r := Inr r)"
  using assms
  by (rule store_write_cases)
    (auto simp: primary_get_def primary_is_sqlite_def fun_eq_iff dest: file_backend.get_upsert
      sqlite_backend.get_upsert)

lemma store_write_gets:
  "store_write io r s = (s', e) \<Longrightarrow>
   primary_get s' = (if e = None then (primary_get s)(ar_id r := Inr r) else primary_get s)"
  using store_write_failed store_write_landed by (cases e) auto

text \<open>\<open>_persist\<close> may land and still raise, when its caller was cancelled.\<close>

lemma store_persist_write:
  "store_persist io r s = (s', e) \<Longrightarrow>
   \<exists>e'. store_write io r s = (s', e') \<and> e = (if io_cancelled io then Some CancelledErr else e')"
  by (cases "store_write io r s") (auto simp: store_persist_def)

lemma store_persist_gets:
  assumes "store_persist io r s = (s', e)"
  shows "primary_get s' = (primary_get s)(ar_id r := Inr r) \<or> primary_get s' = primary_get s"
    and "e = None \<Longrightarrow> primary_get s' = (primary_get s)(ar_id r := Inr r)"
proof -
  obtain e' where w: "store_write io r s = (s', e')" and e: "e = (if io_cancelled io then Some CancelledErr else e')"
    using store_persist_write [OF assms] by blast
  show "primary_get s' = (primary_get s)(ar_id r := Inr r) \<or> primary_get s' = primary_get s"
    using store_write_gets [OF w] by auto
  show "e = None \<Longrightarrow> primary_get s' = (primary_get s)(ar_id r := Inr r)"
    using store_write_gets [OF w] e by (auto split: if_splits)
qed

lemma store_persist_frame:
  assumes "store_persist io r s = (s', e)"
  shows "as_heap s' = as_heap s" "as_claims s' = as_claims s" "as_next_hold s' = as_next_hold s"
    "as_texts s' = as_texts s" "as_ttl s' = as_ttl s" "as_audit s' = as_audit s" "as_receipts s' = as_receipts s"
    "primary_is_sqlite s' = primary_is_sqlite s" "fs_arguments (as_file s') = fs_arguments (as_file s)"
proof -
  obtain e' where w: "store_write io r s = (s', e')" using store_persist_write [OF assms] by blast
  show "as_heap s' = as_heap s" "as_claims s' = as_claims s" "as_next_hold s' = as_next_hold s"
    "as_texts s' = as_texts s" "as_ttl s' = as_ttl s" "as_audit s' = as_audit s" "as_receipts s' = as_receipts s"
    "primary_is_sqlite s' = primary_is_sqlite s" "fs_arguments (as_file s') = fs_arguments (as_file s)"
    by (rule store_write_frame [OF w])+
qed

lemma store_persist_wf: "store_persist io r s = (s', e) \<Longrightarrow> store_wf s \<Longrightarrow> store_wf s'"
  using store_persist_write store_write_wf by blast

text \<open>
  a write of a record, however it ends, leaves the file store and SQLite holding the same readable
  records: when SQLite refuses its half, the file is put back to what SQLite still holds.
\<close>

lemma write_keeps_stores_agreeing:
  assumes "store_wf s" and agree: "stores_agree s" and primary: "primary_is_sqlite s"
    and "io_put_back_ok io" and wr: "store_write io r s = (s', e)"
  shows "stores_agree s'"
  using wr
proof (cases rule: store_write_cases)
  case (both fs db db')
  have "file_get fs i = (if i = ar_id r then Inr r else file_get (as_file s) i)"
    "sqlite_get db' i = (if i = ar_id r then Inr r else sqlite_get db i)" for i
    by (simp_all add: file_backend.get_upsert [OF both(3)] sqlite_backend.get_upsert [OF both(4)])
  moreover have "file_get (as_file s) i = Inr x \<longleftrightarrow> sqlite_get db i = Inr x" for i x
    using agree both(2) by (simp add: stores_agree_def)
  ultimately have "file_get fs i = Inr x \<longleftrightarrow> sqlite_get db' i = Inr x" for i x by presburger
  moreover have "as_file s' = fs" "as_sqlite s' = Some db'" using both(5) by simp_all
  ultimately show ?thesis unfolding stores_agree_def by (metis option.inject)
next
  case (put_back fs db x)
  have usable: "file_usable (ar_id r)" and held: "file_held fs = (file_held (as_file s))(ar_id r \<mapsto> Readable r)"
    using file_backend.upsert_held [OF put_back(3)] by auto
  have wf: "sqlite_wf db" using assms(1) put_back(2) by (simp add: store_wf_def)
  have agree_db: "file_get (as_file s) i = Inr x \<longleftrightarrow> sqlite_get db i = Inr x" for i x
    using agree put_back(2) by (simp add: stores_agree_def)
  let ?fs = "as_file s'"
  have "file_get ?fs i = Inr y \<longleftrightarrow> sqlite_get db i = Inr y" for i y
  proof (cases "sqlite_get db (ar_id r)")
    case (Inl k)
    have "file_remove True (ar_id r) fs = Inr ?fs"
      using put_back(4) Inl \<open>io_put_back_ok io\<close> usable
      by (auto simp: put_the_file_back_def file_usable_def file_remove_def split: option.splits)
    from file_held_remove [OF this] have "file_held ?fs = (file_held (as_file s))(ar_id r := None)"
      using held by auto
    then show ?thesis using agree_db [of i y] Inl by (auto simp: file_backend.get_Inr_held)
  next
    case (Inr b)
    have id: "ar_id b = ar_id r" by (rule sqlite_backend.get_Inr_id [OF wf Inr])
    obtain fs' where "file_upsert True b fs = Inr fs'"
      using file_backend.upsert_ok [of b fs] usable id by auto
    then have "file_upsert True b fs = Inr ?fs"
      using put_back(4) Inr \<open>io_put_back_ok io\<close> by (simp add: put_the_file_back_def)
    from file_backend.upsert_held [OF this] have "file_held ?fs = (file_held (as_file s))(ar_id r \<mapsto> Readable b)"
      using held id by auto
    then show ?thesis using agree_db [of i y] Inr usable by (auto simp: file_backend.get_Inr_held)
  qed
  then show ?thesis using put_back by (simp add: stores_agree_def)
qed (use agree primary in auto)

lemma sample_store_wf: "store_wf file_sample" "store_wf twin_sample" "store_wf pair_sample"
  using sample_wf
  by (auto simp: store_wf_def file_sample_def twin_sample_def pair_sample_def sample_store_def sqlite_wf_def
      file_wf_def file_usable_def pending_record_def sample_record_def split: if_splits)

lemma write_keeps_stores_agreeing_witness:
  "stores_agree (fst (store_write (sample_io\<lparr>io_sqlite_ok := False\<rparr>) (executed_record 20 sample_record) twin_sample))"
proof (rule write_keeps_stores_agreeing [OF sample_store_wf(2)])
  have "file_get sample_files i = Inr r \<longleftrightarrow> sqlite_get [(''a1'', row_of sample_record)] i = Inr r" for i r
    by (cases "i = ''a1''") (auto simp: file_get_def sqlite_get_def sample_files_def split: option.split)
  then show "stores_agree twin_sample"
    by (simp add: stores_agree_def twin_sample_def sample_store_def)
  show "primary_is_sqlite twin_sample"
    by (simp add: primary_is_sqlite_def twin_sample_def sample_store_def)
  show "io_put_back_ok (sample_io\<lparr>io_sqlite_ok := False\<rparr>)" by (simp add: sample_io_def)
qed (rule prod.collapse [symmetric])

section \<open>A decision\<close>

lemma primary_get_id: "store_wf s \<Longrightarrow> primary_get s i = Inr r \<Longrightarrow> ar_id r = i"
  by (auto simp: primary_get_def primary_is_sqlite_def store_wf_def split: if_splits
      dest: file_backend.get_Inr_id sqlite_backend.get_Inr_id)

lemma store_get_Inr [simp]: "store_get io s i = Inr r \<longleftrightarrow> io_read_ok io i \<and> primary_get s i = Inr r"
  by (simp add: store_get_def)

lemma store_list_iff:
  "store_wf s \<Longrightarrow> r \<in> set (store_list s status session_id) \<longleftrightarrow>
     primary_get s (ar_id r) = Inr r \<and> wanted status session_id r"
  by (auto simp: store_list_def primary_get_def primary_is_sqlite_def store_wf_def
      file_backend.listing_iff_get sqlite_backend.listing_iff_get)

lemma same_texts: "\<exists>t. (s :: approval_store) = s\<lparr>as_texts := t\<rparr>"
  by (rule exI [of _ "as_texts s"]) simp

lemma refuse_texts_only:
  "refuse_what_is_no_longer_whole m r s = (s', x) \<Longrightarrow> \<exists>t. s' = s\<lparr>as_texts := t\<rparr>"
  by (auto simp: refuse_what_is_no_longer_whole_def held_text_def prune_sensitive_texts_def Let_def
      simp del: not_None_eq intro: same_texts split: if_splits option.splits)

lemma later_than_later: "later_than now t > t"
  by (simp add: later_than_def)

lemma primary_get_texts [simp]: "primary_get (s\<lparr>as_texts := t\<rparr>) = primary_get s"
  by (simp add: fun_eq_iff primary_get_def primary_is_sqlite_def)

lemma primary_get_memory [simp]:
  "primary_get (s\<lparr>as_heap := hp\<rparr>) = primary_get s"
  "primary_get (s\<lparr>as_claims := cl\<rparr>) = primary_get s"
  "primary_get (s\<lparr>as_next_hold := n\<rparr>) = primary_get s"
  "primary_get (s\<lparr>as_audit := au\<rparr>) = primary_get s"
  "primary_get (s\<lparr>as_receipts := rc\<rparr>) = primary_get s"
  by (simp_all add: fun_eq_iff primary_get_def primary_is_sqlite_def)

lemma store_wf_memory [simp]:
  "store_wf (s\<lparr>as_heap := hp\<rparr>) = store_wf s"
  "store_wf (s\<lparr>as_claims := cl\<rparr>) = store_wf s"
  "store_wf (s\<lparr>as_next_hold := n\<rparr>) = store_wf s"
  "store_wf (s\<lparr>as_audit := au\<rparr>) = store_wf s"
  "store_wf (s\<lparr>as_receipts := rc\<rparr>) = store_wf s"
  "store_wf (s\<lparr>as_texts := t\<rparr>) = store_wf s"
  by (simp_all add: store_wf_def)

lemma primary_get_set_hold [simp]: "primary_get (set_hold h x s) = primary_get s"
  by (simp add: fun_eq_iff primary_get_def primary_is_sqlite_def set_hold_def)

lemma drop_text_texts: "drop_text i s = s\<lparr>as_texts := AList.delete i (as_texts s)\<rparr>"
  by (simp add: drop_text_def)

text \<open>How a decision on a record that is not spent goes, up to its write.\<close>

lemma decide_unspent:
  assumes "decide env i st c via s = (s', res)" and r: "store_get (env_io env) s i = Inr r"
    and "ar_status r \<noteq> Executed"
  obtains (refused) e t where "res = Inl e" and "s' = s\<lparr>as_texts := t\<rparr>"
  | (decided) t x where "via = Agent \<longrightarrow> ar_status r = Pending"
      and "via = Agent \<longrightarrow> st = Approved \<longrightarrow> \<not> operator_rejected s r"
      and "store_persist (env_io env) (decided_record (env_now env) (as_ttl s) st c via r)
             (s\<lparr>as_texts := t\<rparr>) = (s', x)"
      and "res = (case x of Some e \<Rightarrow> Inl e
             | None \<Rightarrow> Inr \<lparr>dec_record = decided_record (env_now env) (as_ttl s) st c via r, dec_on_claim = None\<rparr>)"
proof -
  have same: "s = s\<lparr>as_texts := as_texts s\<rparr>" by simp
  show ?thesis
  proof (cases "(via = Agent \<and> ar_status r \<noteq> Pending) \<or> (via = Agent \<and> st = Approved \<and> operator_rejected s r)")
    case True
    then have "\<exists>e. res = Inl e" and "s' = s" using assms by (auto simp: decide_def split: if_splits)
    with refused same show ?thesis by metis
  next
    case False
    obtain s1 x where w: "(if st = Approved then refuse_what_is_no_longer_whole (env_monotonic env) r s
        else (s, None)) = (s1, x)" by (metis prod.exhaust)
    then obtain t1 where t1: "s1 = s\<lparr>as_texts := t1\<rparr>"
      using refuse_texts_only same by (metis prod.inject)
    have c: "(ar_status r = Executed) = False" "(via = Agent \<and> ar_status r \<noteq> Pending) = False"
      "(via = Agent \<and> st = Approved \<and> operator_rejected s r) = False" using False assms(3) by auto
    note d = assms(1) [unfolded decide_def r sum.case c if_False w Let_def prod.case]
    show ?thesis
    proof (cases x)
      case (Some e)
      then have "res = Inl e" "s' = s1" using d by simp_all
      with refused t1 show ?thesis by metis
    next
      case None
      let ?r = "decided_record (env_now env) (as_ttl s) st c via r"
      obtain t2 where t2: "(if st = Approved then s1 else drop_text i s1) = s\<lparr>as_texts := t2\<rparr>"
        using t1 by (cases "st = Approved") (simp_all add: drop_text_texts)
      obtain s3 y where p: "store_persist (env_io env) ?r (s\<lparr>as_texts := t2\<rparr>) = (s3, y)"
        by (metis prod.exhaust)
      have "as_ttl s1 = as_ttl s" using t1 by simp
      with d None p t2 have "s3 = s'" and "res = (case y of Some e \<Rightarrow> Inl e
             | None \<Rightarrow> Inr \<lparr>dec_record = ?r, dec_on_claim = None\<rparr>)" by (auto split: option.splits)
      with decided [of t2 y] p False show ?thesis by blast
    qed
  qed
qed

lemma decided_record_simps [simp]:
  "ar_id (decided_record now ttl st c via r) = ar_id r"
  "ar_status (decided_record now ttl st c via r) = st"
  "ar_action (decided_record now ttl st c via r) = ar_action r"
  "ar_session_id (decided_record now ttl st c via r) = ar_session_id r"
  "ar_kind (decided_record now ttl st c via r) = ar_kind r"
  "ar_owner (decided_record now ttl st c via r) = ar_owner r"
  "ar_origin (decided_record now ttl st c via r) = ar_origin r"
  "ar_decided_via (decided_record now ttl st c via r) = Some via"
  "ar_updated_at (decided_record now ttl st c via r) > ar_updated_at r"
  by (simp_all add: decided_record_def Let_def later_than_later)

lemma decide_result:
  assumes wf: "store_wf s" and run: "decide env i st c via s = (s', res)"
  shows "case res of
      Inl e \<Rightarrow> e = CancelledErr \<or> (primary_get s' = primary_get s \<and> as_heap s' = as_heap s)
    | Inr d \<Rightarrow>
        (case dec_on_claim d of
           None \<Rightarrow> \<exists>r. primary_get s i = Inr r \<and> ar_status r \<noteq> Executed \<and> (via = Agent \<longrightarrow> ar_status r = Pending) \<and>
             dec_record d = decided_record (env_now env) (as_ttl s) st c via r \<and>
             primary_get s' = (primary_get s)(i := Inr (dec_record d)) \<and> as_heap s' = as_heap s \<and>
             ar_updated_at (dec_record d) > ar_updated_at r
         | Some _ \<Rightarrow> via \<noteq> Agent \<and> (\<exists>r h. primary_get s i = Inr r \<and> ar_status r = Executed \<and>
             map_of (as_claims s) i = Some h \<and> h_may_give_back (as_heap s h) \<and> \<not> h_effect (as_heap s h) \<and>
             primary_get s' = primary_get s \<and>
             as_heap s' = (as_heap s)(h := (as_heap s h)
               \<lparr>h_rejection := (if st = Rejected then Some (c, via) else None)\<rparr>)))"
proof (cases "store_get (env_io env) s i")
  case (Inl e)
  with run show ?thesis by (auto simp: decide_def)
next
  case r: (Inr r)
  then have pr: "primary_get s i = Inr r" by simp
  have id: "ar_id r = i" by (rule primary_get_id [OF wf pr])
  show ?thesis
  proof (cases "ar_status r = Executed")
    case True
    with run r have claimed: "decide_claimed r st c via s = (s', res)" by (simp add: decide_def)
    show ?thesis
    proof (cases "map_of (as_claims s) i")
      case None
      with claimed id show ?thesis by (auto simp: decide_claimed_def)
    next
      case (Some h)
      with claimed id pr True show ?thesis
        by (auto simp: decide_claimed_def Let_def set_hold_def split: if_splits)
    qed
  next
    case False
    from run r False show ?thesis
    proof (cases rule: decide_unspent)
      case (refused e t)
      then show ?thesis by simp
    next
      case (decided t x)
      note gets = store_persist_gets [OF decided(3)] and frame = store_persist_frame [OF decided(3)]
      show ?thesis
      proof (cases x)
        case None
        with decided gets(2) frame(1) pr False id show ?thesis by simp
      next
        case (Some e)
        have "e = CancelledErr \<or> primary_get s' = primary_get s"
          using store_persist_write [OF decided(3)] store_write_failed Some
          by (metis option.inject primary_get_texts)
        with decided Some frame(1) show ?thesis by auto
      qed
    qed
  qed
qed

text \<open>
  what a decision does. Refused, it changes no record and no hold (a caller cancelled while its
  record was written is told so, and the record may have been written). Made on a record that is not
  spent, it writes exactly that record, decided and later than before, an agent's only over a pending
  one. Made on a spent one, it comes from an operator, the action has not begun and could still be given
  back, and it changes only the reject that waits on the hold.
\<close>

lemma decide_outcome:
  assumes wf: "store_wf s" and run: "decide env i st c via s = (s', res)"
  shows "case res of
      Inl e \<Rightarrow> e = CancelledErr \<or> (primary_get s' = primary_get s \<and> as_heap s' = as_heap s)
    | Inr d \<Rightarrow>
        (case dec_on_claim d of
           None \<Rightarrow> \<exists>r. primary_get s i = Inr r \<and> ar_status r \<noteq> Executed \<and> (via = Agent \<longrightarrow> ar_status r = Pending) \<and>
             dec_record d = decided_record (env_now env) (as_ttl s) st c via r \<and>
             primary_get s' = (primary_get s)(i := Inr (dec_record d)) \<and> as_heap s' = as_heap s \<and>
             ar_updated_at (dec_record d) > ar_updated_at r
         | Some _ \<Rightarrow> via \<noteq> Agent \<and> (\<exists>r h. primary_get s i = Inr r \<and> ar_status r = Executed \<and>
             map_of (as_claims s) i = Some h \<and> h_may_give_back (as_heap s h) \<and> \<not> h_effect (as_heap s h) \<and>
             primary_get s' = primary_get s \<and>
             as_heap s' = (as_heap s)(h := (as_heap s h)
               \<lparr>h_rejection := (if st = Rejected then Some (c, via) else None)\<rparr>)))"
  using assms by (rule decide_result)

text \<open>An operator's reject of the sample approval, written by the file store.\<close>

lemma sample_reject:
  "decide sample_env ''a1'' Rejected None Operator pair_sample =
     (fst (decide sample_env ''a1'' Rejected None Operator pair_sample),
      Inr \<lparr>dec_record = decided_record 20 (minutes_us 15) Rejected None Operator sample_record, dec_on_claim = None\<rparr>)"
  using pair_gets
  by (simp add: prod_eq_iff decide_def store_get_def sample_env_def sample_io_def store_persist_def store_write_def
      drop_text_texts primary_is_sqlite_def pair_sample_def file_sample_def sample_store_def file_upsert_def
      sample_record_def decided_record_def Let_def)

lemma decide_outcome_witness:
  "primary_get (fst (decide sample_env ''a1'' Rejected None Operator pair_sample)) ''a1'' =
     Inr (decided_record 20 (minutes_us 15) Rejected None Operator sample_record)"
  using decide_outcome [OF sample_store_wf(3) sample_reject] by auto



section \<open>A sensitive text\<close>

lemma map_of_filter_first: "map_of xs k = Some v \<Longrightarrow> P (k, v) \<Longrightarrow> map_of (filter P xs) k = Some v"
  by (induction xs) (auto split: if_splits)

lemma held_text_after_hold:
  assumes "\<not> kept_at < m - SENSITIVE_TEXT_RETENTION"
  shows "snd (held_text m r (hold_text kept_at (ar_id r) t s)) = Some t"
proof -
  have "map_of (as_texts (hold_text kept_at (ar_id r) t s)) (ar_id r) = Some (t, kept_at)"
    by (simp add: hold_text_def Let_def alist_lookup)
  from map_of_filter_first [OF this, of "\<lambda>(_, _, k). \<not> k < m - SENSITIVE_TEXT_RETENTION"] assms
  show ?thesis by (simp add: held_text_def prune_sensitive_texts_def Let_def)
qed

lemma match_needs_held_text:
  assumes "actions_match digest (ar_action r) a" "act_sensitive a" "truthy (act_text a)"
  shows "needs_held_text r"
    and "bound_fields ((ar_action r)\<lparr>act_text := Some (the (act_text a))\<rparr>) = bound_fields a"
proof -
  have eq: "bound_fields (ar_action r) = bound_fields (stored_action digest a)"
    using assms(1) by (simp add: actions_match_def)
  have st: "act_text (ar_action r) = act_text (stored_action digest a)" "act_sensitive (ar_action r)"
    using bound_fields_eqD(1,2) [OF eq] assms(2) by simp_all
  then show "needs_held_text r"
    using assms by (simp add: needs_held_text_def Let_def stored_action_def SENSITIVE_TEXT_PREFIX_def starts_with_def)
  let ?t = "Some (the (act_text a))"
  have push: "bound_fields (x\<lparr>act_text := ?t\<rparr>) = (bound_fields x)\<lparr>act_text := ?t\<rparr>" for x
    by (simp add: bound_fields_def)
  have "(stored_action digest a)\<lparr>act_text := ?t\<rparr> = a\<lparr>act_text := ?t\<rparr>" by (simp add: stored_action_def)
  moreover have "a\<lparr>act_text := ?t\<rparr> = a" using assms(3) by (cases "act_text a") (auto simp: truthy_def)
  ultimately show "bound_fields ((ar_action r)\<lparr>act_text := ?t\<rparr>) = bound_fields a"
    using eq push by metis
qed

lemma create_result:
  assumes "create_or_reuse_pending env sid kind reason a obs origin args s = (s', Inr r)"
    and "act_sensitive a" "truthy (act_text a)"
  shows "actions_match (env_digest env) (ar_action r) a \<and>
    (\<exists>s0. s' = hold_text (env_monotonic env) (ar_id r) (the (act_text a)) s0)"
proof (cases "find_matching_pending env (sweep_arguments env False s) sid kind a (verified_operator (env_operator env)) origin")
  case (Some x)
  then have "actions_match (env_digest env) (ar_action x) a"
    by (auto simp: find_matching_pending_def find_Some_iff)
  with Some assms show ?thesis by (auto simp: create_or_reuse_pending_def Let_def)
next
  case None
  with assms show ?thesis
    by (auto simp: create_or_reuse_pending_def Let_def new_approval_def split: sum.splits prod.splits option.splits)
qed

text \<open>
  what an approval of a sensitive action runs is what was asked: within the retention, the executable
  action carries every bound field of the request, the text included, although the record keeps only
  the text's digest.
\<close>

lemma sensitive_text_comes_back:
  assumes "create_or_reuse_pending env sid kind reason a obs origin args s = (s', Inr r)"
    and "act_sensitive a" and "truthy (act_text a)"
    and "m \<le> env_monotonic env + SENSITIVE_TEXT_RETENTION"
  shows "\<exists>x. snd (executable_action m r s') = Inr x \<and> bound_fields x = bound_fields a"
proof -
  obtain s0 where m: "actions_match (env_digest env) (ar_action r) a"
    and s': "s' = hold_text (env_monotonic env) (ar_id r) (the (act_text a)) s0"
    using create_result [OF assms(1-3)] by blast
  have "snd (held_text m r s') = Some (the (act_text a))"
    unfolding s' by (rule held_text_after_hold) (use assms(4) in simp)
  then have "snd (executable_action m r s') = Inr ((ar_action r)\<lparr>act_text := Some (the (act_text a))\<rparr>)"
    using match_needs_held_text(1) [OF m assms(2,3)]
    by (auto simp: executable_action_def split: prod.splits)
  then show ?thesis using match_needs_held_text(2) [OF m assms(2,3)] by blast
qed

lemma sensitive_text_comes_back_witness:
  "\<exists>x. snd (executable_action 25
      (new_approval sample_env ''s1'' KWrite ''r'' sample_action None ActionOrigin None)
      (fst (create_or_reuse_pending sample_env ''s1'' KWrite ''r'' sample_action None ActionOrigin None file_sample)))
     = Inr x \<and> bound_fields x = bound_fields sample_action"
proof (rule sensitive_text_comes_back)
  show "create_or_reuse_pending sample_env ''s1'' KWrite ''r'' sample_action None ActionOrigin None file_sample =
    (fst (create_or_reuse_pending sample_env ''s1'' KWrite ''r'' sample_action None ActionOrigin None file_sample),
     Inr (new_approval sample_env ''s1'' KWrite ''r'' sample_action None ActionOrigin None))"
    by (simp add: prod_eq_iff create_or_reuse_pending_def sweep_arguments_def arguments_ids_def file_sample_def
        sample_store_def sample_files_def find_matching_pending_def store_list_def primary_is_sqlite_def
        file_list_def sort_desc_def wanted_def sample_record_def List.map_filter_simps store_persist_def
        store_write_def file_upsert_def new_approval_def sample_env_def sample_io_def Let_def)
qed (simp_all add: sample_action_def sample_env_def SENSITIVE_TEXT_RETENTION_def minutes_us_def)

section \<open>The check of an approval a request carries\<close>

lemma match_bound_fields:
  assumes inj: "\<And>s t. digest s = digest t \<Longrightarrow> s = t"
    and m: "actions_match digest (stored_action digest b) a"
  shows "bound_fields a = bound_fields b"
proof (cases "act_sensitive b \<and> truthy (act_text b)")
  case True
  then show ?thesis using stored_match_same_text [OF inj _ _ m] by simp
next
  case False
  have eq: "bound_fields (stored_action digest b) = bound_fields (stored_action digest a)"
    using m by (simp add: actions_match_def)
  have "act_sensitive b = act_sensitive a" "truthy (act_text b) = truthy (act_text a)"
    using bound_fields_eqD(1,2) [OF eq] truthy_stored [of digest] by (simp, metis)
  with False eq show ?thesis by (simp add: stored_action_plain)
qed

lemma require_approved_Inr:
  assumes "require_approved env i sid kind a origin ctx s = Inr r"
  shows "primary_get s i = Inr r \<and> ar_session_id r = sid \<and> ar_kind r = kind \<and> ar_origin r = origin \<and>
    actions_match (env_digest env) (ar_action r) a \<and>
    (sid = CONTROLLER_SCOPE \<longrightarrow> may_use (env_operator env) (ar_owner r)) \<and>
    (if active_hold (as_heap s) ctx i \<noteq> None then ar_status r = Executed
     else ar_status r = Approved \<and> \<not> has_expired (env_check_now env) r)"
proof -
  have "store_get (env_io env) s i = Inr r \<and> ar_session_id r = sid \<and> ar_kind r = kind \<and> ar_origin r = origin \<and>
    actions_match (env_digest env) (ar_action r) a \<and>
    (sid = CONTROLLER_SCOPE \<longrightarrow> may_use (env_operator env) (ar_owner r)) \<and>
    (if active_hold (as_heap s) ctx i \<noteq> None then ar_status r = Executed
     else ar_status r = Approved \<and> \<not> has_expired (env_check_now env) r)"
    using assms unfolding require_approved_def Let_def
    by (simp_all split: sum.splits if_splits)
  then show ?thesis by simp
qed

lemma approved_only_for_its_request:
  assumes "\<And>s t. env_digest env s = env_digest env t \<Longrightarrow> s = t"
    and "require_approved env i sid kind a origin ctx s = Inr r"
    and "ar_action r = stored_action (env_digest env) b"
  shows "primary_get s i = Inr r \<and> ar_session_id r = sid \<and> ar_kind r = kind \<and> ar_origin r = origin \<and>
    bound_fields a = bound_fields b \<and>
    (sid = CONTROLLER_SCOPE \<longrightarrow> may_use (env_operator env) (ar_owner r)) \<and>
    (if active_hold (as_heap s) ctx i \<noteq> None then ar_status r = Executed
     else ar_status r = Approved \<and> \<not> has_expired (env_check_now env) r)"
proof -
  have m: "actions_match (env_digest env) (ar_action r) a" using require_approved_Inr [OF assms(2)] by blast
  show ?thesis
    using require_approved_Inr [OF assms(2)] match_bound_fields [OF assms(1) m [unfolded assms(3)]] by blast
qed

text \<open>
  an approval a request carries passes only for what it was asked for: it is of the request's
  session, kind and origin, in controller scope of an owner the operator may use, and approved and not
  expired unless the very task that asks holds it and so has spent it; and, with a digest that tells
  texts apart, the request's bound fields are those of the request the approval was made from.
\<close>

lemma require_approved_only_for_its_request:
  assumes "\<And>s t. env_digest env s = env_digest env t \<Longrightarrow> s = t"
    and "require_approved env i sid kind a origin ctx s = Inr r"
    and "ar_action r = stored_action (env_digest env) b"
  shows "primary_get s i = Inr r \<and> ar_session_id r = sid \<and> ar_kind r = kind \<and> ar_origin r = origin \<and>
    bound_fields a = bound_fields b \<and>
    (sid = CONTROLLER_SCOPE \<longrightarrow> may_use (env_operator env) (ar_owner r)) \<and>
    (if active_hold (as_heap s) ctx i \<noteq> None then ar_status r = Executed
     else ar_status r = Approved \<and> \<not> has_expired (env_check_now env) r)"
  using assms by (rule approved_only_for_its_request)

lemma require_approved_only_for_its_request_witness:
  "bound_fields (sample_action\<lparr>act_reason := ''again''\<rparr>) = bound_fields sample_action \<and>
   \<not> has_expired (env_check_now sample_env) sample_record"
proof -
  have passes: "require_approved sample_env ''a1'' ''s1'' KWrite (sample_action\<lparr>act_reason := ''again''\<rparr>) ActionOrigin []
      file_sample = Inr sample_record"
    using sample_gets(1)
    by (simp add: require_approved_def store_get_def sample_env_def sample_io_def sample_record_def Let_def
        active_hold_def CONTROLLER_SCOPE_def has_expired_def actions_match_def bound_fields_def stored_action_def
        sample_action_def)
  show ?thesis
    using require_approved_only_for_its_request [OF _ passes, of sample_action]
    by (simp add: active_hold_def sample_env_def sample_record_def)
qed

end
