(* ===== verification/ApprovalExecution.thy ===== *)
theory ApprovalExecution
  imports ApprovalFacts
begin

text \<open>
  \<open>held_for_execution\<close> (approval_execution.py): the block every approved action runs in. Its pieces are
  the stretches between two awaits at which another task may run: entering (the claim, then
  \<open>may_give_back\<close>), the decision to give back (which closes the hold to its tasks), the write that gives
  back, and leaving. \<open>held_for_execution\<close> composes them for a task that runs alone.
\<close>

text \<open>What the block raises or returns: an ending, or the failure of the give-back.\<close>

datatype outcome = Ended ending | GiveBackFailed approval_error

definition enter_execution ::
  "approval_env \<Rightarrow> string \<Rightarrow> bool \<Rightarrow> exn \<Rightarrow> hold_context \<Rightarrow> approval_store \<Rightarrow>
   approval_store \<times> hold_context \<times> (approval_error + hold_id option)" where
  "enter_execution env approval_id may_give_back x ctx s =
     (case claim_execution env approval_id ctx s of
        (s', ctx', Inl e) \<Rightarrow>
          (if e = CancelledErr then s' else s'\<lparr>as_heap := refused_before_effect x ctx' (as_heap s')\<rparr>, ctx', Inl e)
      | (s', ctx', Inr None) \<Rightarrow> (s', ctx', Inr None)
      | (s', ctx', Inr (Some h)) \<Rightarrow>
          (set_hold h ((as_heap s' h)\<lparr>h_may_give_back := may_give_back\<rparr>) s', ctx', Inr (Some h)))"

definition begin_give_back :: "hold_id \<Rightarrow> ending \<Rightarrow> approval_store \<Rightarrow> approval_store" where
  "begin_give_back h ended s =
     (let hold = as_heap s h in
      set_hold h (hold\<lparr>h_gives_back_on_its_own := gives_back_on_its_own hold ended, h_active := False\<rparr>) s)"

text \<open>
  The rest of \<open>give_back\<close>: the store, whether the approval is still spent, and what is raised.
  \<open>cancelled\<close>: the caller was cancelled while the record or its audit was written.
\<close>

definition finish_give_back ::
  "approval_env \<Rightarrow> bool \<Rightarrow> hold_id \<Rightarrow> ending \<Rightarrow> approval_store \<Rightarrow> approval_store \<times> bool \<times> outcome" where
  "finish_give_back env cancelled h ended s =
     (case give_back env h s of
        (s', Inl e) \<Rightarrow> (s', True, GiveBackFailed (if cancelled then CancelledErr else e))
      | (s', Inr None) \<Rightarrow> (s', True, Ended (if cancelled then CancelledEnding else ended))
      | (s', Inr (Some r)) \<Rightarrow>
          let ended' = (case ended of Raised e \<Rightarrow> Raised (report_given_back e r (has_expired (env_check_now env) r))
                        | _ \<Rightarrow> ended)
          in (record_given_back env r s', False, Ended (if cancelled then CancelledEnding else ended')))"

definition leave_execution ::
  "approval_env \<Rightarrow> hold_id \<Rightarrow> bool \<Rightarrow> hold_context \<Rightarrow> approval_store \<Rightarrow> approval_store \<times> hold_context" where
  "leave_execution env h spent ctx s =
     (let hold = as_heap s h;
          (s1, ctx') = release_execution h spent ctx s;
          s2 = (if spent \<and> h_origin hold = ToolCallOrigin then discard_arguments (env_io env) (h_approval_id hold) s1 else s1);
          s3 = (if spent \<and> h_rejection hold \<noteq> None then record_rejection_not_applied env h s2 else s2)
      in (s3, ctx'))"

definition end_execution ::
  "approval_env \<Rightarrow> bool \<Rightarrow> hold_id \<Rightarrow> ending \<Rightarrow> hold_context \<Rightarrow> approval_store \<Rightarrow>
   approval_store \<times> hold_context \<times> outcome" where
  "end_execution env cancelled h ended ctx s =
     (let hold = as_heap s h;
          (s1, spent, out) =
            (if gives_back hold ended then finish_give_back env cancelled h ended (begin_give_back h ended s)
             else (if ended \<noteq> Returned \<and> h_claim_cancelled hold then record_cancelled_claim env h s else s,
                   True, Ended ended));
          (s2, ctx') = leave_execution env h spent ctx s1
      in (s2, ctx', out))"

type_synonym block = "hold_context \<Rightarrow> approval_store \<Rightarrow> approval_store \<times> ending"

definition held_for_execution ::
  "approval_env \<Rightarrow> approval_env \<Rightarrow> string \<Rightarrow> bool \<Rightarrow> exn \<Rightarrow> bool \<Rightarrow> block \<Rightarrow> hold_context \<Rightarrow> approval_store \<Rightarrow>
   approval_store \<times> hold_context \<times> (approval_error + outcome)" where
  "held_for_execution env env' approval_id may_give_back x cancelled body ctx s =
     (case enter_execution env approval_id may_give_back x ctx s of
        (s1, ctx1, Inl e) \<Rightarrow> (s1, ctx1, Inl e)
      | (s1, ctx1, Inr None) \<Rightarrow> (case body ctx1 s1 of (s2, ended) \<Rightarrow> (s2, ctx1, Inr (Ended ended)))
      | (s1, ctx1, Inr (Some h)) \<Rightarrow>
          (case (if h_claim_cancelled (as_heap s1 h) then (s1, CancelledEnding) else body ctx1 s1) of
             (s2, ended) \<Rightarrow>
               (case end_execution env' cancelled h ended ctx1 s2 of (s3, ctx3, out) \<Rightarrow> (s3, ctx3, Inr out))))"

section \<open>What each piece leaves alone\<close>

lemma append_audit_frame [simp]:
  "as_heap (append_audit io a s) = as_heap s" "as_claims (append_audit io a s) = as_claims s"
  "as_next_hold (append_audit io a s) = as_next_hold s" "primary_get (append_audit io a s) = primary_get s"
  "store_wf (append_audit io a s) = store_wf s"
  by (simp_all add: append_audit_def split: option.split)

lemma record_given_back_frame [simp]:
  "as_heap (record_given_back env r s) = as_heap s" "as_claims (record_given_back env r s) = as_claims s"
  "as_next_hold (record_given_back env r s) = as_next_hold s"
  "primary_get (record_given_back env r s) = primary_get s"
  "store_wf (record_given_back env r s) = store_wf s"
  unfolding record_given_back_def Let_def by (auto split: option.split)

lemma record_cancelled_claim_frame [simp]:
  "as_heap (record_cancelled_claim env h s) = as_heap s"
  "as_claims (record_cancelled_claim env h s) = as_claims s"
  "as_next_hold (record_cancelled_claim env h s) = as_next_hold s"
  "primary_get (record_cancelled_claim env h s) = primary_get s"
  "store_wf (record_cancelled_claim env h s) = store_wf s"
  by (simp_all add: record_cancelled_claim_def split: sum.split)

lemma record_rejection_not_applied_frame [simp]:
  "as_heap (record_rejection_not_applied env h s) = as_heap s"
  "as_claims (record_rejection_not_applied env h s) = as_claims s"
  "as_next_hold (record_rejection_not_applied env h s) = as_next_hold s"
  "primary_get (record_rejection_not_applied env h s) = primary_get s"
  "store_wf (record_rejection_not_applied env h s) = store_wf s"
  by (simp_all add: record_rejection_not_applied_def split: sum.split option.split prod.split)

section \<open>How an execution ends\<close>

lemma store_write_succeeds:
  assumes "io_file_ok io" "io_sqlite_ok io" "io_before_ok io" "file_usable (ar_id r)"
  shows "\<exists>s'. store_write io r s = (s', None)"
proof -
  obtain fs where "file_upsert True r (as_file s) = Inr fs"
    using file_backend.upsert_ok [OF assms(4)] by blast
  then show ?thesis using assms
    by (auto simp: store_write_def sqlite_upsert_def Let_def)
qed

lemma given_back_record_simps [simp]:
  "ar_id (given_back_record now hold r) = ar_id r"
  "ar_action (given_back_record now hold r) = ar_action r"
  "ar_status (given_back_record now hold r) = (if h_rejection hold = None then Approved else Rejected)"
  "ar_updated_at (given_back_record now hold r) = later_than now (ar_updated_at r)"
  by (auto simp: given_back_record_def Let_def split: option.splits)

text \<open>Leaving drops the claim and the task's own mark, and changes no record.\<close>

lemma leave_execution_result:
  assumes "leave_execution env h spent ctx s = (s', ctx')"
    and "distinct (map fst (as_claims s))" and "distinct (map fst ctx)"
  shows "primary_get s' = primary_get s" and "\<not> h_active (as_heap s' h)"
    and "map_of (as_claims s') (h_approval_id (as_heap s h)) \<noteq> Some h"
    and "map_of ctx' (h_approval_id (as_heap s h)) \<noteq> Some h"
proof -
  let ?i = "h_approval_id (as_heap s h)"
  obtain s1 where rel: "release_execution h spent ctx s = (s1, ctx')"
    using assms(1) by (auto simp: leave_execution_def Let_def split: prod.splits)
  have s1: "primary_get s1 = primary_get s" "as_heap s1 = (as_heap s)(h := (as_heap s h)\<lparr>h_active := False\<rparr>)"
    "map_of (as_claims s1) ?i \<noteq> Some h" "map_of ctx' ?i \<noteq> Some h"
    using rel assms(2,3)
    by (auto simp: release_execution_def revoke_execution_def set_hold_def Let_def drop_text_texts alist_lookup
        split: if_splits)
  let ?s2 = "if spent \<and> h_origin (as_heap s h) = ToolCallOrigin then discard_arguments (env_io env) ?i s1 else s1"
  have s2: "primary_get ?s2 = primary_get s1" "as_heap ?s2 = as_heap s1" "as_claims ?s2 = as_claims s1"
    by (simp_all add: fun_eq_iff)
  have "s' = ?s2 \<or> s' = record_rejection_not_applied env h ?s2"
    using assms(1) rel by (auto simp: leave_execution_def Let_def simp del: not_None_eq split: if_splits)
  then have "primary_get s' = primary_get s1 \<and> as_heap s' = as_heap s1 \<and> as_claims s' = as_claims s1"
    using s2 by (elim disjE) (simp_all del: not_None_eq)
  with s1 show "primary_get s' = primary_get s" "\<not> h_active (as_heap s' h)"
    "map_of (as_claims s') ?i \<noteq> Some h" "map_of ctx' ?i \<noteq> Some h" by simp_all
qed

lemma give_back_result:
  assumes wf: "store_wf s" and r: "primary_get s (h_approval_id (as_heap s h)) = Inr r"
    and due: "h_rejection (as_heap s h) \<noteq> None \<or> h_gives_back_on_its_own (as_heap s h)"
    and usable: "file_usable (h_approval_id (as_heap s h))"
    and io: "io_read_ok (env_io env) (h_approval_id (as_heap s h))" "io_before_ok (env_io env)"
      "io_file_ok (env_io env)" "io_sqlite_ok (env_io env)" "\<not> io_cancelled (env_io env)"
  obtains s' where "give_back env h s = (s', Inr (Some (given_back_record (env_now env) (as_heap s h) r)))"
    and "primary_get s' = (primary_get s)(h_approval_id (as_heap s h) :=
           Inr (given_back_record (env_now env) (as_heap s h) r))"
    and "as_heap s' = as_heap s" and "as_claims s' = as_claims s"
proof -
  let ?i = "h_approval_id (as_heap s h)" and ?r = "given_back_record (env_now env) (as_heap s h) r"
  have id: "ar_id ?r = ?i" using primary_get_id [OF wf r] by simp
  let ?s1 = "if h_rejection (as_heap s h) \<noteq> None then drop_text ?i s else s"
  have s1: "primary_get ?s1 = primary_get s" "as_heap ?s1 = as_heap s" "as_claims ?s1 = as_claims s"
    by (simp_all add: drop_text_texts del: not_None_eq)
  have "file_usable (ar_id ?r)" using usable id by simp
  then obtain s' where w: "store_write (env_io env) ?r ?s1 = (s', None)"
    using store_write_succeeds io by blast
  have g: "store_get (env_io env) s ?i = Inr r" using r io(1) by simp
  have "give_back env h s = (s', Inr (Some ?r))"
    using due io(5) w g by (simp add: give_back_def Let_def store_persist_def del: not_None_eq store_get_Inr)
  then show ?thesis
    using that store_write_landed [OF w, unfolded id] store_write_frame(1,2) [OF w] s1 by simp
qed

lemma end_execution_result:
  assumes wf: "store_wf s" and r: "primary_get s (h_approval_id (as_heap s h)) = Inr r"
    and usable: "file_usable (h_approval_id (as_heap s h))"
    and io: "io_read_ok (env_io env) (h_approval_id (as_heap s h))" "io_before_ok (env_io env)"
      "io_file_ok (env_io env)" "io_sqlite_ok (env_io env)" "\<not> io_cancelled (env_io env)"
    and d: "distinct (map fst (as_claims s))" "distinct (map fst ctx)"
    and run: "end_execution env cancelled h ended ctx s = (s', ctx', out)"
  shows "primary_get s' = (if gives_back (as_heap s h) ended
      then (primary_get s)(h_approval_id (as_heap s h) := Inr (given_back_record (env_now env) (as_heap s h) r))
      else primary_get s)"
    and "\<not> h_active (as_heap s' h)" and "map_of (as_claims s') (h_approval_id (as_heap s h)) \<noteq> Some h"
    and "map_of ctx' (h_approval_id (as_heap s h)) \<noteq> Some h"
    and "gives_back (as_heap s h) ended \<Longrightarrow> \<not> cancelled \<Longrightarrow> ended = Raised e \<Longrightarrow>
      \<exists>e' n. out = Ended (Raised e') \<and> exn_id e' = exn_id e \<and> exn_notes e' = exn_notes e @ [n] \<and>
        note_approval_id n = h_approval_id (as_heap s h)"
proof -
  let ?i = "h_approval_id (as_heap s h)" and ?hold = "as_heap s h"
  let ?R = "given_back_record (env_now env) ?hold r"
  obtain s1 spent where mid: "(if gives_back ?hold ended
        then finish_give_back env cancelled h ended (begin_give_back h ended s)
        else (if ended \<noteq> Returned \<and> h_claim_cancelled ?hold then record_cancelled_claim env h s else s,
              True, Ended ended)) = (s1, spent, out)"
    and lv: "leave_execution env h spent ctx s1 = (s', ctx')"
    using run by (auto simp: end_execution_def Let_def split: prod.splits)
  have "primary_get s1 = (if gives_back ?hold ended then (primary_get s)(?i := Inr ?R) else primary_get s) \<and>
      as_claims s1 = as_claims s \<and> h_approval_id (as_heap s1 h) = ?i \<and>
      (gives_back ?hold ended \<longrightarrow> \<not> cancelled \<longrightarrow> ended = Raised e \<longrightarrow>
        out = Ended (Raised (report_given_back e ?R (has_expired (env_check_now env) ?R))))"
  proof (cases "gives_back ?hold ended")
    case False
    with mid show ?thesis by (cases "ended \<noteq> Returned \<and> h_claim_cancelled ?hold") auto
  next
    case True
    let ?b = "begin_give_back h ended s"
    have b: "primary_get ?b = primary_get s" "store_wf ?b" "as_claims ?b = as_claims s"
      "h_approval_id (as_heap ?b h) = ?i" "h_rejection (as_heap ?b h) = h_rejection ?hold"
      "h_gives_back_on_its_own (as_heap ?b h) = gives_back_on_its_own ?hold ended"
      using wf by (simp_all add: begin_give_back_def Let_def set_hold_def)
    have same: "given_back_record (env_now env) (as_heap ?b h) r = ?R"
      using b(5) by (simp add: given_back_record_def Let_def)
    have due: "h_rejection (as_heap ?b h) \<noteq> None \<or> h_gives_back_on_its_own (as_heap ?b h)"
      using True b(5,6) by (auto simp: gives_back_def simp del: not_None_eq split: if_splits)
    obtain s2 where g: "give_back env h ?b = (s2, Inr (Some ?R))"
      and s2: "primary_get s2 = (primary_get s)(?i := Inr ?R)" "as_heap s2 = as_heap ?b" "as_claims s2 = as_claims s"
      using give_back_result [OF b(2) _ due, unfolded b(1,3,4), OF r usable io, unfolded same] by metis
    have "s1 = record_given_back env ?R s2" and "ended = Raised e \<Longrightarrow> \<not> cancelled \<Longrightarrow>
        out = Ended (Raised (report_given_back e ?R (has_expired (env_check_now env) ?R)))"
      using mid True g by (auto simp: finish_give_back_def Let_def)
    with s2 b(4) True show ?thesis by simp
  qed
  note m = this
  have "distinct (map fst (as_claims s1))" using m d(1) by simp
  from leave_execution_result [OF lv this d(2)] m
  show "primary_get s' = (if gives_back ?hold ended then (primary_get s)(?i := Inr ?R) else primary_get s)"
    "\<not> h_active (as_heap s' h)" "map_of (as_claims s') ?i \<noteq> Some h" "map_of ctx' ?i \<noteq> Some h" by simp_all
  have "ar_id ?R = ?i" using primary_get_id [OF wf r] by simp
  then show "gives_back ?hold ended \<Longrightarrow> \<not> cancelled \<Longrightarrow> ended = Raised e \<Longrightarrow>
      \<exists>e' n. out = Ended (Raised e') \<and> exn_id e' = exn_id e \<and> exn_notes e' = exn_notes e @ [n] \<and>
        note_approval_id n = ?i"
    using m report_given_back_appends [of e ?R "has_expired (env_check_now env) ?R"] by auto
qed


text \<open>A claimed sample: the approval spent, its hold refused before the effect.\<close>

definition sample_refusal :: exn where
  "sample_refusal = \<lparr>exn_id = 1, exn_kind = BrowserActionError, exn_notes = [], exn_answer = None\<rparr>"

definition held_sample :: approval_store where
  "held_sample = file_sample\<lparr>
     as_file := \<lparr>fs_records = [(''a1'', Readable (executed_record 20 sample_record))], fs_arguments = []\<rparr>,
     as_claims := [(''a1'', 0)], as_next_hold := 1,
     as_heap := (\<lambda>_. (new_hold ''a1'' ActionOrigin)\<lparr>h_may_give_back := True, h_refusal := Some sample_refusal\<rparr>)\<rparr>"


end
