(* ===== verification/Machines.thy ===== *)
theory Machines
  imports Prelude
begin

text \<open>
  The interface of the library's state machines: a step relation and a property every step keeps. A
  component interprets it on its own step relation and gets the property in every state it can reach.
\<close>

locale machine =
  fixes step :: "'s \<Rightarrow> 's \<Rightarrow> bool" and inv :: "'s \<Rightarrow> bool"
  assumes step_keeps: "inv s \<Longrightarrow> step s t \<Longrightarrow> inv t"
begin

lemma run_keeps: "step\<^sup>*\<^sup>* s t \<Longrightarrow> inv s \<Longrightarrow> inv t"
  by (induction rule: rtranclp_induct) (auto intro: step_keeps)

lemma run_consequence: "step\<^sup>*\<^sup>* s t \<Longrightarrow> inv s \<Longrightarrow> (\<And>x. inv x \<Longrightarrow> P x) \<Longrightarrow> P t"
  using run_keeps by blast

end

text \<open>A machine with a quantity no step takes down.\<close>

locale monotone_machine = machine +
  fixes size_of :: "'s \<Rightarrow> 'm :: order"
  assumes step_grows: "inv s \<Longrightarrow> step s t \<Longrightarrow> size_of s \<le> size_of t"
begin

lemma run_grows: "step\<^sup>*\<^sup>* s t \<Longrightarrow> inv s \<Longrightarrow> size_of s \<le> size_of t"
proof (induction rule: rtranclp_induct)
  case (step t u)
  then show ?case using step_grows run_keeps order_trans by blast
qed simp

end

end
