(* ===== verification/ApprovalSystem.thy ===== *)
theory ApprovalSystem
  imports ApprovalExecution Machines
begin

text \<open>
  The approval subsystem as a whole: one store, any number of tasks, and their operations interleaved
  at the points the code gives up control. The steps are the operations of ApprovalStore and the pieces
  of \<open>held_for_execution\<close>; two ghost components say where each execution block is and which holds' effects
  have begun, in order.
\<close>

datatype phase = Unused | Running | Ending ending | Closed bool | Gone

record approval_system =
  sys_store :: approval_store
  sys_phase :: "hold_id \<Rightarrow> phase"
  sys_effects :: "hold_id list"

text \<open>A context a task of this process may carry: holds made here, each under its approval's id.\<close>

definition carries :: "approval_store \<Rightarrow> hold_context \<Rightarrow> bool" where
  "carries s ctx \<longleftrightarrow> distinct (map fst ctx) \<and>
     (\<forall>(i, h) \<in> set ctx. h < as_next_hold s \<and> h_approval_id (as_heap s h) = i)"

lemma carriesD: "carries s ctx \<Longrightarrow> (i, h) \<in> set ctx \<Longrightarrow> h < as_next_hold s \<and> h_approval_id (as_heap s h) = i"
  by (auto simp: carries_def)

text \<open>\<open>uuid4\<close> does not repeat an id an execution has held.\<close>

definition fresh_id :: "approval_store \<Rightarrow> string \<Rightarrow> bool" where
  "fresh_id s i \<longleftrightarrow> (\<forall>h < as_next_hold s. h_approval_id (as_heap s h) \<noteq> i)"

inductive approval_step :: "approval_system \<Rightarrow> approval_system \<Rightarrow> bool" where
  Asked: "create_or_reuse_pending env sid kind reason a obs origin args (sys_store \<sigma>) = (s', res) \<Longrightarrow>
    fresh_id (sys_store \<sigma>) (env_new_id env) \<Longrightarrow> approval_step \<sigma> (\<sigma>\<lparr>sys_store := s'\<rparr>)"
| Decided: "decide env i st c via (sys_store \<sigma>) = (s', d) \<Longrightarrow> approval_step \<sigma> (\<sigma>\<lparr>sys_store := s'\<rparr>)"
| Marked: "mark_executed env i (sys_store \<sigma>) = (s', m) \<Longrightarrow> approval_step \<sigma> (\<sigma>\<lparr>sys_store := s'\<rparr>)"
| TextRead: "executable_action m r (sys_store \<sigma>) = (s', x) \<Longrightarrow> approval_step \<sigma> (\<sigma>\<lparr>sys_store := s'\<rparr>)"
| Entered: "carries (sys_store \<sigma>) ctx \<Longrightarrow>
    enter_execution env i may x ctx (sys_store \<sigma>) = (s', ctx', entered) \<Longrightarrow>
    approval_step \<sigma> (\<sigma>\<lparr>sys_store := s',
      sys_phase := (case entered of Inr (Some h) \<Rightarrow> (sys_phase \<sigma>)(h := Running) | _ \<Rightarrow> sys_phase \<sigma>)\<rparr>)"
| EffectStarted: "carries (sys_store \<sigma>) ctx \<Longrightarrow>
    effect_started ctx (as_heap (sys_store \<sigma>)) = (hp, e) \<Longrightarrow>
    approval_step \<sigma> (\<sigma>\<lparr>sys_store := (sys_store \<sigma>)\<lparr>as_heap := hp\<rparr>,
      sys_effects := (if e = None then sys_effects \<sigma> @ map snd ctx else sys_effects \<sigma>)\<rparr>)"
| Refused: "carries (sys_store \<sigma>) ctx \<Longrightarrow>
    approval_step \<sigma> (\<sigma>\<lparr>sys_store := (sys_store \<sigma>)\<lparr>as_heap :=
      refused_before_effect x ctx (as_heap (sys_store \<sigma>))\<rparr>\<rparr>)"
| GivingBack: "sys_phase \<sigma> h = Running \<Longrightarrow> gives_back (as_heap (sys_store \<sigma>) h) ended \<Longrightarrow>
    approval_step \<sigma> (\<sigma>\<lparr>sys_store := begin_give_back h ended (sys_store \<sigma>),
      sys_phase := (sys_phase \<sigma>)(h := Ending ended)\<rparr>)"
| GivenBack: "sys_phase \<sigma> h = Ending ended \<Longrightarrow>
    finish_give_back env cancelled h ended (sys_store \<sigma>) = (s', spent, out) \<Longrightarrow>
    approval_step \<sigma> (\<sigma>\<lparr>sys_store := s', sys_phase := (sys_phase \<sigma>)(h := Closed spent)\<rparr>)"
| CancelledClaim: "sys_phase \<sigma> h = Running \<Longrightarrow>
    approval_step \<sigma> (\<sigma>\<lparr>sys_store := record_cancelled_claim env h (sys_store \<sigma>)\<rparr>)"
| Left: "(sys_phase \<sigma> h = Running \<and> \<not> gives_back (as_heap (sys_store \<sigma>) h) ended \<and> spent) \<or>
      sys_phase \<sigma> h = Closed spent \<Longrightarrow>
    leave_execution env h spent ctx (sys_store \<sigma>) = (s', ctx') \<Longrightarrow>
    approval_step \<sigma> (\<sigma>\<lparr>sys_store := s', sys_phase := (sys_phase \<sigma>)(h := Gone)\<rparr>)"

inductive_simps approval_step_iff: "approval_step \<sigma> \<tau>"

text \<open>A store just started: no hold yet.\<close>

definition starts :: "approval_system \<Rightarrow> bool" where
  "starts \<sigma> \<longleftrightarrow> store_wf (sys_store \<sigma>) \<and> as_next_hold (sys_store \<sigma>) = 0 \<and>
     (\<forall>h. sys_phase \<sigma> h = Unused) \<and> sys_effects \<sigma> = []"

section \<open>The invariant\<close>

text \<open>A hold keeps its approval from being run by another.\<close>

definition holding :: "approval_system \<Rightarrow> hold_id \<Rightarrow> bool" where
  "holding \<sigma> h \<longleftrightarrow> h < as_next_hold (sys_store \<sigma>) \<and>
     (sys_phase \<sigma> h = Running \<or> (\<exists>e. sys_phase \<sigma> h = Ending e) \<or> h_effect (as_heap (sys_store \<sigma>) h))"

abbreviation hold_of :: "approval_system \<Rightarrow> hold_id \<Rightarrow> execution_hold" where
  "hold_of \<sigma> h \<equiv> as_heap (sys_store \<sigma>) h"

definition spent_in :: "approval_store \<Rightarrow> string \<Rightarrow> bool" where
  "spent_in s i \<longleftrightarrow> (\<exists>r. primary_get s i = Inr r \<and> ar_status r = Executed)"

definition phases_ok :: "approval_system \<Rightarrow> bool" where
  "phases_ok \<sigma> \<longleftrightarrow> (\<forall>h. (sys_phase \<sigma> h = Unused \<longleftrightarrow> as_next_hold (sys_store \<sigma>) \<le> h) \<and>
     (h < as_next_hold (sys_store \<sigma>) \<longrightarrow> h_active (hold_of \<sigma> h) \<longrightarrow> sys_phase \<sigma> h = Running) \<and>
     (\<forall>e. sys_phase \<sigma> h = Ending e \<longrightarrow> \<not> h_effect (hold_of \<sigma> h)))"

definition holders_ok :: "approval_system \<Rightarrow> bool" where
  "holders_ok \<sigma> \<longleftrightarrow>
     (\<forall>h. holding \<sigma> h \<longrightarrow> spent_in (sys_store \<sigma>) (h_approval_id (hold_of \<sigma> h))) \<and>
     (\<forall>h k. holding \<sigma> h \<longrightarrow> holding \<sigma> k \<longrightarrow> h_approval_id (hold_of \<sigma> h) = h_approval_id (hold_of \<sigma> k) \<longrightarrow> h = k)"

definition effects_ok :: "approval_system \<Rightarrow> bool" where
  "effects_ok \<sigma> \<longleftrightarrow>
     (\<forall>h \<in> set (sys_effects \<sigma>). h < as_next_hold (sys_store \<sigma>) \<and> h_effect (hold_of \<sigma> h)) \<and>
     distinct (filter (\<lambda>h. h_origin (hold_of \<sigma> h) = ActionOrigin) (sys_effects \<sigma>))"

definition system_ok :: "approval_system \<Rightarrow> bool" where
  "system_ok \<sigma> \<longleftrightarrow> store_wf (sys_store \<sigma>) \<and> phases_ok \<sigma> \<and> holders_ok \<sigma> \<and> effects_ok \<sigma>"

definition same_holds :: "approval_store \<Rightarrow> approval_store \<Rightarrow> bool" where
  "same_holds s s' \<longleftrightarrow> as_next_hold s' = as_next_hold s \<and>
     (\<forall>h. h_approval_id (as_heap s' h) = h_approval_id (as_heap s h) \<and>
          h_origin (as_heap s' h) = h_origin (as_heap s h) \<and>
          h_effect (as_heap s' h) = h_effect (as_heap s h) \<and>
          (h_active (as_heap s' h) \<longrightarrow> h_active (as_heap s h)))"

text \<open>A step that starts no hold and no effect keeps the invariant when it keeps the holders' records spent.\<close>

lemma shrinking_step:
  assumes ok: "system_ok \<sigma>" and wf: "store_wf (sys_store \<tau>)"
    and same: "same_holds (sys_store \<sigma>) (sys_store \<tau>)" and eff: "sys_effects \<tau> = sys_effects \<sigma>"
    and ph: "phases_ok \<tau>" and hold: "\<And>h. holding \<tau> h \<Longrightarrow> holding \<sigma> h"
    and spent: "\<And>h. holding \<tau> h \<Longrightarrow> spent_in (sys_store \<sigma>) (h_approval_id (hold_of \<sigma> h)) \<Longrightarrow>
      spent_in (sys_store \<tau>) (h_approval_id (hold_of \<sigma> h))"
  shows "system_ok \<tau>"
proof -
  have ids: "h_approval_id (hold_of \<tau> h) = h_approval_id (hold_of \<sigma> h)"
    "h_origin (hold_of \<tau> h) = h_origin (hold_of \<sigma> h)" "h_effect (hold_of \<tau> h) = h_effect (hold_of \<sigma> h)"
    "as_next_hold (sys_store \<tau>) = as_next_hold (sys_store \<sigma>)" for h
    using same by (simp_all add: same_holds_def)
  have "holders_ok \<tau>"
    unfolding holders_ok_def ids
    using ok hold spent unfolding system_ok_def holders_ok_def by meson
  moreover have "effects_ok \<tau>"
    using ok unfolding system_ok_def effects_ok_def ids eff by simp
  ultimately show ?thesis using wf ph by (simp add: system_ok_def)
qed

lemma quiet_step:
  assumes ok: "system_ok \<sigma>" and wf: "store_wf s'" and same: "same_holds (sys_store \<sigma>) s'"
    and spent: "\<And>h. h < as_next_hold (sys_store \<sigma>) \<Longrightarrow>
      spent_in (sys_store \<sigma>) (h_approval_id (hold_of \<sigma> h)) \<Longrightarrow> spent_in s' (h_approval_id (hold_of \<sigma> h))"
  shows "system_ok (\<sigma>\<lparr>sys_store := s'\<rparr>)"
proof (rule shrinking_step [OF ok])
  show "phases_ok (\<sigma>\<lparr>sys_store := s'\<rparr>)"
    using ok same by (auto simp: system_ok_def phases_ok_def same_holds_def)
qed (use wf same spent in \<open>auto simp: holding_def same_holds_def\<close>)

lemma same_holds_heap:
  "as_heap s' = as_heap s \<Longrightarrow> as_next_hold s' = as_next_hold s \<Longrightarrow> same_holds s s'"
  by (simp add: same_holds_def)

lemma spent_in_gets: "primary_get s' = primary_get s \<Longrightarrow> spent_in s' = spent_in s"
  by (simp add: fun_eq_iff spent_in_def)

lemma spent_in_memory [simp]:
  "spent_in (s\<lparr>as_heap := hp\<rparr>) = spent_in s" "spent_in (s\<lparr>as_texts := t\<rparr>) = spent_in s"
  "spent_in (set_hold h x s) = spent_in s"
  by (simp_all add: fun_eq_iff spent_in_def)

section \<open>What the operations of the store do to holds and spent records\<close>

lemma hold_text_texts: "\<exists>t. hold_text m i x s = s\<lparr>as_texts := t\<rparr>"
  by (simp add: hold_text_def prune_sensitive_texts_def Let_def) (metis)

lemma store_wf_arguments:
  "store_wf (s\<lparr>as_file := fs\<rparr>) = store_wf s" if "fs_records fs = fs_records (as_file s)"
  using that by (simp add: store_wf_def file_wf_def)

lemma sweep_arguments_gets:
  "primary_get (sweep_arguments env b s) = primary_get s" "store_wf (sweep_arguments env b s) = store_wf s"
  by (simp_all add: fun_eq_iff store_wf_def file_wf_def)

lemma write_arguments_records: "write_arguments ok i t fs = Inr fs' \<Longrightarrow> fs_records fs' = fs_records fs"
  by (auto simp: write_arguments_def split: option.splits if_splits)

lemma primary_get_arguments:
  "primary_get (s\<lparr>as_file := fs\<rparr>) = primary_get s" if "fs_records fs = fs_records (as_file s)"
  using that by (simp add: fun_eq_iff primary_get_def primary_is_sqlite_def file_get_def split: option.split)

text \<open>Asking writes at most the fresh record and touches no hold.\<close>

lemma create_effect:
  assumes "create_or_reuse_pending env sid kind reason a obs origin args s = (s', res)"
  shows "as_heap s' = as_heap s \<and> as_next_hold s' = as_next_hold s \<and> (store_wf s \<longrightarrow> store_wf s') \<and>
    (\<forall>i. i \<noteq> env_new_id env \<longrightarrow> primary_get s' i = primary_get s i)"
proof -
  let ?s1 = "sweep_arguments env False s"
  let ?r = "new_approval env sid kind reason a obs origin args"
  have texts: "as_heap (hold_text m i x t) = as_heap t" "as_next_hold (hold_text m i x t) = as_next_hold t"
    "primary_get (hold_text m i x t) = primary_get t" "store_wf (hold_text m i x t) = store_wf t" for m i x t
    using hold_text_texts [of m i x t] by auto
  have id: "ar_id ?r = env_new_id env" by (simp add: new_approval_def)
  show ?thesis
  proof (cases "find_matching_pending env ?s1 sid kind a (verified_operator (env_operator env)) origin")
    case (Some x)
    then have "s' = ?s1 \<or> (\<exists>m i x. s' = hold_text m i x ?s1)"
      using assms by (auto simp: create_or_reuse_pending_def Let_def split: if_splits)
    then show ?thesis using texts by (auto simp: sweep_arguments_gets)
  next
    case None
    note c = assms [unfolded create_or_reuse_pending_def Let_def None option.case]
    let ?w = "case args of None \<Rightarrow> Inr (as_file ?s1)
      | Some t \<Rightarrow> write_arguments (io_arguments_ok (env_io env) (ar_id ?r)) (ar_id ?r) t (as_file ?s1)"
    show ?thesis
    proof (cases ?w)
      case (Inl e)
      then have "s' = ?s1" using c by simp
      then show ?thesis by (simp add: sweep_arguments_gets)
    next
      case (Inr fs)
      then have fs: "fs_records fs = fs_records (as_file ?s1)"
        by (auto dest: write_arguments_records split: option.splits)
      obtain s2 e where p: "store_persist (env_io env) ?r (?s1\<lparr>as_file := fs\<rparr>) = (s2, e)" by (metis prod.exhaust)
      have "s' = s2 \<or> (\<exists>m i x. s' = hold_text m i x s2)"
        using c Inr p by (auto split: option.splits if_splits)
      moreover have "as_heap s2 = as_heap s" "as_next_hold s2 = as_next_hold s"
        using store_persist_frame(1,3) [OF p] by simp_all
      moreover have "store_wf s \<longrightarrow> store_wf s2"
        using store_persist_wf [OF p] fs by (simp add: store_wf_arguments sweep_arguments_gets)
      moreover have "i \<noteq> env_new_id env \<longrightarrow> primary_get s2 i = primary_get s i" for i
        using store_persist_gets(1) [OF p] fs id
        by (auto simp: primary_get_arguments sweep_arguments_gets)
      ultimately show ?thesis using texts by auto
    qed
  qed
qed

lemma spent_in_upd:
  "spent_in s i \<Longrightarrow> primary_get s' = primary_get s \<or> primary_get s' = (primary_get s)(j := Inr r) \<and>
     (j \<noteq> i \<or> ar_status r = Executed) \<Longrightarrow> spent_in s' i"
  by (auto simp: spent_in_def)

lemma decide_claimed_store:
  "decide_claimed r st c via s = (s', res) \<Longrightarrow>
   s' = s \<or> (\<exists>h x. s' = set_hold h ((as_heap s h)\<lparr>h_rejection := x\<rparr>) s)"
  unfolding decide_claimed_def Let_def
  by (simp split: option.splits if_splits) (metis fst_conv)+

text \<open>A decision changes the record of an approval only while it is not spent, and no hold's state.\<close>

lemma decide_effect:
  assumes "store_wf s" and "decide env i st c via s = (s', res)"
  shows "store_wf s' \<and> same_holds s s' \<and> (\<forall>k. spent_in s k \<longrightarrow> spent_in s' k)"
proof (cases "store_get (env_io env) s i")
  case (Inl e)
  with assms show ?thesis by (simp add: decide_def same_holds_def)
next
  case r: (Inr r)
  then have pr: "primary_get s i = Inr r" by simp
  then have id: "ar_id r = i" by (rule primary_get_id [OF assms(1)])
  show ?thesis
  proof (cases "ar_status r = Executed")
    case True
    with assms r have c: "decide_claimed r st c via s = (s', res)" by (simp add: decide_def)
    show ?thesis using decide_claimed_store [OF c] assms(1)
      by (auto simp: same_holds_def set_hold_def split: if_splits)
  next
    case False
    from assms(2) r False show ?thesis
    proof (cases rule: decide_unspent)
      case (refused e t)
      then show ?thesis using assms(1) by (simp add: same_holds_def)
    next
      case (decided t x)
      have "spent_in s' k" if "spent_in s k" for k
      proof -
        have "k \<noteq> i" using that pr False by (auto simp: spent_in_def)
        with that store_persist_gets(1) [OF decided(3)] id show ?thesis
          by (auto intro: spent_in_upd)
      qed
      then show ?thesis
        using store_persist_frame(1,3) [OF decided(3)] store_persist_wf [OF decided(3)] assms(1)
        by (simp add: same_holds_def)
    qed
  qed
qed

text \<open>Spending a record: on success the record was approved, and is spent.\<close>

lemma mark_executed_locked_effect:
  assumes "store_wf s" and "mark_executed_locked env i s = (s', res)"
  shows "store_wf s'" and "as_heap s' = as_heap s" and "as_next_hold s' = as_next_hold s"
    and "as_claims s' = as_claims s"
    and "spent_in s k \<Longrightarrow> spent_in s' k"
    and "res = Inr (r, b) \<Longrightarrow> spent_in s' i \<and> \<not> spent_in s i \<and> ar_id r = i"
proof -
  have *: "store_wf s' \<and> as_heap s' = as_heap s \<and> as_next_hold s' = as_next_hold s \<and> as_claims s' = as_claims s \<and>
    (\<forall>k. spent_in s k \<longrightarrow> spent_in s' k) \<and>
    (\<forall>r b. res = Inr (r, b) \<longrightarrow> spent_in s' i \<and> \<not> spent_in s i \<and> ar_id r = i)"
  proof (cases "\<exists>r. store_get (env_io env) s i = Inr r \<and> ar_status r = Approved \<and> \<not> has_expired (env_check_now env) r")
    case False
    with assms have "s' = s \<and> (\<exists>e. res = Inl e)"
      by (auto simp: mark_executed_locked_def simp del: store_get_Inr split: sum.splits if_splits)
    with assms(1) show ?thesis by auto
  next
    case True
    then obtain r where r: "store_get (env_io env) s i = Inr r" "ar_status r = Approved"
      "\<not> has_expired (env_check_now env) r" by blast
    then have pr: "primary_get s i = Inr r" by simp
    have id: "ar_id (executed_record (env_now env) r) = i"
      using primary_get_id [OF assms(1) pr] by (simp add: executed_record_def)
    have ex: "ar_status (executed_record (env_now env) r) = Executed" by (simp add: executed_record_def)
    obtain s1 e where w: "store_write (env_io env) (executed_record (env_now env) r) s = (s1, e)"
      by (metis prod.exhaust)
    have s1: "s' = s1" and res: "res = Inr x \<Longrightarrow> e = None \<and> fst x = executed_record (env_now env) r" for x
      using assms(2) r w by (auto simp: mark_executed_locked_def Let_def simp del: store_get_Inr split: option.splits)
    note gets = store_write_gets [OF w, unfolded id, folded s1]
    have mono: "spent_in s k \<Longrightarrow> spent_in s' k" for k
      using gets ex by (auto intro: spent_in_upd split: if_splits)
    have "spent_in s' i \<and> \<not> spent_in s i \<and> ar_id x = i" if "res = Inr (x, b)" for x b
    proof -
      have "e = None" "x = executed_record (env_now env) r" using res [OF that] by simp_all
      with gets ex pr r(2) id show ?thesis by (simp add: spent_in_def)
    qed
    with mono show ?thesis
      using store_write_frame(1-3) [OF w, folded s1] store_write_wf [OF w assms(1), folded s1] by blast
  qed
  show "store_wf s'" "as_heap s' = as_heap s" "as_next_hold s' = as_next_hold s" "as_claims s' = as_claims s"
    "spent_in s k \<Longrightarrow> spent_in s' k"
    "res = Inr (r, b) \<Longrightarrow> spent_in s' i \<and> \<not> spent_in s i \<and> ar_id r = i"
    using * by auto
qed

text \<open>Entering: a new hold only over a record that was not spent and now is.\<close>

lemma enter_effect:
  assumes wf: "store_wf s" and enter: "enter_execution env i may x ctx s = (s', ctx', res)"
  shows "(\<forall>h. res \<noteq> Inr (Some h)) \<Longrightarrow>
      store_wf s' \<and> same_holds s s' \<and> (\<forall>k. spent_in s k \<longrightarrow> spent_in s' k)"
    and "res = Inr (Some h) \<Longrightarrow>
      store_wf s' \<and> h = as_next_hold s \<and> as_next_hold s' = Suc h \<and> (\<forall>k. k \<noteq> h \<longrightarrow> as_heap s' k = as_heap s k) \<and>
      h_approval_id (as_heap s' h) = i \<and> \<not> h_effect (as_heap s' h) \<and> hold_ready (as_heap s' h) \<and>
      (\<forall>k. spent_in s k \<longrightarrow> spent_in s' k) \<and> spent_in s' i \<and> \<not> spent_in s i"
proof -
  obtain s1 m where m: "mark_executed_locked env i s = (s1, m)" by (metis prod.exhaust)
  note me = mark_executed_locked_effect [OF wf m]
  have "(\<forall>h. res \<noteq> Inr (Some h)) \<longrightarrow> store_wf s' \<and> same_holds s s' \<and> (\<forall>k. spent_in s k \<longrightarrow> spent_in s' k)"
  proof (cases "active_hold (as_heap s) ctx i = None")
    case False
    with enter have "s' = s" by (auto simp: enter_execution_def claim_execution_def simp del: not_None_eq)
    with wf show ?thesis by (simp add: same_holds_def)
  next
    case True
    show ?thesis
    proof (cases m)
      case (Inl e)
      with enter True m have "s' = s1 \<or> s' = s1\<lparr>as_heap := refused_before_effect x ctx (as_heap s1)\<rparr>"
        by (auto simp: enter_execution_def claim_execution_def split: if_splits)
      with me(1-3,5) show ?thesis by (auto simp: same_holds_def)
    next
      case (Inr rb)
      with enter True m show ?thesis
        by (cases rb) (auto simp: enter_execution_def claim_execution_def Let_def)
    qed
  qed
  then show "(\<forall>h. res \<noteq> Inr (Some h)) \<Longrightarrow>
      store_wf s' \<and> same_holds s s' \<and> (\<forall>k. spent_in s k \<longrightarrow> spent_in s' k)" by blast
  assume new: "res = Inr (Some h)"
  have none: "active_hold (as_heap s) ctx i = None"
    using enter new by (auto simp: enter_execution_def claim_execution_def simp del: not_None_eq split: if_splits)
  obtain r b where mi: "m = Inr (r, b)"
    using enter new m none
    by (cases m) (auto simp: enter_execution_def claim_execution_def split: if_splits)
  have h: "h = as_next_hold s1"
    and s': "s' = set_hold h (((new_hold i (ar_origin r))\<lparr>h_claim_cancelled := b\<rparr>)\<lparr>h_may_give_back := may\<rparr>)
      (s1\<lparr>as_heap := (as_heap s1)(h := (new_hold i (ar_origin r))\<lparr>h_claim_cancelled := b\<rparr>), as_next_hold := Suc h,
          as_claims := AList.update i h (as_claims s1)\<rparr>)"
    using enter new m mi none by (auto simp: enter_execution_def claim_execution_def Let_def)
  have gets: "primary_get s' = primary_get s1" by (simp add: s')
  show "store_wf s' \<and> h = as_next_hold s \<and> as_next_hold s' = Suc h \<and> (\<forall>k. k \<noteq> h \<longrightarrow> as_heap s' k = as_heap s k) \<and>
      h_approval_id (as_heap s' h) = i \<and> \<not> h_effect (as_heap s' h) \<and> hold_ready (as_heap s' h) \<and>
      (\<forall>k. spent_in s k \<longrightarrow> spent_in s' k) \<and> spent_in s' i \<and> \<not> spent_in s i"
    using me(1-3,5) me(6) [OF mi] h spent_in_gets [OF gets] by (simp add: s' set_hold_def hold_ready_def)
qed

text \<open>The give-back writes its own approval's record only, and no hold.\<close>

lemma give_back_effect:
  assumes wf: "store_wf s" and gb: "give_back env h s = (s', res)"
  shows "store_wf s' \<and> as_heap s' = as_heap s \<and> as_next_hold s' = as_next_hold s \<and> as_claims s' = as_claims s \<and>
    (\<forall>k. k \<noteq> h_approval_id (as_heap s h) \<longrightarrow> primary_get s' k = primary_get s k)"
proof (cases "h_rejection (as_heap s h) = None \<and> \<not> h_gives_back_on_its_own (as_heap s h)")
  case True
  with gb have "s' = s" by (simp add: give_back_def Let_def)
  with wf show ?thesis by simp
next
  case False
  note g = gb [unfolded give_back_def Let_def if_not_P [OF False]]
  show ?thesis
  proof (cases "store_get (env_io env) s (h_approval_id (as_heap s h))")
    case (Inl e)
    with g wf show ?thesis by simp
  next
    case (Inr r)
    then have pr: "primary_get s (h_approval_id (as_heap s h)) = Inr r" by simp
    let ?r = "given_back_record (env_now env) (as_heap s h) r"
    have id: "ar_id ?r = h_approval_id (as_heap s h)"
      using primary_get_id [OF wf pr] by (simp add: given_back_record_def Let_def split: option.split)
    let ?s1 = "if h_rejection (as_heap s h) \<noteq> None then drop_text (h_approval_id (as_heap s h)) s else s"
    have s1: "store_wf ?s1" "as_heap ?s1 = as_heap s" "as_next_hold ?s1 = as_next_hold s"
      "as_claims ?s1 = as_claims s" "primary_get ?s1 = primary_get s"
      using wf by (simp_all add: drop_text_texts)
    obtain s2 e where p: "store_persist (env_io env) ?r ?s1 = (s2, e)" by (metis prod.exhaust)
    have "s' = s2" using g Inr p by (simp split: option.splits)
    with store_persist_wf [OF p s1(1)] store_persist_frame(1-3) [OF p] store_persist_gets(1) [OF p] s1 id
    show ?thesis by auto
  qed
qed

lemma finish_effect:
  assumes wf: "store_wf s" and f: "finish_give_back env c h ended s = (s', spent, out)"
  shows "store_wf s' \<and> as_heap s' = as_heap s \<and> as_next_hold s' = as_next_hold s \<and> as_claims s' = as_claims s \<and>
    (\<forall>k. k \<noteq> h_approval_id (as_heap s h) \<longrightarrow> primary_get s' k = primary_get s k)"
proof -
  obtain s1 res where g: "give_back env h s = (s1, res)" by (metis prod.exhaust)
  have "s' = s1 \<or> (\<exists>r. s' = record_given_back env r s1)"
    using f g by (auto simp: finish_give_back_def Let_def split: sum.splits option.splits)
  with give_back_effect [OF wf g] show ?thesis by auto
qed

lemma revoke_effect:
  "store_wf (revoke_execution h s) = store_wf s" "primary_get (revoke_execution h s) = primary_get s"
  "as_next_hold (revoke_execution h s) = as_next_hold s"
  "as_heap (revoke_execution h s) = (as_heap s)(h := (as_heap s h)\<lparr>h_active := False\<rparr>)"
  by (simp_all add: revoke_execution_def Let_def set_hold_def)

lemma discard_arguments_effect:
  "primary_get (discard_arguments io i s) = primary_get s" "store_wf (discard_arguments io i s) = store_wf s"
  by (simp_all add: fun_eq_iff store_wf_def file_wf_def)

lemma leave_effect:
  assumes "leave_execution env h spent ctx s = (s', ctx')"
  shows "store_wf s' = store_wf s \<and> primary_get s' = primary_get s \<and> as_next_hold s' = as_next_hold s \<and>
    as_heap s' = (as_heap s)(h := (as_heap s h)\<lparr>h_active := False\<rparr>)"
proof -
  let ?rel = "\<lambda>b. fst (release_execution h b ctx s)"
  let ?s1 = "?rel spent"
  have s1: "store_wf (?rel b) = store_wf s" "primary_get (?rel b) = primary_get s"
    "as_next_hold (?rel b) = as_next_hold s"
    "as_heap (?rel b) = (as_heap s)(h := (as_heap s h)\<lparr>h_active := False\<rparr>)" for b
    by (simp_all add: release_execution_def Let_def drop_text_texts revoke_effect)
  let ?s2 = "if spent \<and> h_origin (as_heap s h) = ToolCallOrigin
    then discard_arguments (env_io env) (h_approval_id (as_heap s h)) ?s1 else ?s1"
  have s2: "store_wf ?s2 = store_wf s" "primary_get ?s2 = primary_get s" "as_next_hold ?s2 = as_next_hold s"
    "as_heap ?s2 = (as_heap s)(h := (as_heap s h)\<lparr>h_active := False\<rparr>)"
    using s1 by (simp_all add: discard_arguments_effect)
  have "s' = (if spent \<and> h_rejection (as_heap s h) \<noteq> None then record_rejection_not_applied env h ?s2 else ?s2)"
    using assms unfolding leave_execution_def Let_def
    by (cases "release_execution h spent ctx s") (cases spent; auto simp del: not_None_eq)
  with s2 show ?thesis by auto
qed

section \<open>Every step keeps the invariant\<close>

lemma started_effect:
  assumes ok: "system_ok \<sigma>" and c: "carries (sys_store \<sigma>) ctx"
    and e: "effect_started ctx (as_heap (sys_store \<sigma>)) = (hp, e)"
  shows "system_ok (\<sigma>\<lparr>sys_store := (sys_store \<sigma>)\<lparr>as_heap := hp\<rparr>,
      sys_effects := (if e = None then sys_effects \<sigma> @ map snd ctx else sys_effects \<sigma>)\<rparr>)" (is "system_ok ?\<tau>")
proof -
  let ?heap = "as_heap (sys_store \<sigma>)"
  have hp: "h_active (hp k) = h_active (?heap k)" "h_approval_id (hp k) = h_approval_id (?heap k)"
    "h_origin (hp k) = h_origin (?heap k)"
    "h_effect (hp k) \<longleftrightarrow> h_effect (?heap k) \<or> (e = None \<and> k \<in> set (map snd ctx))" for k
    using effect_started_fields [of ctx ?heap k] effect_started_effect [of ctx ?heap k] e by simp_all
  have ready: "hold_ready (?heap k)" if "e = None" "k \<in> set (map snd ctx)" for k
    using that effect_started_None_iff [of ctx ?heap] e by auto
  have known: "k < as_next_hold (sys_store \<sigma>)" if "k \<in> set (map snd ctx)" for k
    using that c by (auto simp: carries_def)
  have running: "sys_phase \<sigma> k = Running" if "e = None" "k \<in> set (map snd ctx)" for k
    using ready [OF that] known [OF that(2)] ok by (auto simp: system_ok_def phases_ok_def hold_ready_def)
  have same: "holding ?\<tau> k \<longleftrightarrow> holding \<sigma> k" for k
    using running known by (auto simp: holding_def hp)
  have "distinct (map snd ctx)"
  proof -
    have "inj_on snd (set ctx)"
    proof (rule inj_onI)
      fix x y assume "x \<in> set ctx" "y \<in> set ctx" "snd x = snd y"
      with carriesD [OF c] show "x = y" by (metis prod.collapse)
    qed
    moreover have "distinct ctx" using c by (simp add: carries_def distinct_map)
    ultimately show ?thesis by (simp add: distinct_map)
  qed
  moreover have "k \<notin> set (sys_effects \<sigma>)"
    if "e = None" "k \<in> set (map snd ctx)" "h_origin (?heap k) = ActionOrigin" for k
    using ready [OF that(1,2)] that(3) ok by (auto simp: hold_ready_def system_ok_def effects_ok_def)
  ultimately have "effects_ok ?\<tau>"
    using ok known unfolding system_ok_def effects_ok_def by (auto simp: hp)
  moreover have "phases_ok ?\<tau>"
  proof -
    have "\<not> (e = None \<and> k \<in> set (map snd ctx))" if "sys_phase \<sigma> k = Ending x" for k x
      using running [of k] that by auto
    then show ?thesis using ok unfolding system_ok_def phases_ok_def by (simp add: hp)
  qed
  moreover have "holders_ok ?\<tau>"
    using ok unfolding system_ok_def holders_ok_def same by (simp add: hp)
  ultimately show ?thesis using ok by (simp add: system_ok_def)
qed

lemma entered_new:
  assumes ok: "system_ok \<sigma>" and new: "enter_execution env i may x ctx (sys_store \<sigma>) = (s', ctx', Inr (Some h))"
  shows "system_ok (\<sigma>\<lparr>sys_store := s', sys_phase := (sys_phase \<sigma>)(h := Running)\<rparr>)" (is "system_ok ?\<tau>")
proof -
  have wf: "store_wf (sys_store \<sigma>)" using ok by (simp add: system_ok_def)
  from enter_effect(2) [OF wf new] have n: "store_wf s'" "h = as_next_hold (sys_store \<sigma>)" "as_next_hold s' = Suc h"
    "\<And>k. k \<noteq> h \<Longrightarrow> as_heap s' k = hold_of \<sigma> k" "h_approval_id (as_heap s' h) = i" "\<not> h_effect (as_heap s' h)"
    "\<And>k. spent_in (sys_store \<sigma>) k \<Longrightarrow> spent_in s' k" "spent_in s' i" "\<not> spent_in (sys_store \<sigma>) i"
    by auto
  have hold: "holding ?\<tau> k \<longleftrightarrow> k = h \<or> holding \<sigma> k" for k
    using n(2,3,4) by (cases "k = h") (auto simp: holding_def)
  have ids: "k \<noteq> h" "h_approval_id (hold_of \<sigma> k) \<noteq> i" "as_heap s' k = hold_of \<sigma> k" if "holding \<sigma> k" for k
  proof -
    show kh: "k \<noteq> h" using that n(2) by (auto simp: holding_def)
    show "h_approval_id (hold_of \<sigma> k) \<noteq> i" using that ok n(9) by (auto simp: system_ok_def holders_ok_def)
    show "as_heap s' k = hold_of \<sigma> k" using kh n(4) by simp
  qed
  have "holders_ok ?\<tau>"
  proof -
    have "\<forall>k. holding \<sigma> k \<longrightarrow> k \<noteq> h \<and> h_approval_id (as_heap s' k) \<noteq> i \<and> as_heap s' k = hold_of \<sigma> k"
      using ids by metis
    then show ?thesis using ok n(5,7,8) unfolding system_ok_def holders_ok_def hold by simp metis
  qed
  moreover have "phases_ok ?\<tau>"
    using ok n(2-4,6) by (auto simp: system_ok_def phases_ok_def less_Suc_eq)
  moreover have "effects_ok ?\<tau>"
  proof -
    have other: "as_heap s' k = hold_of \<sigma> k" "k < as_next_hold (sys_store \<sigma>)" if "k \<in> set (sys_effects \<sigma>)" for k
      using that ok n(2,4) by (auto simp: system_ok_def effects_ok_def)
    then have "filter (\<lambda>k. h_origin (as_heap s' k) = ActionOrigin) (sys_effects \<sigma>) =
        filter (\<lambda>k. h_origin (hold_of \<sigma> k) = ActionOrigin) (sys_effects \<sigma>)" by (simp cong: filter_cong)
    with other ok n(2,3) show ?thesis by (auto simp: system_ok_def effects_ok_def intro: less_SucI)
  qed
  ultimately show ?thesis using n(1) by (simp add: system_ok_def)
qed

lemma approval_step_keeps:
  assumes ok: "system_ok \<sigma>" and step: "approval_step \<sigma> \<tau>"
  shows "system_ok \<tau>"
proof -
  have wf: "store_wf (sys_store \<sigma>)" using ok by (simp add: system_ok_def)
  show ?thesis
    using step
  proof cases
    case (Asked env sid kind reason a obs origin args s' res)
    note c = create_effect [OF Asked(2)]
    show ?thesis
      unfolding Asked(1)
      by (rule quiet_step [OF ok])
        (use c wf Asked(3) in \<open>auto simp: same_holds_def spent_in_def fresh_id_def\<close>)
  next
    case (Decided env i st c via s' d)
    then show ?thesis using decide_effect [OF wf Decided(2)] by (auto intro: quiet_step [OF ok])
  next
    case (Marked env i s' m)
    obtain s1 x where m: "mark_executed_locked env i (sys_store \<sigma>) = (s1, x)" by (metis prod.exhaust)
    then have "s' = s1" using Marked(2) by (auto simp: mark_executed_def split: sum.splits)
    then show ?thesis
      unfolding Marked(1)
      by (intro quiet_step [OF ok])
        (use mark_executed_locked_effect [OF wf m] in \<open>auto simp: same_holds_def\<close>)
  next
    case (TextRead m r s' x)
    then obtain t where "s' = (sys_store \<sigma>)\<lparr>as_texts := t\<rparr>"
      using same_texts [of "sys_store \<sigma>"]
      by (auto simp: executable_action_def held_text_def prune_sensitive_texts_def Let_def
          split: if_splits prod.splits option.splits)
    then show ?thesis
      unfolding TextRead(1) by (intro quiet_step [OF ok]) (use wf in \<open>auto simp: same_holds_def\<close>)
  next
    case (Entered ctx env i may x s' ctx' entered)
    show ?thesis
    proof (cases "\<exists>h. entered = Inr (Some h)")
      case True
      then obtain h where "entered = Inr (Some h)" by blast
      then show ?thesis using entered_new [OF ok] Entered by simp
    next
      case False
      then have "\<tau> = \<sigma>\<lparr>sys_store := s'\<rparr>"
        unfolding Entered(1) by (auto split: sum.split option.split)
      then show ?thesis
        using enter_effect(1) [OF wf Entered(3)] False by (auto intro: quiet_step [OF ok])
    qed
  next
    case (EffectStarted ctx hp e)
    then show ?thesis using started_effect [OF ok] by simp
  next
    case (Refused ctx x)
    then show ?thesis
      unfolding Refused(1) by (intro quiet_step [OF ok]) (use wf in \<open>auto simp: same_holds_def\<close>)
  next
    case (GivingBack h ended)
    have ne: "\<not> h_effect (hold_of \<sigma> h)" using gives_back_no_effect GivingBack(3) by blast
    show ?thesis
    proof (rule shrinking_step [OF ok])
      have "h < as_next_hold (sys_store \<sigma>)"
        using ok GivingBack(2) unfolding system_ok_def phases_ok_def by (metis not_le phase.distinct(1))
      then show "phases_ok \<tau>"
        using ok ne GivingBack(2) unfolding GivingBack(1)
        by (auto simp: system_ok_def phases_ok_def begin_give_back_def Let_def set_hold_def)
      show "holding \<tau> k \<Longrightarrow> holding \<sigma> k" for k
        using GivingBack(2) unfolding GivingBack(1)
        by (auto simp: holding_def begin_give_back_def Let_def set_hold_def split: if_splits)
    qed (use wf in \<open>auto simp: GivingBack(1) same_holds_def begin_give_back_def Let_def set_hold_def
        split: if_splits\<close>)
  next
    case (GivenBack h ended env cancelled s' spent out)
    note f = finish_effect [OF wf GivenBack(3)]
    have ne: "\<not> h_effect (hold_of \<sigma> h)" and live: "holding \<sigma> h"
      using ok GivenBack(2) unfolding system_ok_def phases_ok_def holding_def
      by (metis, metis not_le phase.distinct(3))
    have gone: "\<not> holding \<tau> h" using f ne by (simp add: GivenBack(1) holding_def)
    have less: "holding \<sigma> k" if "holding \<tau> k" for k
      using that f gone unfolding GivenBack(1) by (cases "k = h") (auto simp: holding_def)
    show ?thesis
    proof (rule shrinking_step [OF ok _ _ _ _ less])
      show "phases_ok \<tau>"
        using ok f GivenBack(2) unfolding GivenBack(1) by (auto simp: system_ok_def phases_ok_def)
      fix k assume k: "holding \<tau> k" and sp: "spent_in (sys_store \<sigma>) (h_approval_id (hold_of \<sigma> k))"
      have "h_approval_id (hold_of \<sigma> k) \<noteq> h_approval_id (hold_of \<sigma> h)"
        using less [OF k] live gone k ok unfolding system_ok_def holders_ok_def by metis
      then show "spent_in (sys_store \<tau>) (h_approval_id (hold_of \<sigma> k))"
        using sp f by (simp add: GivenBack(1) spent_in_def)
    qed (use f in \<open>auto simp: GivenBack(1) same_holds_def\<close>)
  next
    case (CancelledClaim h env)
    then show ?thesis
      unfolding CancelledClaim(1)
      by (intro quiet_step [OF ok]) (use wf in \<open>auto simp: same_holds_def spent_in_def\<close>)
  next
    case (Left h ended spent env ctx s' ctx')
    note l = leave_effect [OF Left(3)]
    have known: "h < as_next_hold (sys_store \<sigma>)"
      using ok Left(2) unfolding system_ok_def phases_ok_def by (metis not_le phase.distinct(1,5))
    show ?thesis
    proof (rule shrinking_step [OF ok])
      show "phases_ok \<tau>"
        using ok l known unfolding Left(1) by (auto simp: system_ok_def phases_ok_def)
      show "holding \<tau> k \<Longrightarrow> holding \<sigma> k" for k
        using l unfolding Left(1) by (auto simp: holding_def split: if_splits)
    qed (use wf l in \<open>auto simp: Left(1) same_holds_def spent_in_def split: if_splits\<close>)
  qed
qed

interpretation approvals: monotone_machine approval_step system_ok "\<lambda>\<sigma>. length (sys_effects \<sigma>)"
proof unfold_locales
  show "system_ok \<sigma> \<Longrightarrow> approval_step \<sigma> \<tau> \<Longrightarrow> system_ok \<tau>" for \<sigma> \<tau>
    by (rule approval_step_keeps)
  show "system_ok \<sigma> \<Longrightarrow> approval_step \<sigma> \<tau> \<Longrightarrow> length (sys_effects \<sigma>) \<le> length (sys_effects \<tau>)" for \<sigma> \<tau>
    by (auto elim: approval_step.cases)
qed

lemma starts_ok: "starts \<sigma> \<Longrightarrow> system_ok \<sigma>"
  by (simp add: starts_def system_ok_def phases_ok_def holders_ok_def effects_ok_def holding_def)

text \<open>
  C1: an approved action runs at most once. From a store just started, whatever the tasks do, in
  whatever interleaving and with whatever failures of the stores and cancellations, the effect of an
  action approval begins at most once, however often the approval was given back and claimed again.
\<close>

theorem action_runs_at_most_once:
  assumes "starts \<sigma>" and "approval_step\<^sup>*\<^sup>* \<sigma> \<tau>"
  shows "length (filter (\<lambda>h. h_approval_id (hold_of \<tau> h) = i \<and> h_origin (hold_of \<tau> h) = ActionOrigin)
           (sys_effects \<tau>)) \<le> 1"
proof -
  have ok: "system_ok \<tau>" by (rule approvals.run_keeps [OF assms(2) starts_ok [OF assms(1)]])
  let ?fs = "filter (\<lambda>h. h_approval_id (hold_of \<tau> h) = i \<and> h_origin (hold_of \<tau> h) = ActionOrigin) (sys_effects \<tau>)"
  have "?fs = filter (\<lambda>h. h_approval_id (hold_of \<tau> h) = i)
      (filter (\<lambda>h. h_origin (hold_of \<tau> h) = ActionOrigin) (sys_effects \<tau>))" by (simp add: conj_commute)
  then have d: "distinct ?fs" using ok unfolding system_ok_def effects_ok_def by (metis distinct_filter)
  have "holding \<tau> h" if "h \<in> set ?fs" for h
    using that ok by (auto simp: system_ok_def effects_ok_def holding_def)
  then have "h = k" if "h \<in> set ?fs" "k \<in> set ?fs" for h k
    using that ok unfolding system_ok_def holders_ok_def by (metis (mono_tags, lifting) mem_Collect_eq set_filter)
  with d show ?thesis by (rule distinct_all_equal)
qed

text \<open>A run: the sample approval claimed, its effect begun.\<close>

definition sample_start :: approval_system where
  "sample_start = \<lparr>sys_store = file_sample, sys_phase = (\<lambda>_. Unused), sys_effects = []\<rparr>"

definition sample_entered :: approval_system where
  "sample_entered = \<lparr>sys_store = fst (enter_execution sample_env ''a1'' True sample_refusal [] file_sample),
     sys_phase = (\<lambda>_. Unused)(0 := Running), sys_effects = []\<rparr>"

definition sample_ran :: approval_system where
  "sample_ran = sample_entered\<lparr>
     sys_store := (sys_store sample_entered)\<lparr>as_heap :=
       fst (effect_started [(''a1'', 0)] (as_heap (sys_store sample_entered)))\<rparr>, sys_effects := [0]\<rparr>"

lemma sample_enter:
  "\<exists>ctx'. enter_execution sample_env ''a1'' True sample_refusal [] file_sample =
     (sys_store sample_entered, ctx', Inr (Some 0))"
  using sample_gets(1)
  by (simp add: sample_entered_def enter_execution_def claim_execution_def active_hold_def mark_executed_locked_def
      store_get_def sample_env_def sample_io_def sample_record_def has_expired_def Let_def store_write_def
      primary_is_sqlite_def file_sample_def sample_store_def file_upsert_def executed_record_def)

lemma sample_run: "starts sample_start" "approval_step\<^sup>*\<^sup>* sample_start sample_ran"
proof -
  show "starts sample_start"
    using sample_store_wf(1) by (simp add: starts_def sample_start_def file_sample_def sample_store_def)
  obtain ctx' where enter: "enter_execution sample_env ''a1'' True sample_refusal [] file_sample =
     (sys_store sample_entered, ctx', Inr (Some 0))" using sample_enter by blast
  have "approval_step sample_start (sample_start\<lparr>sys_store := sys_store sample_entered,
      sys_phase := (case (Inr (Some 0) :: approval_error + hold_id option) of Inr (Some h) \<Rightarrow> (sys_phase sample_start)(h := Running) | _ \<Rightarrow> sys_phase sample_start)\<rparr>)"
    by (rule approval_step.Entered) (use enter in \<open>auto simp: sample_start_def carries_def\<close>)
  then have one: "approval_step sample_start sample_entered"
    by (simp add: sample_start_def sample_entered_def)
  have hold: "0 < as_next_hold (sys_store sample_entered)" "h_approval_id (as_heap (sys_store sample_entered) 0) = ''a1''"
    using enter_effect(2) [OF sample_store_wf(1) enter] by auto
  have ready: "hold_ready (as_heap (sys_store sample_entered) 0)"
    using enter_effect(2) [OF sample_store_wf(1) enter] by auto
  have two: "approval_step sample_entered (sample_entered\<lparr>sys_store := (sys_store sample_entered)\<lparr>as_heap :=
       fst (effect_started [(''a1'', 0)] (as_heap (sys_store sample_entered)))\<rparr>,
      sys_effects := (if (None :: approval_error option) = None
        then sys_effects sample_entered @ map snd [(''a1'', 0)] else sys_effects sample_entered)\<rparr>)"
  proof (rule approval_step.EffectStarted)
    show "carries (sys_store sample_entered) [(''a1'', 0)]" using hold by (simp add: carries_def)
    have "snd (effect_started [(''a1'', 0)] (as_heap (sys_store sample_entered))) = None"
      using ready by (simp add: effect_started_None_iff)
    then show "effect_started [(''a1'', 0)] (as_heap (sys_store sample_entered)) =
        (fst (effect_started [(''a1'', 0)] (as_heap (sys_store sample_entered))), None)"
      by (simp add: prod_eq_iff)
  qed
  then have "approval_step sample_entered sample_ran"
    by (simp add: sample_ran_def) (simp add: sample_entered_def)
  with one show "approval_step\<^sup>*\<^sup>* sample_start sample_ran" by (simp add: rtranclp.rtrancl_into_rtrancl)
qed

theorem action_runs_at_most_once_witness:
  "length (filter (\<lambda>h. h_approval_id (hold_of sample_ran h) = ''a1'' \<and> h_origin (hold_of sample_ran h) = ActionOrigin)
     (sys_effects sample_ran)) \<le> 1 \<and> sys_effects sample_ran = [0]"
  using action_runs_at_most_once [OF sample_run] by (simp add: sample_ran_def)

text \<open>
  C9: what was run stays spent. Once a hold's effect has begun, the record of its approval reads
  executed in every later state, and no other block holds that approval.
\<close>

theorem run_approval_stays_spent:
  assumes "starts \<sigma>" and "approval_step\<^sup>*\<^sup>* \<sigma> \<tau>" and "h \<in> set (sys_effects \<tau>)"
  shows "spent_in (sys_store \<tau>) (h_approval_id (hold_of \<tau> h)) \<and>
    (\<forall>k. sys_phase \<tau> k = Running \<longrightarrow> h_approval_id (hold_of \<tau> k) = h_approval_id (hold_of \<tau> h) \<longrightarrow> k = h)"
proof -
  have ok: "system_ok \<tau>" by (rule approvals.run_keeps [OF assms(2) starts_ok [OF assms(1)]])
  have "holding \<tau> h" using assms(3) ok by (auto simp: system_ok_def effects_ok_def holding_def)
  moreover have "holding \<tau> k" if "sys_phase \<tau> k = Running" for k
    using that ok unfolding system_ok_def phases_ok_def holding_def by (metis not_le phase.distinct(1))
  ultimately show ?thesis using ok unfolding system_ok_def holders_ok_def by metis
qed

theorem run_approval_stays_spent_witness:
  "spent_in (sys_store sample_ran) (h_approval_id (hold_of sample_ran 0))"
  using run_approval_stays_spent [OF sample_run, of 0] by (simp add: sample_ran_def)

end
