(* ===== verification/UrlText.thy ===== *)
theory UrlText
  imports Prelude
begin

text \<open>
  What the URL checks use of Python's standard library, on 8-bit characters: \<open>str.partition\<close>, \<open>lower\<close>,
  \<open>urllib.parse.urlsplit\<close> with the host, port and user-info of its result, \<open>ipaddress\<close> for a bracketed
  host, and \<open>fnmatch.fnmatchcase\<close>, as CPython 3.11 (the image's version) has them.
\<close>

section \<open>Strings\<close>

definition partition_at :: "char \<Rightarrow> string \<Rightarrow> string \<times> bool \<times> string" where
  "partition_at c s = (takeWhile (\<lambda>x. x \<noteq> c) s, c \<in> set s, drop 1 (dropWhile (\<lambda>x. x \<noteq> c) s))"

definition rpartition_at :: "char \<Rightarrow> string \<Rightarrow> string \<times> bool \<times> string" where
  "rpartition_at c s =
     (if c \<in> set s then (rev (drop 1 (dropWhile (\<lambda>x. x \<noteq> c) (rev s))), True, rev (takeWhile (\<lambda>x. x \<noteq> c) (rev s)))
      else ([], False, s))"

fun split_on :: "char \<Rightarrow> string \<Rightarrow> string list" where
  "split_on c [] = [[]]"
| "split_on c (x # xs) =
     (if x = c then [] # split_on c xs
      else case split_on c xs of [] \<Rightarrow> [[x]] | w # ws \<Rightarrow> (x # w) # ws)"

definition ascii_char :: "char \<Rightarrow> bool" where
  "ascii_char c \<longleftrightarrow> of_char c < (128 :: nat)"

definition control_char :: "char \<Rightarrow> bool" where
  "control_char c \<longleftrightarrow> of_char c < (32 :: nat)"

definition control_or_space :: "char \<Rightarrow> bool" where
  "control_or_space c \<longleftrightarrow> of_char c < (33 :: nat)"

definition tab_or_newline :: "char \<Rightarrow> bool" where
  "tab_or_newline c \<longleftrightarrow> of_char c \<in> {9, 10, 13 :: nat}"

definition digit_char :: "char \<Rightarrow> bool" where
  "digit_char c \<longleftrightarrow> CHR ''0'' \<le> c \<and> c \<le> CHR ''9''"

definition hex_char :: "char \<Rightarrow> bool" where
  "hex_char c \<longleftrightarrow> digit_char c \<or> (CHR ''a'' \<le> c \<and> c \<le> CHR ''f'') \<or> (CHR ''A'' \<le> c \<and> c \<le> CHR ''F'')"

definition ascii_alpha :: "char \<Rightarrow> bool" where
  "ascii_alpha c \<longleftrightarrow> (CHR ''a'' \<le> c \<and> c \<le> CHR ''z'') \<or> (CHR ''A'' \<le> c \<and> c \<le> CHR ''Z'')"

text \<open>Lower case: the ASCII capitals, and the Latin-1 ones (A-grave to Thorn but the times sign).\<close>

definition lower_char :: "char \<Rightarrow> char" where
  "lower_char c =
     (let n = of_char c :: nat in
      if (65 \<le> n \<and> n \<le> 90) \<or> (192 \<le> n \<and> n \<le> 222 \<and> n \<noteq> 215) then char_of (n + 32) else c)"

definition lower :: "string \<Rightarrow> string" where
  "lower s = map lower_char s"

definition strip_chars :: "(char \<Rightarrow> bool) \<Rightarrow> string \<Rightarrow> string" where
  "strip_chars P s = rev (dropWhile P (rev (dropWhile P s)))"

definition has_prefix :: "string \<Rightarrow> string \<Rightarrow> bool" where
  "has_prefix p s \<longleftrightarrow> take (length p) s = p"

definition has_suffix :: "string \<Rightarrow> string \<Rightarrow> bool" where
  "has_suffix p s \<longleftrightarrow> has_prefix (rev p) (rev s)"

definition nat_of_digits :: "string \<Rightarrow> nat" where
  "nat_of_digits s = foldl (\<lambda>n c. 10 * n + (of_char c - 48)) 0 s"

text \<open>\<open>str.partition\<close> at a text, and \<open>str\<close> of a number.\<close>

fun partition_text :: "string \<Rightarrow> string \<Rightarrow> string \<times> bool \<times> string" where
  "partition_text sep [] = ([], False, [])"
| "partition_text sep (c # cs) =
     (if has_prefix sep (c # cs) then ([], True, drop (length sep) (c # cs))
      else case partition_text sep cs of (front, found, rest) \<Rightarrow> (c # front, found, rest))"

fun decimal :: "nat \<Rightarrow> string" where
  "decimal n = (if n < 10 then [char_of (48 + n)] else decimal (n div 10) @ [char_of (48 + n mod 10)])"

declare decimal.simps [simp del]

section \<open>\<open>ipaddress\<close>\<close>

definition ipv4_octet :: "string \<Rightarrow> nat option" where
  "ipv4_octet s =
     (if s \<noteq> [] \<and> list_all digit_char s \<and> length s \<le> 3 \<and> \<not> (s \<noteq> ''0'' \<and> hd s = CHR ''0'') \<and> nat_of_digits s \<le> 255
      then Some (nat_of_digits s) else None)"

definition ipv4_address :: "string \<Rightarrow> nat list option" where
  "ipv4_address s =
     (let octets = map ipv4_octet (split_on (CHR ''.'') s)
      in if length octets = 4 \<and> None \<notin> set octets then Some (map the octets) else None)"

definition hex_value :: "char \<Rightarrow> nat" where
  "hex_value c = (if digit_char c then of_char c - 48 else of_char (lower_char c) - 87)"

text \<open>The colon-separated parts of an IPv6 address.\<close>

datatype ip_part = EmptyPart | BadPart | Group nat

definition ip_part_of :: "string \<Rightarrow> ip_part" where
  "ip_part_of s =
     (if s = [] then EmptyPart
      else if list_all hex_char s \<and> length s \<le> 4 then Group (foldl (\<lambda>n c. 16 * n + hex_value c) 0 s)
      else BadPart)"

fun ip_groups :: "ip_part list \<Rightarrow> nat list option" where
  "ip_groups [] = Some []"
| "ip_groups (Group n # ps) = map_option (\<lambda>ns. n # ns) (ip_groups ps)"
| "ip_groups (_ # ps) = None"

definition ipv6_of_parts :: "ip_part list \<Rightarrow> nat list option" where
  "ipv6_of_parts parts =
     (let n = length parts; gaps = filter (\<lambda>i. parts ! i = EmptyPart) [1..<n - 1] in
      if n > 9 \<or> length gaps > 1 then None
      else case gaps of
        skip # _ \<Rightarrow>
          (let hi = (if hd parts = EmptyPart then skip - 1 else skip);
               lo = (if last parts = EmptyPart then n - skip - 2 else n - skip - 1)
           in if (hd parts = EmptyPart \<and> hi > 0) \<or> (last parts = EmptyPart \<and> lo > 0) \<or> hi + lo > 7 then None
              else case (ip_groups (take hi parts), ip_groups (drop (n - lo) parts)) of
                     (Some front, Some back) \<Rightarrow> Some (front @ replicate (8 - (hi + lo)) 0 @ back)
                   | _ \<Rightarrow> None)
      | [] \<Rightarrow> if n = 8 then ip_groups parts else None)"

definition ipv6_address :: "string \<Rightarrow> nat list option" where
  "ipv6_address s =
     (case partition_at (CHR ''%'') s of
        (addr, scoped, scope) \<Rightarrow>
          if CHR ''/'' \<in> set s \<or> (scoped \<and> (scope = [] \<or> CHR ''%'' \<in> set scope)) \<or> addr = [] then None
          else
            let parts = split_on (CHR '':'') addr in
            if length parts < 3 then None
            else if CHR ''.'' \<in> set (last parts)
            then (case ipv4_address (last parts) of
                    Some [a, b, c, d] \<Rightarrow>
                      ipv6_of_parts (map ip_part_of (butlast parts) @ [Group (256 * a + b), Group (256 * c + d)])
                  | _ \<Rightarrow> None)
            else ipv6_of_parts (map ip_part_of parts))"

text \<open>\<open>ip_address(s).is_loopback\<close> and \<open>is_unspecified\<close>; \<open>None\<close> when \<open>s\<close> is no address.\<close>

datatype ip_address = IPv4 "nat list" | IPv6 "nat list"

definition ip_address :: "string \<Rightarrow> ip_address option" where
  "ip_address s =
     (case ipv4_address s of
        Some octets \<Rightarrow> if CHR ''/'' \<in> set s then None else Some (IPv4 octets)
      | None \<Rightarrow> map_option IPv6 (ipv6_address s))"

fun ip_is_loopback :: "ip_address \<Rightarrow> bool" where
  "ip_is_loopback (IPv4 octets) = (hd octets = 127)"
| "ip_is_loopback (IPv6 groups) = (groups = [0, 0, 0, 0, 0, 0, 0, 1])"

fun ip_is_unspecified :: "ip_address \<Rightarrow> bool" where
  "ip_is_unspecified (IPv4 octets) = (octets = [0, 0, 0, 0])"
| "ip_is_unspecified (IPv6 groups) = (groups = [0, 0, 0, 0, 0, 0, 0, 0])"

text \<open>\<open>ipv4_mapped\<close>: the address itself when it maps none.\<close>

fun ip_unmapped :: "ip_address \<Rightarrow> ip_address" where
  "ip_unmapped (IPv4 octets) = IPv4 octets"
| "ip_unmapped (IPv6 groups) =
     (if take 6 groups = [0, 0, 0, 0, 0, 65535]
      then IPv4 [groups ! 6 div 256, groups ! 6 mod 256, groups ! 7 div 256, groups ! 7 mod 256]
      else IPv6 groups)"

text \<open>\<open>_check_bracketed_host\<close>: an IPvFuture literal, or an IPv6 address.\<close>

definition bracketed_host_ok :: "string \<Rightarrow> bool" where
  "bracketed_host_ok h =
     (if has_prefix ''v'' h then
        (case partition_at (CHR ''.'') (drop 1 h) of
           (version, dotted, rest) \<Rightarrow>
             dotted \<and> version \<noteq> [] \<and> list_all hex_char version \<and> rest \<noteq> [] \<and> list_all (\<lambda>c. of_char c \<noteq> (10 :: nat)) rest)
      else ipv6_address h \<noteq> None)"

section \<open>\<open>urlsplit\<close>\<close>

record split_url =
  su_scheme :: string
  su_netloc :: string
  su_path :: string
  su_query :: string
  su_fragment :: string

definition scheme_char :: "char \<Rightarrow> bool" where
  "scheme_char c \<longleftrightarrow> ascii_alpha c \<or> digit_char c \<or> c \<in> set ''+-.''"

text \<open>\<open>None\<close>: \<open>urlsplit\<close> raises \<open>ValueError\<close>.\<close>

definition urlsplit :: "string \<Rightarrow> split_url option" where
  "urlsplit raw =
     (let url = filter (\<lambda>c. \<not> tab_or_newline c) (dropWhile control_or_space raw);
          (name, colon, more) = partition_at (CHR '':'') url;
          (scheme, rest) = (if colon \<and> name \<noteq> [] \<and> ascii_alpha (hd name) \<and> list_all scheme_char name
                            then (lower name, more) else ([], url));
          (netloc, tail) = (if has_prefix ''//'' rest
                            then (takeWhile (\<lambda>c. c \<notin> set ''/?#'') (drop 2 rest), dropWhile (\<lambda>c. c \<notin> set ''/?#'') (drop 2 rest))
                            else ([], rest));
          opened = CHR ''['' \<in> set netloc; closed = CHR '']'' \<in> set netloc
      in if opened \<noteq> closed then None
         else if opened \<and> \<not> bracketed_host_ok
             (fst (partition_at (CHR '']'') (snd (snd (partition_at (CHR ''['') netloc))))) then None
         else
           let (head, _, fragment) = partition_at (CHR ''#'') tail;
               (path, _, query) = partition_at (CHR ''?'') head
           in Some \<lparr>su_scheme = scheme, su_netloc = netloc, su_path = path, su_query = query, su_fragment = fragment\<rparr>)"

text \<open>\<open>_userinfo\<close> and \<open>_hostinfo\<close>; an empty port is none.\<close>

definition url_username :: "split_url \<Rightarrow> string option" where
  "url_username u =
     (case rpartition_at (CHR ''@'') (su_netloc u) of
        (info, have, _) \<Rightarrow> if have then Some (fst (partition_at (CHR '':'') info)) else None)"

definition url_password :: "split_url \<Rightarrow> string option" where
  "url_password u =
     (case rpartition_at (CHR ''@'') (su_netloc u) of
        (info, have, _) \<Rightarrow>
          if have then (case partition_at (CHR '':'') info of (_, have_password, password) \<Rightarrow>
            if have_password then Some password else None) else None)"

definition host_info :: "split_url \<Rightarrow> string \<times> string" where
  "host_info u =
     (let hostinfo = snd (snd (rpartition_at (CHR ''@'') (su_netloc u)));
          (_, bracket, bracketed) = partition_at (CHR ''['') hostinfo
      in if bracket then
           (let (host, _, after) = partition_at (CHR '']'') bracketed
            in (host, snd (snd (partition_at (CHR '':'') after))))
         else (let (host, _, port) = partition_at (CHR '':'') hostinfo in (host, port)))"

definition url_hostname :: "split_url \<Rightarrow> string option" where
  "url_hostname u =
     (let host = fst (host_info u) in
      if host = [] then None
      else case partition_at (CHR ''%'') host of
             (name, scoped, zone) \<Rightarrow> Some (lower name @ (if scoped then ''%'' else []) @ zone))"

text \<open>\<open>port\<close>: \<open>None\<close> when it raises; else the port, if any.\<close>

definition url_port :: "split_url \<Rightarrow> nat option option" where
  "url_port u =
     (let port = snd (host_info u) in
      if port = [] then Some None
      else if list_all digit_char port \<and> nat_of_digits port \<le> 65535 then Some (Some (nat_of_digits port)) else None)"

section \<open>\<open>fnmatch\<close>\<close>

text \<open>
  A bracket expression, as \<open>fnmatch.translate\<close> reads it: its text is cut at the hyphens that make a
  range (the first \<open>n\<close> characters of a chunk are never one), ranges whose bounds are out of order are
  dropped, and a leading exclamation mark of what is left negates.
\<close>

function class_chunks :: "nat \<Rightarrow> string \<Rightarrow> string list" where
  "class_chunks n s =
     (let r = drop n s in
      case dropWhile (\<lambda>c. c \<noteq> CHR ''-'') r of
        [] \<Rightarrow> [s]
      | _ # rest \<Rightarrow> (take n s @ takeWhile (\<lambda>c. c \<noteq> CHR ''-'') r) # class_chunks 2 rest)"
  by pat_completeness auto

lemma dropWhile_shorter: "dropWhile P (drop n s) = x # rest \<Longrightarrow> length rest < length s"
proof -
  assume "dropWhile P (drop n s) = x # rest"
  then have "length (x # rest) \<le> length (drop n s)" by (metis length_dropWhile_le)
  then show ?thesis by simp
qed

termination class_chunks
  by (relation "measure (\<lambda>(_, s). length s)") (auto dest: dropWhile_shorter)

definition closed_chunks :: "string list \<Rightarrow> string list" where
  "closed_chunks cs =
     (if length cs > 1 \<and> last cs = [] then butlast (butlast cs) @ [last (butlast cs) @ ''-''] else cs)"

fun drop_empty_ranges :: "string list \<Rightarrow> string list" where
  "drop_empty_ranges [] = []"
| "drop_empty_ranges [c] = [c]"
| "drop_empty_ranges (c # d # cs) =
     (case drop_empty_ranges (d # cs) of
        [] \<Rightarrow> [c]
      | e # es \<Rightarrow> if last c > hd e then (butlast c @ tl e) # es else c # e # es)"

fun class_ranges :: "string list \<Rightarrow> (char \<times> char) list" where
  "class_ranges [] = []"
| "class_ranges [c] = map (\<lambda>x. (x, x)) c"
| "class_ranges (c # d # cs) =
     (if c = [] then (CHR ''-'', CHR ''-'') # class_ranges (d # cs)
      else map (\<lambda>x. (x, x)) (butlast c) @ (last c, hd d) # class_ranges (tl d # cs))"

definition class_match :: "string \<Rightarrow> char \<Rightarrow> bool" where
  "class_match stuff ch =
     (let cs = drop_empty_ranges (closed_chunks (class_chunks (if has_prefix ''!'' stuff then 2 else 1) stuff));
          negated = has_prefix ''!'' (hd cs);
          ranges = class_ranges (if negated then tl (hd cs) # tl cs else cs)
      in list_ex (\<lambda>(lo, hi). lo \<le> ch \<and> ch \<le> hi) ranges \<noteq> negated)"

text \<open>The bracket expression at the start of a pattern whose opening bracket is read, and what follows it.\<close>

definition bracket_stuff :: "string \<Rightarrow> (string \<times> string) option" where
  "bracket_stuff p =
     (let skip1 = (if has_prefix ''!'' p then 1 else 0);
          skip = (if has_prefix '']'' (drop skip1 p) then skip1 + 1 else skip1);
          r = dropWhile (\<lambda>c. c \<noteq> CHR '']'') (drop skip p)
      in if r = [] then None
         else Some (take skip p @ takeWhile (\<lambda>c. c \<noteq> CHR '']'') (drop skip p), tl r))"

datatype glob = Star | AnyChar | OneOf string | Lit char

lemma bracket_stuff_shorter: "bracket_stuff p = Some (stuff, rest) \<Longrightarrow> length rest < length p"
proof -
  define skip where "skip = (if has_prefix '']'' (drop (if has_prefix ''!'' p then 1 else 0) p)
    then (if has_prefix ''!'' p then 1 else 0) + 1 else if has_prefix ''!'' p then 1 else (0 :: nat))"
  assume "bracket_stuff p = Some (stuff, rest)"
  then have r: "dropWhile (\<lambda>c. c \<noteq> CHR '']'') (drop skip p) \<noteq> []"
    "rest = tl (dropWhile (\<lambda>c. c \<noteq> CHR '']'') (drop skip p))"
    by (auto simp: bracket_stuff_def skip_def Let_def split: if_splits)
  have "length (dropWhile (\<lambda>c. c \<noteq> CHR '']'') (drop skip p)) \<le> length (drop skip p)"
    by (rule length_dropWhile_le)
  with r show ?thesis by (cases "dropWhile (\<lambda>c. c \<noteq> CHR '']'') (drop skip p)") auto
qed

function glob_of :: "string \<Rightarrow> glob list" where
  "glob_of [] = []"
| "glob_of (c # p) =
     (if c = CHR ''*'' then Star # glob_of p
      else if c = CHR ''?'' then AnyChar # glob_of p
      else if c = CHR ''['' then
        (case bracket_stuff p of
           None \<Rightarrow> Lit c # glob_of p
         | Some (stuff, rest) \<Rightarrow> OneOf stuff # glob_of rest)
      else Lit c # glob_of p)"
  by pat_completeness auto
termination
  by (relation "measure length") (auto dest: bracket_stuff_shorter)

fun glob_match :: "glob list \<Rightarrow> string \<Rightarrow> bool" where
  "glob_match [] s = (s = [])"
| "glob_match (Star # p) [] = glob_match p []"
| "glob_match (Star # p) (c # s) = (glob_match p (c # s) \<or> glob_match (Star # p) s)"
| "glob_match (AnyChar # p) [] = False"
| "glob_match (AnyChar # p) (c # s) = glob_match p s"
| "glob_match (OneOf stuff # p) [] = False"
| "glob_match (OneOf stuff # p) (c # s) = (class_match stuff c \<and> glob_match p s)"
| "glob_match (Lit l # p) [] = False"
| "glob_match (Lit l # p) (c # s) = (c = l \<and> glob_match p s)"

definition fnmatchcase :: "string \<Rightarrow> string \<Rightarrow> bool" where
  "fnmatchcase name pattern = glob_match (glob_of pattern) name"

section \<open>Lemmas\<close>

lemma glob_match_star: "glob_match (Star # p) s \<longleftrightarrow> (\<exists>a b. s = a @ b \<and> glob_match p b)"
proof (induction s)
  case Nil
  then show ?case by simp
next
  case (Cons c s)
  show ?case
  proof
    assume "glob_match (Star # p) (c # s)"
    with Cons show "\<exists>a b. c # s = a @ b \<and> glob_match p b" by (metis append_Cons append_Nil glob_match.simps(3))
  next
    assume "\<exists>a b. c # s = a @ b \<and> glob_match p b"
    then obtain a b where "c # s = a @ b" "glob_match p b" by blast
    with Cons show "glob_match (Star # p) (c # s)" by (cases a) auto
  qed
qed

lemma glob_match_lits: "glob_match (map Lit w @ p) s \<longleftrightarrow> (\<exists>r. s = w @ r \<and> glob_match p r)"
proof (induction w arbitrary: s)
  case (Cons c w)
  then show ?case by (cases s) auto
qed simp

text \<open>A text with no wildcard matches itself only; a star and such a text, what ends with it.\<close>

definition plain_char :: "char \<Rightarrow> bool" where
  "plain_char c \<longleftrightarrow> c \<notin> set ''*?[''"

lemma glob_of_plain: "list_all plain_char w \<Longrightarrow> glob_of w = map Lit w"
  by (induction w) (auto simp: plain_char_def)

lemma fnmatch_plain: "list_all plain_char w \<Longrightarrow> fnmatchcase s w \<longleftrightarrow> s = w"
  using glob_match_lits [of w "[]" s] by (simp add: fnmatchcase_def glob_of_plain)

lemma fnmatch_star_suffix: "list_all plain_char w \<Longrightarrow> fnmatchcase s (CHR ''*'' # w) \<longleftrightarrow> (\<exists>a. s = a @ w)"
  using glob_match_lits [of w "[]"] by (simp add: fnmatchcase_def glob_of_plain glob_match_star)

end
