(* ===== verification/AuthPolicy.thy ===== *)
theory AuthPolicy
  imports Ownership UrlText
begin

text \<open>
  Whether this API is authenticated, and by which credential (auth_policy.py): the bind scope, the
  configured bearer credentials, the one a request presents, and the resolved policy.
\<close>

datatype bind_scope = Loopback | Exposed

text \<open>The reasons of \<open>policy_for_scope\<close>, in its order.\<close>

datatype policy_reason = CredentialConfigured | ExposedWithoutCredential | TokenlessLoopback | LoopbackWithoutToken

record auth_policy =
  ap_scope :: bind_scope
  ap_required :: bool
  ap_reason :: policy_reason
  ap_has_credential :: bool

definition satisfiable :: "auth_policy \<Rightarrow> bool" where
  "satisfiable p \<longleftrightarrow> \<not> ap_required p \<or> ap_has_credential p"

text \<open>\<open>str.isdigit\<close> on 8-bit characters counts the superscripts 1, 2 and 3.\<close>

definition py_isdigit :: "string \<Rightarrow> bool" where
  "py_isdigit s \<longleftrightarrow> s \<noteq> [] \<and> list_all (\<lambda>c. digit_char c \<or> of_char c \<in> {178, 179, 185 :: nat}) s"

definition is_loopback_host :: "string \<Rightarrow> bool" where
  "is_loopback_host host =
     (let stripped = py_strip host;
          candidate =
            (if has_prefix ''['' stripped then
               (case partition_at (CHR '']'') (drop 1 stripped) of
                  (inner, shut, rest) \<Rightarrow>
                    if \<not> shut \<or> (rest \<noteq> [] \<and> \<not> (has_prefix '':'' rest \<and> py_isdigit (drop 1 rest))) then None
                    else Some inner)
             else if count_list stripped (CHR '':'') = 1 then Some (fst (partition_at (CHR '':'') stripped))
             else Some stripped)
      in case candidate of
           None \<Rightarrow> False
         | Some c \<Rightarrow>
             c \<noteq> [] \<and> (lower c = ''localhost'' \<or>
               (case ip_address c of None \<Rightarrow> False | Some address \<Rightarrow> ip_is_loopback address)))"

definition is_local_only_host :: "string \<Rightarrow> bool" where
  "is_local_only_host host =
     (let candidate = lower (py_strip host) in
      if candidate = [] \<or> candidate = ''localhost'' \<or> has_suffix ''.localhost'' candidate then True
      else case ip_address candidate of
             None \<Rightarrow> False
           | Some address \<Rightarrow> ip_is_loopback (ip_unmapped address) \<or> ip_is_unspecified (ip_unmapped address))"

text \<open>What the functions read of the settings.\<close>

record auth_settings =
  set_bind_scope :: bind_scope
  set_bind_scope_given :: bool
  set_bearer_tokens :: "string option"
  set_bearer_token :: "string option"
  set_production :: bool
  set_tokenless_loopback :: bool

definition BIND_HOST_ENV_VARS :: "string list" where
  "BIND_HOST_ENV_VARS = [''API_BIND_HOST'', ''UVICORN_HOST'', ''HOST'']"

definition resolve_bind_scope :: "auth_settings \<Rightarrow> (string \<times> string) list \<Rightarrow> bind_scope" where
  "resolve_bind_scope settings environ =
     (if set_bind_scope_given settings then set_bind_scope settings
      else if list_ex (\<lambda>name. case map_of environ name of
                None \<Rightarrow> False | Some host \<Rightarrow> host \<noteq> [] \<and> is_loopback_host host) BIND_HOST_ENV_VARS
      then Loopback else set_bind_scope settings)"

section \<open>Credentials\<close>

record credential =
  cr_token :: string
  cr_operator :: "string option"

definition verifies_identity :: "credential \<Rightarrow> bool" where
  "verifies_identity c \<longleftrightarrow> cr_operator c \<noteq> None"

definition parse_entry :: "string \<Rightarrow> credential option" where
  "parse_entry raw =
     (let entry = py_strip raw in
      if entry = [] \<or> CHR '':'' \<notin> set entry then None
      else case partition_at (CHR '':'') entry of
             (operator_id, _, token) \<Rightarrow>
               if py_strip operator_id \<noteq> [] \<and> py_strip token \<noteq> []
               then Some \<lparr>cr_token = py_strip token, cr_operator = Some (py_strip operator_id)\<rparr> else None)"

definition parse_operator_tokens :: "string \<Rightarrow> credential list" where
  "parse_operator_tokens raw = List.map_filter parse_entry (split_on (CHR '','') raw)"

definition credentials_for :: "auth_settings \<Rightarrow> credential list" where
  "credentials_for settings =
     parse_operator_tokens (if truthy (set_bearer_tokens settings) then the (set_bearer_tokens settings) else []) @
     (if truthy (set_bearer_token settings)
      then [\<lparr>cr_token = the (set_bearer_token settings), cr_operator = None\<rparr>] else [])"

definition tokenless_loopback_allowed :: "auth_settings \<Rightarrow> bool" where
  "tokenless_loopback_allowed settings =
     (if set_production settings then False else set_tokenless_loopback settings)"

definition has_named_credentials :: "auth_settings \<Rightarrow> bool" where
  "has_named_credentials settings = list_ex verifies_identity (credentials_for settings)"

definition http_space :: "char \<Rightarrow> bool" where
  "http_space c \<longleftrightarrow> of_char c \<in> {32, 9 :: nat}"

definition normalize_authorization :: "string \<Rightarrow> string" where
  "normalize_authorization authorization =
     (case partition_at (CHR '' '') (strip_chars http_space authorization) of
        (scheme, _, token) \<Rightarrow> scheme @ '' '' @ strip_chars http_space token)"

text \<open>Every candidate is compared; the first that matches is kept.\<close>

fun match_from :: "credential option \<Rightarrow> credential list \<Rightarrow> string \<Rightarrow> credential option" where
  "match_from matched [] presented = matched"
| "match_from matched (c # cs) presented =
     match_from (if presented = ''Bearer '' @ cr_token c \<and> matched = None then Some c else matched) cs presented"

definition match_credential :: "credential list \<Rightarrow> string \<Rightarrow> credential option" where
  "match_credential credentials authorization =
     match_from None credentials (normalize_authorization authorization)"

section \<open>The policy\<close>

definition policy_for_scope :: "bind_scope \<Rightarrow> credential list \<Rightarrow> bool \<Rightarrow> auth_policy" where
  "policy_for_scope scope credentials allow_tokenless_loopback =
     (if credentials \<noteq> [] then
        \<lparr>ap_scope = scope, ap_required = True, ap_reason = CredentialConfigured, ap_has_credential = True\<rparr>
      else if scope = Exposed then
        \<lparr>ap_scope = scope, ap_required = True, ap_reason = ExposedWithoutCredential, ap_has_credential = False\<rparr>
      else if allow_tokenless_loopback then
        \<lparr>ap_scope = scope, ap_required = False, ap_reason = TokenlessLoopback, ap_has_credential = False\<rparr>
      else
        \<lparr>ap_scope = scope, ap_required = True, ap_reason = LoopbackWithoutToken, ap_has_credential = False\<rparr>)"

definition resolve_auth_policy :: "auth_settings \<Rightarrow> (string \<times> string) list \<Rightarrow> auth_policy" where
  "resolve_auth_policy settings environ =
     policy_for_scope (resolve_bind_scope settings environ) (credentials_for settings)
       (tokenless_loopback_allowed settings)"

section \<open>Lemmas\<close>

text \<open>
  the API is open exactly on an unconfigured loopback deployment that says so: no credential, a
  loopback scope, the tokenless switch on, and not in production. Anything else demands a credential.
\<close>

lemma open_api_iff:
  "\<not> ap_required (resolve_auth_policy settings environ) \<longleftrightarrow>
     credentials_for settings = [] \<and> resolve_bind_scope settings environ = Loopback \<and>
     set_tokenless_loopback settings \<and> \<not> set_production settings"
  by (cases "resolve_bind_scope settings environ")
    (auto simp: resolve_auth_policy_def policy_for_scope_def tokenless_loopback_allowed_def)

lemma match_from_result:
  "match_from matched cs presented =
     (case matched of Some c \<Rightarrow> Some c | None \<Rightarrow> find (\<lambda>c. presented = ''Bearer '' @ cr_token c) cs)"
  by (induction cs arbitrary: matched) (auto split: option.splits)

text \<open>Stripping what was stripped changes nothing.\<close>

lemma strip_chars_idem [simp]: "strip_chars P (strip_chars P s) = strip_chars P s"
proof -
  let ?m = "dropWhile P s"
  have "dropWhile P (rev (strip_chars P s)) = rev (strip_chars P s)"
    by (simp add: strip_chars_def dropWhile_idem)
  moreover have "dropWhile P (strip_chars P s) = strip_chars P s"
  proof (cases "strip_chars P s = []")
    case False
    have "?m = strip_chars P s @ rev (takeWhile P (rev ?m))"
      unfolding strip_chars_def by (metis rev_append rev_rev_ident takeWhile_dropWhile_id)
    then have "hd (strip_chars P s) = hd ?m" and "?m \<noteq> []" using False by (metis hd_append2, metis append_is_Nil_conv)
    then have "\<not> P (hd (strip_chars P s))" by (metis hd_dropWhile)
    then show ?thesis by (simp add: dropWhile_eq_self_iff)
  qed simp
  ultimately show ?thesis by (simp add: strip_chars_def)
qed

lemma strip_chars_around:
  assumes "list_all P before_it" and "list_all P after_it" and "mid \<noteq> []" and "\<not> P (hd mid)" and "\<not> P (last mid)"
  shows "strip_chars P (before_it @ mid @ after_it) = mid"
proof -
  have "dropWhile P (before_it @ mid @ after_it) = mid @ after_it"
    using assms by (simp add: dropWhile_append2 list_all_iff dropWhile_hd)
  moreover have "dropWhile P (rev mid) = rev mid"
    using assms by (intro dropWhile_hd) (simp_all add: hd_rev)
  then have "dropWhile P (rev after_it @ rev mid) = rev mid"
    using assms by (subst dropWhile_append2) (auto simp: list_all_iff)
  ultimately show ?thesis by (simp add: strip_chars_def)
qed

lemma partition_at_first: "c \<notin> set a \<Longrightarrow> partition_at c (a @ c # b) = (a, True, b)"
  by (induction a) (auto simp: partition_at_def)

text \<open>
  a request is the holder of a token, and of the first credential configured with it, exactly when
  its header is the scheme and that token with any of HTTP's optional white space around the two; how
  the white space is spelt never matters, and no other credential is matched.
\<close>

lemma match_credential_ignores_white_space:
  assumes "list_all http_space lead" and "list_all http_space gap" and "list_all http_space trail"
    and "token \<noteq> []" and "\<not> http_space (hd token)" and "\<not> http_space (last token)"
  shows "match_credential credentials (lead @ ''Bearer '' @ gap @ token @ trail) =
         find (\<lambda>c. cr_token c = token) credentials"
proof -
  have "strip_chars http_space (lead @ (''Bearer '' @ gap @ token) @ trail) = ''Bearer '' @ gap @ token"
    using assms by (intro strip_chars_around) (simp_all add: http_space_def)
  moreover have "partition_at (CHR '' '') (''Bearer'' @ CHR '' '' # gap @ token) = (''Bearer'', True, gap @ token)"
    by (rule partition_at_first) simp
  moreover have "strip_chars http_space (gap @ token @ []) = token"
    using assms by (intro strip_chars_around) simp_all
  ultimately have "normalize_authorization (lead @ ''Bearer '' @ gap @ token @ trail) = ''Bearer '' @ token"
    by (simp add: normalize_authorization_def)
  then show ?thesis by (simp add: match_credential_def match_from_result eq_commute [of token])
qed

lemma match_credential_ignores_white_space_witness:
  "match_credential [\<lparr>cr_token = ''k1'', cr_operator = Some ''ann''\<rparr>, \<lparr>cr_token = ''k2'', cr_operator = None\<rparr>]
     '' Bearer   k2 '' = Some \<lparr>cr_token = ''k2'', cr_operator = None\<rparr>"
  using match_credential_ignores_white_space [of "'' ''" "''  ''" "'' ''" "''k2''"
      "[\<lparr>cr_token = ''k1'', cr_operator = Some ''ann''\<rparr>, \<lparr>cr_token = ''k2'', cr_operator = None\<rparr>]"]
  by (simp add: http_space_def)

text \<open>The text of the setting: named tokens joined by commas.\<close>

fun join_comma :: "string list \<Rightarrow> string" where
  "join_comma [] = []"
| "join_comma [w] = w"
| "join_comma (w # ws) = w @ '','' @ join_comma ws"

definition operator_entry :: "credential \<Rightarrow> string" where
  "operator_entry c = the (cr_operator c) @ '':'' @ cr_token c"

definition plain_credential :: "credential \<Rightarrow> bool" where
  "plain_credential c \<longleftrightarrow>
     (case cr_operator c of None \<Rightarrow> False | Some name \<Rightarrow>
        name \<noteq> [] \<and> CHR '':'' \<notin> set name \<and> CHR '','' \<notin> set name \<and> py_strip name = name \<and>
        \<not> py_space (hd name)) \<and>
     cr_token c \<noteq> [] \<and> CHR '','' \<notin> set (cr_token c) \<and> py_strip (cr_token c) = cr_token c \<and>
     \<not> py_space (last (cr_token c))"

lemma split_on_word: "c \<notin> set w \<Longrightarrow> split_on c w = [w]"
  by (induction w) auto

lemma split_on_cons: "c \<notin> set w \<Longrightarrow> split_on c (w @ c # rest) = w # split_on c rest"
  by (induction w) auto

lemma split_join_comma:
  "words \<noteq> [] \<Longrightarrow> (\<And>w. w \<in> set words \<Longrightarrow> CHR '','' \<notin> set w) \<Longrightarrow> split_on (CHR '','') (join_comma words) = words"
  by (induction words rule: join_comma.induct) (simp_all add: split_on_word split_on_cons)

lemma parse_operator_entry:
  assumes "plain_credential c"
  shows "parse_entry (operator_entry c) = Some c"
proof -
  obtain name where n: "cr_operator c = Some name" using assms by (auto simp: plain_credential_def split: option.splits)
  note p = assms [unfolded plain_credential_def n, simplified]
  have "py_strip (operator_entry c) = operator_entry c"
    using p n by (intro py_strip_id) (simp add: operator_entry_def)
  then show ?thesis
    using p n partition_at_first [of "CHR '':''" name "cr_token c"]
    by (cases c) (simp add: parse_entry_def operator_entry_def)
qed

text \<open>
  the setting of named tokens reads back as the credentials it was written from, colons in the
  tokens included: every operator keeps its own token, in order, and none becomes a shared one.
\<close>

lemma operator_tokens_read_back:
  assumes "list_all plain_credential credentials"
  shows "parse_operator_tokens (join_comma (map operator_entry credentials)) = credentials"
proof (cases "credentials = []")
  case True
  then show ?thesis by (simp add: parse_operator_tokens_def parse_entry_def py_strip_def List.map_filter_simps)
next
  case False
  have "CHR '','' \<notin> set (operator_entry c)" if "c \<in> set credentials" for c
    using that assms by (auto simp: list_all_iff plain_credential_def operator_entry_def split: option.splits)
  then have "split_on (CHR '','') (join_comma (map operator_entry credentials)) = map operator_entry credentials"
    using False by (intro split_join_comma) auto
  moreover have "List.map_filter parse_entry (map operator_entry credentials) = credentials"
    using assms by (induction credentials) (auto simp: List.map_filter_simps parse_operator_entry)
  ultimately show ?thesis by (simp add: parse_operator_tokens_def)
qed

lemma operator_tokens_read_back_witness:
  "parse_operator_tokens ''ann:k:1,bob:k2'' =
     [\<lparr>cr_token = ''k:1'', cr_operator = Some ''ann''\<rparr>, \<lparr>cr_token = ''k2'', cr_operator = Some ''bob''\<rparr>]"
proof -
  have "list_all plain_credential
     [\<lparr>cr_token = ''k:1'', cr_operator = Some ''ann''\<rparr>, \<lparr>cr_token = ''k2'', cr_operator = Some ''bob''\<rparr>]"
    by code_simp
  from operator_tokens_read_back [OF this] show ?thesis by (simp add: operator_entry_def)
qed

end
