(* ===== verification/SlidingWindow.thy ===== *)
theory SlidingWindow
  imports Prelude
begin

text \<open>
  The contract of a sliding-window limit: a log of the instants a caller was let through, pruned to the
  window, and a caller let through only while the log is shorter than the limit. Its guarantee, proved
  once here: over any run of calls in time order, no window of that length holds more than the limit.
\<close>

definition in_window :: "int \<Rightarrow> int \<Rightarrow> int list \<Rightarrow> nat" where
  "in_window window t instants = length (filter (\<lambda>x. t - window < x \<and> x \<le> t) instants)"

text \<open>The instants at which a run of calls was let through.\<close>

fun admitted :: "('e \<Rightarrow> 's \<Rightarrow> 's \<times> bool) \<Rightarrow> ('e \<Rightarrow> int) \<Rightarrow> 'e list \<Rightarrow> 's \<Rightarrow> int list" where
  "admitted admit instant [] s = []"
| "admitted admit instant (e # es) s =
     (case admit e s of (s', ok) \<Rightarrow> (if ok then [instant e] else []) @ admitted admit instant es s')"

locale window_limiter =
  fixes admit :: "'e \<Rightarrow> 's \<Rightarrow> 's \<times> bool" and served :: "'e \<Rightarrow> bool" and instant :: "'e \<Rightarrow> int" and kept :: "'s \<Rightarrow> int list"
    and window :: int and limit :: nat and inv :: "int \<Rightarrow> 's \<Rightarrow> bool"
  assumes window_pos: "0 < window"
    and keeps: "inv latest s \<Longrightarrow> served e \<Longrightarrow> latest \<le> instant e \<Longrightarrow> admit e s = (s', ok) \<Longrightarrow> inv (instant e) s'"
    and let_through: "inv latest s \<Longrightarrow> served e \<Longrightarrow> latest \<le> instant e \<Longrightarrow> admit e s = (s', True) \<Longrightarrow>
      length (filter (\<lambda>x. instant e - window < x) (kept s)) < limit \<and>
      (\<exists>c \<le> instant e - window. kept s' = filter (\<lambda>x. c < x) (kept s) @ [instant e])"
    and refused: "inv latest s \<Longrightarrow> served e \<Longrightarrow> latest \<le> instant e \<Longrightarrow> admit e s = (s', False) \<Longrightarrow>
      kept s' = kept s \<or> (\<exists>c \<le> instant e - window. kept s' = filter (\<lambda>x. c < x) (kept s))"
begin

text \<open>The log is the run so far, from some moment no later than the window's start.\<close>

lemma filter_cut:
  "kept_log = filter (\<lambda>x. c < (x :: int)) hist \<Longrightarrow> c \<le> d \<Longrightarrow>
   filter (\<lambda>x. d < x) kept_log = filter (\<lambda>x. d < x) hist"
  by (auto intro!: filter_cong)

lemma filter_cut_max:
  "kept_log = filter (\<lambda>x. c < (x :: int)) hist \<Longrightarrow> filter (\<lambda>x. d < x) kept_log = filter (\<lambda>x. max c d < x) hist"
  by (auto intro!: filter_cong)

lemma in_window_add:
  assumes "\<And>x. x \<in> set hist \<Longrightarrow> x \<le> now" and "length (filter (\<lambda>x. now - window < x) hist) < limit"
    and "\<And>t. in_window window t hist \<le> limit"
  shows "in_window window t (hist @ [now]) \<le> limit"
proof (cases "now \<le> t \<and> t - window < now")
  case True
  have "filter (\<lambda>x. t - window < x \<and> x \<le> t) hist = filter (\<lambda>x. t - window < x) (filter (\<lambda>x. now - window < x) hist)"
    using True assms(1) by (force intro!: filter_cong)
  then have "in_window window t hist \<le> length (filter (\<lambda>x. now - window < x) hist)"
    by (simp add: in_window_def flip: filter_filter)
  with assms(2) True show ?thesis by (simp add: in_window_def)
next
  case False
  with assms(3) [of t] show ?thesis by (auto simp: in_window_def)
qed

lemma run_in_window:
  assumes "inv latest s" and "list_all served es" and "sorted (map instant es)" and "\<And>e. e \<in> set es \<Longrightarrow> latest \<le> instant e"
    and "\<And>x. x \<in> set hist \<Longrightarrow> x \<le> latest" and "kept s = filter (\<lambda>x. c < x) hist" and "c \<le> latest - window"
    and "\<And>t. in_window window t hist \<le> limit"
  shows "in_window window t (hist @ admitted admit instant es s) \<le> limit"
  using assms
proof (induction es arbitrary: s hist c latest)
  case Nil
  then show ?case by simp
next
  case (Cons e es)
  obtain s' ok where a: "admit e s = (s', ok)" by (cases "admit e s")
  have served_e: "served e" and served_es: "list_all served es" using Cons.prems(2) by simp_all
  have le: "latest \<le> instant e" using Cons.prems(4) by simp
  have inv': "inv (instant e) s'" using keeps [OF Cons.prems(1) served_e le a] .
  have srt: "sorted (map instant es)" "\<And>d. d \<in> set es \<Longrightarrow> instant e \<le> instant d" using Cons.prems(3) by auto
  have hist_le: "\<And>x. x \<in> set hist \<Longrightarrow> x \<le> instant e" using Cons.prems(5) le by force
  show ?case
  proof (cases ok)
    case True
    have "admit e s = (s', True)" using a True by simp
    note l = let_through [OF Cons.prems(1) served_e le this]
    obtain d where d: "d \<le> instant e - window" "kept s' = filter (\<lambda>x. d < x) (kept s) @ [instant e]" using l by blast
    have short: "length (filter (\<lambda>x. instant e - window < x) hist) < limit"
      using l filter_cut [OF Cons.prems(6), of "instant e - window"] Cons.prems(7) le by simp
    let ?c = "max c d"
    have c_le: "?c \<le> instant e - window" using d(1) Cons.prems(7) le by simp
    have kept': "kept s' = filter (\<lambda>x. ?c < x) (hist @ [instant e])"
      using filter_cut_max [OF Cons.prems(6), of d] d(2) c_le window_pos by simp
    have "in_window window t ((hist @ [instant e]) @ admitted admit instant es s') \<le> limit"
      by (rule Cons.IH [OF inv' served_es srt(1) srt(2) _ kept' c_le in_window_add [OF hist_le short Cons.prems(8)]])
        (use hist_le in auto)
    then show ?thesis by (simp add: a True)
  next
    case False
    have "admit e s = (s', False)" using a False by simp
    from refused [OF Cons.prems(1) served_e le this]
    obtain d where d: "d \<le> instant e - window" "kept s' = filter (\<lambda>x. d < x) hist"
    proof
      assume "kept s' = kept s"
      with Cons.prems(6,7) le show thesis by (intro that [of c]) simp_all
    next
      assume "\<exists>d \<le> instant e - window. kept s' = filter (\<lambda>x. d < x) (kept s)"
      then obtain d where "d \<le> instant e - window" "kept s' = filter (\<lambda>x. d < x) (kept s)" by blast
      with filter_cut_max [OF Cons.prems(6), of d] Cons.prems(7) le show thesis
        by (intro that [of "max c d"]) simp_all
    qed
    have "in_window window t (hist @ admitted admit instant es s') \<le> limit"
      by (rule Cons.IH [OF inv' served_es srt(1) srt(2) hist_le d(2,1) Cons.prems(8)])
    then show ?thesis by (simp add: a False)
  qed
qed

lemma limited:
  assumes "inv latest s" and "list_all served es" and "sorted (map instant es)" and "\<And>e. e \<in> set es \<Longrightarrow> latest \<le> instant e" and "kept s = []"
  shows "in_window window t (admitted admit instant es s) \<le> limit"
proof -
  have "in_window window t ([] @ admitted admit instant es s) \<le> limit"
    by (rule run_in_window [OF assms(1-4), of "[]" "latest - window"]) (use assms(5) in \<open>simp_all add: in_window_def\<close>)
  then show ?thesis by simp
qed

end

end
