(* ===== verification/RateLimits.thy ===== *)
theory RateLimits
  imports AuthPolicy SlidingWindow
begin

text \<open>
  The API's throttle (rate_limits.py): sliding-window buckets by key in an LRU dict of bounded size, and
  the key a request is counted under. Instants are microseconds of the monotonic clock; the SHA-256 of a
  header (its first 16 hex digits) is the parameter \<open>digest\<close>.
\<close>

record rate_decision =
  rd_limit :: int
  rd_window_seconds :: int
  rd_remaining :: int
  rd_reset_after_seconds :: int
  rd_exceeded :: bool
  rd_retry_after_seconds :: "int option"

text \<open>\<open>_events\<close> is an \<open>OrderedDict\<close>: the least recently used key first.\<close>

record limiter =
  sl_limit :: int
  sl_window_seconds :: int
  sl_max_buckets :: int
  sl_events :: "(string \<times> stamp list) list"

datatype limiter_error = LimitNotPositive | WindowNotPositive | BucketsNotPositive

definition new_limiter :: "int \<Rightarrow> int \<Rightarrow> int \<Rightarrow> limiter_error + limiter" where
  "new_limiter limit window_seconds max_buckets =
     (if limit \<le> 0 then Inl LimitNotPositive
      else if window_seconds \<le> 0 then Inl WindowNotPositive
      else if max_buckets \<le> 0 then Inl BucketsNotPositive
      else Inr \<lparr>sl_limit = limit, sl_window_seconds = window_seconds, sl_max_buckets = max_buckets, sl_events = []\<rparr>)"

definition prune_bucket :: "stamp \<Rightarrow> stamp list \<Rightarrow> stamp list" where
  "prune_bucket cutoff bucket = dropWhile (\<lambda>t. t \<le> cutoff) bucket"

text \<open>
  \<open>_ensure_capacity\<close>: the loop over the keys prunes each bucket where it is and drops an empty one until
  there is room (True); then whole buckets go, the least recently used first.
\<close>

fun trim_expired :: "stamp \<Rightarrow> int \<Rightarrow> string list \<Rightarrow> (string \<times> stamp list) list \<Rightarrow> (string \<times> stamp list) list \<times> bool" where
  "trim_expired cutoff max_buckets [] events = (events, False)"
| "trim_expired cutoff max_buckets (key # keys) events =
     (let bucket = prune_bucket cutoff (the (map_of events key));
          events' = (if bucket = [] then AList.delete key events else AList.update key bucket events)
      in if int (length events') < max_buckets then (events', True)
         else trim_expired cutoff max_buckets keys events')"

fun evict_oldest :: "int \<Rightarrow> (string \<times> stamp list) list \<Rightarrow> (string \<times> stamp list) list" where
  "evict_oldest max_buckets [] = []"
| "evict_oldest max_buckets (entry # events) =
     (if max_buckets \<le> int (length (entry # events)) then evict_oldest max_buckets events else entry # events)"

definition ensure_capacity :: "stamp \<Rightarrow> int \<Rightarrow> (string \<times> stamp list) list \<Rightarrow> (string \<times> stamp list) list" where
  "ensure_capacity cutoff max_buckets events =
     (if int (length events) < max_buckets then events
      else case trim_expired cutoff max_buckets (map fst events) events of
             (trimmed, True) \<Rightarrow> trimmed
           | (trimmed, False) \<Rightarrow> evict_oldest max_buckets trimmed)"

text \<open>\<open>max(1, math.ceil(window_seconds - (timestamp - bucket[0])))\<close>.\<close>

definition seconds_left :: "limiter \<Rightarrow> stamp \<Rightarrow> stamp \<Rightarrow> int" where
  "seconds_left l timestamp oldest =
     max 1 (- ((- (sl_window_seconds l * 1000000 - (timestamp - oldest))) div 1000000))"

definition evaluate :: "string \<Rightarrow> stamp \<Rightarrow> limiter \<Rightarrow> rate_decision \<times> limiter" where
  "evaluate key timestamp l =
     (let cutoff = timestamp - sl_window_seconds l * 1000000;
          (others, bucket) =
            (case map_of (sl_events l) key of
               None \<Rightarrow> (ensure_capacity cutoff (sl_max_buckets l) (sl_events l), [])
             | Some b \<Rightarrow> (AList.delete key (sl_events l), b));
          live = prune_bucket cutoff bucket
      in if sl_limit l \<le> int (length live) then
           (let retry_after = seconds_left l timestamp (hd live) in
            (\<lparr>rd_limit = sl_limit l, rd_window_seconds = sl_window_seconds l, rd_remaining = 0,
              rd_reset_after_seconds = retry_after, rd_exceeded = True, rd_retry_after_seconds = Some retry_after\<rparr>,
             l\<lparr>sl_events := others @ [(key, live)]\<rparr>))
         else
           (let live' = live @ [timestamp] in
            (\<lparr>rd_limit = sl_limit l, rd_window_seconds = sl_window_seconds l,
              rd_remaining = max 0 (sl_limit l - int (length live')),
              rd_reset_after_seconds = seconds_left l timestamp (hd live'), rd_exceeded = False,
              rd_retry_after_seconds = None\<rparr>,
             l\<lparr>sl_events := others @ [(key, live')]\<rparr>)))"

section \<open>Which requests are counted, and under which key\<close>

definition EXEMPT_SUBTREES :: "string list" where
  "EXEMPT_SUBTREES = [''/artifacts'']"

definition is_exempt_path :: "string \<Rightarrow> string list \<Rightarrow> bool" where
  "is_exempt_path path exempt_paths =
     list_ex (\<lambda>exempt. path = exempt \<or> (exempt \<in> set EXEMPT_SUBTREES \<and> has_prefix (exempt @ ''/'') path)) exempt_paths"

definition client_or_unknown :: "string option \<Rightarrow> string" where
  "client_or_unknown client_host = (if truthy client_host then the client_host else ''unknown'')"

definition build_rate_limit_key ::
  "(string \<Rightarrow> string) \<Rightarrow> string \<Rightarrow> (string \<Rightarrow> string option) \<Rightarrow> string option \<Rightarrow> bool \<Rightarrow> string" where
  "build_rate_limit_key digest operator_id_header headers client_host authenticated =
     (if \<not> authenticated then ''unauth-ip:'' @ client_or_unknown client_host
      else if truthy (headers ''authorization'') then
        ''auth:'' @ digest (normalize_authorization (the (headers ''authorization'')))
      else if truthy (headers operator_id_header) then
        ''operator:'' @ digest (py_strip (the (headers operator_id_header)))
      else ''ip:'' @ client_or_unknown client_host)"

section \<open>The size of the table\<close>

text \<open>What holds of every limiter, whatever its clock does: one bucket to a key, none longer than the limit.\<close>

definition short_buckets :: "int \<Rightarrow> (string \<times> stamp list) list \<Rightarrow> bool" where
  "short_buckets n events \<longleftrightarrow>
     distinct (map fst events) \<and> (\<forall>key bucket. map_of events key = Some bucket \<longrightarrow> int (length bucket) \<le> n)"

lemma length_prune: "length (prune_bucket cutoff bucket) \<le> length bucket"
  by (simp add: prune_bucket_def length_dropWhile_le)

lemma short_delete: "short_buckets n events \<Longrightarrow> short_buckets n (AList.delete key events)"
  unfolding short_buckets_def by (simp add: distinct_keys_delete map_of_delete_key)

lemma short_update:
  "short_buckets n events \<Longrightarrow> int (length bucket) \<le> n \<Longrightarrow> short_buckets n (AList.update key bucket events)"
  unfolding short_buckets_def by (simp add: distinct_keys_update map_of_update)

lemma short_suffix: 
  assumes "short_buckets n (xs @ ys)" shows "short_buckets n ys"
proof -
  have "map_of (xs @ ys) key = Some b" if "map_of ys key = Some b" for key b
  proof -
    have "key \<in> fst ` set ys" using map_of_SomeD [OF that] by force
    then have "map_of xs key = None" using assms by (auto simp: short_buckets_def map_of_eq_None_iff)
    with that show ?thesis by (simp add: map_add_def)
  qed
  then have "int (length b) \<le> n" if "map_of ys key = Some b" for key b
    using that assms unfolding short_buckets_def by blast
  with assms show ?thesis by (simp add: short_buckets_def)
qed

lemma trim_expired_short:
  "short_buckets n events \<Longrightarrow> set keys \<subseteq> fst ` set events \<Longrightarrow> distinct keys \<Longrightarrow>
   short_buckets n (fst (trim_expired cutoff m keys events))"
proof (induction keys arbitrary: events)
  case (Cons key keys)
  have "map_of events key \<noteq> None" using Cons.prems(2) by (simp add: map_of_eq_None_iff)
  then obtain bucket where b: "map_of events key = Some bucket" by blast
  let ?pruned = "prune_bucket cutoff bucket"
  let ?events = "if ?pruned = [] then AList.delete key events else AList.update key ?pruned events"
  have "int (length ?pruned) \<le> n"
    using b Cons.prems(1) length_prune [of cutoff bucket] by (force simp: short_buckets_def)
  with Cons.prems(1) have short: "short_buckets n ?events" by (simp add: short_delete short_update)
  have "set keys \<subseteq> fst ` set ?events"
    using Cons.prems(2,3) unfolding dom_map_of_conv_image_fst [symmetric]
    by (auto simp: dom_def map_of_delete_key map_of_update)
  with Cons.IH [OF short] Cons.prems(3) show ?case
    using short by (simp add: b Let_def)
qed simp

lemma trim_expired_room:
  "snd (trim_expired cutoff m keys events) \<Longrightarrow> int (length (fst (trim_expired cutoff m keys events))) < m"
  by (induction keys arbitrary: events) (simp_all add: Let_def split: if_splits)

lemma evict_oldest_suffix: "\<exists>gone. events = gone @ evict_oldest m events"
proof (induction events)
  case (Cons e events)
  then obtain gone where "events = gone @ evict_oldest m events" by blast
  then show ?case by (cases "m \<le> int (length (e # events))") (auto intro: exI [of _ "e # gone"])
qed simp

lemma evict_oldest_room: "0 < m \<Longrightarrow> int (length (evict_oldest m events)) < m"
  by (induction events) simp_all

lemma ensure_capacity_short: "short_buckets n events \<Longrightarrow> short_buckets n (ensure_capacity cutoff m events)"
proof -
  assume short: "short_buckets n events"
  obtain trimmed ok where t: "trim_expired cutoff m (map fst events) events = (trimmed, ok)" by force
  have "short_buckets n trimmed"
    using trim_expired_short [OF short, of "map fst events" cutoff m] short t by (simp add: short_buckets_def)
  moreover obtain gone where "trimmed = gone @ evict_oldest m trimmed" using evict_oldest_suffix by blast
  ultimately have "short_buckets n (evict_oldest m trimmed)" by (metis short_suffix)
  with short \<open>short_buckets n trimmed\<close> show ?thesis by (simp add: ensure_capacity_def t split: bool.split)
qed

lemma ensure_capacity_room: "0 < m \<Longrightarrow> int (length (ensure_capacity cutoff m events)) < m"
  using trim_expired_room [of cutoff m "map fst events" events]
  by (cases "trim_expired cutoff m (map fst events) events")
    (simp add: ensure_capacity_def evict_oldest_room split: bool.splits)

text \<open>A key without a bucket stays without one.\<close>

lemma trim_expired_absent:
  "map_of events key = None \<Longrightarrow> key \<notin> set keys \<Longrightarrow> map_of (fst (trim_expired cutoff m keys events)) key = None"
proof (induction keys arbitrary: events)
  case (Cons k keys)
  let ?pruned = "prune_bucket cutoff (the (map_of events k))"
  let ?events = "if ?pruned = [] then AList.delete k events else AList.update k ?pruned events"
  have "map_of ?events key = None" using Cons.prems by (simp add: map_of_delete_key map_of_update)
  with Cons.IH Cons.prems(2) show ?case by (simp add: Let_def)
qed simp

lemma ensure_capacity_absent: "map_of events key = None \<Longrightarrow> map_of (ensure_capacity cutoff m events) key = None"
proof -
  assume absent: "map_of events key = None"
  then have "key \<notin> set (map fst events)" by (simp add: map_of_eq_None_iff)
  obtain trimmed ok where t: "trim_expired cutoff m (map fst events) events = (trimmed, ok)" by force
  have none: "map_of trimmed key = None"
    using trim_expired_absent [OF absent \<open>key \<notin> _\<close>, of cutoff m] t by simp
  obtain gone where "trimmed = gone @ evict_oldest m trimmed" using evict_oldest_suffix by blast
  then have "set (evict_oldest m trimmed) \<subseteq> set trimmed" by (metis Un_upper2 set_append)
  with none have "map_of (evict_oldest m trimmed) key = None" by (auto simp: map_of_eq_None_iff)
  with none absent show ?thesis by (simp add: ensure_capacity_def t split: bool.split)
qed

definition limiter_ok :: "limiter \<Rightarrow> bool" where
  "limiter_ok l \<longleftrightarrow>
     0 < sl_limit l \<and> 0 < sl_window_seconds l \<and> 0 < sl_max_buckets l \<and>
     int (length (sl_events l)) \<le> sl_max_buckets l \<and> short_buckets (sl_limit l) (sl_events l)"

lemma new_limiter_ok: "new_limiter limit window m = Inr l \<Longrightarrow> limiter_ok l"
  by (auto simp: new_limiter_def limiter_ok_def short_buckets_def split: if_splits)

lemma length_delete_present:
  "distinct (map fst events) \<Longrightarrow> map_of events key = Some b \<Longrightarrow> Suc (length (AList.delete key events)) = length events"
proof (induction events)
  case (Cons e events)
  have "AList.delete key events = events" if "key \<notin> fst ` set events"
    using that by simp
  with Cons show ?case by (cases e) (auto split: if_splits)
qed simp

lemma short_add:
  "short_buckets n events \<Longrightarrow> map_of events key = None \<Longrightarrow> int (length b) \<le> n \<Longrightarrow> short_buckets n (events @ [(key, b)])"
  unfolding short_buckets_def
  by (auto simp: map_add_def map_of_eq_None_iff split: option.splits if_splits)

lemma evaluate_ok: "limiter_ok l \<Longrightarrow> limiter_ok (snd (evaluate key timestamp l))"
proof -
  assume ok: "limiter_ok l"
  let ?cutoff = "timestamp - sl_window_seconds l * 1000000"
  obtain others bucket where ob: "(case map_of (sl_events l) key of
       None \<Rightarrow> (ensure_capacity ?cutoff (sl_max_buckets l) (sl_events l), [])
     | Some b \<Rightarrow> (AList.delete key (sl_events l), b)) = (others, bucket)" by force
  have pos: "0 < sl_limit l" "0 < sl_max_buckets l" "short_buckets (sl_limit l) (sl_events l)"
    "distinct (map fst (sl_events l))" "int (length (sl_events l)) \<le> sl_max_buckets l"
    using ok by (simp_all add: limiter_ok_def short_buckets_def)
  have others: "short_buckets (sl_limit l) others \<and> map_of others key = None \<and>
      int (length others) < sl_max_buckets l \<and> int (length bucket) \<le> sl_limit l"
  proof (cases "map_of (sl_events l) key")
    case None
    with ob have "others = ensure_capacity ?cutoff (sl_max_buckets l) (sl_events l)" "bucket = []" by simp_all
    with None pos show ?thesis
      by (simp add: ensure_capacity_short ensure_capacity_room ensure_capacity_absent)
  next
    case (Some b)
    with ob have eq: "others = AList.delete key (sl_events l)" "bucket = b" by simp_all
    have "int (length b) \<le> sl_limit l" using pos(3) Some by (simp add: short_buckets_def)
    moreover have "Suc (length others) = length (sl_events l)"
      using length_delete_present [OF pos(4) Some] eq by simp
    ultimately show ?thesis using pos eq by (simp add: short_delete map_of_delete_key)
  qed
  let ?live = "prune_bucket ?cutoff bucket"
  have "int (length ?live) \<le> sl_limit l" using others length_prune [of ?cutoff bucket] by simp
  with others have grown: "short_buckets (sl_limit l) (others @ [(key, ?live)])"
    "\<not> sl_limit l \<le> int (length ?live) \<Longrightarrow> short_buckets (sl_limit l) (others @ [(key, ?live @ [timestamp])])"
    by (simp_all add: short_add)
  show ?thesis
  proof (cases "sl_limit l \<le> int (length ?live)")
    case True
    with grown(1) others ok show ?thesis by (simp add: evaluate_def ob Let_def limiter_ok_def)
  next
    case False
    with grown(2) others ok show ?thesis by (simp add: evaluate_def ob Let_def limiter_ok_def)
  qed
qed

definition run_calls :: "(string \<times> stamp) list \<Rightarrow> limiter \<Rightarrow> limiter" where
  "run_calls calls l = foldl (\<lambda>l (key, timestamp). snd (evaluate key timestamp l)) l calls"

lemma run_calls_ok: "limiter_ok l \<Longrightarrow> limiter_ok (run_calls calls l)"
  unfolding run_calls_def by (induction calls arbitrary: l) (simp_all add: evaluate_ok split_beta)

text \<open>
  whatever keys and clock readings callers bring, and in whatever order, the limiter never holds
  more than its maximum of buckets, nor a bucket more than the limit of instants.
\<close>

lemma limiter_stays_bounded:
  assumes "new_limiter limit window_seconds max_buckets = Inr l"
  shows "int (length (sl_events (run_calls calls l))) \<le> max_buckets \<and>
         list_all (\<lambda>(key, bucket). int (length bucket) \<le> limit) (sl_events (run_calls calls l))"
proof -
  have same: "sl_limit (run_calls calls l) = sl_limit l \<and> sl_max_buckets (run_calls calls l) = sl_max_buckets l" for l
    unfolding run_calls_def
    by (induction calls arbitrary: l) (simp_all add: split_beta evaluate_def Let_def)
  have "limiter_ok (run_calls calls l)" using assms by (intro run_calls_ok) (rule new_limiter_ok)
  moreover have "sl_limit l = limit" "sl_max_buckets l = max_buckets"
    using assms by (auto simp: new_limiter_def split: if_splits)
  ultimately show ?thesis using same [of l]
    by (auto simp: limiter_ok_def short_buckets_def list_all_iff)
qed

lemma limiter_stays_bounded_witness:
  "length (sl_events (run_calls [(''a'', 1), (''b'', 2), (''c'', 3)]
     \<lparr>sl_limit = 5, sl_window_seconds = 60, sl_max_buckets = 2, sl_events = []\<rparr>)) \<le> 2"
  using limiter_stays_bounded [of 5 60 2 "\<lparr>sl_limit = 5, sl_window_seconds = 60, sl_max_buckets = 2, sl_events = []\<rparr>"
      "[(''a'', 1), (''b'', 2), (''c'', 3)]"]
  by (simp add: new_limiter_def)

definition bucket_of :: "limiter \<Rightarrow> string \<Rightarrow> stamp list" where
  "bucket_of l key = (case map_of (sl_events l) key of None \<Rightarrow> [] | Some bucket \<Rightarrow> bucket)"

text \<open>
  a refused caller is told to wait at least a second, and a caller who comes back after that wait,
  with no call of its key in between, is let through.
\<close>

lemma retry_after_is_enough:
  assumes "new_limiter limit window_seconds max_buckets = Inr start"
    and "evaluate key timestamp (run_calls calls start) = (d, l)" and "rd_exceeded d"
    and "timestamp + the (rd_retry_after_seconds d) * 1000000 \<le> later"
  shows "1 \<le> the (rd_retry_after_seconds d) \<and> \<not> rd_exceeded (fst (evaluate key later l))"
proof -
  let ?l = "run_calls calls start"
  let ?cut = "\<lambda>t. t - sl_window_seconds ?l * 1000000"
  have ok: "limiter_ok ?l" "limiter_ok l"
    using run_calls_ok [OF new_limiter_ok [OF assms(1)]] evaluate_ok [of ?l key timestamp] assms(2) by simp_all
  obtain bucket where b: "map_of (sl_events ?l) key = Some bucket"
    using assms(2,3) ok(1) by (cases "map_of (sl_events ?l) key")
      (auto simp: evaluate_def Let_def prune_bucket_def limiter_ok_def split: if_splits)
  define live where "live = prune_bucket (?cut timestamp) bucket"
  have full: "sl_limit ?l \<le> int (length live)"
    and d: "the (rd_retry_after_seconds d) = seconds_left ?l timestamp (hd live)"
    and l: "l = ?l\<lparr>sl_events := AList.delete key (sl_events ?l) @ [(key, live)]\<rparr>"
    using assms(2,3) b by (auto simp: evaluate_def Let_def live_def split: if_splits)
  have "live \<noteq> []" using full ok(1) by (auto simp: limiter_ok_def)
  then obtain oldest rest where live: "live = oldest # rest" by (cases live) auto
  have "map_of (sl_events l) key = Some live" using l by (simp add: map_add_def map_of_delete_key)
  then have "int (length live) \<le> sl_limit ?l" using ok(2) l by (auto simp: limiter_ok_def short_buckets_def)
  have "timestamp + seconds_left ?l timestamp oldest * 1000000 \<le> later" using assms(4) d live by simp
  moreover have "sl_window_seconds ?l * 1000000 - (timestamp - oldest) \<le> seconds_left ?l timestamp oldest * 1000000"
    by (simp add: seconds_left_def) 
  ultimately have "oldest \<le> ?cut later" by simp
  then have "length (prune_bucket (?cut later) live) < length live"
    using length_prune [of "?cut later" rest] by (simp add: live prune_bucket_def)
  with \<open>int (length live) \<le> _\<close> have "int (length (prune_bucket (?cut later) live)) < sl_limit ?l" by simp
  then have "\<not> rd_exceeded (fst (evaluate key later l))"
    using \<open>map_of (sl_events l) key = Some live\<close> l by (simp add: evaluate_def Let_def)
  moreover have "1 \<le> the (rd_retry_after_seconds d)" by (simp add: d seconds_left_def)
  ultimately show ?thesis by simp
qed

lemma retry_after_is_enough_witness:
  "\<not> rd_exceeded (fst (evaluate ''a'' 60000003
     \<lparr>sl_limit = 1, sl_window_seconds = 60, sl_max_buckets = 2, sl_events = [(''a'', [2])]\<rparr>))"
proof -
  let ?start = "\<lparr>sl_limit = 1, sl_window_seconds = 60, sl_max_buckets = 2, sl_events = []\<rparr>"
  have "new_limiter 1 60 2 = Inr ?start" by (simp add: new_limiter_def)
  moreover have "evaluate ''a'' 3 (run_calls [(''a'', 2)] ?start) =
      (\<lparr>rd_limit = 1, rd_window_seconds = 60, rd_remaining = 0, rd_reset_after_seconds = 60,
        rd_exceeded = True, rd_retry_after_seconds = Some 60\<rparr>, ?start\<lparr>sl_events := [(''a'', [2])]\<rparr>)"
    by code_simp
  ultimately show ?thesis
    using retry_after_is_enough [of 1 60 2 ?start "''a''" 3 "[(''a'', 2)]" _ _ 60000003] by simp
qed

section \<open>The throttle\<close>

text \<open>While the keys in use fit the table, no bucket is evicted and each key has a log of its own.\<close>

definition limiter_in :: "int \<Rightarrow> int \<Rightarrow> string set \<Rightarrow> int \<Rightarrow> limiter \<Rightarrow> bool" where
  "limiter_in limit window_seconds keys latest l \<longleftrightarrow>
     limiter_ok l \<and> sl_limit l = limit \<and> sl_window_seconds l = window_seconds \<and>
     finite keys \<and> int (card keys) \<le> sl_max_buckets l \<and> fst ` set (sl_events l) \<subseteq> keys \<and>
     (\<forall>key. sorted (bucket_of l key) \<and> (\<forall>x \<in> set (bucket_of l key). x \<le> latest))"

lemma prune_sorted: "sorted bucket \<Longrightarrow> prune_bucket cutoff bucket = filter (\<lambda>x. cutoff < x) bucket"
  unfolding prune_bucket_def
proof (induction bucket)
  case (Cons x bucket)
  have "filter (\<lambda>y. cutoff < y) bucket = bucket" if "cutoff < x"
    using that Cons.prems by (auto simp: filter_id_conv)
  with Cons show ?case by auto
qed simp

lemma ensure_capacity_fits:
  assumes "limiter_in limit w keys latest l" and "map_of (sl_events l) key = None" and "key \<in> keys"
  shows "ensure_capacity cutoff (sl_max_buckets l) (sl_events l) = sl_events l"
proof -
  have d: "distinct (map fst (sl_events l))" using assms(1) by (simp add: limiter_in_def limiter_ok_def short_buckets_def)
  have "fst ` set (sl_events l) \<subset> keys" using assms by (auto simp: limiter_in_def map_of_eq_None_iff)
  then have "card (fst ` set (sl_events l)) < card keys" using assms(1) by (simp add: limiter_in_def psubset_card_mono)
  then have "length (sl_events l) < card keys" using distinct_card [OF d] by simp
  then show ?thesis using assms(1) by (simp add: limiter_in_def ensure_capacity_def)
qed

lemma evaluate_in:
  assumes "limiter_in limit w keys latest l" and "key \<in> keys" and "evaluate key timestamp l = (d, l')"
  defines "live \<equiv> filter (\<lambda>x. timestamp - w * 1000000 < x) (bucket_of l key)"
  shows "rd_exceeded d = (limit \<le> int (length live))"
    and "l' = l\<lparr>sl_events := AList.delete key (sl_events l) @ [(key, if rd_exceeded d then live else live @ [timestamp])]\<rparr>"
proof -
  let ?cutoff = "timestamp - w * 1000000"
  have w: "sl_window_seconds l = w" "sl_limit l = limit" and srt: "sorted (bucket_of l key)"
    using assms(1) by (auto simp: limiter_in_def)
  have "(case map_of (sl_events l) key of
       None \<Rightarrow> (ensure_capacity ?cutoff (sl_max_buckets l) (sl_events l), [])
     | Some b \<Rightarrow> (AList.delete key (sl_events l), b)) = (AList.delete key (sl_events l), bucket_of l key)"
  proof (cases "map_of (sl_events l) key")
    case None
    then have "AList.delete key (sl_events l) = sl_events l" by (simp add: map_of_eq_None_iff)
    with None show ?thesis using ensure_capacity_fits [OF assms(1) None assms(2)] by (simp add: bucket_of_def)
  qed (simp add: bucket_of_def)
  moreover have "prune_bucket ?cutoff (bucket_of l key) = live" using srt by (simp add: live_def prune_sorted)
  ultimately have ev: "evaluate key timestamp l =
      (if limit \<le> int (length live) then
         (let retry_after = seconds_left l timestamp (hd live) in
            (\<lparr>rd_limit = limit, rd_window_seconds = w, rd_remaining = 0,
              rd_reset_after_seconds = retry_after, rd_exceeded = True, rd_retry_after_seconds = Some retry_after\<rparr>,
             l\<lparr>sl_events := AList.delete key (sl_events l) @ [(key, live)]\<rparr>))
       else (let live' = live @ [timestamp] in
            (\<lparr>rd_limit = limit, rd_window_seconds = w,
              rd_remaining = max 0 (limit - int (length live')),
              rd_reset_after_seconds = seconds_left l timestamp (hd live'), rd_exceeded = False,
              rd_retry_after_seconds = None\<rparr>,
             l\<lparr>sl_events := AList.delete key (sl_events l) @ [(key, live')]\<rparr>)))"
    unfolding evaluate_def by (simp add: w)
  then show "rd_exceeded d = (limit \<le> int (length live))"
    and "l' = l\<lparr>sl_events := AList.delete key (sl_events l) @ [(key, if rd_exceeded d then live else live @ [timestamp])]\<rparr>"
    using assms(3) by (auto simp: Let_def split: if_splits)
qed

lemma bucket_of_put:
  "bucket_of (l\<lparr>sl_events := AList.delete key (sl_events l) @ [(key, b)]\<rparr>) k = (if k = key then b else bucket_of l k)"
  by (simp add: bucket_of_def map_add_def map_of_delete_key split: option.split)

lemma keys_delete: "fst ` set (AList.delete key events) = fst ` set events - {key}"
  by (induction events) auto

lemma evaluate_keeps_in:
  assumes "limiter_in limit w keys latest l" and "key \<in> keys" and "evaluate key timestamp l = (d, l')" and "latest \<le> timestamp"
  shows "limiter_in limit w keys timestamp l'"
proof -
  note e = evaluate_in(2) [OF assms(1-3)]
  have ok: "limiter_ok l'" using evaluate_ok [of l key timestamp] assms(1,3) by (simp add: limiter_in_def)
  have b: "\<forall>k. sorted (bucket_of l k) \<and> (\<forall>x \<in> set (bucket_of l k). x \<le> timestamp)"
    using assms(1,4) unfolding limiter_in_def by force
  have "sorted (bucket_of l' k) \<and> (\<forall>x \<in> set (bucket_of l' k). x \<le> timestamp)" for k
    unfolding e bucket_of_put using b by (auto simp: sorted_append sorted_wrt_filter)
  moreover have "fst ` set (sl_events l') \<subseteq> keys"
    using assms(1,2) unfolding e limiter_in_def by (auto simp: keys_delete)
  moreover have "sl_limit l' = limit" "sl_window_seconds l' = w" "sl_max_buckets l' = sl_max_buckets l"
    using assms(1) unfolding e limiter_in_def by simp_all
  ultimately show ?thesis using assms(1) ok by (simp add: limiter_in_def)
qed

record rate_request =
  rq_headers :: "string \<Rightarrow> string option"
  rq_client :: "string option"
  rq_authenticated :: bool
  rq_at :: stamp

definition request_key :: "(string \<Rightarrow> string) \<Rightarrow> string \<Rightarrow> rate_request \<Rightarrow> string" where
  "request_key digest operator_id_header r =
     build_rate_limit_key digest operator_id_header (rq_headers r) (rq_client r) (rq_authenticated r)"

text \<open>Whether the limiter let a request through that counts under a key.\<close>

definition pass_request ::
  "(string \<Rightarrow> string) \<Rightarrow> string \<Rightarrow> (rate_request \<Rightarrow> bool) \<Rightarrow> rate_request \<Rightarrow> limiter \<Rightarrow> limiter \<times> bool" where
  "pass_request digest operator_id_header counted r l =
     (case evaluate (request_key digest operator_id_header r) (rq_at r) l of
        (d, l') \<Rightarrow> (l', counted r \<and> \<not> rd_exceeded d))"

interpretation throttle:
  window_limiter "pass_request digest header (\<lambda>r. request_key digest header r = key)"
    "\<lambda>r. request_key digest header r \<in> keys" rq_at "\<lambda>l. bucket_of l key" "max 1 w * 1000000" "nat limit"
    "limiter_in limit (max 1 w) keys"
proof
  show "0 < max 1 w * 1000000" by simp
next
  fix latest l r l' ok
  assume i: "limiter_in limit (max 1 w) keys latest l" "request_key digest header r \<in> keys" "latest \<le> rq_at r"
    and p: "pass_request digest header (\<lambda>r. request_key digest header r = key) r l = (l', ok)"
  then obtain d where e: "evaluate (request_key digest header r) (rq_at r) l = (d, l')"
    by (auto simp: pass_request_def split: prod.splits)
  show "limiter_in limit (max 1 w) keys (rq_at r) l'" by (rule evaluate_keeps_in [OF i(1,2) e i(3)])
next
  fix latest l r l'
  assume i: "limiter_in limit (max 1 w) keys latest l" "request_key digest header r \<in> keys" "latest \<le> rq_at r"
    and p: "pass_request digest header (\<lambda>r. request_key digest header r = key) r l = (l', True)"
  then obtain d where e: "evaluate key (rq_at r) l = (d, l')" "key \<in> keys" "\<not> rd_exceeded d"
    by (auto simp: pass_request_def split: prod.splits)
  note f = evaluate_in [OF i(1) e(2,1)]
  have "bucket_of l' key = filter (\<lambda>x. rq_at r - max 1 w * 1000000 < x) (bucket_of l key) @ [rq_at r]"
    using f(2) e(3) bucket_of_put by simp
  with f(1) e(3) show "length (filter (\<lambda>x. rq_at r - max 1 w * 1000000 < x) (bucket_of l key)) < nat limit \<and>
      (\<exists>c \<le> rq_at r - max 1 w * 1000000. bucket_of l' key = filter (\<lambda>x. c < x) (bucket_of l key) @ [rq_at r])"
    by (auto simp: not_le zless_nat_eq_int_zless)
next
  fix latest l r l'
  assume i: "limiter_in limit (max 1 w) keys latest l" "request_key digest header r \<in> keys" "latest \<le> rq_at r"
    and p: "pass_request digest header (\<lambda>r. request_key digest header r = key) r l = (l', False)"
  then obtain d where e: "evaluate (request_key digest header r) (rq_at r) l = (d, l')"
    "request_key digest header r = key \<longrightarrow> rd_exceeded d"
    by (auto simp: pass_request_def split: prod.splits)
  show "bucket_of l' key = bucket_of l key \<or>
      (\<exists>c \<le> rq_at r - max 1 w * 1000000. bucket_of l' key = filter (\<lambda>x. c < x) (bucket_of l key))"
    using evaluate_in(2) [OF i(1,2) e(1)] e(2) bucket_of_put by auto
qed

lemma unauth_key_iff:
  "host \<noteq> [] \<Longrightarrow> host \<noteq> ''unknown'' \<Longrightarrow>
   request_key digest header r = ''unauth-ip:'' @ host \<longleftrightarrow> \<not> rq_authenticated r \<and> rq_client r = Some host"
  by (cases "rq_client r") (auto simp: request_key_def build_rate_limit_key_def client_or_unknown_def truthy_def)

text \<open>
  C35: a client that has not proven it holds a token gets the configured number of requests in any window,
  however it varies its headers, as long as the keys in use fit the limiter's table: every guess counts
  against the one bucket of its address.
\<close>

theorem guesses_share_one_bucket:
  assumes "new_limiter limit window_seconds max_buckets = Inr l"
    and "sorted (map rq_at requests)" and "host \<noteq> []" and "host \<noteq> ''unknown''"
    and "int (card (set (map (request_key digest operator_id_header) requests))) \<le> max_buckets"
  shows "int (in_window (window_seconds * 1000000) t
      (admitted (pass_request digest operator_id_header (\<lambda>r. \<not> rq_authenticated r \<and> rq_client r = Some host))
         rq_at requests l)) \<le> limit"
proof (cases requests)
  case Nil
  then show ?thesis using assms(1) by (auto simp: in_window_def new_limiter_def split: if_splits)
next
  case (Cons r rest)
  have l: "0 < limit" "0 < window_seconds" "l = \<lparr>sl_limit = limit, sl_window_seconds = window_seconds,
      sl_max_buckets = max_buckets, sl_events = []\<rparr>"
    using assms(1) by (auto simp: new_limiter_def split: if_splits)
  let ?keys = "set (map (request_key digest operator_id_header) requests)"
  have "in_window (max 1 window_seconds * 1000000) t
      (admitted (pass_request digest operator_id_header
         (\<lambda>r. request_key digest operator_id_header r = ''unauth-ip:'' @ host)) rq_at requests l) \<le> nat limit"
  proof (rule throttle.limited [of limit window_seconds ?keys "rq_at r"])
    show "limiter_in limit (max 1 window_seconds) ?keys (rq_at r) l"
      using new_limiter_ok [OF assms(1)] assms(5) l by (simp add: limiter_in_def bucket_of_def)
    show "\<And>e. e \<in> set requests \<Longrightarrow> rq_at r \<le> rq_at e" using assms(2) Cons by auto
  qed (use assms(2) l in \<open>auto simp: list_all_iff bucket_of_def\<close>)
  then have "in_window (window_seconds * 1000000) t
      (admitted (pass_request digest operator_id_header (\<lambda>r. \<not> rq_authenticated r \<and> rq_client r = Some host))
         rq_at requests l) \<le> nat limit"
    using l(2) unfolding unauth_key_iff [OF assms(3,4)] by simp
  with l(1) show ?thesis by linarith
qed

theorem guesses_share_one_bucket_witness:
  "int (in_window 60000000 5 (admitted (pass_request (\<lambda>s. s) ''x-op''
      (\<lambda>r. \<not> rq_authenticated r \<and> rq_client r = Some ''10.0.0.7'')) rq_at
     [\<lparr>rq_headers = (\<lambda>_. Some ''Bearer a''), rq_client = Some ''10.0.0.7'', rq_authenticated = False, rq_at = 1\<rparr>,
      \<lparr>rq_headers = (\<lambda>_. Some ''Bearer b''), rq_client = Some ''10.0.0.7'', rq_authenticated = False, rq_at = 2\<rparr>]
     \<lparr>sl_limit = 1, sl_window_seconds = 60, sl_max_buckets = 2, sl_events = []\<rparr>)) \<le> 1"
proof -
  let ?rs = "[\<lparr>rq_headers = (\<lambda>_. Some ''Bearer a''), rq_client = Some ''10.0.0.7'', rq_authenticated = False, rq_at = 1\<rparr>,
      \<lparr>rq_headers = (\<lambda>_. Some ''Bearer b''), rq_client = Some ''10.0.0.7'', rq_authenticated = False, rq_at = 2\<rparr>]"
  have "card (set (map (request_key (\<lambda>s. s) ''x-op'') ?rs)) \<le> 2" by (simp add: card_insert_if)
  with guesses_share_one_bucket [of 1 60 2 "\<lparr>sl_limit = 1, sl_window_seconds = 60, sl_max_buckets = 2, sl_events = []\<rparr>"
      ?rs "''10.0.0.7''" "\<lambda>s. s" "''x-op''" 5]
  show ?thesis by (simp add: new_limiter_def)
qed

end
