(* ===== verification/UrlSafety.thy ===== *)
theory UrlSafety
  imports UrlText
begin

text \<open>
  Reading a URL's host the way a browser does (url_safety.py): the rewriting both parsers agree on, and
  the refusal of a URL in which a browser could read another host than urllib. The mapping of a host
  that is not ASCII (the third-party idna package's UTS 46 table, and unicodedata's case folding and
  composition) is a parameter.
\<close>

definition special_schemes :: "string list" where
  "special_schemes = [''http:'', ''https:'', ''ws:'', ''wss:'', ''ftp:'', ''file:'']"

definition slash_char :: "char \<Rightarrow> bool" where
  "slash_char c \<longleftrightarrow> c = CHR ''/'' \<or> of_char c = (92 :: nat)"

definition backslash :: "char \<Rightarrow> bool" where
  "backslash c \<longleftrightarrow> of_char c = (92 :: nat)"

definition cut_char :: "char \<Rightarrow> bool" where
  "cut_char c \<longleftrightarrow> c = CHR ''?'' \<or> c = CHR ''#''"

text \<open>The match of \<open>_AUTHORITY_SLASHES\<close>: the scheme and colon it keeps.\<close>

definition authority_scheme :: "string \<Rightarrow> string option" where
  "authority_scheme s =
     map_option (\<lambda>p. take (length p) s)
       (find (\<lambda>p. has_prefix p (lower s)) [''https:'', ''http:'', ''wss:'', ''ws:'', ''ftp:''])"

definition slash_authority :: "string \<Rightarrow> string" where
  "slash_authority s =
     (case authority_scheme s of
        None \<Rightarrow> s
      | Some scheme \<Rightarrow> scheme @ ''//'' @ dropWhile slash_char (drop (length scheme) s))"

text \<open>A backslash is a slash up to the query or the fragment.\<close>

definition slashify :: "string \<Rightarrow> string" where
  "slashify s =
     map (\<lambda>c. if backslash c then CHR ''/'' else c) (takeWhile (\<lambda>c. \<not> cut_char c) s) @
     dropWhile (\<lambda>c. \<not> cut_char c) s"

definition browser_equivalent_url :: "string \<Rightarrow> string" where
  "browser_equivalent_url url =
     (let normalized = filter (\<lambda>c. \<not> tab_or_newline c) (strip_chars control_or_space url) in
      if \<not> list_ex (\<lambda>p. has_prefix p (lower normalized)) special_schemes then normalized
      else slashify (slash_authority normalized))"

datatype url_refusal =
    BackslashOrControl | ControlInHost | NotAUrl | AnotherHostToABrowser
  | BrowserRefusesHost | MappedToAnotherHost | UrllibMapsAnother | DecodedByABrowser

definition scheme_and_authority :: "string \<Rightarrow> string" where
  "scheme_and_authority url =
     (if CHR '':'' \<notin> set url then url
      else
        let authority = dropWhile slash_char (snd (snd (partition_at (CHR '':'') url)));
            kept = length (takeWhile (\<lambda>c. \<not> slash_char c \<and> \<not> cut_char c) authority)
        in take (length url - length authority + kept) url)"

definition number_label :: "string \<Rightarrow> bool" where
  "number_label s \<longleftrightarrow>
     (has_prefix ''0x'' s \<or> has_prefix ''0X'' s) \<and> list_all hex_char (drop 2 s) \<or> s \<noteq> [] \<and> list_all digit_char s"

definition canonical_octet :: "string \<Rightarrow> bool" where
  "canonical_octet s \<longleftrightarrow> list_all digit_char s \<and> s \<noteq> [] \<and> length s \<le> 3 \<and>
     (length s > 1 \<longrightarrow> hd s \<noteq> CHR ''0'') \<and> nat_of_digits s \<le> 255"

definition canonical_ipv4 :: "string \<Rightarrow> bool" where
  "canonical_ipv4 s \<longleftrightarrow> (let octets = split_on (CHR ''.'') s in length octets = 4 \<and> list_all canonical_octet octets)"

definition decoded_by_a_browser :: "string \<Rightarrow> bool" where
  "decoded_by_a_browser host =
     (if CHR ''%'' \<in> set host then True
      else if CHR '':'' \<in> set host then False
      else
        let labels = split_on (CHR ''.'') host;
            lastl = (if last labels \<noteq> [] then last labels
                     else if length labels > 1 then last (butlast labels) else [])
        in number_label lastl \<and> \<not> canonical_ipv4 host)"

text \<open>
  \<open>refuse_another_navigation_host\<close>: \<open>browser_host\<close> (\<open>None\<close>: a code point UTS 46 disallows) and
  \<open>folded\<close> are the parameters. Every refusal is a \<open>ValueError\<close>; \<open>urlsplit\<close>'s own is \<open>NotAUrl\<close>.
\<close>

definition refuse_another_navigation_host ::
  "(string \<Rightarrow> string option) \<Rightarrow> (string \<Rightarrow> string) \<Rightarrow> string \<Rightarrow> url_refusal + string" where
  "refuse_another_navigation_host browser_host folded url =
     (if list_ex control_char (scheme_and_authority url) then Inl ControlInHost
      else case urlsplit url of None \<Rightarrow> Inl NotAUrl
      | Some parts \<Rightarrow>
        (case urlsplit (browser_equivalent_url url) of None \<Rightarrow> Inl NotAUrl
         | Some browser_parts \<Rightarrow>
           let host = url_hostname parts;
               written = fst (partition_at (CHR '':'') (snd (snd (rpartition_at (CHR ''@'') (su_netloc parts)))));
               decoded = (if host \<noteq> None \<and> decoded_by_a_browser (the host) then Inl DecodedByABrowser else Inr url)
           in if host \<noteq> url_hostname browser_parts then Inl AnotherHostToABrowser
              else if list_all ascii_char written then decoded
              else case browser_host written of None \<Rightarrow> Inl BrowserRefusesHost
                | Some mapped \<Rightarrow>
                  (case (if host = None \<or> list_all ascii_char (the host) then Some host
                         else map_option Some (browser_host (the host))) of
                     None \<Rightarrow> Inl BrowserRefusesHost
                   | Some urllib_mapped \<Rightarrow>
                       if folded mapped \<noteq> folded written then Inl MappedToAnotherHost
                       else if urllib_mapped \<noteq> Some mapped then Inl UrllibMapsAnother
                       else decoded)))"

definition refuse_ambiguous_host ::
  "(string \<Rightarrow> string option) \<Rightarrow> (string \<Rightarrow> string) \<Rightarrow> string \<Rightarrow> url_refusal + string" where
  "refuse_ambiguous_host browser_host folded url =
     (if list_ex backslash url \<or> list_ex control_char url then Inl BackslashOrControl
      else refuse_another_navigation_host browser_host folded url)"

section \<open>Lemmas\<close>

text \<open>A text without a space or control at either end, and no tab or newline.\<close>

definition trimmed :: "string \<Rightarrow> bool" where
  "trimmed s \<longleftrightarrow> list_all (\<lambda>c. \<not> tab_or_newline c) s \<and>
     (s = [] \<or> \<not> control_or_space (hd s) \<and> \<not> control_or_space (last s))"

lemma strip_chars_fixed: "s = [] \<or> \<not> P (hd s) \<and> \<not> P (last s) \<Longrightarrow> strip_chars P s = s"
proof (cases "s = []")
  case False
  assume "s = [] \<or> \<not> P (hd s) \<and> \<not> P (last s)"
  with False have "dropWhile P s = s" and "dropWhile P (rev s) = rev s"
    by (simp_all add: dropWhile_eq_self_iff hd_rev)
  then show ?thesis by (simp add: strip_chars_def)
qed (simp add: strip_chars_def)

lemma strip_chars_parts: "\<exists>a b. s = a @ strip_chars P s @ b \<and> list_all P a \<and> list_all P b"
proof -
  let ?m = "dropWhile P s"
  have "s = takeWhile P s @ strip_chars P s @ rev (takeWhile P (rev ?m))"
    unfolding strip_chars_def by (metis append.assoc rev_append rev_rev_ident takeWhile_dropWhile_id)
  moreover have "list_all P (takeWhile P s)" "list_all P (rev (takeWhile P (rev ?m)))"
    by (auto simp: list_all_iff dest: set_takeWhileD)
  ultimately show ?thesis by blast
qed

lemma strip_chars_ends:
  assumes "strip_chars P s \<noteq> []"
  shows "\<not> P (hd (strip_chars P s))" and "\<not> P (last (strip_chars P s))"
proof -
  let ?m = "dropWhile P s" and ?t = "strip_chars P s"
  have t: "rev ?t = dropWhile P (rev ?m)" by (simp add: strip_chars_def)
  then show "\<not> P (last ?t)" using assms by (metis hd_dropWhile hd_rev rev_is_Nil_conv)
  have "?m = ?t @ rev (takeWhile P (rev ?m))" using t by (metis rev_append rev_rev_ident takeWhile_dropWhile_id)
  then have "hd ?m = hd ?t" and "?m \<noteq> []" using assms by (metis hd_append2, metis append_is_Nil_conv)
  then show "\<not> P (hd ?t)" by (metis hd_dropWhile)
qed

lemma trimmed_normalized: "trimmed (filter (\<lambda>c. \<not> tab_or_newline c) (strip_chars control_or_space url))"
proof -
  let ?t = "strip_chars control_or_space url"
  have keeps: "\<not> control_or_space c \<Longrightarrow> \<not> tab_or_newline c" for c
    by (auto simp: control_or_space_def tab_or_newline_def)
  show ?thesis
  proof (cases "?t = []")
    case False
    note e = strip_chars_ends [OF this]
    obtain x xs where t: "?t = x # xs" using False by (cases ?t) auto
    obtain ys y where t': "?t = ys @ [y]" using False by (cases ?t rule: rev_cases) auto
    have "hd (filter (\<lambda>c. \<not> tab_or_newline c) ?t) = hd ?t" using e(1) keeps t by simp
    moreover have "last (filter (\<lambda>c. \<not> tab_or_newline c) ?t) = last ?t" using e(2) keeps t' by simp
    ultimately show ?thesis using e by (auto simp: trimmed_def list_all_iff)
  qed (simp add: trimmed_def)
qed

lemma normalize_trimmed:
  "trimmed s \<Longrightarrow> filter (\<lambda>c. \<not> tab_or_newline c) (strip_chars control_or_space s) = s"
  by (auto simp: trimmed_def strip_chars_fixed list_all_iff)

lemma slashify_simps [simp]:
  "slashify [] = []"
  "slashify (c # s) =
     (if cut_char c then c # s else (if backslash c then CHR ''/'' else c) # slashify s)"
  by (simp_all add: slashify_def)

lemma slash_not_cut [simp]: "\<not> cut_char (CHR ''/'')" "\<not> backslash (CHR ''/'')" "slash_char (CHR ''/'')"
  by (simp_all add: cut_char_def backslash_def slash_char_def)

lemma slashify_idem: "slashify (slashify s) = slashify s"
  by (induction s) auto

lemma slashify_append:
  "list_all (\<lambda>c. \<not> cut_char c \<and> \<not> backslash c) p \<Longrightarrow> slashify (p @ s) = p @ slashify s"
  by (induction p) auto

lemma slashify_hd: "s \<noteq> [] \<Longrightarrow> \<not> slash_char (hd s) \<Longrightarrow> slashify s \<noteq> [] \<and> \<not> slash_char (hd (slashify s))"
  by (cases s) (auto simp: backslash_def slash_char_def)

lemma slashify_after_slashes:
  "slashify (dropWhile slash_char s) = [] \<or> \<not> slash_char (hd (slashify (dropWhile slash_char s)))"
proof (cases "dropWhile slash_char s = []")
  case False
  then have "\<not> slash_char (hd (dropWhile slash_char s))" by (rule hd_dropWhile)
  with slashify_hd [OF False] show ?thesis by blast
next
  case True
  then show ?thesis by (simp only: slashify_simps simp_thms)
qed

lemma slashify_length [simp]: "length (slashify s) = length s" "slashify s = [] \<longleftrightarrow> s = []"
  by (induction s) auto

lemma slashify_last: "s \<noteq> [] \<Longrightarrow> last (slashify s) = last s \<or> last (slashify s) = CHR ''/''"
  by (induction s) auto

lemma slashify_set: "set (slashify s) \<subseteq> insert (CHR ''/'') (set s)"
  by (induction s) auto

lemma slash_kept [simp]: "\<not> control_or_space (CHR ''/'')" "\<not> tab_or_newline (CHR ''/'')"
  by (simp_all add: control_or_space_def tab_or_newline_def)

lemma trimmed_slashify: "trimmed s \<Longrightarrow> trimmed (slashify s)"
proof (cases "s = []")
  case False
  assume t: "trimmed s"
  have "hd (slashify s) = hd s \<or> hd (slashify s) = CHR ''/''" using False by (cases s) auto
  moreover have "\<forall>c \<in> set (slashify s). \<not> tab_or_newline c"
    using slashify_set [of s] t by (auto simp: trimmed_def list_all_iff)
  ultimately show ?thesis
    using False t slashify_last [OF False] by (auto simp: trimmed_def list_all_iff)
qed simp

lemma dropWhile_last: "dropWhile P s \<noteq> [] \<Longrightarrow> last (dropWhile P s) = last s"
  by (induction s) auto

lemma trimmed_slashes:
  assumes t: "trimmed (scheme @ s)" and "scheme \<noteq> []"
  shows "trimmed (scheme @ ''//'' @ dropWhile slash_char s)"
proof -
  have "\<forall>c \<in> set (dropWhile slash_char s). \<not> tab_or_newline c"
    using t by (auto simp: trimmed_def list_all_iff dest!: set_dropWhileD)
  moreover have "\<not> control_or_space (last (CHR ''/'' # CHR ''/'' # dropWhile slash_char s))"
  proof (cases "dropWhile slash_char s = []")
    case False
    then have "s \<noteq> []" by auto
    with False dropWhile_last [OF False] t show ?thesis by (simp add: trimmed_def)
  qed simp
  ultimately show ?thesis using assms by (auto simp: trimmed_def list_all_iff)
qed

text \<open>The scheme a special URL starts with.\<close>

lemma has_prefix_split: "has_prefix p (lower s) \<Longrightarrow> \<exists>a b. s = a @ b \<and> lower a = p \<and> length a = length p"
proof -
  assume "has_prefix p (lower s)"
  then have "lower (take (length p) s) = p" by (simp add: has_prefix_def lower_def take_map)
  then have "length (take (length p) s) = length p" by (metis length_map lower_def)
  then show ?thesis using \<open>lower (take (length p) s) = p\<close> by (metis append_take_drop_id)
qed

lemma lower_append [simp]: "lower (a @ b) = lower a @ lower b"
  by (simp add: lower_def)

lemma has_prefix_append [simp]: "has_prefix p (p @ s)"
  by (simp add: has_prefix_def)

lemma special_scheme_plain:
  assumes "lower a = p" and "p \<in> set special_schemes"
  shows "list_all (\<lambda>c. \<not> cut_char c \<and> \<not> backslash c) a" and "a \<noteq> []"
proof -
  have "cut_char c \<or> backslash c \<Longrightarrow> lower_char c = c" for c
    by (auto simp: cut_char_def backslash_def lower_char_def Let_def)
  moreover have "list_all (\<lambda>p. list_all (\<lambda>c. \<not> cut_char c \<and> \<not> backslash c) p) special_schemes" by code_simp
  then have "\<not> cut_char c \<and> \<not> backslash c" if "c \<in> set p" for c
    using that assms(2) by (simp add: list_all_iff)
  moreover have "lower_char c \<in> set p" if "c \<in> set a" for c
    using that assms(1) by (auto simp: lower_def)
  ultimately show "list_all (\<lambda>c. \<not> cut_char c \<and> \<not> backslash c) a"
    unfolding list_all_iff by metis
  show "a \<noteq> []" using assms by (auto simp: special_schemes_def lower_def)
qed

definition authority_schemes :: "string list" where
  "authority_schemes = [''https:'', ''http:'', ''wss:'', ''ws:'', ''ftp:'']"

lemma find_scheme:
  assumes "p \<in> set special_schemes"
  shows "find (\<lambda>q. has_prefix q (p @ s)) authority_schemes = (if p = ''file:'' then None else Some p)"
proof -
  have "p = ''http:'' \<or> p = ''https:'' \<or> p = ''ws:'' \<or> p = ''wss:'' \<or> p = ''ftp:'' \<or> p = ''file:''"
    using assms unfolding special_schemes_def by (simp only: list.set insert_iff empty_iff simp_thms)
  then show ?thesis
    by (elim disjE) (simp_all add: authority_schemes_def has_prefix_def)
qed

lemma authority_scheme_of:
  assumes "lower a = p" and "p \<in> set special_schemes"
  shows "authority_scheme (a @ s) = (if p = ''file:'' then None else Some a)"
proof -
  have "length a = length p" using assms(1) by (auto simp: lower_def)
  then show ?thesis
    using find_scheme [OF assms(2), of "lower s"] assms(1)
    by (simp add: authority_scheme_def flip: authority_schemes_def)
qed

text \<open>A special URL after the rewriting is a fixed point of it.\<close>

lemma special_fixed:
  assumes t: "trimmed r" and r: "r = a @ rest" "lower a = p" "p \<in> set special_schemes"
    and "slashify rest = rest"
    and "p \<noteq> ''file:'' \<Longrightarrow> \<exists>more. rest = ''//'' @ more \<and> (more = [] \<or> \<not> slash_char (hd more))"
  shows "browser_equivalent_url r = r"
proof -
  have sp: "list_ex (\<lambda>p. has_prefix p (lower r)) special_schemes"
    unfolding list_ex_iff by (rule bexI [of _ p]) (use r in simp_all)
  have "slash_authority r = r"
  proof (cases "p = ''file:''")
    case True
    then show ?thesis using authority_scheme_of [OF r(2,3), of rest] r(1) by (simp add: slash_authority_def)
  next
    case False
    then obtain more where m: "rest = ''//'' @ more" "more = [] \<or> \<not> slash_char (hd more)"
      using assms(6) by blast
    then have "dropWhile slash_char rest = more" by (cases more) auto
    then show ?thesis
      using authority_scheme_of [OF r(2,3), of rest] False r(1) m(1) by (simp add: slash_authority_def)
  qed
  moreover have "slashify r = r"
    using slashify_append [OF special_scheme_plain(1) [OF r(2,3)]] assms(5) r(1) by simp
  ultimately show ?thesis
    using sp by (simp add: browser_equivalent_url_def normalize_trimmed [OF t])
qed

lemma browser_equivalent_form:
  assumes "list_ex (\<lambda>p. has_prefix p (lower n)) special_schemes"
    and n: "n = filter (\<lambda>c. \<not> tab_or_newline c) (strip_chars control_or_space url)"
  obtains a p s where "n = a @ s" and "lower a = p" and "p \<in> set special_schemes"
    and "browser_equivalent_url url = a @ slashify (if p = ''file:'' then s else ''//'' @ dropWhile slash_char s)"
proof -
  obtain p where p: "p \<in> set special_schemes" "has_prefix p (lower n)" using assms(1) by (auto simp: list_ex_iff)
  obtain a s where as: "n = a @ s" "lower a = p" using has_prefix_split [OF p(2)] by blast
  have "slash_authority n = a @ (if p = ''file:'' then s else ''//'' @ dropWhile slash_char s)"
    using authority_scheme_of [OF as(2) p(1), of s] as(1) by (simp add: slash_authority_def)
  then have "browser_equivalent_url url = slashify (a @ (if p = ''file:'' then s else ''//'' @ dropWhile slash_char s))"
    using assms(1) unfolding browser_equivalent_url_def Let_def n [symmetric] by simp
  then show ?thesis
    using that [OF as p(1)] slashify_append [OF special_scheme_plain(1) [OF as(2) p(1)]] by simp
qed

text \<open>
  the rewriting settles in one step: rewriting a rewritten URL changes nothing, so the host an
  allowlist reads from it does not depend on how often it was applied.
\<close>

lemma browser_equivalent_idem:
  "browser_equivalent_url (browser_equivalent_url url) = browser_equivalent_url url"
proof -
  define n where n: "n = filter (\<lambda>c. \<not> tab_or_newline c) (strip_chars control_or_space url)"
  have t: "trimmed n" unfolding n by (rule trimmed_normalized)
  show ?thesis
  proof (cases "list_ex (\<lambda>p. has_prefix p (lower n)) special_schemes")
    case False
    then have "browser_equivalent_url url = n" unfolding browser_equivalent_url_def Let_def n by simp
    with False normalize_trimmed [OF t] show ?thesis by (simp add: browser_equivalent_url_def)
  next
    case True
    from True n obtain a p s where as: "n = a @ s" "lower a = p" "p \<in> set special_schemes"
      and r: "browser_equivalent_url url = a @ slashify (if p = ''file:'' then s else ''//'' @ dropWhile slash_char s)"
      by (rule browser_equivalent_form)
    note plain = special_scheme_plain [OF as(2,3)]
    let ?s = "if p = ''file:'' then s else ''//'' @ dropWhile slash_char s"
    have "trimmed (a @ s)" using t as(1) by simp
    from trimmed_slashes [OF this plain(2)] this have "trimmed (a @ ?s)" by simp
    then have tr: "trimmed (a @ slashify ?s)"
      using trimmed_slashify slashify_append [OF plain(1)] by metis
    have more: "\<exists>more. slashify ?s = ''//'' @ more \<and> (more = [] \<or> \<not> slash_char (hd more))"
      if "p \<noteq> ''file:''"
    proof -
      have "slashify ?s = ''//'' @ slashify (dropWhile slash_char s)" using that by simp
      then show ?thesis using slashify_after_slashes by blast
    qed
    show ?thesis
      unfolding r by (rule special_fixed [OF tr refl as(2,3) slashify_idem more])
  qed
qed

lemma slashify_no_backslash: "list_all (\<lambda>c. \<not> backslash c) (takeWhile (\<lambda>c. \<not> cut_char c) (slashify s))"
  by (induction s) auto

text \<open>
  in a rewritten http, https, ws, wss or ftp URL the authority follows exactly two slashes, and up to
  the query or fragment it holds no backslash, so no other host can hide behind one.
\<close>

lemma browser_equivalent_authority:
  assumes "list_ex (\<lambda>p. has_prefix p (lower (browser_equivalent_url url))) authority_schemes"
  shows "\<exists>scheme more. browser_equivalent_url url = scheme @ ''//'' @ more \<and>
    lower scheme \<in> set authority_schemes \<and> (more = [] \<or> \<not> slash_char (hd more)) \<and>
    list_all (\<lambda>c. \<not> backslash c) (takeWhile (\<lambda>c. \<not> cut_char c) more)"
proof -
  define n where n: "n = filter (\<lambda>c. \<not> tab_or_newline c) (strip_chars control_or_space url)"
  have sub: "set authority_schemes \<subseteq> set special_schemes" by (auto simp: authority_schemes_def special_schemes_def)
  have True: "list_ex (\<lambda>p. has_prefix p (lower n)) special_schemes"
  proof (rule ccontr)
    assume no: "\<not> list_ex (\<lambda>p. has_prefix p (lower n)) special_schemes"
    then have "browser_equivalent_url url = n" unfolding browser_equivalent_url_def Let_def n by simp
    with no assms sub show False by (auto simp: list_ex_iff)
  qed
  from True n obtain a p s where as: "n = a @ s" "lower a = p" "p \<in> set special_schemes"
    and r: "browser_equivalent_url url = a @ slashify (if p = ''file:'' then s else ''//'' @ dropWhile slash_char s)"
    by (rule browser_equivalent_form)
  have notfile: "p \<noteq> ''file:''"
  proof
    assume "p = ''file:''"
    then have "find (\<lambda>q. has_prefix q (lower (browser_equivalent_url url))) authority_schemes = None"
      using find_scheme [OF as(3)] r as(2) by simp
    with assms show False by (simp add: find_None_iff list_ex_iff)
  qed
  have "p \<in> set authority_schemes"
    using as(3) notfile by (auto simp: authority_schemes_def special_schemes_def)
  moreover have "browser_equivalent_url url = a @ ''//'' @ slashify (dropWhile slash_char s)"
    using r notfile by simp
  ultimately show ?thesis
    using as(2) slashify_no_backslash [of "dropWhile slash_char s"] slashify_after_slashes [of s] by blast
qed

lemma browser_equivalent_authority_witness:
  "\<exists>scheme more. browser_equivalent_url ''http:evil.com'' = scheme @ ''//'' @ more \<and>
    lower scheme \<in> set authority_schemes \<and> (more = [] \<or> \<not> slash_char (hd more)) \<and>
    list_all (\<lambda>c. \<not> backslash c) (takeWhile (\<lambda>c. \<not> cut_char c) more)"
proof (rule browser_equivalent_authority)
  show "list_ex (\<lambda>p. has_prefix p (lower (browser_equivalent_url ''http:evil.com''))) authority_schemes"
    by code_simp
qed

lemma refuse_navigation_accepts:
  assumes "refuse_another_navigation_host bh folded url = Inr u"
  obtains parts browser_parts where "u = url" and "urlsplit url = Some parts"
    and "urlsplit (browser_equivalent_url url) = Some browser_parts"
    and "url_hostname parts = url_hostname browser_parts"
    and "\<And>h. url_hostname parts = Some h \<Longrightarrow> \<not> decoded_by_a_browser h"
proof -
  obtain parts where p: "urlsplit url = Some parts"
    using assms by (auto simp: refuse_another_navigation_host_def split: option.splits if_splits)
  obtain bparts where b: "urlsplit (browser_equivalent_url url) = Some bparts"
    using assms p by (auto simp: refuse_another_navigation_host_def split: option.splits if_splits)
  have same: "url_hostname parts = url_hostname bparts"
    using assms p b by (auto simp: refuse_another_navigation_host_def Let_def split: if_splits)
  have "(if url_hostname parts \<noteq> None \<and> decoded_by_a_browser (the (url_hostname parts))
      then Inl DecodedByABrowser else Inr url) = Inr u"
    using assms p b unfolding refuse_another_navigation_host_def Let_def
    by (simp only: option.case if_False) (auto simp del: not_None_eq split: if_splits option.splits)
  then have "u = url" and "\<And>h. url_hostname parts = Some h \<Longrightarrow> \<not> decoded_by_a_browser h"
    by (auto split: if_splits)
  with that p b same show ?thesis by blast
qed



end
