(* ===== verification/JsonValues.thy ===== *)
theory JsonValues
  imports Prelude
begin

text \<open>
  JSON values as the code holds them after parsing: an object is an association list with distinct keys, a
  number its Python text.
\<close>

datatype json = JNull | JBool bool | JNum string | JStr string | JArr "json list" | JObj "(string \<times> json) list"

type_synonym members = "(string \<times> json) list"

text \<open>Python's truth value.\<close>

fun json_truthy :: "json \<Rightarrow> bool" where
  "json_truthy JNull = False"
| "json_truthy (JBool b) = b"
| "json_truthy (JNum s) = (s \<notin> {''0'', ''0.0'', ''-0.0''})"
| "json_truthy (JStr s) = (s \<noteq> [])"
| "json_truthy (JArr items) = (items \<noteq> [])"
| "json_truthy (JObj ms) = (ms \<noteq> [])"

definition the_default :: "'a \<Rightarrow> 'a option \<Rightarrow> 'a" where
  "the_default d x = (case x of None \<Rightarrow> d | Some y \<Rightarrow> y)"

end
