(* ===== verification/MeshPolicy.thy ===== *)
theory MeshPolicy
  imports UrlSafety Ownership SlidingWindow JsonValues
begin

text \<open>
  The mesh's wire data (mesh/models.py) and the capability policy (mesh/policy.py): which grant of a peer
  covers a request, its four constraints, and the invocation log the hourly limit counts. Instants are
  microseconds; a number that comes from a file or a peer is a float of any kind.
\<close>

section \<open>Data\<close>

datatype wire_float = Finite int | PlusInfinity | MinusInfinity | NotANumber

text \<open>\<open>x < t\<close> against an instant of this node's clock: never of a NaN.\<close>

fun wire_below :: "wire_float \<Rightarrow> stamp \<Rightarrow> bool" where
  "wire_below (Finite t) x \<longleftrightarrow> t < x"
| "wire_below MinusInfinity x \<longleftrightarrow> True"
| "wire_below PlusInfinity x \<longleftrightarrow> False"
| "wire_below NotANumber x \<longleftrightarrow> False"

datatype capability_kind = ToolCapability | SessionCapability

record capability_grant =
  cg_capability :: string
  cg_url_allowlist :: "string list"
  cg_require_approval :: bool
  cg_max_invocations_per_hour :: int
  cg_expires_at :: wire_float

record peer_grant =
  pq_node_id :: string
  pq_grants :: "capability_grant list"

record peer_record =
  pr_node_id :: string
  pr_display_name :: string
  pr_pubkey_b64 :: string
  pr_endpoint :: string
  pr_grants :: "capability_grant list"
  pr_added_at :: wire_float
  pr_last_seen :: wire_float

record signed_envelope =
  se_sender_node_id :: string
  se_recipient_node_id :: string
  se_nonce :: string
  se_timestamp :: wire_float
  se_payload :: members
  se_signature_b64 :: string

record delegation_request =
  dr_request_id :: string
  dr_capability :: string
  dr_arguments :: members
  dr_session_id :: string
  dr_require_approval_advisory :: bool

record delegation_response =
  ds_request_id :: string
  ds_status :: string
  ds_result :: members
  ds_error :: string
  ds_approval_id :: string

section \<open>The URLs of a request\<close>

definition URL_ARGUMENT_KEYS :: "string list" where
  "URL_ARGUMENT_KEYS = [''url'', ''start_url'', ''urls'', ''cdp_url'']"

text \<open>\<open>str\<close> of a leaf, which is all the walk turns into text; a number is held as its text.\<close>

fun json_str :: "json \<Rightarrow> string" where
  "json_str (JStr s) = s"
| "json_str (JNum s) = s"
| "json_str (JBool b) = (if b then ''True'' else ''False'')"
| "json_str _ = ''None''"

function url_walk :: "string option \<Rightarrow> json \<Rightarrow> string list" where
  "url_walk key (JObj ms) = concat (map (\<lambda>m. url_walk (Some (fst m)) (snd m)) ms)"
| "url_walk key (JArr items) = concat (map (url_walk key) items)"
| "url_walk key JNull = []"
| "url_walk key (JBool b) = (if \<exists>k \<in> set URL_ARGUMENT_KEYS. key = Some k then [json_str (JBool b)] else [])"
| "url_walk key (JNum s) = (if \<exists>k \<in> set URL_ARGUMENT_KEYS. key = Some k then [json_str (JNum s)] else [])"
| "url_walk key (JStr s) = (if \<exists>k \<in> set URL_ARGUMENT_KEYS. key = Some k then [json_str (JStr s)] else [])"
  by pat_completeness auto

lemma size_member: "m \<in> set ms \<Longrightarrow> size (snd m) < size (JObj ms)"
proof -
  assume "m \<in> set ms"
  then have "size_prod (\<lambda>_. 0) size m \<le> size_list (size_prod (\<lambda>_. 0) size) ms"
    by (rule size_list_estimation') simp
  then show ?thesis by (cases m) simp
qed

lemma size_item: "item \<in> set items \<Longrightarrow> size item < size (JArr items)"
  using size_list_estimation' [of item items "size item" size] by simp

termination url_walk
  by (relation "measure (\<lambda>(_, j). size j)") (auto dest: size_item size_member simp del: json.size)

definition url_arguments :: "members \<Rightarrow> string list" where
  "url_arguments arguments = url_walk None (JObj arguments)"

section \<open>The URL allowlist\<close>

definition literal_brackets :: "string \<Rightarrow> string" where
  "literal_brackets s =
     concat (map (\<lambda>c. if c = CHR ''['' then ''[[]'' else if c = CHR '']'' then ''[]]'' else [c]) s)"

text \<open>\<open>parts.hostname or ""\<close>, lower-cased, and the host with its brackets and port.\<close>

definition host_of :: "split_url \<Rightarrow> string" where
  "host_of parts = lower (case url_hostname parts of None \<Rightarrow> [] | Some host \<Rightarrow> host)"

definition authority_of :: "split_url \<Rightarrow> nat option \<Rightarrow> string" where
  "authority_of parts port =
     (let host = host_of parts;
          authority = (if CHR '':'' \<in> set host then ''['' @ host @ '']'' else host)
      in case port of None \<Rightarrow> authority | Some n \<Rightarrow> authority @ '':'' @ decimal n)"

definition path_of :: "split_url \<Rightarrow> string" where
  "path_of parts =
     (if su_path parts = [] then ''/'' else su_path parts) @
     (if su_query parts = [] then [] else ''?'' @ su_query parts) @
     (if su_fragment parts = [] then [] else ''#'' @ su_fragment parts)"

definition url_matches :: "string \<Rightarrow> string \<Rightarrow> bool" where
  "url_matches url pattern0 =
     (case urlsplit (browser_equivalent_url url) of
        None \<Rightarrow> False
      | Some parts \<Rightarrow>
        (case url_port parts of
           None \<Rightarrow> False
         | Some port \<Rightarrow>
             if host_of parts = [] \<or> url_username parts \<noteq> None \<or> url_password parts \<noteq> None then False
             else
               let pattern = py_strip pattern0; (pattern_scheme, found, pattern_rest) = partition_text ''://'' pattern in
               if \<not> found then fnmatchcase (host_of parts) (lower pattern)
               else
                 let (pattern_authority, slash, pattern_path) = partition_at (CHR ''/'') pattern_rest in
                 fnmatchcase (lower (su_scheme parts)) (lower pattern_scheme) \<and>
                 fnmatchcase (authority_of parts port) (literal_brackets (lower pattern_authority)) \<and>
                 fnmatchcase (path_of parts) (if slash then ''/'' @ pattern_path else ''/'')))"

section \<open>The constraints\<close>

datatype policy_error =
    NoGrant | UrlNotAllowed string | GrantExpired | RateLimited nat

definition check_url_allowlist :: "capability_grant \<Rightarrow> delegation_request \<Rightarrow> policy_error option" where
  "check_url_allowlist grant request =
     (if cg_url_allowlist grant = [] then None
      else map_option UrlNotAllowed
        (find (\<lambda>url. \<not> list_ex (url_matches url) (cg_url_allowlist grant)) (url_arguments (dr_arguments request))))"

definition check_expires_at :: "capability_grant \<Rightarrow> stamp \<Rightarrow> policy_error option" where
  "check_expires_at grant now =
     (if cg_expires_at grant = Finite 0 then None
      else if wire_below (cg_expires_at grant) now then Some GrantExpired else None)"

text \<open>\<open>_invocation_counts\<close>, a \<open>defaultdict(list)\<close>.\<close>

type_synonym invocations = "string \<Rightarrow> stamp list"

definition hour_us :: int where
  "hour_us = 3600 * 1000000"

definition record_invocation :: "string \<Rightarrow> stamp \<Rightarrow> invocations \<Rightarrow> invocations" where
  "record_invocation key now counts = counts(key := filter (\<lambda>t. now - hour_us < t) (counts key @ [now]))"

definition count_invocations :: "string \<Rightarrow> stamp \<Rightarrow> invocations \<Rightarrow> nat \<times> invocations" where
  "count_invocations key now counts =
     (let live = filter (\<lambda>t. now - hour_us < t) (counts key) in (length live, counts(key := live)))"

definition grant_key :: "capability_grant \<Rightarrow> string \<Rightarrow> string" where
  "grant_key grant peer_node_id = peer_node_id @ '':'' @ cg_capability grant"

definition check_rate_limit ::
  "capability_grant \<Rightarrow> string \<Rightarrow> stamp \<Rightarrow> invocations \<Rightarrow> policy_error option \<times> invocations" where
  "check_rate_limit grant peer_node_id now counts =
     (if cg_max_invocations_per_hour grant = 0 then (None, counts)
      else case count_invocations (grant_key grant peer_node_id) now counts of
        (current, counts') \<Rightarrow>
          (if cg_max_invocations_per_hour grant \<le> int current then Some (RateLimited current) else None, counts'))"

definition record_invocation_for_grant :: "capability_grant \<Rightarrow> string \<Rightarrow> stamp \<Rightarrow> invocations \<Rightarrow> invocations" where
  "record_invocation_for_grant grant peer_node_id now counts =
     (if 0 < cg_max_invocations_per_hour grant
      then record_invocation (grant_key grant peer_node_id) now counts else counts)"

section \<open>The evaluator\<close>

definition grant_rank :: "capability_grant \<Rightarrow> string \<Rightarrow> (int \<times> int) option" where
  "grant_rank grant capability =
     (let pat = cg_capability grant in
      if pat = capability then Some (1, int (length pat))
      else if has_suffix '':*'' pat \<and> has_prefix (butlast pat) capability then Some (0, int (length pat) - 1)
      else None)"

fun find_grant_from ::
  "capability_grant option \<Rightarrow> int \<times> int \<Rightarrow> capability_grant list \<Rightarrow> string \<Rightarrow> capability_grant option" where
  "find_grant_from best best_rank [] capability = best"
| "find_grant_from best best_rank (grant # grants) capability =
     (case grant_rank grant capability of
        None \<Rightarrow> find_grant_from best best_rank grants capability
      | Some rank \<Rightarrow>
          if best_rank < rank then find_grant_from (Some grant) rank grants capability
          else find_grant_from best best_rank grants capability)"

definition find_grant :: "peer_record \<Rightarrow> string \<Rightarrow> capability_grant option" where
  "find_grant peer capability = find_grant_from None (-1, -1) (pr_grants peer) capability"

text \<open>\<open>evaluate\<close>, with the readings of the clock at the expiry check, the count and the record.\<close>

record clock_reads =
  ck_expiry :: stamp
  ck_count :: stamp
  ck_record :: stamp

definition policy_evaluate ::
  "peer_record \<Rightarrow> delegation_request \<Rightarrow> clock_reads \<Rightarrow> invocations \<Rightarrow> (policy_error + capability_grant) \<times> invocations" where
  "policy_evaluate peer request clock counts =
     (case find_grant peer (dr_capability request) of
        None \<Rightarrow> (Inl NoGrant, counts)
      | Some grant \<Rightarrow>
        (case check_expires_at grant (ck_expiry clock) of
           Some e \<Rightarrow> (Inl e, counts)
         | None \<Rightarrow>
           (case check_rate_limit grant (pr_node_id peer) (ck_count clock) counts of
              (Some e, counts') \<Rightarrow> (Inl e, counts')
            | (None, counts') \<Rightarrow>
              (case check_url_allowlist grant request of
                 Some e \<Rightarrow> (Inl e, counts')
               | None \<Rightarrow> (Inr grant, record_invocation_for_grant grant (pr_node_id peer) (ck_record clock) counts')))))"

section \<open>Which grant decides\<close>

lemma has_prefix_iff: "has_prefix p s \<longleftrightarrow> (\<exists>rest. s = p @ rest)"
  by (metis append_eq_conv_conj append_take_drop_id has_prefix_def)

lemma has_suffix_iff: "has_suffix p s \<longleftrightarrow> (\<exists>front. s = front @ p)"
  unfolding has_suffix_def has_prefix_iff by (metis rev_append rev_rev_ident)

text \<open>The capabilities a grant covers.\<close>

definition covers :: "capability_grant \<Rightarrow> string \<Rightarrow> bool" where
  "covers grant capability \<longleftrightarrow> cg_capability grant = capability \<or>
     (\<exists>kind rest. cg_capability grant = kind @ '':*'' \<and> capability = kind @ '':'' @ rest)"

lemma grant_rank_covers: "grant_rank grant capability \<noteq> None \<longleftrightarrow> covers grant capability"
proof -
  have "butlast (kind @ '':*'') = kind @ '':''" for kind by (simp add: butlast_append)
  then show ?thesis
    by (auto simp: grant_rank_def covers_def Let_def has_prefix_iff has_suffix_iff butlast_append)
qed

lemma grant_rank_nonneg: "grant_rank grant capability = Some rank \<Longrightarrow> (-1, -1) < rank"
  by (auto simp: grant_rank_def Let_def less_prod_def split: if_splits)

lemma find_grant_from_Some:
  assumes "find_grant_from best best_rank grants capability = Some g"
    and "\<And>b. best = Some b \<Longrightarrow> grant_rank b capability = Some best_rank"
  shows "(best = Some g \<or> g \<in> set grants) \<and> (\<exists>rank. grant_rank g capability = Some rank \<and> best_rank \<le> rank \<and>
    (\<forall>g' \<in> set grants. \<forall>r'. grant_rank g' capability = Some r' \<longrightarrow> r' \<le> rank))"
  using assms
proof (induction grants arbitrary: best best_rank)
  case (Cons h grants)
  show ?case
  proof (cases "grant_rank h capability")
    case None
    from Cons.IH [of best best_rank] Cons.prems None
    obtain rank where "best = Some g \<or> g \<in> set grants" "grant_rank g capability = Some rank" "best_rank \<le> rank"
      "\<forall>g' \<in> set grants. \<forall>r'. grant_rank g' capability = Some r' \<longrightarrow> r' \<le> rank" by auto
    with None show ?thesis by auto
  next
    case (Some r)
    show ?thesis
    proof (cases "best_rank < r")
      case True
      from Cons.IH [of "Some h" r] Cons.prems(1) Some True
      obtain rank where "Some h = Some g \<or> g \<in> set grants" "grant_rank g capability = Some rank" "r \<le> rank"
        "\<forall>g' \<in> set grants. \<forall>r'. grant_rank g' capability = Some r' \<longrightarrow> r' \<le> rank" by auto
      with Some True show ?thesis by (intro conjI exI [of _ rank]) auto
    next
      case False
      from Cons.IH [of best best_rank] Cons.prems Some False
      obtain rank where "best = Some g \<or> g \<in> set grants" "grant_rank g capability = Some rank" "best_rank \<le> rank"
        "\<forall>g' \<in> set grants. \<forall>r'. grant_rank g' capability = Some r' \<longrightarrow> r' \<le> rank" by auto
      with Some False show ?thesis by (intro conjI exI [of _ rank]) auto
    qed
  qed
qed simp

lemma find_grant_from_None:
  "find_grant_from best best_rank grants capability = None \<Longrightarrow>
   best = None \<and> (best_rank = (-1, -1) \<longrightarrow> (\<forall>g \<in> set grants. grant_rank g capability = None))"
proof (induction grants arbitrary: best best_rank)
  case (Cons h grants)
  show ?case
  proof (cases "grant_rank h capability")
    case None
    with Cons show ?thesis by simp
  next
    case (Some r)
    with Cons.IH [of "Some h" r] Cons.IH [of best best_rank] Cons.prems grant_rank_nonneg [OF Some]
    show ?thesis by (auto split: if_splits)
  qed
qed simp

lemma find_grant_None: "find_grant peer capability = None \<longleftrightarrow> (\<forall>g \<in> set (pr_grants peer). \<not> covers g capability)"
proof
  assume "find_grant peer capability = None"
  then show "\<forall>g \<in> set (pr_grants peer). \<not> covers g capability"
    using find_grant_from_None by (force simp: find_grant_def simp flip: grant_rank_covers)
next
  assume none: "\<forall>g \<in> set (pr_grants peer). \<not> covers g capability"
  show "find_grant peer capability = None"
  proof (rule ccontr)
    assume "find_grant peer capability \<noteq> None"
    then obtain g where "find_grant_from None (-1, -1) (pr_grants peer) capability = Some g"
      by (auto simp: find_grant_def)
    from find_grant_from_Some [OF this] none show False by (force simp flip: grant_rank_covers)
  qed
qed

text \<open>
  a request is permitted only by a grant of its own peer that covers its capability, no other grant
  covering it more specifically, not expired, with room under its hourly limit, and one of whose patterns
  matches every URL the request carries; a request no grant covers is always refused.
\<close>

lemma permitted_only_as_granted:
  "(\<forall>g counts'. policy_evaluate peer request clock counts = (Inr g, counts') \<longrightarrow>
      g \<in> set (pr_grants peer) \<and> covers g (dr_capability request) \<and>
      (\<forall>g' \<in> set (pr_grants peer). covers g' (dr_capability request) \<longrightarrow>
         the (grant_rank g' (dr_capability request)) \<le> the (grant_rank g (dr_capability request))) \<and>
      (cg_expires_at g = Finite 0 \<or> \<not> wire_below (cg_expires_at g) (ck_expiry clock)) \<and>
      (cg_max_invocations_per_hour g = 0 \<or>
       int (length (filter (\<lambda>t. ck_count clock - hour_us < t) (counts (grant_key g (pr_node_id peer)))))
         < cg_max_invocations_per_hour g) \<and>
      (cg_url_allowlist g = [] \<or>
       (\<forall>url \<in> set (url_arguments (dr_arguments request)). \<exists>p \<in> set (cg_url_allowlist g). url_matches url p))) \<and>
   ((\<forall>g \<in> set (pr_grants peer). \<not> covers g (dr_capability request)) \<longrightarrow>
      policy_evaluate peer request clock counts = (Inl NoGrant, counts))"
proof (intro conjI allI impI)
  assume "\<forall>g \<in> set (pr_grants peer). \<not> covers g (dr_capability request)"
  then show "policy_evaluate peer request clock counts = (Inl NoGrant, counts)"
    by (simp add: policy_evaluate_def find_grant_None [THEN iffD2])
next
  fix g counts'
  assume ev: "policy_evaluate peer request clock counts = (Inr g, counts')"
  then have f: "find_grant peer (dr_capability request) = Some g" and x: "check_expires_at g (ck_expiry clock) = None"
    and r: "fst (check_rate_limit g (pr_node_id peer) (ck_count clock) counts) = None"
    and u: "check_url_allowlist g request = None"
    by (auto simp: policy_evaluate_def split: option.splits prod.splits)
  from f have "find_grant_from None (-1, -1) (pr_grants peer) (dr_capability request) = Some g" by (simp add: find_grant_def)
  from find_grant_from_Some [OF this] obtain rank where
    g: "g \<in> set (pr_grants peer)" "grant_rank g (dr_capability request) = Some rank"
    "\<forall>g' \<in> set (pr_grants peer). \<forall>r'. grant_rank g' (dr_capability request) = Some r' \<longrightarrow> r' \<le> rank" by auto
  show "g \<in> set (pr_grants peer)" by (rule g)
  show "covers g (dr_capability request)" using g(2) grant_rank_covers by force
  show "cg_expires_at g = Finite 0 \<or> \<not> wire_below (cg_expires_at g) (ck_expiry clock)"
    using x by (auto simp: check_expires_at_def split: if_splits)
  show "cg_max_invocations_per_hour g = 0 \<or>
      int (length (filter (\<lambda>t. ck_count clock - hour_us < t) (counts (grant_key g (pr_node_id peer)))))
        < cg_max_invocations_per_hour g"
    using r by (auto simp: check_rate_limit_def count_invocations_def Let_def split: if_splits)
  show "cg_url_allowlist g = [] \<or>
      (\<forall>url \<in> set (url_arguments (dr_arguments request)). \<exists>p \<in> set (cg_url_allowlist g). url_matches url p)"
    using u by (auto simp: check_url_allowlist_def find_None_iff list_ex_iff split: if_splits)
  show "\<forall>g' \<in> set (pr_grants peer). covers g' (dr_capability request) \<longrightarrow>
      the (grant_rank g' (dr_capability request)) \<le> the (grant_rank g (dr_capability request))"
    using g by (auto simp flip: grant_rank_covers)
qed

definition sample_grant :: capability_grant where
  "sample_grant = \<lparr>cg_capability = ''tool:*'', cg_url_allowlist = [''*.ab''], cg_require_approval = False,
     cg_max_invocations_per_hour = 2, cg_expires_at = Finite 900\<rparr>"

definition sample_peer :: peer_record where
  "sample_peer = \<lparr>pr_node_id = ''ab12'', pr_display_name = '''', pr_pubkey_b64 = ''AAAA'', pr_endpoint = ''https://peer'',
     pr_grants = [sample_grant], pr_added_at = Finite 0, pr_last_seen = Finite 0\<rparr>"

definition sample_request :: delegation_request where
  "sample_request = \<lparr>dr_request_id = ''r1'', dr_capability = ''tool:go'',
     dr_arguments = [(''url'', JStr ''http://w.ab/'')], dr_session_id = '''', dr_require_approval_advisory = False\<rparr>"

definition sample_clock :: clock_reads where
  "sample_clock = \<lparr>ck_expiry = 100, ck_count = 101, ck_record = 102\<rparr>"

lemma permitted_only_as_granted_witness:
  "url_matches ''http://w.ab/'' ''*.ab'' \<and>
   fst (policy_evaluate sample_peer sample_request sample_clock (\<lambda>_. [])) = Inr sample_grant"
proof -
  have url: "url_matches ''http://w.ab/'' ''*.ab''" by code_simp
  have args: "url_arguments (dr_arguments sample_request) = [''http://w.ab/'']"
    by (simp add: sample_request_def url_arguments_def URL_ARGUMENT_KEYS_def)
  have "find_grant sample_peer (dr_capability sample_request) = Some sample_grant"
    by (simp add: find_grant_def sample_peer_def sample_request_def sample_grant_def grant_rank_def
        has_prefix_def has_suffix_def less_prod_def)
  moreover have "check_expires_at sample_grant (ck_expiry sample_clock) = None"
    by (simp add: check_expires_at_def sample_grant_def sample_clock_def)
  moreover have "check_rate_limit sample_grant (pr_node_id sample_peer) (ck_count sample_clock) (\<lambda>_. []) = (None, \<lambda>_. [])"
    by (simp add: check_rate_limit_def count_invocations_def sample_grant_def fun_upd_idem)
  moreover have "check_url_allowlist sample_grant sample_request = None"
    using url by (simp add: check_url_allowlist_def args sample_grant_def)
  ultimately obtain counts' where
    ev: "policy_evaluate sample_peer sample_request sample_clock (\<lambda>_. []) = (Inr sample_grant, counts')"
    by (simp add: policy_evaluate_def)
  with permitted_only_as_granted [of sample_peer sample_request sample_clock "\<lambda>_. []"]
  have "\<exists>p \<in> set (cg_url_allowlist sample_grant). url_matches ''http://w.ab/'' p"
    by (auto simp: args sample_grant_def)
  then show ?thesis by (simp add: sample_grant_def ev)
qed

section \<open>The hourly limit\<close>

record policy_call =
  pc_peer :: peer_record
  pc_request :: delegation_request
  pc_clock :: clock_reads

text \<open>Whether a call is permitted under the log of a grant.\<close>

definition permit :: "string \<Rightarrow> policy_call \<Rightarrow> invocations \<Rightarrow> invocations \<times> bool" where
  "permit key call counts =
     (case policy_evaluate (pc_peer call) (pc_request call) (pc_clock call) counts of
        (Inl e, counts') \<Rightarrow> (counts', False)
      | (Inr g, counts') \<Rightarrow> (counts', grant_key g (pr_node_id (pc_peer call)) = key))"

definition call_ordered :: "string \<Rightarrow> nat \<Rightarrow> policy_call \<Rightarrow> bool" where
  "call_ordered key limit call \<longleftrightarrow>
     ck_count (pc_clock call) \<le> ck_record (pc_clock call) \<and>
     list_all (\<lambda>g. grant_key g (pr_node_id (pc_peer call)) = key \<longrightarrow> cg_max_invocations_per_hour g = int limit)
       (pr_grants (pc_peer call))"

lemma count_keeps:
  "check_rate_limit g node now counts = (e, counts') \<Longrightarrow>
   counts' key = counts key \<or> counts' key = filter (\<lambda>t. now - hour_us < t) (counts key)"
  by (auto simp: check_rate_limit_def count_invocations_def Let_def split: if_splits)

lemma evaluate_refused:
  assumes "policy_evaluate peer request clock counts = (Inl e, counts')"
  shows "counts' key = counts key \<or> counts' key = filter (\<lambda>t. ck_count clock - hour_us < t) (counts key)"
proof -
  from assms consider "counts' = counts"
    | g e' where "check_rate_limit g (pr_node_id peer) (ck_count clock) counts = (e', counts')"
    by (auto simp: policy_evaluate_def split: option.splits prod.splits)
  then show ?thesis using count_keeps by cases auto
qed

lemma evaluate_granted:
  assumes "policy_evaluate peer request clock counts = (Inr g, counts')"
  shows "g \<in> set (pr_grants peer)"
proof -
  from assms have "find_grant_from None (-1, -1) (pr_grants peer) (dr_capability request) = Some g"
    by (auto simp: policy_evaluate_def find_grant_def split: option.splits prod.splits)
  from find_grant_from_Some [OF this] show ?thesis by auto
qed

lemma evaluate_permitted:
  assumes "policy_evaluate peer request clock counts = (Inr g, counts')"
    and "0 < cg_max_invocations_per_hour g" and "ck_count clock \<le> ck_record clock"
  shows "int (length (filter (\<lambda>t. ck_count clock - hour_us < t) (counts (grant_key g (pr_node_id peer)))))
           < cg_max_invocations_per_hour g"
    and "counts' (grant_key g (pr_node_id peer)) =
           filter (\<lambda>t. ck_record clock - hour_us < t) (counts (grant_key g (pr_node_id peer))) @ [ck_record clock]"
proof -
  obtain counts1 where r: "check_rate_limit g (pr_node_id peer) (ck_count clock) counts = (None, counts1)"
    and c: "counts' = record_invocation_for_grant g (pr_node_id peer) (ck_record clock) counts1"
    using assms(1) by (auto simp: policy_evaluate_def split: option.splits prod.splits)
  let ?key = "grant_key g (pr_node_id peer)"
  from r assms(2) have "int (length (filter (\<lambda>t. ck_count clock - hour_us < t) (counts ?key))) < cg_max_invocations_per_hour g"
    and c1: "counts1 ?key = filter (\<lambda>t. ck_count clock - hour_us < t) (counts ?key)"
    by (auto simp: check_rate_limit_def count_invocations_def Let_def split: if_splits)
  then show "int (length (filter (\<lambda>t. ck_count clock - hour_us < t) (counts ?key))) < cg_max_invocations_per_hour g" by simp
  have "filter (\<lambda>t. ck_record clock - hour_us < t) (counts1 ?key) = filter (\<lambda>t. ck_record clock - hour_us < t) (counts ?key)"
    unfolding c1 using assms(3) by (auto intro!: filter_cong)
  then show "counts' ?key = filter (\<lambda>t. ck_record clock - hour_us < t) (counts ?key) @ [ck_record clock]"
    using assms(2) by (simp add: c record_invocation_for_grant_def record_invocation_def hour_us_def)
qed

lemma evaluate_other_key:
  assumes "policy_evaluate peer request clock counts = (Inr g, counts')" and "grant_key g (pr_node_id peer) \<noteq> key"
  shows "counts' key = counts key"
  using assms
  by (auto simp: policy_evaluate_def check_rate_limit_def count_invocations_def Let_def record_invocation_for_grant_def
      record_invocation_def split: option.splits prod.splits if_splits)

interpretation hourly:
  window_limiter "permit key" "call_ordered key (Suc n)" "\<lambda>call. ck_record (pc_clock call)" "\<lambda>counts. counts key"
    hour_us "Suc n" "\<lambda>_ _. True"
proof
  show "0 < hour_us" by (simp add: hour_us_def)
next
  fix latest counts call counts' ok
  show "True" ..
next
  fix latest counts call counts'
  assume ord: "call_ordered key (Suc n) call" and p: "permit key call counts = (counts', True)"
  then obtain g where ev: "policy_evaluate (pc_peer call) (pc_request call) (pc_clock call) counts = (Inr g, counts')"
    and key: "grant_key g (pr_node_id (pc_peer call)) = key"
    by (auto simp: permit_def split: prod.splits sum.splits)
  let ?clock = "pc_clock call"
  have clk: "ck_count ?clock \<le> ck_record ?clock" using ord by (simp add: call_ordered_def)
  have "g \<in> set (pr_grants (pc_peer call))"
    by (rule evaluate_granted [OF ev])
  then have m: "cg_max_invocations_per_hour g = int (Suc n)" using ord key by (auto simp: call_ordered_def list_all_iff)
  note e = evaluate_permitted [OF ev _ clk, unfolded m key]
  have "length (filter (\<lambda>t. ck_record ?clock - hour_us < t) (counts key)) \<le>
        length (filter (\<lambda>t. ck_count ?clock - hour_us < t) (counts key))"
  proof -
    have "filter (\<lambda>t. ck_record ?clock - hour_us < t) (counts key) =
          filter (\<lambda>t. ck_record ?clock - hour_us < t) (filter (\<lambda>t. ck_count ?clock - hour_us < t) (counts key))"
      using clk by (auto intro!: filter_cong)
    then show ?thesis by (metis length_filter_le)
  qed
  with e show "length (filter (\<lambda>t. ck_record ?clock - hour_us < t) (counts key)) < Suc n \<and>
      (\<exists>c \<le> ck_record ?clock - hour_us. counts' key = filter (\<lambda>t. c < t) (counts key) @ [ck_record ?clock])"
    by force
next
  fix latest counts call counts'
  assume ord: "call_ordered key (Suc n) call" and p: "permit key call counts = (counts', False)"
  show "counts' key = counts key \<or>
      (\<exists>c \<le> ck_record (pc_clock call) - hour_us. counts' key = filter (\<lambda>t. c < t) (counts key))"
  proof (cases "fst (policy_evaluate (pc_peer call) (pc_request call) (pc_clock call) counts)")
    case (Inl e)
    then have "policy_evaluate (pc_peer call) (pc_request call) (pc_clock call) counts = (Inl e, counts')"
      using p by (auto simp: permit_def split: prod.splits sum.splits)
    from evaluate_refused [OF this, of key] ord show ?thesis
      by (auto simp: call_ordered_def intro: exI [of _ "ck_count (pc_clock call) - hour_us"])
  next
    case (Inr g)
    then have "policy_evaluate (pc_peer call) (pc_request call) (pc_clock call) counts = (Inr g, counts')"
      "grant_key g (pr_node_id (pc_peer call)) \<noteq> key"
      using p by (auto simp: permit_def split: prod.splits sum.splits)
    from evaluate_other_key [OF this] show ?thesis by simp
  qed
qed

text \<open>
  a peer is permitted a capability at most as often as its grant says in any hour, whatever requests
  are refused in between and whatever else other peers and grants are asked for.
\<close>

lemma peer_stays_under_its_limit:
  assumes "0 < limit" and "list_all (call_ordered key limit) calls"
    and "sorted (map (\<lambda>call. ck_record (pc_clock call)) calls)" and "counts key = []"
  shows "in_window hour_us t (admitted (permit key) (\<lambda>call. ck_record (pc_clock call)) calls counts) \<le> limit"
proof (cases calls)
  case Nil
  then show ?thesis by (simp add: in_window_def)
next
  case (Cons call rest)
  obtain n where n: "limit = Suc n" using assms(1) by (cases limit) auto
  show ?thesis unfolding n
    by (rule hourly.limited [of key n calls "ck_record (pc_clock call)"])
      (use assms Cons in \<open>auto simp: n\<close>)
qed

lemma peer_stays_under_its_limit_witness:
  "in_window hour_us 9 (admitted (permit ''ab12:tool:*'') (\<lambda>call. ck_record (pc_clock call))
     [\<lparr>pc_peer = sample_peer, pc_request = sample_request, pc_clock = sample_clock\<rparr>,
      \<lparr>pc_peer = sample_peer, pc_request = sample_request, pc_clock = sample_clock\<rparr>] (\<lambda>_. [])) \<le> 2"
proof (rule peer_stays_under_its_limit)
  show "list_all (call_ordered ''ab12:tool:*'' 2)
     [\<lparr>pc_peer = sample_peer, pc_request = sample_request, pc_clock = sample_clock\<rparr>,
      \<lparr>pc_peer = sample_peer, pc_request = sample_request, pc_clock = sample_clock\<rparr>]"
    by (simp add: call_ordered_def sample_peer_def sample_grant_def sample_clock_def grant_key_def)
qed simp_all

section \<open>A wildcard host\<close>

lemma partition_text_found: "CHR '':'' \<notin> set scheme \<Longrightarrow> partition_text ''://'' (scheme @ ''://'' @ rest) = (scheme, True, rest)"
  by (induction scheme) (auto simp: has_prefix_def)

lemma partition_text_absent: "CHR '':'' \<notin> set s \<Longrightarrow> partition_text ''://'' s = (s, False, [])"
  by (induction s) (auto simp: has_prefix_def)

lemma partition_at_split: "c \<notin> set a \<Longrightarrow> partition_at c (a @ c # b) = (a, True, b)"
  by (induction a) (auto simp: partition_at_def)

lemma digit_of_nat: "n < 10 \<Longrightarrow> digit_char (char_of (48 + n :: nat))"
  by (simp add: digit_char_def less_eq_char_def)

lemma decimal_digits: "list_all digit_char (decimal n)"
  by (induction n rule: decimal.induct) (simp add: decimal.simps digit_of_nat)

lemma suffix_after_char:
  assumes "x @ c # d = a @ w" and "c \<notin> set w"
  shows "\<exists>e. d = e @ w"
  using assms by (auto simp: append_eq_append_conv2 append_eq_Cons_conv Cons_eq_append_conv)

text \<open>A domain as it stands in a pattern: lower case, no wildcard, bracket, colon or slash.\<close>

definition domain_text :: "string \<Rightarrow> bool" where
  "domain_text d \<longleftrightarrow> d \<noteq> [] \<and> list_all (\<lambda>c. plain_char c \<and> c \<notin> set '':/]'' \<and> lower_char c = c) d"

lemma lower_domain: "domain_text d \<Longrightarrow> lower (''*.'' @ d) = ''*.'' @ d"
  by (auto simp: lower_def domain_text_def list_all_iff lower_char_def map_idI)

lemma literal_domain: "domain_text d \<Longrightarrow> literal_brackets (''*.'' @ d) = ''*.'' @ d"
proof -
  have "concat (map (\<lambda>c. if c = CHR ''['' then ''[[]'' else if c = CHR '']'' then ''[]]'' else [c]) w) = w"
    if "list_all (\<lambda>c. c \<noteq> CHR ''['' \<and> c \<noteq> CHR '']'') w" for w
    using that by (induction w) auto
  moreover assume "domain_text d"
  then have "list_all (\<lambda>c. c \<noteq> CHR ''['' \<and> c \<noteq> CHR '']'') (''*.'' @ d)"
    by (auto simp: domain_text_def plain_char_def list_all_iff)
  ultimately show ?thesis by (simp only: literal_brackets_def)
qed

lemma match_domain: "domain_text d \<Longrightarrow> fnmatchcase s (''*.'' @ d) \<longleftrightarrow> (\<exists>a. s = a @ ''.'' @ d)"
  using fnmatch_star_suffix [of "''.'' @ d" s]
  by (auto simp: domain_text_def plain_char_def list_all_iff)

lemma authority_in_domain:
  assumes "authority_of parts port = a @ ''.'' @ d" and "domain_text d"
  shows "\<exists>sub. host_of parts = sub @ ''.'' @ d"
proof (cases port)
  case (Some n)
  then obtain x where "x @ CHR '':'' # decimal n = a @ ''.'' @ d"
    using assms(1) by (auto simp: authority_of_def Let_def split: if_splits)
  moreover have "CHR '':'' \<notin> set (''.'' @ d)" using assms(2) by (auto simp: domain_text_def list_all_iff)
  ultimately have "CHR ''.'' \<in> set (decimal n)" using suffix_after_char by fastforce
  moreover have "\<not> digit_char (CHR ''.'')" by code_simp
  ultimately show ?thesis using decimal_digits [of n] by (auto simp: list_all_iff)
next
  case None
  have "CHR '':'' \<notin> set (host_of parts)"
  proof
    assume "CHR '':'' \<in> set (host_of parts)"
    then have "last (authority_of parts port) = CHR '']''" by (simp add: authority_of_def None)
    then have "last d = CHR '']''" using assms by (simp add: domain_text_def)
    with assms(2) show False using last_in_set [of d] by (auto simp: domain_text_def list_all_iff)
  qed
  then have "host_of parts = a @ ''.'' @ d" using assms(1) by (simp add: authority_of_def None)
  then show ?thesis by blast
qed

text \<open>
  a grant limited to the hosts under a domain (\<open>*.domain\<close>, alone or with a scheme and a path) lets
  through only URLs that a browser loads from a host under that domain, and none that carries user-info:
  no wildcard reaches into another part of the URL.
\<close>

lemma wildcard_stays_in_its_domain:
  assumes "url_matches url pattern" and "domain_text d" and "py_strip pattern = pattern"
    and "pattern = ''*.'' @ d \<or> (\<exists>scheme path. CHR '':'' \<notin> set scheme \<and> pattern = scheme @ ''://'' @ ''*.'' @ d @ ''/'' @ path)"
  shows "\<exists>parts sub. urlsplit (browser_equivalent_url url) = Some parts \<and> host_of parts = sub @ ''.'' @ d \<and>
    url_username parts = None \<and> url_password parts = None"
proof -
  obtain parts port where p: "urlsplit (browser_equivalent_url url) = Some parts" "url_port parts = Some port"
    "url_username parts = None" "url_password parts = None"
    using assms(1) by (auto simp: url_matches_def split: option.splits if_splits)
  from assms(4) have "\<exists>sub. host_of parts = sub @ ''.'' @ d"
  proof (elim disjE exE conjE)
    assume pat: "pattern = ''*.'' @ d"
    have "partition_text ''://'' (''*.'' @ d) = (''*.'' @ d, False, [])"
      using assms(2) by (intro partition_text_absent) (auto simp: domain_text_def list_all_iff)
    then have "fnmatchcase (host_of parts) (lower (''*.'' @ d))"
      using assms(1,3) pat p by (simp add: url_matches_def split: if_splits)
    then show ?thesis using assms(2) by (simp only: lower_domain match_domain)
  next
    fix scheme path
    assume colon: "CHR '':'' \<notin> set scheme" and pat: "pattern = scheme @ ''://'' @ ''*.'' @ d @ ''/'' @ path"
    have "partition_at (CHR ''/'') ((''*.'' @ d) @ CHR ''/'' # path) = (''*.'' @ d, True, path)"
      using assms(2) by (intro partition_at_split) (auto simp: domain_text_def list_all_iff)
    then have "fnmatchcase (authority_of parts port) (literal_brackets (lower (''*.'' @ d)))"
      using assms(1,3) pat p partition_text_found [OF colon, of "''*.'' @ d @ ''/'' @ path"]
      by (simp add: url_matches_def split: if_splits)
    then obtain a where "authority_of parts port = a @ ''.'' @ d"
      using assms(2) by (simp only: lower_domain literal_domain match_domain) blast
    then show ?thesis using assms(2) by (rule authority_in_domain)
  qed
  with p show ?thesis by blast
qed

lemma wildcard_stays_in_its_domain_witness:
  "\<exists>parts sub. urlsplit (browser_equivalent_url ''http://w.ab/'') = Some parts \<and> host_of parts = sub @ ''.'' @ ''ab'' \<and>
    url_username parts = None \<and> url_password parts = None"
proof (rule wildcard_stays_in_its_domain)
  show "url_matches ''http://w.ab/'' ''*.ab''" by code_simp
  show "domain_text ''ab''" by code_simp
  show "py_strip ''*.ab'' = ''*.ab''" by code_simp
qed simp

end
