(* ===== verification/MeshPeers.thy ===== *)
theory MeshPeers
  imports MeshPolicy
begin

text \<open>
  The registry of peers (mesh/peers.py): a file the host owns, re-read when its signature changes, refused
  whole when any of it is wrong. Parameters: \<open>decode_peer\<close> is pydantic's \<open>PeerRecord(**value)\<close> (None: it
  raises), \<open>digest\<close> the hex SHA-256 of a key's bytes.
\<close>

section \<open>\<open>base64.b64decode(text, validate=True)\<close>\<close>

text \<open>CPython 3.11's strict mode: padding where it is due, and only ignored after whole groups.\<close>

definition b64_value :: "char \<Rightarrow> nat option" where
  "b64_value c =
     (if CHR ''A'' \<le> c \<and> c \<le> CHR ''Z'' then Some (of_char c - 65)
      else if CHR ''a'' \<le> c \<and> c \<le> CHR ''z'' then Some (of_char c - 71)
      else if digit_char c then Some (of_char c + 4)
      else if c = CHR ''+'' then Some 62
      else if c = CHR ''/'' then Some 63 else None)"

fun b64_quads :: "nat list \<Rightarrow> nat list" where
  "b64_quads (a # b # c # d # rest) = [4 * a + b div 16, 16 * (b mod 16) + c div 4, 64 * (c mod 4) + d] @ b64_quads rest"
| "b64_quads [a, b, c] = [4 * a + b div 16, 16 * (b mod 16) + c div 4]"
| "b64_quads [a, b] = [4 * a + b div 16]"
| "b64_quads _ = []"

definition b64decode_strict :: "string \<Rightarrow> nat list option" where
  "b64decode_strict s =
     (let data = takeWhile (\<lambda>c. b64_value c \<noteq> None) s; pads = drop (length data) s; n = length data mod 4
      in if list_all (\<lambda>c. c = CHR ''='') pads \<and>
            ((n = 0 \<and> (data \<noteq> [] \<or> pads = [])) \<or> (n = 2 \<and> length pads = 2) \<or> (n = 3 \<and> length pads = 1))
         then Some (b64_quads (map (the \<circ> b64_value) data)) else None)"

section \<open>Entries\<close>

definition ED25519_PUBLIC_KEY_BYTES :: nat where
  "ED25519_PUBLIC_KEY_BYTES = 32"

datatype entry_error = NotBase64 | NotAKey | NodeIdIsNotItsDigest | FiledUnderAnotherKey

definition check_entry :: "(nat list \<Rightarrow> string) \<Rightarrow> string \<Rightarrow> peer_record \<Rightarrow> entry_error option" where
  "check_entry digest key peer =
     (case b64decode_strict (pr_pubkey_b64 peer) of
        None \<Rightarrow> Some NotBase64
      | Some raw \<Rightarrow>
          if length raw \<noteq> ED25519_PUBLIC_KEY_BYTES then Some NotAKey
          else if pr_node_id peer \<noteq> digest raw then Some NodeIdIsNotItsDigest
          else if key \<noteq> pr_node_id peer then Some FiledUnderAnotherKey else None)"

section \<open>The file and the registry\<close>

text \<open>The modification time, size and identity of a file.\<close>

type_synonym file_signature = "int \<times> int \<times> int"

text \<open>
  What a lookup meets: no file, a file that cannot be checked, or one with a signature, whose text is not
  JSON (\<open>None\<close>) or is, and which can be read or not.
\<close>

datatype peers_file = NoFile | Uncheckable | PeersFile file_signature "json option" bool

record peer_registry =
  pg_signature :: "file_signature option"
  pg_peers :: "(string \<times> peer_record) list"
  pg_last_seen :: "(string \<times> stamp) list"

definition fail_closed :: "file_signature option \<Rightarrow> peer_registry \<Rightarrow> peer_registry" where
  "fail_closed signature reg = reg\<lparr>pg_peers := [], pg_signature := signature\<rparr>"

fun decode_peers :: "(json \<Rightarrow> peer_record option) \<Rightarrow> members \<Rightarrow> (string \<times> peer_record) list option" where
  "decode_peers decode_peer [] = Some []"
| "decode_peers decode_peer ((key, value) # ms) =
     (case (decode_peer value, decode_peers decode_peer ms) of
        (Some peer, Some peers) \<Rightarrow> Some ((key, peer) # peers) | _ \<Rightarrow> None)"

text \<open>The peers of a file's content; \<open>None\<close> when its top level or any entry is wrong.\<close>

definition peers_of ::
  "(json \<Rightarrow> peer_record option) \<Rightarrow> (nat list \<Rightarrow> string) \<Rightarrow> json \<Rightarrow> (string \<times> peer_record) list option" where
  "peers_of decode_peer digest raw =
     (case raw of
        JObj ms \<Rightarrow>
          (case decode_peers decode_peer ms of
             None \<Rightarrow> None
           | Some peers \<Rightarrow>
               if list_all (\<lambda>(key, peer). check_entry digest key peer = None) peers then Some peers else None)
      | _ \<Rightarrow> None)"

definition reload_if_changed ::
  "(json \<Rightarrow> peer_record option) \<Rightarrow> (nat list \<Rightarrow> string) \<Rightarrow> peers_file \<Rightarrow> peer_registry \<Rightarrow> peer_registry" where
  "reload_if_changed decode_peer digest world reg =
     (case world of
        NoFile \<Rightarrow> if pg_signature reg \<noteq> None then fail_closed None reg else reg
      | Uncheckable \<Rightarrow> fail_closed None reg
      | PeersFile signature content readable \<Rightarrow>
          if Some signature = pg_signature reg then reg
          else if \<not> readable then fail_closed None reg
          else
            (case content of
               None \<Rightarrow> fail_closed (Some signature) reg
             | Some raw \<Rightarrow>
               (case peers_of decode_peer digest raw of
                  None \<Rightarrow> fail_closed (Some signature) reg
                | Some peers \<Rightarrow>
                    reg\<lparr>pg_peers := peers, pg_signature := Some signature,
                        pg_last_seen := filter (\<lambda>(key, seen). key \<in> fst ` set peers) (pg_last_seen reg)\<rparr>)))"

definition new_registry ::
  "(json \<Rightarrow> peer_record option) \<Rightarrow> (nat list \<Rightarrow> string) \<Rightarrow> peers_file \<Rightarrow> peer_registry" where
  "new_registry decode_peer digest world =
     reload_if_changed decode_peer digest world \<lparr>pg_signature = None, pg_peers = [], pg_last_seen = []\<rparr>"

definition with_last_seen :: "peer_registry \<Rightarrow> string \<Rightarrow> peer_record \<Rightarrow> peer_record" where
  "with_last_seen reg key peer =
     (case map_of (pg_last_seen reg) key of None \<Rightarrow> peer | Some seen \<Rightarrow> peer\<lparr>pr_last_seen := Finite seen\<rparr>)"

definition get_optional ::
  "(json \<Rightarrow> peer_record option) \<Rightarrow> (nat list \<Rightarrow> string) \<Rightarrow> peers_file \<Rightarrow> string \<Rightarrow> peer_registry \<Rightarrow>
   peer_record option \<times> peer_registry" where
  "get_optional decode_peer digest world node_id reg =
     (let reg' = reload_if_changed decode_peer digest world reg
      in (map_option (with_last_seen reg' node_id) (map_of (pg_peers reg') node_id), reg'))"

text \<open>\<open>get\<close>; \<open>None\<close>: \<open>KeyError\<close>.\<close>

definition get_peer ::
  "(json \<Rightarrow> peer_record option) \<Rightarrow> (nat list \<Rightarrow> string) \<Rightarrow> peers_file \<Rightarrow> string \<Rightarrow> peer_registry \<Rightarrow>
   peer_record option \<times> peer_registry" where
  "get_peer decode_peer digest world node_id reg =
     (let reg' = reload_if_changed decode_peer digest world reg
      in if node_id \<notin> fst ` set (pg_peers reg') then (None, reg')
         else (Some (with_last_seen reg' node_id (the (map_of (pg_peers reg') node_id))), reg'))"

definition all_peers ::
  "(json \<Rightarrow> peer_record option) \<Rightarrow> (nat list \<Rightarrow> string) \<Rightarrow> peers_file \<Rightarrow> peer_registry \<Rightarrow> peer_record list \<times> peer_registry" where
  "all_peers decode_peer digest world reg =
     (let reg' = reload_if_changed decode_peer digest world reg
      in (map (\<lambda>(key, peer). with_last_seen reg' key peer) (pg_peers reg'), reg'))"

definition update_last_seen ::
  "(json \<Rightarrow> peer_record option) \<Rightarrow> (nat list \<Rightarrow> string) \<Rightarrow> peers_file \<Rightarrow> stamp \<Rightarrow> string \<Rightarrow> peer_registry \<Rightarrow> peer_registry" where
  "update_last_seen decode_peer digest world now node_id reg =
     (let reg' = reload_if_changed decode_peer digest world reg
      in if node_id \<in> fst ` set (pg_peers reg')
         then reg'\<lparr>pg_last_seen := AList.update node_id now (pg_last_seen reg')\<rparr> else reg')"

text \<open>
  \<open>add\<close> and \<open>remove\<close>, the host tools: \<open>saved\<close> is the signature of the file written (None: the write
  failed and is raised, the change staying in memory).
\<close>

datatype peer_write = WriteFailed | EntryRefused entry_error | Written bool

definition save_peers :: "file_signature option \<Rightarrow> bool \<Rightarrow> peer_registry \<Rightarrow> peer_write \<times> peer_registry" where
  "save_peers saved answer reg =
     (case saved of None \<Rightarrow> (WriteFailed, reg) | Some signature \<Rightarrow> (Written answer, reg\<lparr>pg_signature := Some signature\<rparr>))"

definition add_peer ::
  "(json \<Rightarrow> peer_record option) \<Rightarrow> (nat list \<Rightarrow> string) \<Rightarrow> peers_file \<Rightarrow> file_signature option \<Rightarrow> peer_record \<Rightarrow>
   peer_registry \<Rightarrow> peer_write \<times> peer_registry" where
  "add_peer decode_peer digest world saved peer reg =
     (case check_entry digest (pr_node_id peer) peer of
        Some e \<Rightarrow> (EntryRefused e, reg)
      | None \<Rightarrow>
          (let reg' = reload_if_changed decode_peer digest world reg
           in save_peers saved True (reg'\<lparr>pg_peers := AList.update (pr_node_id peer) peer (pg_peers reg')\<rparr>)))"

definition remove_peer ::
  "(json \<Rightarrow> peer_record option) \<Rightarrow> (nat list \<Rightarrow> string) \<Rightarrow> peers_file \<Rightarrow> file_signature option \<Rightarrow> string \<Rightarrow>
   peer_registry \<Rightarrow> peer_write \<times> peer_registry" where
  "remove_peer decode_peer digest world saved node_id reg =
     (let reg' = reload_if_changed decode_peer digest world reg
      in if node_id \<notin> fst ` set (pg_peers reg') then (Written False, reg')
         else save_peers saved True (reg'\<lparr>pg_peers := AList.delete node_id (pg_peers reg')\<rparr>))"

section \<open>The registry serves the file\<close>

text \<open>The peers a file lists, when it is valid.\<close>

definition listed ::
  "(json \<Rightarrow> peer_record option) \<Rightarrow> (nat list \<Rightarrow> string) \<Rightarrow> peers_file \<Rightarrow> (string \<times> peer_record) list" where
  "listed decode_peer digest world =
     (case world of
        PeersFile signature (Some raw) readable \<Rightarrow>
          (case peers_of decode_peer digest raw of None \<Rightarrow> [] | Some peers \<Rightarrow> peers)
      | _ \<Rightarrow> [])"

datatype registry_call = Lookup string | ListAll | Heard string stamp

fun registry_call_step ::
  "(json \<Rightarrow> peer_record option) \<Rightarrow> (nat list \<Rightarrow> string) \<Rightarrow> peers_file \<times> registry_call \<Rightarrow> peer_registry \<Rightarrow> peer_registry" where
  "registry_call_step decode_peer digest (world, Lookup node_id) reg = snd (get_optional decode_peer digest world node_id reg)"
| "registry_call_step decode_peer digest (world, ListAll) reg = snd (all_peers decode_peer digest world reg)"
| "registry_call_step decode_peer digest (world, Heard node_id now) reg = update_last_seen decode_peer digest world now node_id reg"

definition serve_calls ::
  "(json \<Rightarrow> peer_record option) \<Rightarrow> (nat list \<Rightarrow> string) \<Rightarrow> peers_file \<Rightarrow> (peers_file \<times> registry_call) list \<Rightarrow> peer_registry" where
  "serve_calls decode_peer digest first calls =
     foldl (\<lambda>reg call. registry_call_step decode_peer digest call reg) (new_registry decode_peer digest first) calls"

text \<open>The registry holds what the file it remembers lists, or nobody.\<close>

definition registry_holds ::
  "(json \<Rightarrow> peer_record option) \<Rightarrow> (nat list \<Rightarrow> string) \<Rightarrow> peers_file list \<Rightarrow> peer_registry \<Rightarrow> bool" where
  "registry_holds decode_peer digest worlds reg \<longleftrightarrow>
     (case pg_signature reg of
        None \<Rightarrow> pg_peers reg = []
      | Some signature \<Rightarrow> \<exists>content readable. PeersFile signature content readable \<in> set worlds \<and>
          pg_peers reg = listed decode_peer digest (PeersFile signature content readable))"

lemma reload_holds:
  assumes "registry_holds decode_peer digest worlds reg"
  shows "registry_holds decode_peer digest (world # worlds) (reload_if_changed decode_peer digest world reg)"
proof (cases world)
  case (PeersFile signature content readable)
  show ?thesis
  proof (cases "Some signature = pg_signature reg")
    case True
    with assms PeersFile show ?thesis by (auto simp: registry_holds_def reload_if_changed_def split: option.splits)
  next
    case False
    with PeersFile show ?thesis
      by (auto simp: registry_holds_def reload_if_changed_def fail_closed_def listed_def split: option.splits)
  qed
qed (use assms in \<open>auto simp: registry_holds_def reload_if_changed_def fail_closed_def split: option.splits\<close>)

lemma step_peers:
  "pg_peers (registry_call_step decode_peer digest call reg) = pg_peers (reload_if_changed decode_peer digest (fst call) reg)"
  "pg_signature (registry_call_step decode_peer digest call reg) =
   pg_signature (reload_if_changed decode_peer digest (fst call) reg)"
  by (cases call; cases "snd call"; simp add: get_optional_def all_peers_def update_last_seen_def Let_def)+

lemma step_holds:
  "registry_holds decode_peer digest worlds reg \<Longrightarrow>
   registry_holds decode_peer digest (fst call # worlds) (registry_call_step decode_peer digest call reg)"
  using reload_holds [of decode_peer digest worlds reg "fst call"]
  unfolding registry_holds_def step_peers by blast

lemma serve_holds:
  "registry_holds decode_peer digest (rev (first # map fst calls)) (serve_calls decode_peer digest first calls)"
proof (induction calls rule: rev_induct)
  case Nil
  have "registry_holds decode_peer digest [] \<lparr>pg_signature = None, pg_peers = [], pg_last_seen = []\<rparr>"
    by (simp add: registry_holds_def)
  from reload_holds [OF this] show ?case by (simp add: serve_calls_def new_registry_def)
next
  case (snoc call calls)
  from step_holds [OF snoc, of call] show ?case by (simp add: serve_calls_def)
qed

lemma reload_exact:
  assumes "registry_holds decode_peer digest worlds reg"
    and "\<And>s c r c' r'. PeersFile s c r \<in> set (world # worlds) \<Longrightarrow> PeersFile s c' r' \<in> set (world # worlds) \<Longrightarrow> c = c'"
  shows "pg_peers (reload_if_changed decode_peer digest world reg) = listed decode_peer digest world \<or>
    pg_peers (reload_if_changed decode_peer digest world reg) = [] \<and> (\<exists>s c. world = PeersFile s c False)"
proof (cases world)
  case (PeersFile signature content readable)
  show ?thesis
  proof (cases "Some signature = pg_signature reg")
    case True
    then obtain c r where "PeersFile signature c r \<in> set worlds" "pg_peers reg = listed decode_peer digest (PeersFile signature c r)"
      using assms(1) by (auto simp: registry_holds_def split: option.splits)
    moreover from this have "c = content" using assms(2) [of signature c r content readable] PeersFile by simp
    ultimately show ?thesis using True PeersFile by (simp add: reload_if_changed_def listed_def)
  next
    case False
    with PeersFile show ?thesis
      by (cases readable; cases signature) (simp_all add: reload_if_changed_def fail_closed_def listed_def split: option.splits)
  qed
qed (use assms in \<open>auto simp: registry_holds_def reload_if_changed_def fail_closed_def listed_def split: option.splits\<close>)

lemma listed_checked:
  "map_of (listed decode_peer digest world) key = Some peer \<Longrightarrow> check_entry digest key peer = None"
  by (auto simp: listed_def peers_of_def list_all_iff split: peers_file.splits option.splits json.splits if_splits
      dest!: map_of_SomeD)

text \<open>
  C34: whatever the file went through before, a lookup answers by the file as it is now: a peer found is
  one the file lists, the whole file being valid, under the SHA-256 of its 32-byte key; a peer the file no
  longer lists is gone at once; and only a file that cannot be read hides a peer it lists. A signature is
  taken to name one content.
\<close>

theorem registry_serves_the_file:
  assumes "\<And>s c r c' r'. PeersFile s c r \<in> set (world # first # map fst calls) \<Longrightarrow>
      PeersFile s c' r' \<in> set (world # first # map fst calls) \<Longrightarrow> c = c'"
    and "get_optional decode_peer digest world node_id (serve_calls decode_peer digest first calls) = (found, reg)"
  shows "(\<forall>p. found = Some p \<longrightarrow>
        (\<exists>p0 seen raw. map_of (listed decode_peer digest world) node_id = Some p0 \<and> p = p0\<lparr>pr_last_seen := seen\<rparr> \<and>
          b64decode_strict (pr_pubkey_b64 p) = Some raw \<and> length raw = 32 \<and> digest raw = node_id \<and> pr_node_id p = node_id)) \<and>
    (found = None \<longrightarrow> map_of (listed decode_peer digest world) node_id = None \<or> (\<exists>s c. world = PeersFile s c False))"
proof -
  let ?reg = "serve_calls decode_peer digest first calls"
  let ?new = "reload_if_changed decode_peer digest world ?reg"
  have now: "pg_peers ?new = listed decode_peer digest world \<or> pg_peers ?new = [] \<and> (\<exists>s c. world = PeersFile s c False)"
    using serve_holds [of decode_peer digest first calls] by (rule reload_exact) (use assms(1) in auto)
  have f: "found = map_option (with_last_seen ?new node_id) (map_of (pg_peers ?new) node_id)"
    using assms(2) by (auto simp: get_optional_def Let_def)
  have seen: "\<exists>seen. with_last_seen ?new node_id p = p\<lparr>pr_last_seen := seen\<rparr>" for p
    by (cases p) (auto simp: with_last_seen_def split: option.split)
  show ?thesis
  proof (intro conjI allI impI)
    fix p assume "found = Some p"
    then obtain p0 where p0: "map_of (listed decode_peer digest world) node_id = Some p0" "p = with_last_seen ?new node_id p0"
      using f now by auto
    obtain t where t: "p = p0\<lparr>pr_last_seen := t\<rparr>" using seen [of p0] p0(2) by auto
    from listed_checked [OF p0(1)] obtain raw where
      "b64decode_strict (pr_pubkey_b64 p) = Some raw" "length raw = 32" "digest raw = node_id" "pr_node_id p = node_id"
      by (auto simp: check_entry_def t ED25519_PUBLIC_KEY_BYTES_def split: option.splits if_splits)
    with p0(1) t show "\<exists>p0 seen raw. map_of (listed decode_peer digest world) node_id = Some p0 \<and> p = p0\<lparr>pr_last_seen := seen\<rparr> \<and>
        b64decode_strict (pr_pubkey_b64 p) = Some raw \<and> length raw = 32 \<and> digest raw = node_id \<and> pr_node_id p = node_id"
      by blast
  next
    assume "found = None"
    with f now show "map_of (listed decode_peer digest world) node_id = None \<or> (\<exists>s c. world = PeersFile s c False)" by auto
  qed
qed

definition sample_node :: peer_record where
  "sample_node = sample_peer\<lparr>pr_node_id := ''id'', pr_pubkey_b64 := replicate 43 (CHR ''A'') @ ''=''\<rparr>"

definition sample_file :: peers_file where
  "sample_file = PeersFile (1, 2, 3) (Some (JObj [(''id'', JNull)])) True"

lemma sample_file_listed: "listed (\<lambda>_. Some sample_node) (\<lambda>_. ''id'') sample_file = [(''id'', sample_node)]"
proof -
  have "length (the (b64decode_strict (replicate 43 (CHR ''A'') @ ''=''))) = 32 \<and>
      b64decode_strict (replicate 43 (CHR ''A'') @ ''='') \<noteq> None" by code_simp
  then have "check_entry (\<lambda>_. ''id'') ''id'' sample_node = None"
    by (auto simp: check_entry_def sample_node_def ED25519_PUBLIC_KEY_BYTES_def)
  then show ?thesis by (simp add: listed_def sample_file_def peers_of_def)
qed

theorem registry_serves_the_file_witness:
  "fst (get_optional (\<lambda>_. Some sample_node) (\<lambda>_. ''id'') NoFile ''id''
     (serve_calls (\<lambda>_. Some sample_node) (\<lambda>_. ''id'') sample_file [(sample_file, Lookup ''id'')])) = None"
proof -
  obtain found reg where g: "get_optional (\<lambda>_. Some sample_node) (\<lambda>_. ''id'') NoFile ''id''
      (serve_calls (\<lambda>_. Some sample_node) (\<lambda>_. ''id'') sample_file [(sample_file, Lookup ''id'')]) = (found, reg)" by force
  have "map_of (listed (\<lambda>_. Some sample_node) (\<lambda>_. ''id'') NoFile) ''id'' = None" by (simp add: listed_def)
  moreover have "(\<forall>p. found = Some p \<longrightarrow>
      (\<exists>p0 seen raw. map_of (listed (\<lambda>_. Some sample_node) (\<lambda>_. ''id'') NoFile) ''id'' = Some p0 \<and>
        p = p0\<lparr>pr_last_seen := seen\<rparr> \<and> b64decode_strict (pr_pubkey_b64 p) = Some raw \<and> length raw = 32 \<and>
        (\<lambda>_. ''id'') raw = ''id'' \<and> pr_node_id p = ''id'')) \<and>
      (found = None \<longrightarrow> map_of (listed (\<lambda>_. Some sample_node) (\<lambda>_. ''id'') NoFile) ''id'' = None \<or>
        (\<exists>s c. NoFile = PeersFile s c False))"
    by (rule registry_serves_the_file [OF _ g]) (auto simp: sample_file_def)
  ultimately show ?thesis using g by auto
qed

end
