(* ===== verification/MeshDelegation.thy ===== *)
theory MeshDelegation
  imports MeshPeers Machines
begin

text \<open>
  Envelopes between nodes (mesh/transport.py) and the delegation they carry (mesh/delegation.py): the
  cache of nonces, what a node accepts, and how it answers. One step of a node runs from one await to the
  next; \<open>time.time()\<close>, the peers file and fresh ids are what the step reads.
\<close>

section \<open>The nonce cache\<close>

definition NONCE_CACHE_MAX :: nat where
  "NONCE_CACHE_MAX = 10000"

definition DEFAULT_TIMESTAMP_WINDOW :: int where
  "DEFAULT_TIMESTAMP_WINDOW = 30 * 1000000"

text \<open>\<open>_seen\<close> in insertion order; \<open>_high_water\<close>, None for minus infinity.\<close>

record nonce_cache =
  nc_max :: nat
  nc_ttl :: "int option"
  nc_seen :: "(string \<times> stamp) list"
  nc_high_water :: "stamp option"

definition new_nonce_cache :: "int option \<Rightarrow> nonce_cache" where
  "new_nonce_cache ttl = \<lparr>nc_max = NONCE_CACHE_MAX, nc_ttl = ttl, nc_seen = [], nc_high_water = None\<rparr>"

text \<open>The later of a reading of the clock and the high-water mark.\<close>

definition past_high_water :: "nonce_cache \<Rightarrow> stamp \<Rightarrow> stamp" where
  "past_high_water c now = (case nc_high_water c of None \<Rightarrow> now | Some high \<Rightarrow> max now high)"

datatype nonce_error = CacheFull | CacheEmpty

definition check_and_record ::
  "string \<Rightarrow> stamp option \<Rightarrow> stamp \<Rightarrow> nonce_cache \<Rightarrow> (nonce_error + bool) \<times> nonce_cache" where
  "check_and_record nonce stamped_at current c =
     (let high = past_high_water c current;
          expired = (\<lambda>(seen, stamp). case nc_ttl c of None \<Rightarrow> False | Some ttl \<Rightarrow> ttl < high - stamp);
          seen = dropWhile expired (nc_seen c);
          c' = c\<lparr>nc_high_water := Some high, nc_seen := seen\<rparr>;
          new = (nonce, case stamped_at of None \<Rightarrow> current | Some stamp \<Rightarrow> stamp)
      in if nonce \<in> fst ` set seen then (Inr False, c')
         else if length seen < nc_max c then (Inr True, c'\<lparr>nc_seen := seen @ [new]\<rparr>)
         else
           (case nc_ttl c of
              None \<Rightarrow> if seen = [] then (Inl CacheEmpty, c') else (Inr True, c'\<lparr>nc_seen := tl seen @ [new]\<rparr>)
            | Some ttl \<Rightarrow>
                (let live = filter (\<lambda>entry. \<not> expired entry) seen in
                 if nc_max c \<le> length live then (Inl CacheFull, c'\<lparr>nc_seen := live\<rparr>)
                 else (Inr True, c'\<lparr>nc_seen := live @ [new]\<rparr>))))"

section \<open>Envelopes\<close>

text \<open>What the signature covers: the fields \<open>_canonical_bytes\<close> renders, the version first.\<close>

datatype canonical = Canonical string string string string wire_float members

definition ENVELOPE_VERSION :: string where
  "ENVELOPE_VERSION = ''1''"

definition canonical_bytes :: "signed_envelope \<Rightarrow> canonical" where
  "canonical_bytes e =
     Canonical ENVELOPE_VERSION (se_sender_node_id e) (se_recipient_node_id e) (se_nonce e) (se_timestamp e) (se_payload e)"

text \<open>
  The libraries the code calls: pydantic's parsing of a peer, of a request and of a response, Python's
  \<open>str\<close> of a JSON value and \<open>repr\<close> of a string, SHA-256, the decoding of a
  key as an Ed25519 key, and the check of a base64 signature over the canonical bytes.
\<close>

record mesh_library =
  ml_decode_peer :: "json \<Rightarrow> peer_record option"
  ml_decode_request :: "members \<Rightarrow> delegation_request option"
  ml_decode_response :: "members \<Rightarrow> delegation_response option"
  ml_str :: "json \<Rightarrow> string"
  ml_repr :: "string \<Rightarrow> string"
  ml_digest :: "nat list \<Rightarrow> string"
  ml_key_loads :: "string \<Rightarrow> bool"
  ml_signed_by :: "string \<Rightarrow> string \<Rightarrow> canonical \<Rightarrow> bool"

datatype envelope_error = WrongSender | WrongRecipient | KeyNotLoaded | BadSignature

definition verify_envelope ::
  "mesh_library \<Rightarrow> signed_envelope \<Rightarrow> peer_record \<Rightarrow> string option \<Rightarrow> envelope_error + members" where
  "verify_envelope lib e peer recipient =
     (if se_sender_node_id e \<noteq> pr_node_id peer then Inl WrongSender
      else if recipient \<noteq> None \<and> se_recipient_node_id e \<noteq> the recipient then Inl WrongRecipient
      else if \<not> ml_key_loads lib (pr_pubkey_b64 peer) then Inl KeyNotLoaded
      else if \<not> ml_signed_by lib (pr_pubkey_b64 peer) (se_signature_b64 e) (canonical_bytes e) then Inl BadSignature
      else Inr (se_payload e))"

text \<open>\<open>make_envelope\<close>: the nonce and the time are fresh; \<open>sign\<close> is the node's key, its result in base64.\<close>

definition make_envelope ::
  "(canonical \<Rightarrow> string) \<Rightarrow> string \<Rightarrow> string \<Rightarrow> stamp \<Rightarrow> members \<Rightarrow> string \<Rightarrow> signed_envelope" where
  "make_envelope sign node_id nonce now payload recipient_node_id =
     (let e = \<lparr>se_sender_node_id = node_id, se_recipient_node_id = recipient_node_id, se_nonce = nonce,
               se_timestamp = Finite now, se_payload = payload, se_signature_b64 = []\<rparr>
      in e\<lparr>se_signature_b64 := sign (canonical_bytes e)\<rparr>)"

text \<open>
  \<open>send_envelope\<close>: what the POST came to (None: it timed out, failed to connect or otherwise), and pydantic's
  reading of the reply's body.
\<close>

definition send_envelope ::
  "peer_record \<Rightarrow> (int \<times> json) option \<Rightarrow> (json \<Rightarrow> signed_envelope option) \<Rightarrow> signed_envelope option" where
  "send_envelope peer outcome decode_envelope =
     (if pr_endpoint peer = [] then None
      else case outcome of
        None \<Rightarrow> None
      | Some (status, body) \<Rightarrow> if status \<notin> {200, 201, 202} then None else decode_envelope body)"

section \<open>The node\<close>

record mesh_node =
  mn_node_id :: string
  mn_window :: int
  mn_started_at :: stamp
  mn_nonces :: nonce_cache
  mn_counts :: invocations
  mn_registry :: peer_registry

definition new_node :: "mesh_library \<Rightarrow> string \<Rightarrow> int \<Rightarrow> stamp \<Rightarrow> peers_file \<Rightarrow> mesh_node" where
  "new_node lib node_id window now world =
     \<lparr>mn_node_id = node_id, mn_window = window, mn_started_at = now, mn_nonces = new_nonce_cache (Some window),
      mn_counts = (\<lambda>_. []), mn_registry = new_registry (ml_decode_peer lib) (ml_digest lib) world\<rparr>"

text \<open>\<open>abs(now - timestamp) <= window\<close>, false of a NaN and of an infinite stamp.\<close>

fun in_timestamp_window :: "int \<Rightarrow> stamp \<Rightarrow> wire_float \<Rightarrow> bool" where
  "in_timestamp_window window now (Finite t) \<longleftrightarrow> \<bar>now - t\<bar> \<le> window"
| "in_timestamp_window window now _ \<longleftrightarrow> False"

fun finite_stamp :: "wire_float \<Rightarrow> stamp" where
  "finite_stamp (Finite t) = t"
| "finite_stamp _ = 0"

datatype inbound_error =
    UnknownSender | OutOfWindow | StampedBeforeStart | NotVerified envelope_error | ReplayCacheFull | NonceReplay
  | MalformedRequest | ResponseInvalid

text \<open>\<open>receive_inbound\<close> up to the nonce's record: the peer and the payload of an accepted envelope.\<close>

definition admit_inbound ::
  "mesh_library \<Rightarrow> stamp \<Rightarrow> peers_file \<Rightarrow> signed_envelope \<Rightarrow> mesh_node \<Rightarrow>
   (inbound_error + peer_record \<times> members) \<times> mesh_node" where
  "admit_inbound lib wall world e node =
     (let (found, reg) = get_optional (ml_decode_peer lib) (ml_digest lib) world (se_sender_node_id e) (mn_registry node);
          node1 = node\<lparr>mn_registry := reg\<rparr>
      in case found of
           None \<Rightarrow> (Inl UnknownSender, node1)
         | Some peer \<Rightarrow>
           (let now = past_high_water (mn_nonces node) wall in
            if \<not> in_timestamp_window (mn_window node) now (se_timestamp e) then (Inl OutOfWindow, node1)
            else if finite_stamp (se_timestamp e) \<le> mn_started_at node + mn_window node then (Inl StampedBeforeStart, node1)
            else case verify_envelope lib e peer (Some (mn_node_id node)) of
              Inl err \<Rightarrow> (Inl (NotVerified err), node1)
            | Inr payload \<Rightarrow>
              (case check_and_record (se_nonce e) (Some (finite_stamp (se_timestamp e))) now (mn_nonces node) of
                 (Inl _, c) \<Rightarrow> (Inl ReplayCacheFull, node1\<lparr>mn_nonces := c\<rparr>)
               | (Inr False, c) \<Rightarrow> (Inl NonceReplay, node1\<lparr>mn_nonces := c\<rparr>)
               | (Inr True, c) \<Rightarrow> (Inr (peer, payload), node1\<lparr>mn_nonces := c\<rparr>))))"

section \<open>Answering a request\<close>

text \<open>\<open>DelegationResponse(...)\<close>: \<open>error\<close> and \<open>approval_id\<close> must be strings, or the construction raises.\<close>

definition make_response ::
  "string \<Rightarrow> string \<Rightarrow> members \<Rightarrow> json option \<Rightarrow> json option \<Rightarrow> delegation_response option" where
  "make_response request_id status result err approval_id =
     (case (err, approval_id) of
        (Some (JStr e), Some (JStr a)) \<Rightarrow>
          Some \<lparr>ds_request_id = request_id, ds_status = status, ds_result = result, ds_error = e, ds_approval_id = a\<rparr>
      | _ \<Rightarrow> None)"

definition plain_response :: "string \<Rightarrow> string \<Rightarrow> string \<Rightarrow> string \<Rightarrow> delegation_response" where
  "plain_response request_id status err approval_id =
     \<lparr>ds_request_id = request_id, ds_status = status, ds_result = [], ds_error = err, ds_approval_id = approval_id\<rparr>"

text \<open>The routes of a capability: a call of the tool gateway, or a result without one.\<close>

datatype route = CallTool string members string | Unrouted members

definition route_capability :: "mesh_library \<Rightarrow> bool \<Rightarrow> delegation_request \<Rightarrow> route" where
  "route_capability lib have_gateway request =
     (let cap = dr_capability request in
      if has_prefix ''tool:'' cap then
        (if \<not> have_gateway
         then Unrouted [(''_mesh_error'', JBool True), (''error'', JStr ''No tool gateway configured''), (''tool'', JStr (drop 5 cap))]
         else CallTool (drop 5 cap) (dr_arguments request) (dr_session_id request))
      else if has_prefix ''session:'' cap then
        Unrouted [(''_mesh_error'', JBool True), (''error'', JStr ''session delegation not yet wired''), (''verb'', JStr (drop 8 cap))]
      else Unrouted [(''_mesh_error'', JBool True), (''error'', JStr (''Unknown capability kind: '' @ ml_repr lib cap))])"

text \<open>The answer to a routed result; None when building it raises.\<close>

definition respond :: "mesh_library \<Rightarrow> delegation_request \<Rightarrow> members \<Rightarrow> delegation_response option" where
  "respond lib request result =
     (let shown = filter (\<lambda>(k, v). k \<noteq> ''_mesh_error'') result;
          err = map_of result ''error''
      in if map_of result ''status'' = Some (JStr ''approval_required'') then
           make_response (dr_request_id request) ''approval_required'' shown err (map_of result ''approval_id'')
         else if json_truthy (the_default JNull (map_of result ''_mesh_error'')) then
           make_response (dr_request_id request) ''rejected'' shown
             (Some (JStr (if json_truthy (the_default JNull err) then ml_str lib (the err) else ''Delegated capability failed'')))
             (Some (JStr []))
         else make_response (dr_request_id request) ''ok'' result (Some (JStr [])) (Some (JStr [])))"

text \<open>
  What follows an accepted envelope: the request is decoded and judged, and the sender heard from, before
  the first await. \<open>approval_fn\<close> answers an approval (None: it raised), the gateway a tool call.
\<close>

type_synonym approval_handler = "(string \<Rightarrow> delegation_request \<Rightarrow> members option option) option"

type_synonym tool_gateway = "(string \<Rightarrow> members \<Rightarrow> string \<Rightarrow> members option) option"

record inbound_reads =
  ir_now :: stamp
  ir_file :: peers_file
  ir_policy :: clock_reads
  ir_heard_at :: stamp
  ir_heard_file :: peers_file
  ir_approval_id :: string

datatype judged = Refused inbound_error | Answered delegation_response | Permitted delegation_request capability_grant

definition judge_request ::
  "mesh_library \<Rightarrow> inbound_reads \<Rightarrow> string \<Rightarrow> peer_record \<Rightarrow> members \<Rightarrow> mesh_node \<Rightarrow> judged \<times> mesh_node" where
  "judge_request lib reads sender peer payload node =
     (case ml_decode_request lib payload of
        None \<Rightarrow> (Refused MalformedRequest, node)
      | Some request \<Rightarrow>
        (case policy_evaluate peer request (ir_policy reads) (mn_counts node) of
           (Inl e, counts) \<Rightarrow>
             (Answered (plain_response (dr_request_id request) ''rejected'' ''Delegation policy rejected the request'' []),
              node\<lparr>mn_counts := counts\<rparr>)
         | (Inr grant, counts) \<Rightarrow>
             (Permitted request grant,
              node\<lparr>mn_counts := counts,
                   mn_registry := update_last_seen (ml_decode_peer lib) (ml_digest lib) (ir_heard_file reads)
                     (ir_heard_at reads) sender (mn_registry node)\<rparr>)))"

text \<open>The approval gate: an answer, or None to go on. A handler's answer without a status is a denial.\<close>

definition approval_gate ::
  "mesh_library \<Rightarrow> approval_handler \<Rightarrow> string \<Rightarrow> delegation_request \<Rightarrow> capability_grant \<Rightarrow> delegation_response option" where
  "approval_gate lib handler approval_id request grant =
     (if \<not> cg_require_approval grant then None
      else case handler of
        None \<Rightarrow> Some (plain_response (dr_request_id request) ''approval_required''
                  ''Approval required but no approval handler configured'' [])
      | Some ask \<Rightarrow>
        (case ask approval_id request of
           None \<Rightarrow> Some (plain_response (dr_request_id request) ''approval_required'' ''Delegation approval failed'' approval_id)
         | Some answer \<Rightarrow>
             (let status = (case answer of None \<Rightarrow> JStr ''denied''
                            | Some ms \<Rightarrow> the_default (JStr ''denied'') (map_of ms ''status''))
              in if status \<in> {JStr ''pending'', JStr ''approval_required''} then
                   Some (plain_response (dr_request_id request) ''approval_required''
                     (''Approval pending (status='' @ ml_str lib status @ '')'') approval_id)
                 else if status \<noteq> JStr ''approved'' then
                   Some (plain_response (dr_request_id request) ''rejected''
                     (''Approval denied (status='' @ ml_str lib status @ '')'') approval_id)
                 else None)))"

datatype inbound_result = InboundError inbound_error | GatewayRaised | Response delegation_response

text \<open>\<open>receive_inbound\<close>, with the tool calls it makes.\<close>

definition receive_inbound ::
  "mesh_library \<Rightarrow> approval_handler \<Rightarrow> tool_gateway \<Rightarrow> inbound_reads \<Rightarrow> signed_envelope \<Rightarrow> mesh_node \<Rightarrow>
   inbound_result \<times> mesh_node \<times> (string \<times> members \<times> string) list" where
  "receive_inbound lib handler gateway reads e node =
     (case admit_inbound lib (ir_now reads) (ir_file reads) e node of
        (Inl err, node1) \<Rightarrow> (InboundError err, node1, [])
      | (Inr (peer, payload), node1) \<Rightarrow>
        (case judge_request lib reads (se_sender_node_id e) peer payload node1 of
           (Refused err, node2) \<Rightarrow> (InboundError err, node2, [])
         | (Answered response, node2) \<Rightarrow> (Response response, node2, [])
         | (Permitted request grant, node2) \<Rightarrow>
           (case approval_gate lib handler (ir_approval_id reads) request grant of
              Some response \<Rightarrow> (Response response, node2, [])
            | None \<Rightarrow>
              (case route_capability lib (gateway \<noteq> None) request of
                 Unrouted result \<Rightarrow>
                   (case respond lib request result of
                      None \<Rightarrow> (InboundError ResponseInvalid, node2, []) | Some r \<Rightarrow> (Response r, node2, []))
               | CallTool name arguments session_id \<Rightarrow>
                   (case the gateway name arguments session_id of
                      None \<Rightarrow> (GatewayRaised, node2, [(name, arguments, session_id)])
                    | Some result \<Rightarrow>
                        (case respond lib request result of
                           None \<Rightarrow> (InboundError ResponseInvalid, node2, [(name, arguments, session_id)])
                         | Some r \<Rightarrow> (Response r, node2, [(name, arguments, session_id)])))))))"

section \<open>Asking a peer\<close>

datatype delegate_error =
    UnknownPeer | TransportFailed | ReplyNotVerified envelope_error | ReplyOutOfWindow | ReplyCacheFull | ReplyReplayed
  | ReplyMalformed | ReplyToAnotherRequest

text \<open>\<open>delegate\<close> before its await: the peer and the envelope to send.\<close>

definition prepare_request ::
  "mesh_library \<Rightarrow> (canonical \<Rightarrow> string) \<Rightarrow> (delegation_request \<Rightarrow> members) \<Rightarrow> peers_file \<Rightarrow> string \<Rightarrow> stamp \<Rightarrow> string \<Rightarrow>
   delegation_request \<Rightarrow> mesh_node \<Rightarrow> (delegate_error + peer_record \<times> signed_envelope) \<times> mesh_node" where
  "prepare_request lib sign dump world nonce now peer_node_id request node =
     (let (found, reg) = get_peer (ml_decode_peer lib) (ml_digest lib) world peer_node_id (mn_registry node);
          node1 = node\<lparr>mn_registry := reg\<rparr>
      in case found of
           None \<Rightarrow> (Inl UnknownPeer, node1)
         | Some peer \<Rightarrow> (Inr (peer, make_envelope sign (mn_node_id node) nonce now (dump request) peer_node_id), node1))"

text \<open>\<open>delegate\<close> after it: the reply is checked as an envelope is, then against the request.\<close>

definition read_reply ::
  "mesh_library \<Rightarrow> stamp \<Rightarrow> peer_record \<Rightarrow> signed_envelope \<Rightarrow> mesh_node \<Rightarrow> (delegate_error + members) \<times> mesh_node" where
  "read_reply lib wall peer reply node =
     (case verify_envelope lib reply peer (Some (mn_node_id node)) of
        Inl err \<Rightarrow> (Inl (ReplyNotVerified err), node)
      | Inr payload \<Rightarrow>
        (let now = past_high_water (mn_nonces node) wall in
         if \<not> in_timestamp_window (mn_window node) now (se_timestamp reply) then (Inl ReplyOutOfWindow, node)
         else case check_and_record (se_nonce reply) (Some (finite_stamp (se_timestamp reply))) now (mn_nonces node) of
             (Inl _, c) \<Rightarrow> (Inl ReplyCacheFull, node\<lparr>mn_nonces := c\<rparr>)
           | (Inr False, c) \<Rightarrow> (Inl ReplyReplayed, node\<lparr>mn_nonces := c\<rparr>)
           | (Inr True, c) \<Rightarrow> (Inr payload, node\<lparr>mn_nonces := c\<rparr>)))"

definition finish_delegate ::
  "mesh_library \<Rightarrow> stamp \<Rightarrow> peer_record \<Rightarrow> delegation_request \<Rightarrow> signed_envelope option \<Rightarrow> mesh_node \<Rightarrow>
   (delegate_error + delegation_response) \<times> mesh_node" where
  "finish_delegate lib wall peer request sent node =
     (case sent of
        None \<Rightarrow> (Inl TransportFailed, node)
      | Some reply \<Rightarrow>
        (case read_reply lib wall peer reply node of
           (Inl err, node1) \<Rightarrow> (Inl err, node1)
         | (Inr payload, node1) \<Rightarrow>
           (case ml_decode_response lib payload of
              None \<Rightarrow> (Inl ReplyMalformed, node1)
            | Some response \<Rightarrow>
                if ds_request_id response \<noteq> dr_request_id request then (Inl ReplyToAnotherRequest, node1)
                else (Inr response, node1))))"

section \<open>No envelope is accepted twice\<close>

text \<open>A node and the nonces and stamps of the envelopes it accepted, requests and replies, in order.\<close>

type_synonym mesh_run = "mesh_node \<times> (string \<times> stamp) list"

inductive mesh_step :: "mesh_library \<Rightarrow> mesh_run \<Rightarrow> mesh_run \<Rightarrow> bool" for lib where
  request_accepted:
    "admit_inbound lib (ir_now reads) (ir_file reads) e node = (Inr (peer, payload), node1) \<Longrightarrow>
     receive_inbound lib handler gateway reads e node = (result, node2, calls) \<Longrightarrow>
     mesh_step lib (node, accepted) (node2, accepted @ [(se_nonce e, finite_stamp (se_timestamp e))])"
| request_refused:
    "admit_inbound lib (ir_now reads) (ir_file reads) e node = (Inl err, node1) \<Longrightarrow>
     receive_inbound lib handler gateway reads e node = (result, node2, calls) \<Longrightarrow>
     mesh_step lib (node, accepted) (node2, accepted)"
| request_sent:
    "prepare_request lib sign dump world nonce now peer_node_id request node = (outcome, node1) \<Longrightarrow>
     mesh_step lib (node, accepted) (node1, accepted)"
| reply_accepted:
    "read_reply lib wall peer reply node = (Inr payload, node1) \<Longrightarrow>
     finish_delegate lib wall peer request (Some reply) node = (outcome, node2) \<Longrightarrow>
     mesh_step lib (node, accepted) (node2, accepted @ [(se_nonce reply, finite_stamp (se_timestamp reply))])"
| reply_refused:
    "read_reply lib wall peer reply node = (Inl err, node1) \<Longrightarrow>
     finish_delegate lib wall peer request (Some reply) node = (outcome, node2) \<Longrightarrow>
     mesh_step lib (node, accepted) (node2, accepted)"
| no_reply:
    "finish_delegate lib wall peer request None node = (outcome, node2) \<Longrightarrow>
     mesh_step lib (node, accepted) (node2, accepted)"

text \<open>
  An accepted stamp is remembered under its nonce or is more than a window below the high-water mark;
  stamps accepted under one nonce only grow.
\<close>

definition remembered :: "nonce_cache \<Rightarrow> int \<Rightarrow> string \<times> stamp \<Rightarrow> bool" where
  "remembered c window entry \<longleftrightarrow>
     entry \<in> set (nc_seen c) \<or> (\<exists>high. nc_high_water c = Some high \<and> window < high - snd entry)"

definition nonces_ok :: "nonce_cache \<Rightarrow> int \<Rightarrow> (string \<times> stamp) list \<Rightarrow> bool" where
  "nonces_ok c window accepted \<longleftrightarrow>
     nc_ttl c = Some window \<and>
     list_all (remembered c window) accepted \<and>
     sorted_wrt (\<lambda>a b. fst a = fst b \<longrightarrow> snd a < snd b) accepted \<and>
     list_all (\<lambda>a. \<exists>high. nc_high_water c = Some high \<and> snd a \<le> high + window) accepted"

definition mesh_run_ok :: "mesh_run \<Rightarrow> bool" where
  "mesh_run_ok r \<longleftrightarrow> nonces_ok (mn_nonces (fst r)) (mn_window (fst r)) (snd r)"

lemma past_high_water_ge: "nc_high_water c = Some high \<Longrightarrow> high \<le> past_high_water c now"
  by (simp add: past_high_water_def)

lemma past_high_water_idem: "past_high_water c (past_high_water c now) = past_high_water c now"
  by (simp add: past_high_water_def split: option.split)

text \<open>What a check leaves: what it drops has expired.\<close>

lemma check_high:
  "check_and_record nonce stamped now c = (r, c') \<Longrightarrow>
   nc_high_water c' = Some (past_high_water c now) \<and> nc_ttl c' = nc_ttl c \<and> nc_max c' = nc_max c"
  by (auto simp: check_and_record_def Let_def split: if_splits option.splits)

lemma dropWhile_keeps: "x \<in> set xs \<Longrightarrow> \<not> P x \<Longrightarrow> x \<in> set (dropWhile P xs)"
  by (induction xs) auto

lemma check_keeps:
  assumes "check_and_record nonce stamped now c = (r, c')" and "nc_ttl c = Some window"
    and "entry \<in> set (nc_seen c)"
  shows "entry \<in> set (nc_seen c') \<or> window < past_high_water c now - snd entry"
proof -
  let ?expired = "\<lambda>(seen :: string, stamp). window < past_high_water c now - stamp"
  show ?thesis
  proof (cases "?expired entry")
    case True
    then show ?thesis by (simp add: split_beta)
  next
    case False
    with assms(3) have "entry \<in> set (dropWhile ?expired (nc_seen c))" by (rule dropWhile_keeps)
    with False assms(1,2) have "entry \<in> set (nc_seen c')"
      by (auto simp: check_and_record_def Let_def split: if_splits)
    then show ?thesis ..
  qed
qed

lemma remembered_later:
  assumes "check_and_record nonce stamped now c = (r, c')" and "nc_ttl c = Some window"
    and "remembered c window entry"
  shows "remembered c' window entry"
proof -
  note high = check_high [OF assms(1)]
  from assms(3) consider "entry \<in> set (nc_seen c)" | h where "nc_high_water c = Some h" "window < h - snd entry"
    by (auto simp: remembered_def)
  then show ?thesis
  proof cases
    case 1
    with check_keeps [OF assms(1,2) 1] high show ?thesis by (auto simp: remembered_def)
  next
    case 2
    with past_high_water_ge [OF 2(1), of now] high show ?thesis by (auto simp: remembered_def)
  qed
qed

text \<open>A fresh nonce's earlier stamps have all expired.\<close>

lemma check_fresh:
  assumes "check_and_record nonce (Some stamp) now c = (Inr True, c')" and "nc_ttl c = Some window"
    and "remembered c window (nonce, old)"
  shows "window < past_high_water c now - old" and "(nonce, stamp) \<in> set (nc_seen c')"
proof -
  let ?expired = "\<lambda>(seen :: string, stamp). window < past_high_water c now - stamp"
  have absent: "nonce \<notin> fst ` set (dropWhile ?expired (nc_seen c))"
    using assms(1,2) by (auto simp: check_and_record_def Let_def split: if_splits)
  show "(nonce, stamp) \<in> set (nc_seen c')"
    using assms(1,2) by (auto simp: check_and_record_def Let_def split: if_splits)
  from assms(3) consider "(nonce, old) \<in> set (nc_seen c)" | h where "nc_high_water c = Some h" "window < h - old"
    by (auto simp: remembered_def)
  then show "window < past_high_water c now - old"
  proof cases
    case 1
    then show ?thesis using dropWhile_keeps [OF 1, of ?expired] absent by force
  next
    case 2
    with past_high_water_ge [OF 2(1), of now] show ?thesis by linarith
  qed
qed

lemma nonces_later:
  assumes "check_and_record nonce stamped now c = (r, c')" and "nonces_ok c window accepted"
  shows "nonces_ok c' window accepted"
proof -
  have ttl: "nc_ttl c = Some window" using assms(2) by (simp add: nonces_ok_def)
  note high = check_high [OF assms(1)]
  have "\<exists>high. nc_high_water c' = Some high \<and> snd a \<le> high + window" if a: "a \<in> set accepted" for a
  proof -
    obtain h where "nc_high_water c = Some h" "snd a \<le> h + window"
      using a assms(2) by (auto simp: nonces_ok_def list_all_iff)
    with past_high_water_ge [OF this(1), of now] high show ?thesis by auto
  qed
  with assms(2) high remembered_later [OF assms(1) ttl] show ?thesis by (simp add: nonces_ok_def list_all_iff)
qed

lemma nonces_accept:
  assumes "check_and_record nonce (Some stamp) now c = (Inr True, c')" and "nonces_ok c window accepted"
    and "now = past_high_water c wall" and "\<bar>now - stamp\<bar> \<le> window"
  shows "nonces_ok c' window (accepted @ [(nonce, stamp)])"
proof -
  have ttl: "nc_ttl c = Some window" using assms(2) by (simp add: nonces_ok_def)
  have high: "nc_high_water c' = Some now" using check_high [OF assms(1)] assms(3) past_high_water_idem by simp
  have old: "snd a < stamp" if "a \<in> set accepted" "fst a = nonce" for a
  proof -
    have "remembered c window (nonce, snd a)" using that assms(2) by (cases a) (auto simp: nonces_ok_def list_all_iff)
    from check_fresh(1) [OF assms(1) ttl this] assms(3,4) show ?thesis by (simp add: past_high_water_idem)
  qed
  have "remembered c' window (nonce, stamp)"
    using assms(1) ttl by (auto simp: remembered_def check_and_record_def Let_def split: if_splits)
  with nonces_later [OF assms(1,2)] old high assms(4) show ?thesis
    by (auto simp: nonces_ok_def sorted_wrt_append)
qed

lemma nonces_checked:
  assumes "check_and_record nonce (Some stamp) (past_high_water c wall) c = (v, c')" and "nonces_ok c window accepted"
    and "\<bar>past_high_water c wall - stamp\<bar> \<le> window"
  shows "nonces_ok c' window (accepted @ (if v = Inr True then [(nonce, stamp)] else []))"
  using nonces_accept [OF _ assms(2) refl assms(3)] nonces_later [OF assms(1,2)] assms(1) by auto

lemma in_window_finite: "in_timestamp_window window now t \<Longrightarrow> \<bar>now - finite_stamp t\<bar> \<le> window"
  by (cases t) simp_all

text \<open>The envelope checks, as the cache sees them.\<close>

definition accepted_by :: "'e + 'a \<Rightarrow> signed_envelope \<Rightarrow> (string \<times> stamp) list" where
  "accepted_by r e = (case r of Inl _ \<Rightarrow> [] | Inr _ \<Rightarrow> [(se_nonce e, finite_stamp (se_timestamp e))])"

lemma accepted_by_simps [simp]:
  "accepted_by (Inl x) e = []"
  "accepted_by (Inr y) e = [(se_nonce e, finite_stamp (se_timestamp e))]"
  by (simp_all add: accepted_by_def)

lemma reply_nonces:
  assumes "read_reply lib wall peer e node = (r, node1)"
    and "nonces_ok (mn_nonces node) (mn_window node) accepted"
  shows "nonces_ok (mn_nonces node1) (mn_window node) (accepted @ accepted_by r e) \<and> mn_window node1 = mn_window node"
proof (cases "verify_envelope lib e peer (Some (mn_node_id node))")
  case (Inl err)
  with assms show ?thesis by (auto simp: read_reply_def)
next
  case (Inr payload)
  let ?now = "past_high_water (mn_nonces node) wall"
  show ?thesis
  proof (cases "in_timestamp_window (mn_window node) ?now (se_timestamp e)")
    case False
    with assms Inr show ?thesis by (auto simp: read_reply_def Let_def)
  next
    case True
    obtain v c where v: "check_and_record (se_nonce e) (Some (finite_stamp (se_timestamp e))) ?now (mn_nonces node) = (v, c)"
      by force
    from nonces_checked [OF v assms(2) in_window_finite [OF True]] assms(1) Inr True v
    show ?thesis by (cases v) (auto simp: read_reply_def Let_def split: bool.splits)
  qed
qed

lemma admit_nonces:
  assumes "admit_inbound lib wall world e node = (r, node1)"
    and "nonces_ok (mn_nonces node) (mn_window node) accepted"
  shows "nonces_ok (mn_nonces node1) (mn_window node) (accepted @ accepted_by r e) \<and> mn_window node1 = mn_window node"
proof -
  obtain found reg where g: "get_optional (ml_decode_peer lib) (ml_digest lib) world (se_sender_node_id e) (mn_registry node) = (found, reg)"
    by force
  let ?now = "past_high_water (mn_nonces node) wall"
  show ?thesis
  proof (cases found)
    case None
    with assms g show ?thesis by (auto simp: admit_inbound_def)
  next
    case (Some peer)
    show ?thesis
    proof (cases "in_timestamp_window (mn_window node) ?now (se_timestamp e) \<and>
        \<not> finite_stamp (se_timestamp e) \<le> mn_started_at node + mn_window node \<and>
        (\<exists>payload. verify_envelope lib e peer (Some (mn_node_id node)) = Inr payload)")
      case False
      with assms g Some show ?thesis by (auto simp: admit_inbound_def Let_def split: if_splits sum.splits)
    next
      case True
      obtain v c where v: "check_and_record (se_nonce e) (Some (finite_stamp (se_timestamp e))) ?now (mn_nonces node) = (v, c)"
        by force
      from nonces_checked [OF v assms(2) in_window_finite [OF conjunct1 [OF True]]] assms(1) g Some True v
      show ?thesis by (cases v) (auto simp: admit_inbound_def Let_def split: bool.splits)
    qed
  qed
qed

text \<open>After the nonce, a request touches neither the cache nor the window.\<close>

lemma judge_same_nonces:
  "judge_request lib reads sender peer payload node = (j, node') \<Longrightarrow>
   mn_nonces node' = mn_nonces node \<and> mn_window node' = mn_window node \<and> mn_started_at node' = mn_started_at node"
  by (auto simp: judge_request_def split: option.splits prod.splits sum.splits)

lemma receive_node:
  assumes "receive_inbound lib handler gateway reads e node = (result, node2, calls)"
    and "admit_inbound lib (ir_now reads) (ir_file reads) e node = (r, node1)"
  shows "mn_nonces node2 = mn_nonces node1 \<and> mn_window node2 = mn_window node1"
  using assms judge_same_nonces
  by (fastforce simp: receive_inbound_def split: sum.splits prod.splits judged.splits option.splits route.splits)

lemma finish_node:
  assumes "finish_delegate lib wall peer request (Some reply) node = (outcome, node2)"
    and "read_reply lib wall peer reply node = (r, node1)"
  shows "mn_nonces node2 = mn_nonces node1 \<and> mn_window node2 = mn_window node1"
  using assms by (auto simp: finish_delegate_def split: sum.splits prod.splits option.splits if_splits)


lemma mesh_step_keeps: "mesh_step lib r r' \<Longrightarrow> mesh_run_ok r \<Longrightarrow> mesh_run_ok r'"
proof (induction rule: mesh_step.induct)
  case (request_accepted reads e node peer payload node1 handler gateway result node2 calls accepted)
  with admit_nonces [OF request_accepted.hyps(1)] receive_node [OF request_accepted.hyps(2,1)]
  show ?case by (auto simp: mesh_run_ok_def)
next
  case (request_refused reads e node err node1 handler gateway result node2 calls accepted)
  with admit_nonces [OF request_refused.hyps(1)] receive_node [OF request_refused.hyps(2,1)]
  show ?case by (auto simp: mesh_run_ok_def)
next
  case (request_sent sign dump world nonce now peer_node_id request node outcome node1 accepted)
  then have "mn_nonces node1 = mn_nonces node \<and> mn_window node1 = mn_window node"
    by (auto simp: prepare_request_def Let_def split: prod.splits option.splits)
  with request_sent.prems show ?case by (simp add: mesh_run_ok_def)
next
  case (reply_accepted wall peer reply node payload node1 request outcome node2 accepted)
  with reply_nonces [OF reply_accepted.hyps(1)] finish_node [OF reply_accepted.hyps(2,1)]
  show ?case by (auto simp: mesh_run_ok_def)
next
  case (reply_refused wall peer reply node err node1 request outcome node2 accepted)
  with reply_nonces [OF reply_refused.hyps(1)] finish_node [OF reply_refused.hyps(2,1)]
  show ?case by (auto simp: mesh_run_ok_def)
next
  case (no_reply wall peer request node outcome node2 accepted)
  then show ?case by (auto simp: mesh_run_ok_def finish_delegate_def)
qed

text \<open>A run changes neither the start nor the window of a node.\<close>

lemma admit_params:
  "admit_inbound lib wall world e node = (r, node1) \<Longrightarrow>
   mn_started_at node1 = mn_started_at node \<and> mn_window node1 = mn_window node \<and> mn_node_id node1 = mn_node_id node"
  by (auto simp: admit_inbound_def Let_def split: prod.splits option.splits if_splits sum.splits bool.splits)

lemma receive_params:
  "receive_inbound lib handler gateway reads e node = (result, node2, calls) \<Longrightarrow>
   mn_started_at node2 = mn_started_at node \<and> mn_window node2 = mn_window node"
  by (cases "admit_inbound lib (ir_now reads) (ir_file reads) e node")
    (use admit_params judge_same_nonces in \<open>fastforce simp: receive_inbound_def
      split: sum.splits prod.splits judged.splits option.splits route.splits\<close>)

lemma finish_params:
  "finish_delegate lib wall peer request sent node = (outcome, node2) \<Longrightarrow>
   mn_started_at node2 = mn_started_at node \<and> mn_window node2 = mn_window node"
  by (auto simp: finish_delegate_def read_reply_def Let_def
      split: option.splits sum.splits prod.splits if_splits bool.splits)

lemma mesh_step_params:
  "mesh_step lib r r' \<Longrightarrow> mn_started_at (fst r') = mn_started_at (fst r) \<and> mn_window (fst r') = mn_window (fst r)"
proof (induction rule: mesh_step.induct)
  case (request_sent sign dump world nonce now peer_node_id request node outcome node1 accepted)
  then show ?case by (auto simp: prepare_request_def Let_def split: prod.splits option.splits)
qed (simp_all add: receive_params finish_params)

interpretation mesh: machine "mesh_step lib" mesh_run_ok
  by unfold_locales (rule mesh_step_keeps)

lemma new_node_ok: "mesh_run_ok (new_node lib node_id window now world, [])"
  by (simp add: mesh_run_ok_def nonces_ok_def new_node_def new_nonce_cache_def)

text \<open>
  C2: in one process, whatever its clock does and however its peers file changes, no envelope is accepted
  twice, as a request or as a reply: two accepted envelopes under one nonce carry different time stamps,
  the later one the later stamp.
\<close>

theorem envelope_accepted_once:
  assumes "(mesh_step lib)\<^sup>*\<^sup>* (new_node lib node_id window started world, []) (node, accepted)"
  shows "sorted_wrt (\<lambda>a b. fst a = fst b \<longrightarrow> snd a < snd b) accepted \<and> distinct accepted"
proof -
  have "mesh_run_ok (node, accepted)" using mesh.run_keeps [OF assms new_node_ok] .
  then have "sorted_wrt (\<lambda>a b. fst a = fst b \<longrightarrow> snd a < snd b) accepted" by (simp add: mesh_run_ok_def nonces_ok_def)
  moreover from this have "distinct accepted" by (induction accepted) force+
  ultimately show ?thesis by simp
qed

text \<open>
  nothing a process accepted is accepted as a request by the next one, although nonces are not kept:
  if the clock of the second process started no earlier than any reading of the first, a request the
  first had accepted is refused by its time stamp.
\<close>

lemma restart_refuses_the_accepted:
  assumes "(mesh_step lib)\<^sup>*\<^sup>* (new_node lib node_id window started world, []) (node, accepted)"
    and "\<And>high. nc_high_water (mn_nonces node) = Some high \<Longrightarrow> high \<le> restarted"
    and "(mesh_step lib)\<^sup>*\<^sup>* (new_node lib node_id window restarted world2, []) (node2, accepted2)"
    and "admit_inbound lib wall file e node2 = (Inr found, node3)"
  shows "(se_nonce e, finite_stamp (se_timestamp e)) \<notin> set accepted"
proof
  assume mem: "(se_nonce e, finite_stamp (se_timestamp e)) \<in> set accepted"
  have kept: "mn_started_at (fst r') = mn_started_at (fst r) \<and> mn_window (fst r') = mn_window (fst r)"
    if "(mesh_step lib)\<^sup>*\<^sup>* r r'" for r r'
    using that
  proof (induction rule: rtranclp_induct)
    case (step r' r'')
    then show ?case using mesh_step_params [of lib r' r''] by simp
  qed simp
  have window: "mn_window node = window" "mn_window node2 = window" "mn_started_at node2 = restarted"
    using kept [OF assms(1)] kept [OF assms(3)] by (simp_all add: new_node_def)
  have "mesh_run_ok (node, accepted)" using mesh.run_keeps [OF assms(1) new_node_ok] .
  with mem window obtain high where "nc_high_water (mn_nonces node) = Some high"
    "finite_stamp (se_timestamp e) \<le> high + window"
    by (auto simp: mesh_run_ok_def nonces_ok_def list_all_iff)
  with assms(2) have "finite_stamp (se_timestamp e) \<le> restarted + window" by fastforce
  with assms(4) window show False
    by (auto simp: admit_inbound_def Let_def split: prod.splits option.splits if_splits)
qed

section \<open>A concrete node\<close>

definition sample_call :: delegation_request where
  "sample_call = sample_request\<lparr>dr_arguments := []\<rparr>"

definition sample_library :: mesh_library where
  "sample_library = \<lparr>ml_decode_peer = (\<lambda>_. Some sample_node), ml_decode_request = (\<lambda>_. Some sample_call),
     ml_decode_response = (\<lambda>_. None), ml_str = json_str, ml_repr = id, ml_digest = (\<lambda>_. ''id''), ml_key_loads = (\<lambda>_. True),
     ml_signed_by = (\<lambda>_ _ _. True)\<rparr>"

definition sample_self :: mesh_node where
  "sample_self = new_node sample_library ''me'' 30000000 0 sample_file"

definition sample_envelope :: signed_envelope where
  "sample_envelope = \<lparr>se_sender_node_id = ''id'', se_recipient_node_id = ''me'', se_nonce = ''n1'',
     se_timestamp = Finite 40000000, se_payload = [], se_signature_b64 = ''AA==''\<rparr>"

definition sample_reads :: inbound_reads where
  "sample_reads = \<lparr>ir_now = 41000000, ir_file = sample_file, ir_policy = sample_clock, ir_heard_at = 41000000,
     ir_heard_file = sample_file, ir_approval_id = ''a1''\<rparr>"

lemma sample_registry:
  "new_registry (\<lambda>_. Some sample_node) (\<lambda>_. ''id'') sample_file =
     \<lparr>pg_signature = Some (1, 2, 3), pg_peers = [(''id'', sample_node)], pg_last_seen = []\<rparr>"
proof -
  have "peers_of (\<lambda>_. Some sample_node) (\<lambda>_. ''id'') (JObj [(''id'', JNull)]) = Some [(''id'', sample_node)]"
    using sample_file_listed by (simp add: listed_def sample_file_def split: option.splits)
  then show ?thesis by (simp add: new_registry_def reload_if_changed_def sample_file_def)
qed

lemma sample_lookup:
  "get_optional (\<lambda>_. Some sample_node) (\<lambda>_. ''id'') sample_file ''id''
     \<lparr>pg_signature = Some (1, 2, 3), pg_peers = [(''id'', sample_node)], pg_last_seen = []\<rparr> =
   (Some sample_node, \<lparr>pg_signature = Some (1, 2, 3), pg_peers = [(''id'', sample_node)], pg_last_seen = []\<rparr>)"
  by (simp add: get_optional_def reload_if_changed_def sample_file_def with_last_seen_def)

lemma sample_admitted:
  "admit_inbound sample_library (ir_now sample_reads) (ir_file sample_reads) sample_envelope sample_self =
     (Inr (sample_node, []),
      sample_self\<lparr>mn_nonces := \<lparr>nc_max = 10000, nc_ttl = Some 30000000, nc_seen = [(''n1'', 40000000)],
        nc_high_water = Some 41000000\<rparr>\<rparr>)"
proof -
  have "verify_envelope sample_library sample_envelope sample_node (Some ''me'') = Inr []"
    by (simp add: verify_envelope_def sample_library_def sample_envelope_def sample_node_def)
  then show ?thesis
    by (simp add: admit_inbound_def sample_self_def new_node_def new_nonce_cache_def NONCE_CACHE_MAX_def sample_library_def
        sample_registry sample_lookup sample_envelope_def sample_reads_def past_high_water_def check_and_record_def)
qed

lemma sample_judged:
  "\<exists>node'. judge_request sample_library sample_reads ''id'' sample_node [] node = (Permitted sample_call sample_grant, node')"
  if "mn_counts node = (\<lambda>_. [])"
proof -
  have "find_grant sample_node (dr_capability sample_call) = Some sample_grant"
    by (simp add: find_grant_def sample_node_def sample_peer_def sample_call_def sample_request_def sample_grant_def
        grant_rank_def has_prefix_def has_suffix_def less_prod_def)
  moreover have "url_arguments (dr_arguments sample_call) = []" by (simp add: sample_call_def url_arguments_def)
  ultimately show ?thesis
    using that by (simp add: judge_request_def sample_library_def policy_evaluate_def check_expires_at_def sample_grant_def
        sample_reads_def sample_clock_def check_rate_limit_def count_invocations_def check_url_allowlist_def)
qed

lemma sample_step:
  "\<exists>node. mesh_step sample_library (sample_self, []) (node, [(''n1'', 40000000)]) \<and>
     nc_high_water (mn_nonces node) = Some 41000000"
proof -
  obtain result node calls where
    r: "receive_inbound sample_library None None sample_reads sample_envelope sample_self = (result, node, calls)"
    using prod_cases3 by blast
  from request_accepted [OF sample_admitted r, of "[]"]
  have "mesh_step sample_library (sample_self, []) (node, [(''n1'', 40000000)])" by (simp add: sample_envelope_def)
  moreover have "nc_high_water (mn_nonces node) = Some 41000000"
    using receive_node [OF r sample_admitted] by simp
  ultimately show ?thesis by blast
qed

theorem envelope_accepted_once_witness:
  "\<exists>node. mesh_step sample_library (sample_self, []) (node, [(''n1'', 40000000)]) \<and> distinct [(''n1'', 40000000 :: int)]"
proof -
  obtain node where step: "mesh_step sample_library (sample_self, []) (node, [(''n1'', 40000000)])"
    using sample_step by blast
  then have "(mesh_step sample_library)\<^sup>*\<^sup>* (new_node sample_library ''me'' 30000000 0 sample_file, []) (node, [(''n1'', 40000000)])"
    by (simp add: sample_self_def r_into_rtranclp)
  from envelope_accepted_once [OF this] step show ?thesis by blast
qed

lemma restart_refuses_the_accepted_witness:
  "\<exists>node3. admit_inbound sample_library 90000000 sample_file (sample_envelope\<lparr>se_timestamp := Finite 89000000\<rparr>)
     (new_node sample_library ''me'' 30000000 50000000 sample_file) = (Inr (sample_node, []), node3) \<and>
   (''n1'', 89000000) \<notin> set [(''n1'', 40000000 :: int)]"
proof -
  obtain node where step: "mesh_step sample_library (sample_self, []) (node, [(''n1'', 40000000)])"
    and high: "nc_high_water (mn_nonces node) = Some 41000000"
    using sample_step by blast
  have run: "(mesh_step sample_library)\<^sup>*\<^sup>* (new_node sample_library ''me'' 30000000 0 sample_file, []) (node, [(''n1'', 40000000)])"
    using step by (simp add: sample_self_def r_into_rtranclp)
  have "verify_envelope sample_library (sample_envelope\<lparr>se_timestamp := Finite 89000000\<rparr>) sample_node (Some ''me'') = Inr []"
    by (simp add: verify_envelope_def sample_library_def sample_envelope_def sample_node_def)
  then obtain node3 where a: "admit_inbound sample_library 90000000 sample_file (sample_envelope\<lparr>se_timestamp := Finite 89000000\<rparr>)
     (new_node sample_library ''me'' 30000000 50000000 sample_file) = (Inr (sample_node, []), node3)"
    by (simp add: admit_inbound_def new_node_def new_nonce_cache_def NONCE_CACHE_MAX_def sample_library_def
        sample_registry sample_lookup sample_envelope_def past_high_water_def check_and_record_def)
  have "\<And>h. nc_high_water (mn_nonces node) = Some h \<Longrightarrow> h \<le> 50000000" using high by simp
  from restart_refuses_the_accepted [OF run this rtranclp.rtrancl_refl a] a show ?thesis
    by (simp add: sample_envelope_def)
qed

section \<open>What a tool call took\<close>

lemma admit_checks:
  assumes "admit_inbound lib wall world e node = (Inr (peer, payload), node1)"
  shows "fst (get_optional (ml_decode_peer lib) (ml_digest lib) world (se_sender_node_id e) (mn_registry node)) = Some peer"
    and "in_timestamp_window (mn_window node) (past_high_water (mn_nonces node) wall) (se_timestamp e)"
    and "mn_started_at node + mn_window node < finite_stamp (se_timestamp e)"
    and "verify_envelope lib e peer (Some (mn_node_id node)) = Inr payload"
    and "mn_counts node1 = mn_counts node"
  using assms by (auto simp: admit_inbound_def Let_def split: prod.splits option.splits if_splits sum.splits bool.splits)

lemma verify_accepts:
  assumes "verify_envelope lib e peer (Some node_id) = Inr payload"
  shows "payload = se_payload e" and "pr_node_id peer = se_sender_node_id e" and "se_recipient_node_id e = node_id"
    and "ml_signed_by lib (pr_pubkey_b64 peer) (se_signature_b64 e) (canonical_bytes e)"
  using assms by (auto simp: verify_envelope_def split: if_splits)

lemma route_tool:
  "route_capability lib have_gateway request = CallTool name arguments session_id \<Longrightarrow>
   dr_capability request = ''tool:'' @ name \<and> arguments = dr_arguments request \<and> session_id = dr_session_id request \<and> have_gateway"
  by (auto simp: route_capability_def Let_def has_prefix_iff split: if_splits)

lemma receive_calls:
  assumes "receive_inbound lib handler gateway reads e node = (result, node', calls)" and "c \<in> set calls"
  obtains peer payload node1 request grant node2 where
    "admit_inbound lib (ir_now reads) (ir_file reads) e node = (Inr (peer, payload), node1)"
    and "judge_request lib reads (se_sender_node_id e) peer payload node1 = (Permitted request grant, node2)"
    and "approval_gate lib handler (ir_approval_id reads) request grant = None"
    and "route_capability lib (gateway \<noteq> None) request = CallTool (fst c) (fst (snd c)) (snd (snd c))"
    and "calls = [c]"
  using assms
  by (auto simp: receive_inbound_def split: prod.splits sum.splits judged.splits option.splits route.splits)

lemma judge_permits:
  assumes "judge_request lib reads sender peer payload node1 = (Permitted request grant, node2)"
  shows "ml_decode_request lib payload = Some request"
    and "\<exists>counts. policy_evaluate peer request (ir_policy reads) (mn_counts node1) = (Inr grant, counts)"
  using assms by (auto simp: judge_request_def split: option.splits prod.splits sum.splits)

lemma evaluate_covers:
  assumes "policy_evaluate peer request clock counts = (Inr g, counts')"
  shows "covers g (dr_capability request)"
proof -
  from assms have "find_grant_from None (-1, -1) (pr_grants peer) (dr_capability request) = Some g"
    by (auto simp: policy_evaluate_def find_grant_def split: option.splits prod.splits)
  from find_grant_from_Some [OF this] show ?thesis using grant_rank_covers by force
qed

text \<open>
  C8: a request makes a tool run at most once, and only when its sender is in the peers file, its
  signature is that peer's over this very envelope, addressed to this node, its stamp is inside the window
  and past the start's, and the peer holds a grant covering the tool; a grant that asks for an approval
  runs nothing while no handler is configured.
\<close>

theorem tool_runs_only_when_authorised:
  assumes "receive_inbound lib handler gateway reads e node = (result, node', calls)"
    and "(name, arguments, session_id) \<in> set calls"
  shows "length calls = 1 \<and> (\<exists>peer request grant.
    fst (get_optional (ml_decode_peer lib) (ml_digest lib) (ir_file reads) (se_sender_node_id e) (mn_registry node)) = Some peer \<and>
    ml_signed_by lib (pr_pubkey_b64 peer) (se_signature_b64 e) (canonical_bytes e) \<and>
    se_recipient_node_id e = mn_node_id node \<and>
    in_timestamp_window (mn_window node) (past_high_water (mn_nonces node) (ir_now reads)) (se_timestamp e) \<and>
    mn_started_at node + mn_window node < finite_stamp (se_timestamp e) \<and>
    ml_decode_request lib (se_payload e) = Some request \<and>
    dr_capability request = ''tool:'' @ name \<and> arguments = dr_arguments request \<and>
    grant \<in> set (pr_grants peer) \<and> covers grant (dr_capability request) \<and>
    (cg_require_approval grant \<longrightarrow> handler \<noteq> None))"
proof -
  obtain peer payload node1 request grant node2 where
    a: "admit_inbound lib (ir_now reads) (ir_file reads) e node = (Inr (peer, payload), node1)"
    and j: "judge_request lib reads (se_sender_node_id e) peer payload node1 = (Permitted request grant, node2)"
    and g: "approval_gate lib handler (ir_approval_id reads) request grant = None"
    and r: "route_capability lib (gateway \<noteq> None) request = CallTool name arguments session_id"
    and c: "calls = [(name, arguments, session_id)]"
    by (rule receive_calls [OF assms, unfolded fst_conv snd_conv])
  note v = verify_accepts [OF admit_checks(4) [OF a]] and p = judge_permits [OF j]
  obtain counts where "policy_evaluate peer request (ir_policy reads) (mn_counts node1) = (Inr grant, counts)" using p by blast
  from evaluate_granted [OF this] evaluate_covers [OF this]
  have "grant \<in> set (pr_grants peer)" "covers grant (dr_capability request)" .
  moreover have "cg_require_approval grant \<longrightarrow> handler \<noteq> None" using g by (cases handler) (simp_all add: approval_gate_def split: if_splits)
  ultimately show ?thesis
    using admit_checks [OF a] v p(1) route_tool [OF r] c by (intro conjI exI [of _ peer] exI [of _ request] exI [of _ grant]) auto
qed

text \<open>
  a tool that asks for an operator's approval makes the whole request fail: the gateway's answer has a
  message and no error, the response's error is that missing value, and no \<open>approval_required\<close> response
  comes of it.
\<close>

lemma approval_over_the_mesh_fails:
  assumes "receive_inbound lib handler gateway reads e node = (result, node', calls)"
    and "(name, arguments, session_id) \<in> set calls"
    and "the gateway name arguments session_id = Some answer"
    and "map_of answer ''status'' = Some (JStr ''approval_required'')" and "map_of answer ''error'' = None"
  shows "result = InboundError ResponseInvalid"
proof -
  obtain peer payload node1 request grant node2 where
    "admit_inbound lib (ir_now reads) (ir_file reads) e node = (Inr (peer, payload), node1)"
    and "judge_request lib reads (se_sender_node_id e) peer payload node1 = (Permitted request grant, node2)"
    and "approval_gate lib handler (ir_approval_id reads) request grant = None"
    and "route_capability lib (gateway \<noteq> None) request = CallTool name arguments session_id"
    by (rule receive_calls [OF assms(1,2), unfolded fst_conv snd_conv])
  moreover have "respond lib request answer = None" using assms(4,5) by (simp add: respond_def make_response_def)
  ultimately show ?thesis using assms(1,3) by (simp add: receive_inbound_def)
qed

lemma sample_received:
  obtains node' where "receive_inbound sample_library None (Some (\<lambda>_ _ _. answer)) sample_reads sample_envelope sample_self =
    (case answer of None \<Rightarrow> GatewayRaised | Some ms \<Rightarrow>
       (case respond sample_library sample_call ms of None \<Rightarrow> InboundError ResponseInvalid | Some r \<Rightarrow> Response r),
     node', [(''go'', [], '''')])"
proof -
  obtain node2 where "judge_request sample_library sample_reads ''id'' sample_node []
      (sample_self\<lparr>mn_nonces := \<lparr>nc_max = 10000, nc_ttl = Some 30000000, nc_seen = [(''n1'', 40000000)],
        nc_high_water = Some 41000000\<rparr>\<rparr>) = (Permitted sample_call sample_grant, node2)"
    using sample_judged [of "sample_self\<lparr>mn_nonces := \<lparr>nc_max = 10000, nc_ttl = Some 30000000,
      nc_seen = [(''n1'', 40000000)], nc_high_water = Some 41000000\<rparr>\<rparr>"] by (auto simp: sample_self_def new_node_def)
  moreover have "se_sender_node_id sample_envelope = ''id''" by (simp add: sample_envelope_def)
  moreover have "approval_gate sample_library None aid sample_call sample_grant = None" for aid
    by (simp add: approval_gate_def sample_grant_def)
  moreover have "route_capability sample_library True sample_call = CallTool ''go'' [] ''''"
    by (simp add: route_capability_def has_prefix_def sample_call_def sample_request_def)
  ultimately show thesis
    by (intro that [of node2]) (simp add: receive_inbound_def sample_admitted split: option.split)
qed

theorem tool_runs_only_when_authorised_witness:
  "\<exists>grant \<in> set (pr_grants sample_node). covers grant ''tool:go''"
proof -
  obtain node' where r: "receive_inbound sample_library None (Some (\<lambda>_ _ _. Some [])) sample_reads sample_envelope sample_self =
    (case Some [] of None \<Rightarrow> GatewayRaised | Some ms \<Rightarrow>
       (case respond sample_library sample_call ms of None \<Rightarrow> InboundError ResponseInvalid | Some r \<Rightarrow> Response r),
     node', [(''go'', [], '''')])"
    by (rule sample_received [of "Some []"])
  from sample_lookup have "fst (get_optional (ml_decode_peer sample_library) (ml_digest sample_library) (ir_file sample_reads)
      (se_sender_node_id sample_envelope) (mn_registry sample_self)) = Some sample_node"
    by (simp add: sample_library_def sample_reads_def sample_envelope_def sample_self_def new_node_def sample_registry)
  with tool_runs_only_when_authorised [OF r, of "''go''" "[]" "''''"] show ?thesis by auto
qed

lemma approval_over_the_mesh_fails_witness:
  "\<exists>node'. receive_inbound sample_library None
     (Some (\<lambda>_ _ _. Some [(''status'', JStr ''approval_required''), (''message'', JStr ''ask''), (''approval_id'', JStr ''ap1'')]))
     sample_reads sample_envelope sample_self = (InboundError ResponseInvalid, node', [(''go'', [], '''')])"
proof -
  let ?answer = "[(''status'', JStr ''approval_required''), (''message'', JStr ''ask''), (''approval_id'', JStr ''ap1'')]"
  obtain node' where r: "receive_inbound sample_library None (Some (\<lambda>_ _ _. Some ?answer)) sample_reads sample_envelope sample_self =
    (case Some ?answer of None \<Rightarrow> GatewayRaised | Some ms \<Rightarrow>
       (case respond sample_library sample_call ms of None \<Rightarrow> InboundError ResponseInvalid | Some r \<Rightarrow> Response r),
     node', [(''go'', [], '''')])"
    by (rule sample_received [of "Some ?answer"])
  from approval_over_the_mesh_fails [OF r, of "''go''" "[]" "''''" ?answer] r show ?thesis by simp
qed

end
