(* ===== verification/WitnessPolicy.thy ===== *)
theory WitnessPolicy
  imports Ownership JsonValues
begin

text \<open>
  What witness.py records and the policy it evaluates: the receipt and its parts, the concerns of a session
  and of an action under its protection mode, what blocks an action, and the redaction of its target.
\<close>

datatype protection_mode = Normal | Confidential

datatype evidence_mode = Standard | Restricted

datatype concern_severity = Info | Warn | High | Critical

datatype action_class =
    ReadClass | WriteClass | UploadClass | PostClass | PaymentClass | AccountChangeClass | DestructiveClass
  | ControlClass | AuthClass

fun class_name :: "action_class \<Rightarrow> string" where
  "class_name ReadClass = ''read''"
| "class_name WriteClass = ''write''"
| "class_name UploadClass = ''upload''"
| "class_name PostClass = ''post''"
| "class_name PaymentClass = ''payment''"
| "class_name AccountChangeClass = ''account_change''"
| "class_name DestructiveClass = ''destructive''"
| "class_name ControlClass = ''control''"
| "class_name AuthClass = ''auth''"

definition HIGH_RISK_CLASSES :: "string list" where
  "HIGH_RISK_CLASSES = [''upload'', ''post'', ''payment'', ''account_change'', ''destructive'', ''auth'']"

record witness_concern =
  wc_code :: string
  wc_severity :: concern_severity
  wc_summary :: string
  wc_enforced :: bool
  wc_details :: members

record witness_approval =
  wa_required :: bool
  wa_approval_id :: "string option"
  wa_status :: "string option"
  wa_reason :: "string option"

record witness_evidence =
  we_before :: "members option"
  we_after :: "members option"
  we_verification :: "members option"
  we_artifacts :: members

record witness_receipt =
  wr_receipt_id :: string
  wr_timestamp :: string
  wr_profile :: protection_mode
  wr_scope :: string
  wr_event_type :: string
  wr_status :: string
  wr_action :: string
  wr_action_class :: action_class
  wr_session_id :: "string option"
  wr_risk_category :: "string option"
  wr_operator :: operator_identity
  wr_approval :: witness_approval
  wr_target :: members
  wr_concerns :: "witness_concern list"
  wr_evidence_mode :: evidence_mode
  wr_evidence :: witness_evidence
  wr_metadata :: members
  wr_chain_prev_hash :: "string option"
  wr_chain_hash :: "string option"
  wr_chain_signature :: "string option"
  wr_signing_key_id :: "string option"

text \<open>\<open>chain_payload\<close>: the hash and the signature fields are left out.\<close>

definition chain_payload :: "witness_receipt \<Rightarrow> witness_receipt" where
  "chain_payload r = r\<lparr>wr_chain_hash := None, wr_chain_signature := None, wr_signing_key_id := None\<rparr>"

record witness_session =
  ws_session_id :: string
  ws_profile :: protection_mode
  ws_isolation_mode :: string
  ws_shared_takeover_surface :: bool
  ws_shared_browser_process :: bool
  ws_auth_state_encrypted :: bool
  ws_operator :: operator_identity

record witness_action =
  wx_action :: string
  wx_action_class :: action_class
  wx_risk_category :: "string option"
  wx_target :: members
  wx_approval_id :: "string option"
  wx_approval_status :: "string option"
  wx_sensitive_input :: bool
  wx_stores_auth_material :: bool
  wx_runtime_requires_approval :: bool

definition is_high_risk :: "witness_action \<Rightarrow> bool" where
  "is_high_risk a \<longleftrightarrow> class_name (wx_action_class a) \<in> set HIGH_RISK_CLASSES \<or>
     the_default [] (wx_risk_category a) \<in> set HIGH_RISK_CLASSES"

record policy_outcome =
  po_profile :: protection_mode
  po_evidence_mode :: evidence_mode
  po_concerns :: "witness_concern list"
  po_require_approval :: bool
  po_should_block :: bool
  po_block_reason :: "string option"

definition new_outcome :: "protection_mode \<Rightarrow> policy_outcome" where
  "new_outcome profile = \<lparr>po_profile = profile, po_evidence_mode = Standard, po_concerns = [], po_require_approval = False,
     po_should_block = False, po_block_reason = None\<rparr>"

definition concern :: "string \<Rightarrow> concern_severity \<Rightarrow> string \<Rightarrow> bool \<Rightarrow> witness_concern" where
  "concern code severity summary enforced =
     \<lparr>wc_code = code, wc_severity = severity, wc_summary = summary, wc_enforced = enforced, wc_details = []\<rparr>"

definition add_concern :: "bool \<Rightarrow> witness_concern \<Rightarrow> policy_outcome \<Rightarrow> policy_outcome" where
  "add_concern applies c p = (if applies then p\<lparr>po_concerns := po_concerns p @ [c]\<rparr> else p)"

definition block_for :: "bool \<Rightarrow> witness_concern \<Rightarrow> string \<Rightarrow> policy_outcome \<Rightarrow> policy_outcome" where
  "block_for applies c reason p =
     (if applies then p\<lparr>po_concerns := po_concerns p @ [c], po_should_block := True, po_block_reason := Some reason\<rparr>
      else p)"

definition evaluate_session :: "witness_session \<Rightarrow> policy_outcome" where
  "evaluate_session session =
     (if ws_profile session = Confidential then
        add_concern (ws_shared_browser_process session)
          (concern ''shared_browser_process'' High ''Confidential sessions should avoid a shared browser process.'' False)
          (add_concern (ws_shared_takeover_surface session)
            (concern ''shared_takeover_surface'' High ''Confidential sessions should avoid a shared takeover surface.'' False)
            ((new_outcome (ws_profile session))\<lparr>po_evidence_mode := Restricted\<rparr>))
      else
        add_concern (\<not> ws_auth_state_encrypted session)
          (concern ''auth_state_unencrypted'' Warn
            ''Auth state is not encrypted; Witness will track this as an operational concern.'' False)
          (new_outcome (ws_profile session)))"

definition is_anonymous :: "operator_identity \<Rightarrow> bool" where
  "is_anonymous op \<longleftrightarrow> py_strip (if op_id op = [] then ''anonymous'' else op_id op) \<in> {[], ''anonymous''}"

definition evaluate_action :: "witness_session \<Rightarrow> witness_action \<Rightarrow> policy_outcome" where
  "evaluate_action session a =
     (let normal = ws_profile session = Normal; risky = is_high_risk a; unnamed = is_anonymous (ws_operator session);
          mode = (if wx_sensitive_input a \<or> wx_stores_auth_material a \<or> risky then Restricted
                  else po_evidence_mode (evaluate_session session));
          p0 = (new_outcome (ws_profile session))\<lparr>po_evidence_mode := mode\<rparr>;
          p1 = add_concern (wx_sensitive_input a)
                 (concern ''sensitive_input'' (if normal then Warn else High)
                   ''Sensitive input was used; receipt evidence is restricted.'' False) p0;
          p2 = add_concern (wx_stores_auth_material a)
                 (concern ''auth_material_handling'' (if normal then Warn else High)
                   ''This action stores or moves authentication material.'' False) p1;
          p3 = (if wx_runtime_requires_approval a then p2\<lparr>po_require_approval := True\<rparr> else p2)
      in if normal then
           add_concern (risky \<and> ws_shared_takeover_surface session)
             (concern ''shared_takeover_surface'' Warn ''High-risk action ran on a shared takeover surface.'' False)
             (add_concern (risky \<and> unnamed)
               (concern ''operator_missing'' Warn ''High-risk action ran without a named operator identity.'' False) p3)
         else
           let p4 = (if risky then p3\<lparr>po_require_approval := True\<rparr> else p3);
               p5 = block_for (risky \<and> unnamed)
                      (concern ''operator_missing'' Critical
                        ''Confidential high-risk action requires a named operator identity.'' True)
                      ''Confidential high-risk actions require a named operator identity.'' p4;
               p6 = block_for (risky \<and> ws_shared_takeover_surface session)
                      (concern ''shared_takeover_surface'' Critical
                        ''Confidential high-risk action cannot run on a shared takeover surface.'' True)
                      ''Confidential high-risk actions require an isolated takeover surface.'' p5;
               p7 = block_for (risky \<and> ws_shared_browser_process session)
                      (concern ''shared_browser_process'' Critical
                        ''Confidential high-risk action cannot run in a shared browser process.'' True)
                      ''Confidential high-risk actions require isolated browser execution.'' p6
           in block_for (wx_stores_auth_material a \<and> \<not> ws_auth_state_encrypted session)
                (concern ''auth_state_unencrypted'' Critical
                  ''Confidential auth material handling requires encrypted auth state.'' True)
                ''Confidential auth material handling requires encrypted auth state.'' p7)"

definition SECRET_KEYS :: "string list" where
  "SECRET_KEYS = [''text'', ''text_preview'', ''file_path'', ''password'', ''totp_secret'']"

definition CHOICE_KEYS :: "string list" where
  "CHOICE_KEYS = [''value'', ''label'', ''index'']"

definition redact_target :: "members \<Rightarrow> evidence_mode \<Rightarrow> members" where
  "redact_target target mode =
     (if mode \<noteq> Restricted then target
      else map (\<lambda>(key, v). (key, if key \<in> set SECRET_KEYS \<or> (key \<in> set CHOICE_KEYS \<and> v \<noteq> JNull) then JStr ''[REDACTED]'' else v))
             target)"

lemma outcome_fields [simp]:
  "po_should_block (add_concern applies c p) = po_should_block p"
  "po_evidence_mode (add_concern applies c p) = po_evidence_mode p"
  "po_require_approval (add_concern applies c p) = po_require_approval p"
  "po_should_block (block_for applies c reason p) = (applies \<or> po_should_block p)"
  "po_evidence_mode (block_for applies c reason p) = po_evidence_mode p"
  "po_require_approval (block_for applies c reason p) = po_require_approval p"
  by (simp_all add: add_concern_def block_for_def)

text \<open>
  an action is blocked exactly in a confidential session when it is high-risk and its operator is
  unnamed or its browser or takeover surface shared, or when it stores auth material unencrypted; whatever
  is sensitive, high-risk or confidential is recorded with its secrets redacted; and a high-risk
  confidential action always asks for an approval.
\<close>

lemma confidential_blocks:
  "(po_should_block (evaluate_action session a) \<longleftrightarrow>
      ws_profile session = Confidential \<and>
      (is_high_risk a \<and> (is_anonymous (ws_operator session) \<or> ws_shared_takeover_surface session \<or>
         ws_shared_browser_process session) \<or>
       wx_stores_auth_material a \<and> \<not> ws_auth_state_encrypted session)) \<and>
   (po_evidence_mode (evaluate_action session a) = Restricted \<longleftrightarrow>
      ws_profile session = Confidential \<or> wx_sensitive_input a \<or> wx_stores_auth_material a \<or> is_high_risk a) \<and>
   (po_require_approval (evaluate_action session a) \<longleftrightarrow>
      wx_runtime_requires_approval a \<or> ws_profile session = Confidential \<and> is_high_risk a) \<and>
   (\<forall>key \<in> set SECRET_KEYS. map_of (redact_target target (po_evidence_mode (evaluate_action session a))) key =
      (if po_evidence_mode (evaluate_action session a) = Restricted
       then map_option (\<lambda>_. JStr ''[REDACTED]'') (map_of target key) else map_of target key))"
proof -
  have redacted: "map_of (redact_target t Restricted) key = map_option (\<lambda>_. JStr ''[REDACTED]'') (map_of t key)"
    if "key \<in> set SECRET_KEYS" for t key
    using that by (induction t) (auto simp: redact_target_def)
  have mode: "po_evidence_mode (evaluate_action session a) = Restricted \<longleftrightarrow>
      ws_profile session = Confidential \<or> wx_sensitive_input a \<or> wx_stores_auth_material a \<or> is_high_risk a"
    by (cases "ws_profile session") (simp_all add: evaluate_action_def Let_def evaluate_session_def new_outcome_def)
  have block: "po_should_block (evaluate_action session a) \<longleftrightarrow>
      ws_profile session = Confidential \<and>
      (is_high_risk a \<and> (is_anonymous (ws_operator session) \<or> ws_shared_takeover_surface session \<or>
         ws_shared_browser_process session) \<or>
       wx_stores_auth_material a \<and> \<not> ws_auth_state_encrypted session)"
    by (cases "ws_profile session") (auto simp: evaluate_action_def Let_def new_outcome_def)
  have approval: "po_require_approval (evaluate_action session a) \<longleftrightarrow>
      wx_runtime_requires_approval a \<or> ws_profile session = Confidential \<and> is_high_risk a"
    by (cases "ws_profile session") (auto simp: evaluate_action_def Let_def new_outcome_def)
  have "map_of (redact_target target (po_evidence_mode (evaluate_action session a))) key =
      (if po_evidence_mode (evaluate_action session a) = Restricted
       then map_option (\<lambda>_. JStr ''[REDACTED]'') (map_of target key) else map_of target key)"
    if "key \<in> set SECRET_KEYS" for key
    using redacted [OF that] by (cases "po_evidence_mode (evaluate_action session a)") (simp_all add: redact_target_def)
  with mode block approval show ?thesis by blast
qed

lemma confidential_blocks_witness:
  "po_should_block (evaluate_action
     \<lparr>ws_session_id = ''s'', ws_profile = Confidential, ws_isolation_mode = ''shared_browser_node'',
       ws_shared_takeover_surface = True, ws_shared_browser_process = True, ws_auth_state_encrypted = True,
       ws_operator = ANONYMOUS\<lparr>op_id := ''ann''\<rparr>\<rparr>
     \<lparr>wx_action = ''upload'', wx_action_class = UploadClass, wx_risk_category = None, wx_target = [], wx_approval_id = None,
       wx_approval_status = None, wx_sensitive_input = False, wx_stores_auth_material = False,
       wx_runtime_requires_approval = False\<rparr>)"
  using confidential_blocks [of "\<lparr>ws_session_id = ''s'', ws_profile = Confidential, ws_isolation_mode = ''shared_browser_node'',
       ws_shared_takeover_surface = True, ws_shared_browser_process = True, ws_auth_state_encrypted = True,
       ws_operator = ANONYMOUS\<lparr>op_id := ''ann''\<rparr>\<rparr>"
     "\<lparr>wx_action = ''upload'', wx_action_class = UploadClass, wx_risk_category = None, wx_target = [], wx_approval_id = None,
       wx_approval_status = None, wx_sensitive_input = False, wx_stores_auth_material = False,
       wx_runtime_requires_approval = False\<rparr>" "[]"]
  by (simp add: is_high_risk_def HIGH_RISK_CLASSES_def)

end
