(* ===== verification/WitnessChain.thy ===== *)
theory WitnessChain
  imports WitnessPolicy UrlText
begin

text \<open>
  The receipt chains (witness.py, witness_anchor.py, witness_signing.py): reading a chain file, appending
  under the lock, the anchor beside it, verifying hashes and signatures. A chain file is what its readers
  see of it: its newline-ended records, each a receipt or not, and what follows the last newline. The
  SHA-256 over the previous hash and the canonical JSON of a payload is the parameter \<open>digest\<close>; the
  node's key, \<open>sign\<close> (None: it raised), and the check of a signature are parameters too.
\<close>

section \<open>Records in the bytes of a file\<close>

definition byte_space :: "char \<Rightarrow> bool" where
  "byte_space c \<longleftrightarrow> of_char c \<in> {9, 10, 11, 12, 13, 32 :: nat}"

definition newline :: char where
  "newline = char_of (10 :: nat)"

definition chain_records :: "string \<Rightarrow> string list" where
  "chain_records data = filter (\<lambda>r. r \<noteq> []) (map (strip_chars byte_space) (split_on newline data))"

definition TAIL_READ_BYTES :: nat where
  "TAIL_READ_BYTES = 64 * 1024"

text \<open>The last record, from a window at the end of the file where that is enough.\<close>

definition read_tail_line :: "nat \<Rightarrow> string \<Rightarrow> string option" where
  "read_tail_line window data =
     (let start = length data - window;
          lines = chain_records (drop start data);
          lines = (if 0 < start \<and> length lines \<le> 1 then chain_records data else lines)
      in if lines = [] then None else Some (last lines))"

section \<open>A chain file\<close>

datatype chain_line = Parses witness_receipt | Unparseable string

record chain_file =
  cf_records :: "chain_line list"
  cf_tail :: "chain_line option"

definition empty_file :: chain_file where
  "empty_file = \<lparr>cf_records = [], cf_tail = None\<rparr>"

definition file_lines :: "chain_file \<Rightarrow> chain_line list" where
  "file_lines f = cf_records f @ (case cf_tail f of None \<Rightarrow> [] | Some l \<Rightarrow> [l])"

fun line_receipt :: "chain_line \<Rightarrow> witness_receipt option" where
  "line_receipt (Parses r) = Some r"
| "line_receipt (Unparseable _) = None"

text \<open>The file that bytes are, through pydantic's parsing of a record.\<close>

definition view_line :: "(string \<Rightarrow> witness_receipt option) \<Rightarrow> string \<Rightarrow> chain_line" where
  "view_line parse record_text = (case parse record_text of None \<Rightarrow> Unparseable record_text | Some r \<Rightarrow> Parses r)"

definition view_file :: "(string \<Rightarrow> witness_receipt option) \<Rightarrow> string \<Rightarrow> chain_file" where
  "view_file parse data =
     (let segments = map (strip_chars byte_space) (split_on newline data)
      in \<lparr>cf_records = map (view_line parse) (filter (\<lambda>r. r \<noteq> []) (butlast segments)),
          cf_tail = (if last segments = [] then None else Some (view_line parse (last segments)))\<rparr>)"

record receipt_list =
  rl_receipts :: "witness_receipt list"
  rl_unparseable_lines :: nat
  rl_torn_tail :: bool

definition no_receipts :: receipt_list where
  "no_receipts = \<lparr>rl_receipts = [], rl_unparseable_lines = 0, rl_torn_tail = False\<rparr>"

definition parse_receipts :: "chain_line list \<Rightarrow> receipt_list" where
  "parse_receipts lines =
     \<lparr>rl_receipts = List.map_filter line_receipt lines,
      rl_unparseable_lines = length (filter (\<lambda>l. line_receipt l = None) lines), rl_torn_tail = False\<rparr>"

text \<open>The lines without a torn tail, and whether there was one.\<close>

definition chain_lines :: "chain_file \<Rightarrow> chain_line list \<times> bool" where
  "chain_lines f =
     (case cf_tail f of Some (Unparseable _) \<Rightarrow> (cf_records f, True) | _ \<Rightarrow> (file_lines f, False))"

definition list_receipts :: "chain_file option \<Rightarrow> int \<Rightarrow> receipt_list" where
  "list_receipts f limit =
     (case f of
        None \<Rightarrow> no_receipts
      | Some g \<Rightarrow>
          if limit \<le> 0 then no_receipts
          else
            let lines = fst (chain_lines g);
                items = parse_receipts (drop (length lines - nat limit) lines)
            in items\<lparr>rl_receipts := rev (rl_receipts items)\<rparr>)"

definition read_all :: "chain_file option \<Rightarrow> receipt_list" where
  "read_all f =
     (case f of None \<Rightarrow> no_receipts
      | Some g \<Rightarrow> (case chain_lines g of (lines, torn) \<Rightarrow> (parse_receipts lines)\<lparr>rl_torn_tail := torn\<rparr>))"

section \<open>The anchor\<close>

text \<open>An anchor file: not an object with the two fields of their types, or the fields.\<close>

datatype anchor_file = Malformed | Anchored string int

definition anchor_fields :: "anchor_file option \<Rightarrow> (string \<times> int) option" where
  "anchor_fields a =
     (case a of Some (Anchored head count) \<Rightarrow> if head = [] \<or> count < 1 then None else Some (head, count) | _ \<Rightarrow> None)"

datatype anchor_status = AnchorOk | AnchorMissing | AnchorUnreadable | Truncated | Diverged

record anchor_verdict =
  av_status :: anchor_status
  av_expected_head_hash :: "string option"
  av_expected_receipt_count :: "int option"

definition verdict :: "anchor_status \<Rightarrow> (string \<times> int) option \<Rightarrow> anchor_verdict" where
  "verdict status expected =
     \<lparr>av_status = status, av_expected_head_hash = map_option fst expected, av_expected_receipt_count = map_option snd expected\<rparr>"

definition compare_to_anchor :: "anchor_file option \<Rightarrow> string option \<Rightarrow> int \<Rightarrow> anchor_verdict" where
  "compare_to_anchor a head_hash receipt_count =
     (if a = None then verdict AnchorMissing None
      else case anchor_fields a of
        None \<Rightarrow> verdict AnchorUnreadable None
      | Some (head, count) \<Rightarrow>
          if receipt_count < count then verdict Truncated (Some (head, count))
          else if head_hash \<noteq> Some head \<or> receipt_count \<noteq> count then verdict Diverged (Some (head, count))
          else verdict AnchorOk (Some (head, count)))"

section \<open>Appending\<close>

text \<open>A scope: its chain file, its anchor, and the torn tails set aside beside it.\<close>

record chain_scope =
  sc_file :: "chain_file option"
  sc_anchor :: "anchor_file option"
  sc_torn :: "string list"

definition empty_scope :: chain_scope where
  "empty_scope = \<lparr>sc_file = None, sc_anchor = None, sc_torn = []\<rparr>"

definition has_evidence :: "chain_scope \<Rightarrow> bool" where
  "has_evidence s \<longleftrightarrow> sc_file s \<noteq> None \<or> sc_anchor s \<noteq> None"

definition opened :: "chain_scope \<Rightarrow> chain_file" where
  "opened s = (case sc_file s of None \<Rightarrow> empty_file | Some f \<Rightarrow> f)"

text \<open>\<open>_set_aside_torn_tail\<close>: a tail that is a receipt is ended with its newline, any other moved away.\<close>

definition set_aside_torn_tail :: "chain_scope \<Rightarrow> chain_scope" where
  "set_aside_torn_tail s =
     (let f = opened s in
      case cf_tail f of
        None \<Rightarrow> s\<lparr>sc_file := Some f\<rparr>
      | Some (Parses r) \<Rightarrow> s\<lparr>sc_file := Some \<lparr>cf_records = cf_records f @ [Parses r], cf_tail = None\<rparr>\<rparr>
      | Some (Unparseable t) \<Rightarrow>
          s\<lparr>sc_file := Some \<lparr>cf_records = cf_records f, cf_tail = None\<rparr>, sc_torn := sc_torn s @ [t]\<rparr>)"

definition compute_hash :: "(string \<Rightarrow> witness_receipt \<Rightarrow> string) \<Rightarrow> witness_receipt \<Rightarrow> string" where
  "compute_hash digest r = digest (the_default [] (wr_chain_prev_hash r)) (chain_payload r)"

definition chain_hash_of :: "chain_line \<Rightarrow> string option" where
  "chain_hash_of l = (case line_receipt l of None \<Rightarrow> None | Some r \<Rightarrow> wr_chain_hash r)"

definition next_anchor_count :: "anchor_file option \<Rightarrow> chain_line list \<Rightarrow> string option \<Rightarrow> int option" where
  "next_anchor_count a records previous_hash =
     (if previous_hash = None then (if a = None then Some 1 else None)
      else case anchor_fields a of
        None \<Rightarrow> None
      | Some (head, count) \<Rightarrow>
          if Some head = previous_hash then Some (count + 1)
          else if count \<le> int (length records) \<and> chain_hash_of (records ! nat (count - 1)) = Some head
          then Some (int (length records) + 1)
          else None)"

text \<open>
  What an append's writes come to: all done, a part of the record that does not parse, the record without
  its newline, or the record without the anchor. All but the first raise.
\<close>

datatype append_fault = NoFault | ShortWrite string | NewlineLost | AnchorLost

datatype append_error = HeadUnparseable | WriteRaised

record witness_signer =
  sg_key_id :: string
  sg_sign :: "string \<Rightarrow> string option"

definition signed_receipt :: "witness_signer option \<Rightarrow> witness_receipt \<Rightarrow> witness_receipt" where
  "signed_receipt signer r =
     (case signer of
        None \<Rightarrow> r
      | Some k \<Rightarrow>
        (case sg_sign k (the_default [] (wr_chain_hash r)) of
           None \<Rightarrow> r
         | Some signature \<Rightarrow> r\<lparr>wr_chain_signature := Some signature, wr_signing_key_id := Some (sg_key_id k)\<rparr>))"

definition chained_receipt ::
  "(string \<Rightarrow> witness_receipt \<Rightarrow> string) \<Rightarrow> witness_signer option \<Rightarrow> string option \<Rightarrow> witness_receipt \<Rightarrow> witness_receipt" where
  "chained_receipt digest signer prev item =
     (let linked = item\<lparr>wr_chain_prev_hash := prev\<rparr>
      in signed_receipt signer (linked\<lparr>wr_chain_hash := Some (compute_hash digest linked)\<rparr>))"

fun written_tail :: "append_fault \<Rightarrow> witness_receipt \<Rightarrow> chain_line list \<times> chain_line option" where
  "written_tail (ShortWrite t) r = ([], if t = [] then None else Some (Unparseable t))"
| "written_tail NewlineLost r = ([], Some (Parses r))"
| "written_tail _ r = ([Parses r], None)"

definition append_locked ::
  "(string \<Rightarrow> witness_receipt \<Rightarrow> string) \<Rightarrow> witness_signer option \<Rightarrow> append_fault \<Rightarrow> witness_receipt \<Rightarrow> chain_scope \<Rightarrow>
   (append_error + witness_receipt) \<times> chain_scope" where
  "append_locked digest signer fault item s =
     (let s1 = set_aside_torn_tail s;
          records = cf_records (opened s1)
      in if records \<noteq> [] \<and> line_receipt (last records) = None then (Inl HeadUnparseable, s1)
         else
           let prev = (if records = [] then None else chain_hash_of (last records));
               anchored_count = next_anchor_count (sc_anchor s1) records prev;
               r = chained_receipt digest signer prev item;
               (added, tail) = written_tail fault r;
               s2 = s1\<lparr>sc_file := Some \<lparr>cf_records = records @ added, cf_tail = tail\<rparr>\<rparr>
           in if fault \<noteq> NoFault \<and> (fault \<noteq> AnchorLost \<or> anchored_count \<noteq> None) then (Inl WriteRaised, s2)
              else (Inr r,
                case anchored_count of
                  None \<Rightarrow> s2
                | Some count \<Rightarrow> s2\<lparr>sc_anchor := Some (Anchored (the_default [] (wr_chain_hash r)) count)\<rparr>))"

text \<open>\<open>append\<close>: the receipt is put in its scope (8-bit texts hold no lone surrogate to replace).\<close>

definition append_receipt ::
  "(string \<Rightarrow> witness_receipt \<Rightarrow> string) \<Rightarrow> witness_signer option \<Rightarrow> append_fault \<Rightarrow> string \<Rightarrow> witness_receipt \<Rightarrow> chain_scope \<Rightarrow>
   (append_error + witness_receipt) \<times> chain_scope" where
  "append_receipt digest signer fault scope receipt s =
     append_locked digest signer fault (receipt\<lparr>wr_scope := scope\<rparr>) s"

section \<open>Chains from before there were anchors\<close>

definition anchor_chain :: "chain_scope \<Rightarrow> chain_scope option" where
  "anchor_chain s =
     (if sc_anchor s \<noteq> None then Some s
      else
        let s1 = set_aside_torn_tail s; records = cf_records (opened s1) in
        if records = [] then Some s1
        else case line_receipt (last records) of
          None \<Rightarrow> None
        | Some r \<Rightarrow> Some (s1\<lparr>sc_anchor := Some (case wr_chain_hash r of
            None \<Rightarrow> Malformed | Some h \<Rightarrow> Anchored h (int (length records)))\<rparr>))"

text \<open>The scopes under a root, and the marker of the migration. A chain that cannot be anchored is left.\<close>

record witness_root =
  wt_scopes :: "(string \<times> chain_scope) list"
  wt_migrated :: bool

definition anchor_legacy_chains :: "witness_root \<Rightarrow> witness_root" where
  "anchor_legacy_chains w =
     (if wt_migrated w then w
      else w\<lparr>wt_scopes := map (\<lambda>(name, s). (name,
               if sc_file s = None \<or> sc_anchor s \<noteq> None then s
               else the_default (set_aside_torn_tail s) (anchor_chain s))) (wt_scopes w),
             wt_migrated := True\<rparr>)"

end
