(* ===== verification/WitnessVerify.thy ===== *)
theory WitnessVerify
  imports WitnessChain
begin

text \<open>
  Verifying a chain (witness.py: verify, verify_signatures, verify_with_signatures, export_bundle).
\<close>

datatype verify_reason =
    NotParseable | PrevHashMismatch | HashMismatch | NoReceipts | AnchorReason anchor_status
  | NoPublicKey | SignatureRemoved | SignatureInvalid | NothingSigned | SignatureReason verify_reason

record verify_result =
  vr_valid :: bool
  vr_receipt_count :: nat
  vr_head_hash :: "string option"
  vr_signed_count :: nat
  vr_unsigned_count :: nat
  vr_first_invalid_index :: "nat option"
  vr_first_invalid_receipt_id :: "string option"
  vr_reason :: "verify_reason option"
  vr_anchor :: "anchor_verdict option"

definition new_result :: verify_result where
  "new_result = \<lparr>vr_valid = True, vr_receipt_count = 0, vr_head_hash = None, vr_signed_count = 0, vr_unsigned_count = 0,
     vr_first_invalid_index = None, vr_first_invalid_receipt_id = None, vr_reason = None, vr_anchor = None\<rparr>"

definition verify_failure :: "verify_result \<Rightarrow> nat option \<Rightarrow> string option \<Rightarrow> verify_reason \<Rightarrow> verify_result" where
  "verify_failure result index receipt_id reason =
     result\<lparr>vr_valid := False, vr_first_invalid_index := index, vr_first_invalid_receipt_id := receipt_id,
            vr_reason := Some reason\<rparr>"

text \<open>The walk over the lines; it stops at the first failure.\<close>

fun verify_walk ::
  "(string \<Rightarrow> witness_receipt \<Rightarrow> string) \<Rightarrow> nat \<Rightarrow> string option \<Rightarrow> chain_line list \<Rightarrow> verify_result \<Rightarrow> verify_result" where
  "verify_walk digest index previous [] result = result"
| "verify_walk digest index previous (line # lines) result =
     (case line_receipt line of
        None \<Rightarrow> verify_failure result (Some index) None NotParseable
      | Some r \<Rightarrow>
          if wr_chain_prev_hash r \<noteq> previous then
            verify_failure result (Some index) (Some (wr_receipt_id r)) PrevHashMismatch
          else if Some (compute_hash digest r) \<noteq> wr_chain_hash r then
            verify_failure result (Some index) (Some (wr_receipt_id r)) HashMismatch
          else
            verify_walk digest (Suc index) (wr_chain_hash r) lines
              (let counted = result\<lparr>vr_receipt_count := Suc index, vr_head_hash := wr_chain_hash r\<rparr>
               in if truthy (wr_chain_signature r) then counted\<lparr>vr_signed_count := Suc (vr_signed_count counted)\<rparr>
                  else counted\<lparr>vr_unsigned_count := Suc (vr_unsigned_count counted)\<rparr>))"

definition verify_chain :: "(string \<Rightarrow> witness_receipt \<Rightarrow> string) \<Rightarrow> chain_scope \<Rightarrow> verify_result" where
  "verify_chain digest s =
     (let lines = (case sc_file s of None \<Rightarrow> [] | Some f \<Rightarrow> file_lines f);
          walked = verify_walk digest 0 None lines new_result
      in if \<not> vr_valid walked then walked
         else
           let anchor = compare_to_anchor (sc_anchor s) (vr_head_hash walked) (int (vr_receipt_count walked));
               result = walked\<lparr>vr_anchor := Some anchor\<rparr>
           in if av_status anchor \<in> {Truncated, Diverged} then verify_failure result None None (AnchorReason (av_status anchor))
              else if vr_receipt_count result = 0 then verify_failure result None None NoReceipts
              else if av_status anchor \<noteq> AnchorOk then verify_failure result None None (AnchorReason (av_status anchor))
              else result)"

record signature_result =
  sr_valid :: bool
  sr_checked :: nat
  sr_signed :: nat
  sr_unsigned :: nat
  sr_public_key_b64 :: "string option"
  sr_first_invalid_index :: "nat option"
  sr_first_invalid_receipt_id :: "string option"
  sr_reason :: "verify_reason option"

definition signature_failure :: "signature_result \<Rightarrow> nat \<Rightarrow> string option \<Rightarrow> verify_reason \<Rightarrow> signature_result" where
  "signature_failure result index receipt_id reason =
     result\<lparr>sr_valid := False, sr_first_invalid_index := Some index, sr_first_invalid_receipt_id := receipt_id,
            sr_reason := Some reason\<rparr>"

fun signature_walk ::
  "(string \<Rightarrow> string \<Rightarrow> bool) \<Rightarrow> nat \<Rightarrow> chain_line list \<Rightarrow> signature_result \<Rightarrow> signature_result" where
  "signature_walk verified index [] result = result"
| "signature_walk verified index (line # lines) result =
     (case line_receipt line of
        None \<Rightarrow> signature_failure result index None NotParseable
      | Some r \<Rightarrow>
          let result1 = result\<lparr>sr_checked := Suc index\<rparr> in
          if \<not> truthy (wr_chain_signature r) then
            (let result2 = result1\<lparr>sr_unsigned := Suc (sr_unsigned result1)\<rparr> in
             if 0 < sr_signed result2 then signature_failure result2 index (Some (wr_receipt_id r)) SignatureRemoved
             else signature_walk verified (Suc index) lines result2)
          else if \<not> verified (the_default [] (wr_chain_hash r)) (the (wr_chain_signature r)) then
            signature_failure result1 index (Some (wr_receipt_id r)) SignatureInvalid
          else signature_walk verified (Suc index) lines (result1\<lparr>sr_signed := Suc (sr_signed result1)\<rparr>))"

text \<open>\<open>verify_signature\<close> is the parameter \<open>signature_holds\<close> of a key, a hash and a signature.\<close>

definition verify_signatures ::
  "(string \<Rightarrow> string \<Rightarrow> string \<Rightarrow> bool) \<Rightarrow> string option \<Rightarrow> chain_scope \<Rightarrow> signature_result" where
  "verify_signatures signature_holds public_key s =
     (let result = \<lparr>sr_valid = True, sr_checked = 0, sr_signed = 0, sr_unsigned = 0, sr_public_key_b64 = public_key,
                    sr_first_invalid_index = None, sr_first_invalid_receipt_id = None, sr_reason = None\<rparr>
      in case public_key of
           None \<Rightarrow> result\<lparr>sr_valid := False, sr_reason := Some NoPublicKey\<rparr>
         | Some key \<Rightarrow>
           (case sc_file s of
              None \<Rightarrow> result
            | Some f \<Rightarrow>
                let walked = signature_walk (signature_holds key) 0 (file_lines f) result in
                if sr_valid walked \<and> 0 < sr_checked walked \<and> sr_signed walked = 0
                then walked\<lparr>sr_valid := False, sr_reason := Some NothingSigned\<rparr> else walked))"

definition verify_with_signatures ::
  "(string \<Rightarrow> witness_receipt \<Rightarrow> string) \<Rightarrow> (string \<Rightarrow> string \<Rightarrow> string \<Rightarrow> bool) \<Rightarrow> string option \<Rightarrow> chain_scope \<Rightarrow>
   verify_result \<times> bool \<times> signature_result" where
  "verify_with_signatures digest signature_holds public_key s =
     (let chain = verify_chain digest s; signatures = verify_signatures signature_holds public_key s in
      (if vr_valid chain \<and> \<not> sr_valid signatures
       then chain\<lparr>vr_valid := False, vr_reason := map_option SignatureReason (sr_reason signatures)\<rparr> else chain,
       vr_valid chain, signatures))"

record witness_bundle =
  wb_scope :: string
  wb_exported_at :: string
  wb_signing_key_id :: "string option"
  wb_public_key_b64 :: "string option"
  wb_receipt_count :: nat
  wb_unparseable_lines :: nat
  wb_torn_tail :: bool
  wb_head_hash :: "string option"
  wb_chain_valid_at_export :: bool
  wb_chain_reason_at_export :: "verify_reason option"
  wb_chain_anchor_status_at_export :: "anchor_status option"
  wb_receipts :: "witness_receipt list"

definition export_bundle ::
  "(string \<Rightarrow> witness_receipt \<Rightarrow> string) \<Rightarrow> (string \<times> string) option \<Rightarrow> string \<Rightarrow> string \<Rightarrow> chain_scope \<Rightarrow> witness_bundle" where
  "export_bundle digest signer now scope s =
     (let receipts = read_all (sc_file s); chain = verify_chain digest s in
      \<lparr>wb_scope = scope, wb_exported_at = now, wb_signing_key_id = map_option fst signer,
       wb_public_key_b64 = map_option snd signer, wb_receipt_count = length (rl_receipts receipts),
       wb_unparseable_lines = rl_unparseable_lines receipts, wb_torn_tail = rl_torn_tail receipts,
       wb_head_hash = (if 0 < rl_unparseable_lines receipts then None else vr_head_hash chain),
       wb_chain_valid_at_export = vr_valid chain, wb_chain_reason_at_export = vr_reason chain,
       wb_chain_anchor_status_at_export = map_option av_status (vr_anchor chain), wb_receipts = rl_receipts receipts\<rparr>)"

end
