(* ===== verification/WitnessHistory.thy ===== *)
theory WitnessHistory
  imports WitnessVerify
begin

text \<open>
  What verifying a chain means over its whole history: which chains verify, that a verified one cannot have
  been altered, that crashes lose no recorded receipt, and that a chain cut short stays invalid.
\<close>

section \<open>What the walks decide\<close>

fun chained :: "(string \<Rightarrow> witness_receipt \<Rightarrow> string) \<Rightarrow> string option \<Rightarrow> chain_line list \<Rightarrow> bool" where
  "chained digest previous [] = True"
| "chained digest previous (line # lines) =
     (case line_receipt line of
        None \<Rightarrow> False
      | Some r \<Rightarrow> wr_chain_prev_hash r = previous \<and> wr_chain_hash r = Some (compute_hash digest r) \<and>
          chained digest (wr_chain_hash r) lines)"

lemma walk_valid:
  "vr_valid result \<Longrightarrow> vr_valid (verify_walk digest index previous lines result) \<longleftrightarrow> chained digest previous lines"
  by (induction lines arbitrary: index previous result)
    (auto simp: verify_failure_def Let_def split: option.split)

lemma walk_counts:
  "chained digest previous lines \<Longrightarrow> lines \<noteq> [] \<Longrightarrow>
   vr_receipt_count (verify_walk digest index previous lines result) = index + length lines \<and>
   vr_head_hash (verify_walk digest index previous lines result) = chain_hash_of (last lines)"
proof (induction lines arbitrary: index previous result)
  case (Cons line lines)
  then obtain r where r: "line_receipt line = Some r" "wr_chain_prev_hash r = previous"
    "wr_chain_hash r = Some (compute_hash digest r)" "chained digest (wr_chain_hash r) lines"
    by (auto split: option.splits)
  show ?case
  proof (cases "lines = []")
    case True
    with r show ?thesis by (simp add: Let_def chain_hash_of_def)
  next
    case False
    with Cons.IH [OF r(4)] r show ?thesis by (simp add: Let_def)
  qed
qed simp

lemma chained_append:
  "chained digest previous (xs @ ys) \<longleftrightarrow> chained digest previous xs \<and>
     chained digest (if xs = [] then previous else chain_hash_of (last xs)) ys"
  by (induction xs arbitrary: previous) (auto simp: chain_hash_of_def split: option.splits)

lemma chained_parses: "chained digest previous lines \<Longrightarrow> line \<in> set lines \<Longrightarrow> \<exists>r. line = Parses r \<and> wr_chain_hash r = Some (compute_hash digest r)"
proof (induction lines arbitrary: previous)
  case (Cons l lines)
  then show ?case by (cases l) (auto split: option.splits)
qed simp

text \<open>A chain verifies exactly when its hashes link up and its anchor names its head and length.\<close>

definition scope_lines :: "chain_scope \<Rightarrow> chain_line list" where
  "scope_lines s = (case sc_file s of None \<Rightarrow> [] | Some f \<Rightarrow> file_lines f)"

lemma verify_chain_iff:
  "vr_valid (verify_chain digest s) \<longleftrightarrow>
     chained digest None (scope_lines s) \<and> scope_lines s \<noteq> [] \<and>
     (\<exists>h. anchor_fields (sc_anchor s) = Some (h, int (length (scope_lines s))) \<and>
        chain_hash_of (last (scope_lines s)) = Some h)"
proof -
  have v0: "vr_valid new_result" "vr_receipt_count new_result = 0" by (simp_all add: new_result_def)
  show ?thesis
  proof (cases "chained digest None (scope_lines s)")
    case False
    then show ?thesis
      using walk_valid [OF v0(1), of digest 0 None "scope_lines s"] by (simp add: verify_chain_def scope_lines_def Let_def)
  next
    case True
    show ?thesis
    proof (cases "scope_lines s = []")
      case True
      then show ?thesis
        by (simp add: verify_chain_def scope_lines_def Let_def verify_failure_def new_result_def)
    next
      case False
      note w = walk_valid [OF v0(1), of digest 0 None "scope_lines s"] walk_counts [OF True False, of 0 new_result]
      have anchor: "av_status (compare_to_anchor a head n) = AnchorOk \<longleftrightarrow> (\<exists>h. anchor_fields a = Some (h, n) \<and> head = Some h)" for a head n
        by (auto simp: compare_to_anchor_def verdict_def anchor_fields_def split: option.splits anchor_file.splits)
      let ?status = "av_status (compare_to_anchor (sc_anchor s) (chain_hash_of (last (scope_lines s))) (int (length (scope_lines s))))"
      have "vr_valid (verify_chain digest s) \<longleftrightarrow> ?status = AnchorOk"
        using True False w unfolding verify_chain_def scope_lines_def [symmetric]
        by (simp add: Let_def verify_failure_def)
      with True False anchor show ?thesis by auto
    qed
  qed
qed

section \<open>Tampering\<close>

definition line_payload :: "chain_line \<Rightarrow> witness_receipt option" where
  "line_payload l = map_option chain_payload (line_receipt l)"

lemma payload_prev: "chain_payload r = chain_payload r' \<Longrightarrow> wr_chain_prev_hash r = wr_chain_prev_hash r'"
  by (metis chain_payload_def witness_receipt.select_convs(18) witness_receipt.surjective witness_receipt.update_convs(19,20,21))

lemma chained_snoc:
  "chained digest None (lines @ [line]) \<longleftrightarrow> chained digest None lines \<and>
     (\<exists>r. line = Parses r \<and> wr_chain_hash r = Some (compute_hash digest r) \<and>
        wr_chain_prev_hash r = (if lines = [] then None else chain_hash_of (last lines)))"
  by (cases line) (auto simp: chained_append)

lemma same_head_same_payloads:
  assumes "chained digest None xs" and "chained digest None ys" and "length xs = length ys"
    and "xs \<noteq> [] \<Longrightarrow> chain_hash_of (last xs) = chain_hash_of (last ys)"
    and "\<And>r r'. Parses r \<in> set xs \<Longrightarrow> Parses r' \<in> set ys \<Longrightarrow> compute_hash digest r = compute_hash digest r' \<Longrightarrow>
           chain_payload r = chain_payload r'"
  shows "map line_payload xs = map line_payload ys"
  using assms
proof (induction xs arbitrary: ys rule: rev_induct)
  case (snoc x xs)
  obtain y ys' where ys: "ys = ys' @ [y]" using snoc.prems(3) by (cases ys rule: rev_cases) auto
  obtain r where r: "x = Parses r" "wr_chain_hash r = Some (compute_hash digest r)"
    "wr_chain_prev_hash r = (if xs = [] then None else chain_hash_of (last xs))" "chained digest None xs"
    using snoc.prems(1) by (auto simp: chained_snoc)
  obtain r' where r': "y = Parses r'" "wr_chain_hash r' = Some (compute_hash digest r')"
    "wr_chain_prev_hash r' = (if ys' = [] then None else chain_hash_of (last ys'))" "chained digest None ys'"
    using snoc.prems(2) by (auto simp: ys chained_snoc)
  have len: "length xs = length ys'" using snoc.prems(3) ys by simp
  have "compute_hash digest r = compute_hash digest r'" using snoc.prems(4) r(1,2) r'(1,2) ys by (simp add: chain_hash_of_def)
  then have same: "chain_payload r = chain_payload r'" using snoc.prems(5) r(1) r'(1) ys by simp
  have "xs \<noteq> [] \<Longrightarrow> chain_hash_of (last xs) = chain_hash_of (last ys')"
    using payload_prev [OF same] r(3) r'(3) len by (auto split: if_splits)
  with snoc.IH [OF r(4) r'(4) len] snoc.prems(5) ys have "map line_payload xs = map line_payload ys'" by auto
  moreover have "line_payload x = line_payload y" using same r(1) r'(1) by (simp add: line_payload_def)
  ultimately show ?case by (simp add: ys)
qed simp

text \<open>
  C3: a verified chain can only be the one its anchor was made of. If two files verify under one anchor,
  and the hash collides on none of their receipts, they hold the same receipts in the same order: no
  receipt can be altered, removed (from the end either), inserted or moved while the anchor stays.
\<close>

theorem verified_chain_is_untampered:
  assumes "vr_valid (verify_chain digest s)" and "vr_valid (verify_chain digest t)" and "sc_anchor t = sc_anchor s"
    and "\<And>r r'. Parses r \<in> set (scope_lines s) \<Longrightarrow> Parses r' \<in> set (scope_lines t) \<Longrightarrow>
           compute_hash digest r = compute_hash digest r' \<Longrightarrow> chain_payload r = chain_payload r'"
  shows "map line_payload (scope_lines s) = map line_payload (scope_lines t)"
proof -
  obtain h where s: "chained digest None (scope_lines s)" "scope_lines s \<noteq> []"
    "anchor_fields (sc_anchor s) = Some (h, int (length (scope_lines s)))" "chain_hash_of (last (scope_lines s)) = Some h"
    using assms(1) unfolding verify_chain_iff by blast
  obtain h' where t: "chained digest None (scope_lines t)" "scope_lines t \<noteq> []"
    "anchor_fields (sc_anchor t) = Some (h', int (length (scope_lines t)))" "chain_hash_of (last (scope_lines t)) = Some h'"
    using assms(2) unfolding verify_chain_iff by blast
  have "length (scope_lines s) = length (scope_lines t)" "h = h'" using s(3) t(3) assms(3) by simp_all
  with s(4) t(4) show ?thesis by (intro same_head_same_payloads [OF s(1) t(1) _ _ assms(4)]) simp_all
qed

section \<open>Appending\<close>

text \<open>The records a scope keeps once its torn tail is set aside.\<close>

definition kept :: "chain_scope \<Rightarrow> chain_line list" where
  "kept s = cf_records (opened (set_aside_torn_tail s))"

lemma set_aside_simps:
  "sc_anchor (set_aside_torn_tail s) = sc_anchor s"
  "cf_tail (opened (set_aside_torn_tail s)) = None"
  by (auto simp: set_aside_torn_tail_def Let_def opened_def empty_file_def split: option.splits chain_line.splits)

lemma signed_receipt_fields [simp]:
  "wr_chain_hash (signed_receipt signer r) = wr_chain_hash r"
  "wr_chain_prev_hash (signed_receipt signer r) = wr_chain_prev_hash r"
  "chain_payload (signed_receipt signer r) = chain_payload r"
  by (auto simp: signed_receipt_def chain_payload_def split: option.split)

lemma compute_hash_fields [simp]:
  "compute_hash digest (signed_receipt signer r) = compute_hash digest r"
  "compute_hash digest (r\<lparr>wr_chain_hash := h\<rparr>) = compute_hash digest r"
  by (simp add: compute_hash_def) (simp add: compute_hash_def chain_payload_def)

lemma chained_receipt_hash:
  "wr_chain_hash (chained_receipt digest signer prev item) = Some (compute_hash digest (chained_receipt digest signer prev item))"
  "wr_chain_prev_hash (chained_receipt digest signer prev item) = prev"
  by (simp_all add: chained_receipt_def Let_def)

definition added_lines :: "append_fault \<Rightarrow> witness_receipt \<Rightarrow> chain_line list" where
  "added_lines fault r = (case fault of ShortWrite t \<Rightarrow> [] | _ \<Rightarrow> [Parses r])"

text \<open>What an append does to the records kept and to the anchor.\<close>

lemma append_kept:
  assumes "append_locked digest signer fault item s = (outcome, s')"
    and "kept s \<noteq> [] \<Longrightarrow> line_receipt (last (kept s)) \<noteq> None"
  defines "prev \<equiv> (if kept s = [] then None else chain_hash_of (last (kept s)))"
  defines "r \<equiv> chained_receipt digest signer prev item"
  shows "kept s' = kept s @ added_lines fault r"
    and "sc_anchor s' = (case next_anchor_count (sc_anchor s) (kept s) prev of
           None \<Rightarrow> sc_anchor s
         | Some count \<Rightarrow> if fault = NoFault then Some (Anchored (compute_hash digest r) count) else sc_anchor s)"
    and "fault = NoFault \<Longrightarrow> outcome = Inr r \<and> cf_tail (opened s') = None"
proof -
  let ?count = "next_anchor_count (sc_anchor s) (kept s) prev"
  let ?s2 = "(set_aside_torn_tail s)\<lparr>sc_file := Some \<lparr>cf_records = kept s @ fst (written_tail fault r),
      cf_tail = snd (written_tail fault r)\<rparr>\<rparr>"
  have ok: "\<not> (kept s \<noteq> [] \<and> line_receipt (last (kept s)) = None)" using assms(2) by blast
  have hash: "the_default [] (wr_chain_hash r) = compute_hash digest r"
    by (simp add: r_def chained_receipt_hash the_default_def)
  have a: "(if fault \<noteq> NoFault \<and> (fault \<noteq> AnchorLost \<or> ?count \<noteq> None) then (Inl WriteRaised, ?s2)
      else (Inr r, case ?count of None \<Rightarrow> ?s2 | Some count \<Rightarrow> ?s2\<lparr>sc_anchor := Some (Anchored (compute_hash digest r) count)\<rparr>)) =
      (outcome, s')"
    using assms(1) ok unfolding append_locked_def Let_def kept_def [symmetric] prev_def [symmetric] r_def [symmetric]
    by (simp only: if_False split_beta hash set_aside_simps(1))
  have anchor: "sc_anchor s' = (case ?count of
           None \<Rightarrow> sc_anchor s
         | Some count \<Rightarrow> if fault = NoFault then Some (Anchored (compute_hash digest r) count) else sc_anchor s)"
    and out: "fault = NoFault \<Longrightarrow> outcome = Inr r" and f: "sc_file s' = sc_file ?s2"
    using a by (cases ?count; cases "fault = NoFault"; auto simp: set_aside_simps split: if_splits)+
  from anchor show "sc_anchor s' = (case ?count of
           None \<Rightarrow> sc_anchor s
         | Some count \<Rightarrow> if fault = NoFault then Some (Anchored (compute_hash digest r) count) else sc_anchor s)" .
  have opened: "opened s' = \<lparr>cf_records = kept s @ fst (written_tail fault r), cf_tail = snd (written_tail fault r)\<rparr>"
    using f by (simp add: opened_def)
  then show "kept s' = kept s @ added_lines fault r"
    unfolding kept_def [of s'] set_aside_torn_tail_def Let_def opened
    by (cases fault) (simp_all add: opened_def added_lines_def)
  show "fault = NoFault \<Longrightarrow> outcome = Inr r \<and> cf_tail (opened s') = None"
    using out by (simp add: opened)
qed

text \<open>A run of appends, each with what its writes come to.\<close>

definition run_appends ::
  "(string \<Rightarrow> witness_receipt \<Rightarrow> string) \<Rightarrow> witness_signer option \<Rightarrow> string \<Rightarrow> (append_fault \<times> witness_receipt) list \<Rightarrow>
   chain_scope \<Rightarrow> chain_scope" where
  "run_appends digest signer scope calls s =
     foldl (\<lambda>s (fault, receipt). snd (append_receipt digest signer fault scope receipt s)) s calls"

lemma run_appends_simps [simp]:
  "run_appends digest signer scope [] s = s"
  "run_appends digest signer scope (calls @ [(fault, receipt)]) s =
     snd (append_receipt digest signer fault scope receipt (run_appends digest signer scope calls s))"
  by (simp_all add: run_appends_def)

text \<open>The anchor describes a prefix of a chain whose hashes link up.\<close>

definition anchored_chain :: "(string \<Rightarrow> witness_receipt \<Rightarrow> string) \<Rightarrow> chain_scope \<Rightarrow> bool" where
  "anchored_chain digest s \<longleftrightarrow>
     chained digest None (kept s) \<and> kept s \<noteq> [] \<and>
     (\<exists>head count. anchor_fields (sc_anchor s) = Some (head, int (Suc count)) \<and> count < length (kept s) \<and>
        chain_hash_of (kept s ! count) = Some head)"

lemma chained_last_parses: "chained digest None ls \<Longrightarrow> ls \<noteq> [] \<Longrightarrow> \<exists>r. last ls = Parses r \<and> wr_chain_hash r = Some (compute_hash digest r)"
  using chained_parses [of digest None ls "last ls"] by simp

lemma append_one:
  assumes "chained digest None (kept s)" and "append_receipt digest signer fault scope receipt s = (outcome, s')"
  defines "prev \<equiv> (if kept s = [] then None else chain_hash_of (last (kept s)))"
  defines "r \<equiv> chained_receipt digest signer prev (receipt\<lparr>wr_scope := scope\<rparr>)"
  shows "kept s' = kept s @ added_lines fault r" and "chained digest None (kept s')"
    and "sc_anchor s' = (case next_anchor_count (sc_anchor s) (kept s) prev of
           None \<Rightarrow> sc_anchor s
         | Some count \<Rightarrow> if fault = NoFault then Some (Anchored (compute_hash digest r) count) else sc_anchor s)"
    and "fault = NoFault \<Longrightarrow> outcome = Inr r \<and> cf_tail (opened s') = None"
proof -
  have parses: "kept s \<noteq> [] \<Longrightarrow> line_receipt (last (kept s)) \<noteq> None"
    using chained_last_parses [OF assms(1)] by auto
  note k = append_kept [OF assms(2) [unfolded append_receipt_def] parses, folded prev_def, folded r_def]
  show kept': "kept s' = kept s @ added_lines fault r" by (rule k(1))
  have "chained digest prev [Parses r]"
    by (simp add: r_def chained_receipt_hash)
  then show "chained digest None (kept s')"
    using assms(1) by (simp add: kept' added_lines_def chained_append prev_def split: append_fault.split)
  show "sc_anchor s' = (case next_anchor_count (sc_anchor s) (kept s) prev of
           None \<Rightarrow> sc_anchor s
         | Some count \<Rightarrow> if fault = NoFault then Some (Anchored (compute_hash digest r) count) else sc_anchor s)"
    by (rule k(2))
  show "fault = NoFault \<Longrightarrow> outcome = Inr r \<and> cf_tail (opened s') = None" by (rule k(3))
qed

lemma anchored_count:
  assumes "anchored_chain digest s" and "distinct (map chain_hash_of (kept s))"
  shows "next_anchor_count (sc_anchor s) (kept s) (chain_hash_of (last (kept s))) = Some (int (Suc (length (kept s))))"
proof -
  obtain head count where a: "anchor_fields (sc_anchor s) = Some (head, int (Suc count))" "count < length (kept s)"
    "chain_hash_of (kept s ! count) = Some head" and c: "chained digest None (kept s)" "kept s \<noteq> []"
    using assms(1) by (auto simp: anchored_chain_def)
  obtain h where h: "chain_hash_of (last (kept s)) = Some h"
    using chained_last_parses [OF c] by (auto simp: chain_hash_of_def)
  show ?thesis
  proof (cases "head = h")
    case True
    let ?hashes = "map chain_hash_of (kept s)"
    have "?hashes ! count = ?hashes ! (length (kept s) - 1)"
      using a(2,3) h True c(2) by (simp add: last_conv_nth)
    then have "count = length (kept s) - 1"
      using assms(2) a(2) c(2) by (simp add: nth_eq_iff_index_eq del: nth_map)
    then show ?thesis using True h a c(2) by (simp add: next_anchor_count_def)
  next
    case False
    with a h show ?thesis by (simp add: next_anchor_count_def)
  qed
qed

lemma append_anchored:
  assumes "\<And>p q. digest p q \<noteq> []" and "anchored_chain digest s" and "distinct (map chain_hash_of (kept s))"
    and "append_receipt digest signer fault scope receipt s = (outcome, s')"
  shows "anchored_chain digest s' \<and> (fault = NoFault \<longrightarrow>
    (\<exists>r. outcome = Inr r \<and> cf_tail (opened s') = None \<and> kept s' = kept s @ [Parses r] \<and>
       wr_chain_hash r = Some (compute_hash digest r) \<and>
       sc_anchor s' = Some (Anchored (compute_hash digest r) (int (length (kept s'))))))"
proof -
  have c: "chained digest None (kept s)" "kept s \<noteq> []" using assms(2) by (auto simp: anchored_chain_def)
  note one = append_one [OF c(1) assms(4)]
  let ?r = "chained_receipt digest signer (chain_hash_of (last (kept s))) (receipt\<lparr>wr_scope := scope\<rparr>)"
  have anchor: "sc_anchor s' = (if fault = NoFault
      then Some (Anchored (compute_hash digest ?r) (int (Suc (length (kept s))))) else sc_anchor s)"
    using one(3) anchored_count [OF assms(2,3)] c(2) by simp
  have kept': "kept s' = kept s @ added_lines fault ?r" using one(1) c(2) by simp
  have nonempty: "compute_hash digest ?r \<noteq> []" using assms(1) by (simp add: compute_hash_def)
  have hash: "wr_chain_hash ?r = Some (compute_hash digest ?r)" by (rule chained_receipt_hash)
  show ?thesis
  proof (cases "fault = NoFault")
    case True
    have k: "kept s' = kept s @ [Parses ?r]" using kept' True by (simp add: added_lines_def)
    have "anchored_chain digest s'"
      using one(2) anchor k True nonempty hash
      by (auto simp: anchored_chain_def anchor_fields_def nth_append chain_hash_of_def intro: exI [of _ "length (kept s)"])
    with True k anchor one(4) hash c(2) show ?thesis by auto
  next
    case False
    obtain head count where "anchor_fields (sc_anchor s) = Some (head, int (Suc count))" "count < length (kept s)"
      "chain_hash_of (kept s ! count) = Some head" using assms(2) by (auto simp: anchored_chain_def)
    then show ?thesis
      using False one(2) anchor kept' c(2)
      by (auto simp: anchored_chain_def nth_append intro!: exI [of _ head] exI [of _ count])
  qed
qed

lemma run_chained:
  assumes "chained digest None (kept s)"
  shows "chained digest None (kept (run_appends digest signer scope calls s)) \<and>
    (\<exists>added. kept (run_appends digest signer scope calls s) = kept s @ added)"
proof (induction calls rule: rev_induct)
  case (snoc call calls)
  obtain fault receipt where call: "call = (fault, receipt)" by force
  obtain outcome s' where a: "append_receipt digest signer fault scope receipt (run_appends digest signer scope calls s) = (outcome, s')"
    by force
  from snoc append_one(1,2) [OF conjunct1 [OF snoc] a] show ?case by (auto simp: call a)
qed (simp add: assms)

lemma run_anchored:
  assumes "\<And>p q. digest p q \<noteq> []" and "anchored_chain digest s"
    and "distinct (map chain_hash_of (kept (run_appends digest signer scope calls s)))"
  shows "anchored_chain digest (run_appends digest signer scope calls s)"
  using assms(3)
proof (induction calls rule: rev_induct)
  case Nil
  then show ?case using assms(2) by simp
next
  case (snoc call calls)
  obtain fault receipt where call: "call = (fault, receipt)" by force
  let ?s = "run_appends digest signer scope calls s"
  obtain outcome s' where a: "append_receipt digest signer fault scope receipt ?s = (outcome, s')" by force
  have "chained digest None (kept ?s)" using run_chained assms(2) by (auto simp: anchored_chain_def)
  from append_one(1) [OF this a] snoc.prems have "distinct (map chain_hash_of (kept ?s))" by (simp add: call a)
  with snoc.IH append_anchored [OF assms(1) _ _ a] show ?case by (simp add: call a)
qed

lemma kept_empty [simp]: "kept empty_scope = []"
  by (simp add: kept_def set_aside_torn_tail_def opened_def empty_scope_def empty_file_def)

lemma anchor_empty [simp]: "sc_anchor empty_scope = None"
  by (simp add: empty_scope_def)

lemma first_append:
  assumes "\<And>p q. digest p q \<noteq> []" and "append_receipt digest signer NoFault scope receipt empty_scope = (outcome, s)"
  shows "anchored_chain digest s"
proof -
  let ?r = "chained_receipt digest signer None (receipt\<lparr>wr_scope := scope\<rparr>)"
  have "chained digest None (kept empty_scope)" by simp
  note one = append_one [OF this assms(2), simplified]
  have "compute_hash digest ?r \<noteq> []" using assms(1) by (simp add: compute_hash_def)
  with one show ?thesis
    by (simp add: anchored_chain_def added_lines_def next_anchor_count_def anchor_fields_def
        chain_hash_of_def chained_receipt_hash)
qed

lemma scope_lines_kept: "cf_tail (opened s) = None \<Longrightarrow> sc_file s \<noteq> None \<Longrightarrow> scope_lines s = kept s"
  by (auto simp: scope_lines_def kept_def set_aside_torn_tail_def opened_def file_lines_def)

text \<open>
  C12: evidence is never lost to a crash. After a scope's first receipt, whatever appends fail in between
  (a part of a record written, its newline lost, its anchor not written), the next append that succeeds
  leaves a chain that verifies, its receipt at the head: torn fragments are out of it and receipts that
  missed their anchor are counted in.
\<close>

theorem recorded_chain_verifies:
  assumes "\<And>p q. digest p q \<noteq> []"
    and "append_receipt digest signer NoFault scope first empty_scope = (outcome1, s1)"
    and "append_receipt digest signer NoFault scope receipt (run_appends digest signer scope calls s1) = (outcome, s)"
    and "distinct (map chain_hash_of (kept (run_appends digest signer scope calls s1)))"
  shows "vr_valid (verify_chain digest s) \<and> (\<exists>r. outcome = Inr r \<and> last (scope_lines s) = Parses r \<and>
    scope_lines s = kept (run_appends digest signer scope calls s1) @ [Parses r])"
proof -
  let ?s = "run_appends digest signer scope calls s1"
  have "anchored_chain digest ?s" using first_append [OF assms(1,2)] assms(1,4) by (intro run_anchored)
  from append_anchored [OF assms(1) this assms(4,3)] obtain r where
    a: "anchored_chain digest s" and r: "outcome = Inr r" "cf_tail (opened s) = None" "kept s = kept ?s @ [Parses r]"
    "wr_chain_hash r = Some (compute_hash digest r)"
    "sc_anchor s = Some (Anchored (compute_hash digest r) (int (length (kept s))))" by auto
  have "sc_file s \<noteq> None"
  proof
    assume "sc_file s = None"
    then have "kept s = []" by (simp add: kept_def set_aside_torn_tail_def opened_def empty_file_def)
    with r(3) show False by simp
  qed
  then have lines: "scope_lines s = kept s" using r(2) by (rule scope_lines_kept [rotated])
  have "compute_hash digest r \<noteq> []" using assms(1) by (simp add: compute_hash_def)
  then have "vr_valid (verify_chain digest s)"
    using a r lines by (simp add: verify_chain_iff anchored_chain_def anchor_fields_def chain_hash_of_def)
  with r lines show ?thesis by simp
qed

section \<open>A cut chain\<close>

definition cut_off :: "(string \<Rightarrow> witness_receipt \<Rightarrow> string) \<Rightarrow> string option \<Rightarrow> chain_scope \<Rightarrow> bool" where
  "cut_off digest head s \<longleftrightarrow>
     chained digest None (kept s) \<and>
     (case anchor_fields (sc_anchor s) of
        None \<Rightarrow> sc_anchor s \<noteq> None \<or> kept s \<noteq> []
      | Some (h, count) \<Rightarrow> head = Some h \<and> head \<notin> chain_hash_of ` set (kept s))"

lemma anchor_fields_pos: "anchor_fields a = Some (h, count) \<Longrightarrow> 1 \<le> count"
  by (auto simp: anchor_fields_def split: option.splits anchor_file.splits if_splits)

lemma cut_off_stays:
  assumes "cut_off digest head s" and "append_receipt digest signer fault scope receipt s = (outcome, s')"
    and "head \<notin> chain_hash_of ` set (kept s')"
  shows "cut_off digest head s' \<and> sc_anchor s' = sc_anchor s"
proof -
  have c: "chained digest None (kept s)" using assms(1) by (simp add: cut_off_def)
  note one = append_one [OF c assms(2)]
  let ?prev = "if kept s = [] then None else chain_hash_of (last (kept s))"
  have "next_anchor_count (sc_anchor s) (kept s) ?prev = None"
  proof (cases "anchor_fields (sc_anchor s)")
    case None
    have "\<exists>y. chain_hash_of (last (kept s)) = Some y" if "kept s \<noteq> []"
      using chained_last_parses [OF c that] by (auto simp: chain_hash_of_def)
    with None assms(1) show ?thesis by (auto simp: next_anchor_count_def cut_off_def)
  next
    case (Some hc)
    obtain h count where hc: "hc = (h, count)" by force
    have notin: "Some h \<notin> chain_hash_of ` set (kept s)" using assms(1) Some hc by (auto simp: cut_off_def)
    have "kept s \<noteq> [] \<Longrightarrow> Some h \<noteq> chain_hash_of (last (kept s))" using notin last_in_set by (metis image_eqI)
    moreover have "chain_hash_of (kept s ! nat (count - 1)) \<noteq> Some h" if "count \<le> int (length (kept s))"
    proof -
      have "nat (count - 1) < length (kept s)" using that anchor_fields_pos [OF Some [unfolded hc]] by linarith
      then have "kept s ! nat (count - 1) \<in> set (kept s)" by (rule nth_mem)
      with notin show ?thesis by (metis imageI)
    qed
    moreover have "sc_anchor s \<noteq> None" using Some by (cases "sc_anchor s") (simp_all add: anchor_fields_def)
    ultimately show ?thesis using Some hc by (auto simp: next_anchor_count_def)
  qed
  then have "sc_anchor s' = sc_anchor s" using one(3) by simp
  with assms(1,3) one(1,2) show ?thesis
    by (auto simp: cut_off_def split: option.splits)
qed

lemma run_cut_off:
  assumes "cut_off digest head s" and "head \<notin> chain_hash_of ` set (kept (run_appends digest signer scope calls s))"
  shows "cut_off digest head (run_appends digest signer scope calls s)"
  using assms(2)
proof (induction calls rule: rev_induct)
  case Nil
  then show ?case using assms(1) by simp
next
  case (snoc call calls)
  obtain fault receipt where call: "call = (fault, receipt)" by force
  let ?s = "run_appends digest signer scope calls s"
  obtain outcome s' where a: "append_receipt digest signer fault scope receipt ?s = (outcome, s')" by force
  have "chained digest None (kept ?s)" using run_chained assms(1) by (auto simp: cut_off_def)
  from append_one(1) [OF this a] snoc.prems have "head \<notin> chain_hash_of ` set (kept ?s)" by (auto simp: call a)
  with snoc cut_off_stays [OF _ a] show ?case by (auto simp: call a)
qed

lemma cut_off_invalid: "cut_off digest head s \<Longrightarrow> \<not> vr_valid (verify_chain digest s)"
proof
  assume cut: "cut_off digest head s" and "vr_valid (verify_chain digest s)"
  then obtain h where v: "chained digest None (scope_lines s)" "scope_lines s \<noteq> []"
    "anchor_fields (sc_anchor s) = Some (h, int (length (scope_lines s)))" "chain_hash_of (last (scope_lines s)) = Some h"
    unfolding verify_chain_iff by blast
  have "\<forall>l \<in> set (scope_lines s). \<exists>r. l = Parses r" using chained_parses [OF v(1)] by blast
  then have "scope_lines s = kept s"
    by (cases "sc_file s") (auto simp: scope_lines_def kept_def set_aside_torn_tail_def opened_def empty_file_def
        file_lines_def split: option.splits chain_line.splits)
  with v(2,4) have "Some h \<in> chain_hash_of ` set (kept s)" by (metis imageI last_in_set)
  moreover have "Some h \<notin> chain_hash_of ` set (kept s)" using cut v(3) by (auto simp: cut_off_def)
  ultimately show False by simp
qed


end
