(* ===== verification/WitnessSignatures.thy ===== *)
theory WitnessSignatures
  imports WitnessHistory
begin

text \<open>
  The signatures of a chain, and the reading of its head from a window at the end of its file.
\<close>

section \<open>Signatures\<close>

definition signed_line :: "(string \<Rightarrow> string \<Rightarrow> bool) \<Rightarrow> chain_line \<Rightarrow> bool" where
  "signed_line verified l = (case line_receipt l of None \<Rightarrow> False
     | Some r \<Rightarrow> truthy (wr_chain_signature r) \<and> verified (the_default [] (wr_chain_hash r)) (the (wr_chain_signature r)))"

definition unsigned_line :: "chain_line \<Rightarrow> bool" where
  "unsigned_line l = (case line_receipt l of None \<Rightarrow> False | Some r \<Rightarrow> \<not> truthy (wr_chain_signature r))"

lemma walk_signed:
  "sr_valid result \<Longrightarrow> 0 < sr_signed result \<Longrightarrow>
   (let w = signature_walk verified index lines result in
    (sr_valid w \<longleftrightarrow> list_all (signed_line verified) lines) \<and> 0 < sr_signed w)"
  by (induction lines arbitrary: index result)
    (auto simp: signature_failure_def signed_line_def Let_def split: option.split)

lemma walk_unsigned:
  "sr_valid result \<Longrightarrow> sr_signed result = 0 \<Longrightarrow>
   (let w = signature_walk verified index lines result in
    (sr_valid w \<longleftrightarrow> (\<exists>old new. lines = old @ new \<and> list_all unsigned_line old \<and> list_all (signed_line verified) new)) \<and>
    (sr_valid w \<longrightarrow> (sr_signed w = 0 \<longleftrightarrow> list_all unsigned_line lines) \<and>
       sr_checked w = (if lines = [] then sr_checked result else index + length lines)))"
proof (induction lines arbitrary: index result)
  case Nil
  then show ?case by simp
next
  case (Cons l lines)
  show ?case
  proof (cases "line_receipt l")
    case None
    then have "\<not> unsigned_line l" "\<not> signed_line verified l" by (simp_all add: unsigned_line_def signed_line_def)
    with None show ?thesis by (auto simp: signature_failure_def Cons_eq_append_conv)
  next
    case (Some r)
    show ?thesis
    proof (cases "truthy (wr_chain_signature r)")
      case False
      let ?result = "result\<lparr>sr_checked := Suc index, sr_unsigned := Suc (sr_unsigned result)\<rparr>"
      have l: "unsigned_line l" "\<not> signed_line verified l" using False Some by (simp_all add: unsigned_line_def signed_line_def)
      have split: "(\<exists>old new. l # lines = old @ new \<and> list_all unsigned_line old \<and> list_all (signed_line verified) new) \<longleftrightarrow>
          (\<exists>old new. lines = old @ new \<and> list_all unsigned_line old \<and> list_all (signed_line verified) new)"
      proof
        assume "\<exists>old new. l # lines = old @ new \<and> list_all unsigned_line old \<and> list_all (signed_line verified) new"
        then obtain old new where on: "l # lines = old @ new" "list_all unsigned_line old" "list_all (signed_line verified) new"
          by blast
        with l(2) obtain old' where "old = l # old'" by (cases old) auto
        with on have "lines = old' @ new \<and> list_all unsigned_line old' \<and> list_all (signed_line verified) new" by simp
        then show "\<exists>old new. lines = old @ new \<and> list_all unsigned_line old \<and> list_all (signed_line verified) new" by blast
      next
        assume "\<exists>old new. lines = old @ new \<and> list_all unsigned_line old \<and> list_all (signed_line verified) new"
        then obtain old new where "lines = old @ new" "list_all unsigned_line old" "list_all (signed_line verified) new" by blast
        with l(1) have "l # lines = (l # old) @ new \<and> list_all unsigned_line (l # old) \<and> list_all (signed_line verified) new" by simp
        then show "\<exists>old new. l # lines = old @ new \<and> list_all unsigned_line old \<and> list_all (signed_line verified) new" by blast
      qed
      have "signature_walk verified index (l # lines) result = signature_walk verified (Suc index) lines ?result"
        using Some False Cons.prems by (simp add: Let_def)
      with Cons.IH [of ?result "Suc index"] Cons.prems l(1) show ?thesis unfolding split by (auto simp: Let_def)
    next
      case True
      show ?thesis
      proof (cases "verified (the_default [] (wr_chain_hash r)) (the (wr_chain_signature r))")
        case False
        then have "\<not> unsigned_line l" "\<not> signed_line verified l"
          using True Some by (simp_all add: unsigned_line_def signed_line_def)
        with Some True False show ?thesis by (auto simp: signature_failure_def Let_def Cons_eq_append_conv)
      next
        case ok: True
        have l: "\<not> unsigned_line l" "signed_line verified l" using True ok Some by (simp_all add: unsigned_line_def signed_line_def)
        let ?result = "result\<lparr>sr_checked := Suc index, sr_signed := Suc (sr_signed result)\<rparr>"
        have eq: "signature_walk verified index (l # lines) result = signature_walk verified (Suc index) lines ?result"
          using Some True ok by (simp add: Let_def)
        have "sr_checked (signature_walk verified i ls res) = (if ls = [] then sr_checked res else i + length ls)"
          if "sr_valid (signature_walk verified i ls res)" for i ls res
          using that by (induction ls arbitrary: i res)
            (auto simp: signature_failure_def Let_def split: option.splits if_splits)
        moreover have "(\<exists>old new. l # lines = old @ new \<and> list_all unsigned_line old \<and> list_all (signed_line verified) new) \<longleftrightarrow>
            list_all (signed_line verified) (l # lines)"
        proof
          assume "\<exists>old new. l # lines = old @ new \<and> list_all unsigned_line old \<and> list_all (signed_line verified) new"
          then obtain old new where "l # lines = old @ new" "list_all unsigned_line old" "list_all (signed_line verified) new"
            by blast
          with l(1) show "list_all (signed_line verified) (l # lines)" by (cases old) auto
        next
          assume "list_all (signed_line verified) (l # lines)"
          then have "l # lines = [] @ (l # lines) \<and> list_all unsigned_line [] \<and> list_all (signed_line verified) (l # lines)"
            by simp
          then show "\<exists>old new. l # lines = old @ new \<and> list_all unsigned_line old \<and> list_all (signed_line verified) new" by blast
        qed
        ultimately show ?thesis
          using walk_signed [of ?result verified "Suc index" lines] Cons.prems l unfolding eq by (simp add: Let_def)
      qed
    qed
  qed
qed

text \<open>
  the signatures of a chain file hold exactly when it is some receipts from before signing, none of
  them signed, followed by receipts each signed by the key over its hash, at least one, or when it is
  empty: a signature removed or replaced, or all of them stripped, is always found.
\<close>

lemma signatures_hold_iff:
  "sr_valid (verify_signatures signature_holds (Some key) (s\<lparr>sc_file := Some f\<rparr>)) \<longleftrightarrow>
     (\<exists>old new. file_lines f = old @ new \<and> list_all unsigned_line old \<and> list_all (signed_line (signature_holds key)) new \<and>
        (new = [] \<longrightarrow> old = []))"
proof -
  let ?start = "\<lparr>sr_valid = True, sr_checked = 0, sr_signed = 0, sr_unsigned = 0, sr_public_key_b64 = Some key,
      sr_first_invalid_index = None, sr_first_invalid_receipt_id = None, sr_reason = None\<rparr>"
  let ?w = "signature_walk (signature_holds key) 0 (file_lines f) ?start"
  have disjoint: "\<not> (unsigned_line l \<and> signed_line v l)" for l v
    by (auto simp: unsigned_line_def signed_line_def split: option.splits)
  have w: "sr_valid ?w \<longleftrightarrow> (\<exists>old new. file_lines f = old @ new \<and> list_all unsigned_line old \<and>
        list_all (signed_line (signature_holds key)) new)"
    "sr_valid ?w \<Longrightarrow> (sr_signed ?w = 0 \<longleftrightarrow> list_all unsigned_line (file_lines f)) \<and> sr_checked ?w = length (file_lines f)"
    using walk_unsigned [of ?start "signature_holds key" 0 "file_lines f"] by (auto simp: Let_def)
  have "sr_valid (verify_signatures signature_holds (Some key) (s\<lparr>sc_file := Some f\<rparr>)) \<longleftrightarrow>
      sr_valid ?w \<and> (file_lines f = [] \<or> \<not> list_all unsigned_line (file_lines f))"
    using w(2) by (auto simp: verify_signatures_def Let_def)
  also have "\<dots> \<longleftrightarrow> (\<exists>old new. file_lines f = old @ new \<and> list_all unsigned_line old \<and>
      list_all (signed_line (signature_holds key)) new \<and> (new = [] \<longrightarrow> old = []))"
  proof
    assume "sr_valid ?w \<and> (file_lines f = [] \<or> \<not> list_all unsigned_line (file_lines f))"
    moreover from this w(1) obtain old new where "file_lines f = old @ new" "list_all unsigned_line old"
      "list_all (signed_line (signature_holds key)) new" by blast
    moreover from calculation have "new = [] \<longrightarrow> old = []" by auto
    ultimately show "\<exists>old new. file_lines f = old @ new \<and> list_all unsigned_line old \<and>
      list_all (signed_line (signature_holds key)) new \<and> (new = [] \<longrightarrow> old = [])" by blast
  next
    assume "\<exists>old new. file_lines f = old @ new \<and> list_all unsigned_line old \<and>
      list_all (signed_line (signature_holds key)) new \<and> (new = [] \<longrightarrow> old = [])"
    then obtain old new where on: "file_lines f = old @ new" "list_all unsigned_line old"
      "list_all (signed_line (signature_holds key)) new" "new = [] \<longrightarrow> old = []" by blast
    then have "\<not> list_all unsigned_line (file_lines f)" if "file_lines f \<noteq> []"
      using that disjoint by (cases new) auto
    with on w(1) show "sr_valid ?w \<and> (file_lines f = [] \<or> \<not> list_all unsigned_line (file_lines f))" by blast
  qed
  finally show ?thesis .
qed

section \<open>The window at the end of a file\<close>

lemma split_on_nonempty [simp]: "split_on c s \<noteq> []"
  by (induction s) (auto split: list.split)

lemma split_on_append:
  "split_on c (a @ b) = butlast (split_on c a) @ (last (split_on c a) @ hd (split_on c b)) # tl (split_on c b)"
proof (induction a)
  case Nil
  then show ?case by (simp add: list.collapse)
next
  case (Cons x a)
  show ?case
  proof (cases "x = c")
    case True
    with Cons show ?thesis by simp
  next
    case False
    obtain w ws where "split_on c a = w # ws" by (cases "split_on c a") auto
    with Cons False show ?thesis by (cases ws) auto
  qed
qed

definition nonblank :: "string list \<Rightarrow> string list" where
  "nonblank segments = filter (\<lambda>r. r \<noteq> []) (map (strip_chars byte_space) segments)"

lemma chain_records_split: "chain_records data = nonblank (split_on newline data)"
  by (simp add: chain_records_def nonblank_def)

lemma last_append_nonempty: "ys \<noteq> [] \<Longrightarrow> last (xs @ ys) = last ys"
  by simp

text \<open>
  reading only the last 64 KiB of a chain gives the same head as reading all of it, whatever the
  window's size and wherever it cuts the file.
\<close>

lemma tail_read_is_the_last_record:
  "read_tail_line window data =
     (if chain_records data = [] then None else Some (last (chain_records data)))"
proof -
  let ?start = "length data - window"
  let ?seen = "drop ?start data"
  have "last (chain_records ?seen) = last (chain_records data) \<and> chain_records data \<noteq> []" if "1 < length (chain_records ?seen)"
  proof -
    let ?segs = "split_on newline ?seen" and ?front = "split_on newline (take ?start data)"
    have seen: "chain_records ?seen = nonblank [hd ?segs] @ nonblank (tl ?segs)"
      unfolding chain_records_split nonblank_def by (metis append_Cons append_Nil filter_append list.collapse map_append split_on_nonempty)
    have "length (nonblank [hd ?segs]) \<le> 1" by (simp add: nonblank_def)
    with that seen have rest: "nonblank (tl ?segs) \<noteq> []" by auto
    have "split_on newline data = (butlast ?front @ [last ?front @ hd ?segs]) @ tl ?segs"
      using split_on_append [of newline "take ?start data" ?seen] by simp
    then have "chain_records data = nonblank (butlast ?front @ [last ?front @ hd ?segs]) @ nonblank (tl ?segs)"
      unfolding chain_records_split nonblank_def by simp
    with rest seen show ?thesis by simp
  qed
  moreover have "chain_records ?seen = chain_records data" if "\<not> 0 < ?start" using that by simp
  ultimately show ?thesis by (auto simp: read_tail_line_def Let_def)
qed

section \<open>A concrete chain\<close>

definition sample_receipt :: "string \<Rightarrow> witness_receipt" where
  "sample_receipt name = \<lparr>wr_receipt_id = name, wr_timestamp = ''2026-01-01T00:00:00Z'', wr_profile = Normal, wr_scope = ''s1'',
     wr_event_type = ''action'', wr_status = ''ok'', wr_action = ''click'', wr_action_class = WriteClass, wr_session_id = None,
     wr_risk_category = None, wr_operator = ANONYMOUS,
     wr_approval = \<lparr>wa_required = False, wa_approval_id = None, wa_status = None, wa_reason = None\<rparr>, wr_target = [],
     wr_concerns = [], wr_evidence_mode = Standard,
     wr_evidence = \<lparr>we_before = None, we_after = None, we_verification = None, we_artifacts = []\<rparr>, wr_metadata = [],
     wr_chain_prev_hash = None, wr_chain_hash = None, wr_chain_signature = None, wr_signing_key_id = None\<rparr>"

definition sample_digest :: "string \<Rightarrow> witness_receipt \<Rightarrow> string" where
  "sample_digest prev r = wr_receipt_id r @ ''-'' @ prev"

definition sample_chain :: "chain_line list" where
  "sample_chain =
     [Parses ((sample_receipt ''a'')\<lparr>wr_chain_hash := Some ''a-''\<rparr>),
      Parses ((sample_receipt ''b'')\<lparr>wr_chain_prev_hash := Some ''a-'', wr_chain_hash := Some ''b-a-'', wr_chain_signature := Some ''sig''\<rparr>)]"

definition sample_scope :: chain_scope where
  "sample_scope = \<lparr>sc_file = Some \<lparr>cf_records = sample_chain, cf_tail = None\<rparr>, sc_anchor = Some (Anchored ''b-a-'' 2), sc_torn = []\<rparr>"

lemma sample_lines: "scope_lines sample_scope = sample_chain"
  by (simp add: scope_lines_def sample_scope_def file_lines_def)

lemma sample_valid: "vr_valid (verify_chain sample_digest sample_scope)"
  by (simp add: verify_chain_iff sample_lines)
    (simp add: sample_chain_def sample_scope_def sample_receipt_def sample_digest_def compute_hash_def chain_payload_def
      the_default_def anchor_fields_def chain_hash_of_def)

theorem verified_chain_is_untampered_witness:
  "map line_payload sample_chain = map line_payload
     [Parses ((sample_receipt ''a'')\<lparr>wr_chain_hash := Some ''a-''\<rparr>),
      Parses ((sample_receipt ''b'')\<lparr>wr_chain_prev_hash := Some ''a-'', wr_chain_hash := Some ''b-a-''\<rparr>)]"
proof -
  let ?lines = "[Parses ((sample_receipt ''a'')\<lparr>wr_chain_hash := Some ''a-''\<rparr>),
      Parses ((sample_receipt ''b'')\<lparr>wr_chain_prev_hash := Some ''a-'', wr_chain_hash := Some ''b-a-''\<rparr>)]"
  let ?t = "sample_scope\<lparr>sc_file := Some \<lparr>cf_records = ?lines, cf_tail = None\<rparr>\<rparr>"
  have lines: "scope_lines ?t = ?lines" by (simp add: scope_lines_def file_lines_def)
  have t: "vr_valid (verify_chain sample_digest ?t)"
    by (simp add: verify_chain_iff lines)
      (simp add: sample_scope_def sample_receipt_def sample_digest_def compute_hash_def chain_payload_def
        the_default_def anchor_fields_def chain_hash_of_def)
  have "map line_payload (scope_lines sample_scope) = map line_payload (scope_lines ?t)"
  proof (rule verified_chain_is_untampered [OF sample_valid t])
    fix r r' assume "Parses r \<in> set (scope_lines sample_scope)" "Parses r' \<in> set (scope_lines ?t)"
      "compute_hash sample_digest r = compute_hash sample_digest r'"
    then show "chain_payload r = chain_payload r'"
      unfolding sample_lines lines
      by (auto simp: sample_chain_def sample_receipt_def sample_digest_def compute_hash_def chain_payload_def the_default_def)
  qed simp
  then show ?thesis unfolding sample_lines lines .
qed

theorem recorded_chain_verifies_witness:
  "vr_valid (verify_chain sample_digest (snd (append_receipt sample_digest None NoFault ''s1'' (sample_receipt ''c'')
     (run_appends sample_digest None ''s1'' [(ShortWrite ''{'', sample_receipt ''b''), (NewlineLost, sample_receipt ''b'')]
       (snd (append_receipt sample_digest None NoFault ''s1'' (sample_receipt ''a'') empty_scope))))))"
proof -
  let ?s1 = "snd (append_receipt sample_digest None NoFault ''s1'' (sample_receipt ''a'') empty_scope)"
  let ?s2 = "run_appends sample_digest None ''s1'' [(ShortWrite ''{'', sample_receipt ''b''), (NewlineLost, sample_receipt ''b'')] ?s1"
  obtain o1 where o1: "append_receipt sample_digest None NoFault ''s1'' (sample_receipt ''a'') empty_scope = (o1, ?s1)"
    by (metis prod.collapse)
  obtain o3 s3 where o3: "append_receipt sample_digest None NoFault ''s1'' (sample_receipt ''c'') ?s2 = (o3, s3)" by force
  have "map chain_hash_of (kept ?s2) = [Some ''a-'', Some ''b-a-'']"
    by (simp add: run_appends_def append_receipt_def append_locked_def Let_def set_aside_torn_tail_def opened_def empty_scope_def
        empty_file_def kept_def chained_receipt_def signed_receipt_def sample_receipt_def sample_digest_def compute_hash_def
        chain_payload_def the_default_def next_anchor_count_def chain_hash_of_def anchor_fields_def)
  then have "distinct (map chain_hash_of (kept ?s2))" by simp
  from recorded_chain_verifies [OF _ o1 o3 this] show ?thesis by (simp add: sample_digest_def o3)
qed


lemma signatures_hold_iff_witness:
  "sr_valid (verify_signatures (\<lambda>key h signature. signature = ''sig'') (Some ''key'') sample_scope)"
proof -
  have "file_lines \<lparr>cf_records = sample_chain, cf_tail = None\<rparr> =
      [hd sample_chain] @ tl sample_chain \<and> list_all unsigned_line [hd sample_chain] \<and>
      list_all (signed_line (\<lambda>h signature. signature = ''sig'')) (tl sample_chain) \<and> tl sample_chain \<noteq> []"
    by (simp add: file_lines_def sample_chain_def unsigned_line_def signed_line_def sample_receipt_def truthy_def)
  then have "sr_valid (verify_signatures (\<lambda>key h signature. signature = ''sig'') (Some ''key'')
      (sample_scope\<lparr>sc_file := Some \<lparr>cf_records = sample_chain, cf_tail = None\<rparr>\<rparr>))"
    unfolding signatures_hold_iff by blast
  then show ?thesis by (simp add: sample_scope_def)
qed

end
