(* ===== verification/JobRecords.thy ===== *)
theory JobRecords
  imports Ownership UrlText JsonValues
begin

text \<open>
  The data of agent jobs (models.py) and the texts made of them (agent_jobs.py): requests and their
  validation, what a step's result leaves in a checkpoint, the context a resumed job is given. A request is
  stored as the dict pydantic dumps it to, which is the record here; pydantic's stripping of white space is
  the parameter \<open>trim\<close>, and Python's \<open>repr\<close> of lists and dicts the parameter \<open>repr\<close>.
\<close>

datatype job_status =
    JQueued | JRunning | JCancelling | JCompleted | JFailed | JInterrupted | JCancelled | JDiscarded

datatype job_kind = AgentStep | AgentRun

datatype step_status = Acted | Done | Takeover | ApprovalRequired | StepError

fun step_status_name :: "step_status \<Rightarrow> string" where
  "step_status_name Acted = ''acted''"
| "step_status_name Done = ''done''"
| "step_status_name Takeover = ''takeover''"
| "step_status_name ApprovalRequired = ''approval_required''"
| "step_status_name StepError = ''error''"

datatype run_status = EndedAs step_status | MaxStepsReached

datatype workflow_profile = Fast | Governed

definition CONTEXT_HINTS_MAX_CHARS :: nat where
  "CONTEXT_HINTS_MAX_CHARS = 4000"

definition AGENT_RUN_MAX_STEPS :: int where
  "AGENT_RUN_MAX_STEPS = 20"

definition PROVIDERS :: "string list" where
  "PROVIDERS = [''openai'', ''claude'', ''gemini'', ''openrouter'', ''xai'', ''deepseek'', ''minimax'', ''openai_compatible'']"

section \<open>Requests\<close>

text \<open>A step's request has no \<open>max_steps\<close>.\<close>

record agent_request =
  rq_provider :: string
  rq_goal :: string
  rq_provider_model :: "string option"
  rq_workflow_profile :: workflow_profile
  rq_observation_limit :: int
  rq_context_hints :: "string option"
  rq_upload_approved :: bool
  rq_approval_id :: "string option"
  rq_max_steps :: "int option"

definition model_char :: "char \<Rightarrow> bool" where
  "model_char c \<longleftrightarrow> alnum_char c \<or> c \<in> set ''._:/@-''"

fun check_model_name :: "string option \<Rightarrow> bool" where
  "check_model_name None = True"
| "check_model_name (Some []) = False"
| "check_model_name (Some (c # cs)) =
     (alnum_char c \<and> list_all model_char cs \<and> length cs \<le> 127 \<and> \<not> fst (snd (partition_text ''..'' (c # cs))))"

definition opt_all :: "('a \<Rightarrow> bool) \<Rightarrow> 'a option \<Rightarrow> bool" where
  "opt_all P x \<longleftrightarrow> (case x of None \<Rightarrow> True | Some y \<Rightarrow> P y)"

text \<open>\<open>model_validate\<close> of a stored request: None stands for its ValidationError.\<close>

definition stripped_request :: "(string \<Rightarrow> string) \<Rightarrow> agent_request \<Rightarrow> agent_request" where
  "stripped_request trim rq = rq\<lparr>rq_goal := trim (rq_goal rq), rq_provider_model := map_option trim (rq_provider_model rq),
     rq_context_hints := map_option trim (rq_context_hints rq), rq_approval_id := map_option trim (rq_approval_id rq)\<rparr>"

definition request_ok :: "agent_request \<Rightarrow> bool" where
  "request_ok rq \<longleftrightarrow>
     rq_provider rq \<in> set PROVIDERS \<and> 1 \<le> length (rq_goal rq) \<and> length (rq_goal rq) \<le> 4000 \<and>
     check_model_name (rq_provider_model rq) \<and> 1 \<le> rq_observation_limit rq \<and> rq_observation_limit rq \<le> 100 \<and>
     opt_all (\<lambda>h. length h \<le> CONTEXT_HINTS_MAX_CHARS) (rq_context_hints rq) \<and>
     opt_all (\<lambda>a. 1 \<le> length a \<and> length a \<le> 120) (rq_approval_id rq)"

definition validate_request :: "(string \<Rightarrow> string) \<Rightarrow> job_kind \<Rightarrow> agent_request \<Rightarrow> agent_request option" where
  "validate_request trim kind rq =
     (let rq' = stripped_request trim rq in
      if \<not> request_ok rq' then None
      else case kind of
        AgentStep \<Rightarrow> if rq_max_steps rq = None then Some rq' else None
      | AgentRun \<Rightarrow>
          let steps = the_default 6 (rq_max_steps rq) in
          if 1 \<le> steps \<and> steps \<le> AGENT_RUN_MAX_STEPS then Some (rq'\<lparr>rq_max_steps := Some steps\<rparr>) else None)"

section \<open>Results and checkpoints\<close>

record step_result =
  sr_provider :: string
  sr_model :: string
  sr_goal :: string
  sr_workflow_profile :: workflow_profile
  sr_status :: step_status
  sr_observation :: members
  sr_decision :: members
  sr_execution :: "members option"
  sr_usage :: "members option"
  sr_raw_text :: "string option"
  sr_error :: "string option"
  sr_error_code :: "int option"

record run_result =
  rr_provider :: string
  rr_model :: string
  rr_goal :: string
  rr_workflow_profile :: workflow_profile
  rr_status :: run_status
  rr_steps :: "step_result list"
  rr_final_session :: members

datatype agent_result = StepResult step_result | RunResult run_result

fun result_status :: "agent_result \<Rightarrow> run_status" where
  "result_status (StepResult r) = EndedAs (sr_status r)"
| "result_status (RunResult r) = rr_status r"

fun result_steps :: "agent_result \<Rightarrow> step_result list" where
  "result_steps (StepResult r) = [r]"
| "result_steps (RunResult r) = rr_steps r"

record job_checkpoint =
  cp_step_index :: nat
  cp_created_at :: stamp
  cp_status :: step_status
  cp_action :: "string option"
  cp_reason :: "string option"
  cp_url :: "string option"
  cp_title :: "string option"
  cp_error :: "string option"

record job_record =
  jr_id :: string
  jr_session_id :: string
  jr_kind :: job_kind
  jr_status :: job_status
  jr_created_at :: stamp
  jr_updated_at :: stamp
  jr_request :: agent_request
  jr_parent_job_id :: "string option"
  jr_checkpoints :: "job_checkpoint list"
  jr_operator :: "operator_identity option"
  jr_result :: "agent_result option"
  jr_error :: "string option"

definition truncate_text :: "nat \<Rightarrow> string \<Rightarrow> string" where
  "truncate_text limit text' = (if length text' \<le> limit then text' else take (limit - 3) text' @ ''...'')"

definition truncate_opt :: "string option \<Rightarrow> nat \<Rightarrow> string option" where
  "truncate_opt value limit = map_option (truncate_text limit) value"

text \<open>\<open>dict.get\<close> of a JSON object, \<open>a or b\<close>, and \<open>str\<close>.\<close>

definition get_member :: "members \<Rightarrow> string \<Rightarrow> json" where
  "get_member ms key = (case map_of ms key of None \<Rightarrow> JNull | Some v \<Rightarrow> v)"

definition json_or :: "json \<Rightarrow> json \<Rightarrow> json" where
  "json_or a b = (if json_truthy a then a else b)"

fun python_str :: "(json \<Rightarrow> string) \<Rightarrow> json \<Rightarrow> string option" where
  "python_str repr JNull = None"
| "python_str repr (JBool b) = Some (if b then ''True'' else ''False'')"
| "python_str repr (JNum n) = Some n"
| "python_str repr (JStr s) = Some s"
| "python_str repr v = Some (repr v)"

fun object_or_empty :: "json \<Rightarrow> members" where
  "object_or_empty (JObj ms) = ms"
| "object_or_empty v = []"

definition checkpoint_from_step :: "(json \<Rightarrow> string) \<Rightarrow> stamp \<Rightarrow> nat \<Rightarrow> step_result \<Rightarrow> job_checkpoint" where
  "checkpoint_from_step repr now step_index result =
     (let execution = the_default [] (sr_execution result);
          after = object_or_empty (get_member execution ''after'');
          observation = sr_observation result;
          decision = sr_decision result
      in \<lparr>cp_step_index = step_index, cp_created_at = now, cp_status = sr_status result,
          cp_action = truncate_opt (python_str repr (get_member decision ''action'')) 120,
          cp_reason = truncate_opt (python_str repr (get_member decision ''reason'')) 300,
          cp_url = truncate_opt (python_str repr (json_or (get_member after ''url'') (get_member observation ''url''))) 2000,
          cp_title = truncate_opt (python_str repr (json_or (get_member after ''title'') (get_member observation ''title''))) 500,
          cp_error = truncate_opt (sr_error result) 500\<rparr>)"

definition reported_error :: "agent_result \<Rightarrow> string" where
  "reported_error result =
     (let reasons = List.map_filter
            (\<lambda>step. if sr_status step = StepError \<and> truthy (sr_error step) then sr_error step else None)
            (result_steps result)
      in truncate_text 500
           (if reasons = [] then ''the agent reported an error without a reason'' else last reasons))"

definition is_resumable :: "job_record \<Rightarrow> bool" where
  "is_resumable r \<longleftrightarrow>
     (if jr_kind r \<noteq> AgentRun then False
      else if jr_status r \<in> {JInterrupted, JFailed} then True
      else if jr_status r \<noteq> JCompleted then False
      else case jr_result r of
        None \<Rightarrow> False
      | Some result \<Rightarrow> result_status result \<in> {MaxStepsReached, EndedAs ApprovalRequired, EndedAs StepError})"

record public_job =
  pj_record :: job_record
  pj_checkpoint_count :: nat
  pj_resumable :: bool

definition public_record :: "job_record \<Rightarrow> public_job" where
  "public_record r =
     \<lparr>pj_record = r, pj_checkpoint_count = length (jr_checkpoints r), pj_resumable = is_resumable r\<rparr>"

section \<open>The context of a resumed job\<close>

definition RESUME_CONTEXT_PREFIX :: string where
  "RESUME_CONTEXT_PREFIX = ''Resuming background agent job''"

definition RESUME_CONTEXT_MIN_CHARS :: nat where
  "RESUME_CONTEXT_MIN_CHARS = 1000"

definition line_break :: string where
  "line_break = [char_of (10 :: nat)]"

fun join_with :: "string \<Rightarrow> string list \<Rightarrow> string" where
  "join_with sep [] = []"
| "join_with sep [x] = x"
| "join_with sep (x # y # rest) = x @ sep @ join_with sep (y # rest)"

definition step_line :: "job_checkpoint \<Rightarrow> string" where
  "step_line c =
     (let action = the_default ''unknown'' (or_none (cp_action c));
          shown = (if truthy (cp_url c) then cp_url c else cp_title c);
          location = the_default ''current page'' (or_none (truncate_opt shown 200))
      in decimal (cp_step_index c) @ ''. '' @ step_status_name (cp_status c) @ '' '' @ action @ '' at '' @ location)"

definition resume_context :: "job_record \<Rightarrow> string" where
  "resume_context r =
     (if jr_checkpoints r = [] then
        RESUME_CONTEXT_PREFIX @ '' '' @ jr_id r @ ''. No completed step checkpoints were recorded; '' @
        ''continue from the current browser state and avoid repeating completed work when visible.''
      else
        let latest = last (jr_checkpoints r);
            recent = drop (length (jr_checkpoints r) - 6) (jr_checkpoints r);
            step_lines = map step_line recent
        in RESUME_CONTEXT_PREFIX @ '' '' @ jr_id r @ '' after '' @ decimal (length (jr_checkpoints r)) @
           '' completed step(s). Latest checkpoint: status='' @ step_status_name (cp_status latest) @ '', action='' @
           the_default ''unknown'' (or_none (cp_action latest)) @ '', url='' @
           the_default ''unknown'' (or_none (truncate_opt (cp_url latest) 500)) @
           ''. Continue from the current browser state; do not repeat completed '' @
           ''actions unless the page state requires it.'' @ line_break @ ''Completed checkpoints:'' @ line_break @
           join_with line_break step_lines)"

definition merge_context_hints :: "string option \<Rightarrow> string \<Rightarrow> string" where
  "merge_context_hints existing context' =
     (let operator_hints = py_strip (fst (partition_text RESUME_CONTEXT_PREFIX (the_default [] existing))) in
      if operator_hints = [] then take CONTEXT_HINTS_MAX_CHARS context'
      else
        let operator_hints = take (CONTEXT_HINTS_MAX_CHARS - 2 - RESUME_CONTEXT_MIN_CHARS) operator_hints;
            budget = CONTEXT_HINTS_MAX_CHARS - 2 - length operator_hints
        in operator_hints @ line_break @ line_break @ take budget context')"

datatype resume_error = NotResumable | RequestInvalid

definition resumed_request ::
  "(string \<Rightarrow> string) \<Rightarrow> int option \<Rightarrow> job_record \<Rightarrow> resume_error + agent_request" where
  "resumed_request trim max_steps source =
     (if \<not> is_resumable source then Inl NotResumable
      else case validate_request trim AgentRun (jr_request source) of
        None \<Rightarrow> Inl RequestInvalid
      | Some payload \<Rightarrow>
          let completed_steps = int (length (jr_checkpoints source));
              remaining_steps = max 1 (the_default 6 (rq_max_steps payload) - completed_steps)
          in Inr (payload\<lparr>rq_max_steps := Some (if max_steps = None \<or> max_steps = Some 0 then remaining_steps
                                                 else the max_steps),
                         rq_context_hints := Some (merge_context_hints (rq_context_hints payload)
                                                    (resume_context source))\<rparr>))"

section \<open>What merging keeps\<close>

lemma has_prefix_app: "has_prefix p s \<longleftrightarrow> (\<exists>rest. s = p @ rest)"
  unfolding has_prefix_def by (metis append_eq_conv_conj append_take_drop_id)

definition occurs :: "string \<Rightarrow> string \<Rightarrow> bool" where
  "occurs p s \<longleftrightarrow> (\<exists>a b. s = a @ p @ b)"

lemma occurs_Cons: "occurs p (c # s) \<longleftrightarrow> has_prefix p (c # s) \<or> occurs p s"
proof
  assume "occurs p (c # s)"
  then obtain a b where ab: "c # s = a @ p @ b" by (auto simp: occurs_def)
  show "has_prefix p (c # s) \<or> occurs p s"
  proof (cases a)
    case Nil
    with ab show ?thesis by (auto simp: has_prefix_app)
  next
    case (Cons x a')
    with ab have "s = a' @ p @ b" by simp
    then show ?thesis by (auto simp: occurs_def)
  qed
next
  assume "has_prefix p (c # s) \<or> occurs p s"
  then show "occurs p (c # s)"
    unfolding occurs_def has_prefix_app by (metis append.left_neutral append_Cons)
qed

lemma occurs_at_start: "occurs p (p @ rest)"
  unfolding occurs_def by (metis append.left_neutral)

lemma occurs_within: "occurs p s \<Longrightarrow> occurs p (a @ s @ b)"
  unfolding occurs_def by (metis append.assoc)

lemma front_is_prefix: "has_prefix (fst (partition_text p s)) s"
proof (induction s)
  case (Cons c s)
  then show ?case by (auto simp: has_prefix_app split: prod.splits)
qed (simp add: has_prefix_def)

lemma front_has_none: "p \<noteq> [] \<Longrightarrow> \<not> occurs p (fst (partition_text p s))"
proof (induction s)
  case (Cons c s)
  show ?case
  proof (cases "has_prefix p (c # s)")
    case False
    with front_is_prefix [of p s] have "\<not> has_prefix p (c # fst (partition_text p s))"
      unfolding has_prefix_app by (metis append_Cons append_assoc)
    with Cons False show ?thesis by (simp add: occurs_Cons split_beta)
  qed (use Cons.prems in \<open>simp add: occurs_def\<close>)
qed (simp add: occurs_def)

text \<open>A text without the separator, ended by a character the separator does not have, is the front.\<close>

lemma front_before_break:
  assumes "c \<notin> set p" and "p \<noteq> []" and "\<not> occurs p h"
  shows "fst (partition_text p (h @ c # c # p @ rest)) = h @ [c, c]"
  using assms(3)
proof (induction h)
  case Nil
  have no: "\<not> has_prefix p (c # x)" for x
    using assms(1,2) by (cases p) (auto simp: has_prefix_app)
  have "partition_text p (p @ rest) = ([], True, rest)"
    using assms(2) by (cases p) (simp_all add: has_prefix_def)
  with no show ?case by simp
next
  case (Cons d h)
  have "\<not> has_prefix p (d # h @ c # c # p @ rest)"
  proof
    assume "has_prefix p (d # h @ c # c # p @ rest)"
    then obtain r where r: "(d # h) @ c # c # p @ rest = p @ r" by (auto simp: has_prefix_app)
    then consider us where "d # h = p @ us" | us where "p = (d # h) @ us" "us @ r = c # c # p @ rest"
      unfolding append_eq_append_conv2 by metis
    then show False
    proof cases
      case 1
      with Cons.prems show ?thesis by (simp add: occurs_at_start)
    next
      case 2
      then have "us = []" using assms(1) by (cases us) auto
      with 2 have "d # h = p @ []" by simp
      with Cons.prems show ?thesis using occurs_at_start [of p "[]"] by simp
    qed
  qed
  with Cons show ?case by (simp add: occurs_Cons split_beta)
qed

lemma py_strip_within: "\<exists>a b. s = a @ py_strip s @ b"
proof -
  obtain a where a: "s = a @ dropWhile py_space s" by (metis takeWhile_dropWhile_id)
  obtain b where "rev (dropWhile py_space s) = b @ dropWhile py_space (rev (dropWhile py_space s))"
    by (metis takeWhile_dropWhile_id)
  then have "dropWhile py_space s = py_strip s @ rev b"
    by (metis py_strip_def rev_append rev_rev_ident)
  with a show ?thesis by metis
qed

lemma py_strip_ends:
  assumes "py_strip s \<noteq> []"
  shows "\<not> py_space (hd (py_strip s))" and "\<not> py_space (last (py_strip s))"
proof -
  let ?d = "dropWhile py_space s"
  have r: "py_strip s = rev (dropWhile py_space (rev ?d))" by (simp add: py_strip_def)
  with assms have ne: "dropWhile py_space (rev ?d) \<noteq> []" by auto
  show "\<not> py_space (last (py_strip s))" using hd_dropWhile [OF ne] by (simp add: r last_rev)
  have "\<exists>x. ?d = py_strip s @ x"
    unfolding r by (metis rev_append rev_rev_ident takeWhile_dropWhile_id)
  then obtain x where x: "?d = py_strip s @ x" by blast
  then have "?d \<noteq> []" using assms by auto
  from hd_dropWhile [OF this] show "\<not> py_space (hd (py_strip s))" using x assms by (simp add: hd_append)
qed

lemma py_strip_breaks:
  assumes "py_strip s \<noteq> []"
  shows "py_strip (py_strip s @ line_break @ line_break) = py_strip s"
proof -
  have sp: "py_space (char_of (10 :: nat))" by code_simp
  note ends = py_strip_ends [OF assms]
  have "dropWhile py_space (py_strip s @ line_break @ line_break) = py_strip s @ line_break @ line_break"
    using ends assms by (intro dropWhile_hd) (simp add: hd_append)
  then have "py_strip (py_strip s @ line_break @ line_break) = rev (dropWhile py_space (rev (py_strip s)))"
    using sp by (subst py_strip_def) (simp add: line_break_def)
  also have "\<dots> = py_strip s"
    using ends assms by (subst dropWhile_hd) (auto simp: hd_rev)
  finally show ?thesis .
qed

definition operator_part :: "string option \<Rightarrow> string" where
  "operator_part hints = py_strip (fst (partition_text RESUME_CONTEXT_PREFIX (the_default [] hints)))"

lemma resume_context_prefix: "\<exists>rest. resume_context r = RESUME_CONTEXT_PREFIX @ rest"
  by (simp add: resume_context_def Let_def)

lemma merge_short: "length (merge_context_hints hints context') \<le> CONTEXT_HINTS_MAX_CHARS"
  by (auto simp: merge_context_hints_def CONTEXT_HINTS_MAX_CHARS_def RESUME_CONTEXT_MIN_CHARS_def line_break_def Let_def)

lemma prefix_kept: "length p \<le> n \<Longrightarrow> \<exists>rest. take n (p @ x) = p @ rest"
  by (simp add: take_append)

lemma operator_part_no_block: "\<not> occurs RESUME_CONTEXT_PREFIX (operator_part hints)"
proof
  assume occ: "occurs RESUME_CONTEXT_PREFIX (operator_part hints)"
  let ?front = "fst (partition_text RESUME_CONTEXT_PREFIX (the_default [] hints))"
  obtain a b where "?front = a @ operator_part hints @ b"
    unfolding operator_part_def using py_strip_within by blast
  with occ have "occurs RESUME_CONTEXT_PREFIX ?front" by (metis occurs_within)
  then show False using front_has_none by (simp add: RESUME_CONTEXT_PREFIX_def)
qed

text \<open>Merging into merged hints finds the operator's part again.\<close>

lemma operator_part_merge:
  assumes "length (operator_part hints) \<le> CONTEXT_HINTS_MAX_CHARS - 2 - RESUME_CONTEXT_MIN_CHARS"
  shows "operator_part (Some (merge_context_hints hints (RESUME_CONTEXT_PREFIX @ c))) = operator_part hints"
proof (cases "operator_part hints = []")
  case True
  obtain rest where "merge_context_hints hints (RESUME_CONTEXT_PREFIX @ c) = RESUME_CONTEXT_PREFIX @ rest"
    using True prefix_kept [of RESUME_CONTEXT_PREFIX CONTEXT_HINTS_MAX_CHARS c]
    unfolding merge_context_hints_def operator_part_def [symmetric]
    by (auto simp: CONTEXT_HINTS_MAX_CHARS_def RESUME_CONTEXT_PREFIX_def)
  then show ?thesis
    using True by (simp add: operator_part_def the_default_def RESUME_CONTEXT_PREFIX_def has_prefix_def py_strip_def)
next
  case False
  let ?h = "operator_part hints" and ?nl = "char_of (10 :: nat)"
  have "length RESUME_CONTEXT_PREFIX \<le> CONTEXT_HINTS_MAX_CHARS - 2 - length ?h"
    using assms by (simp add: CONTEXT_HINTS_MAX_CHARS_def RESUME_CONTEXT_MIN_CHARS_def RESUME_CONTEXT_PREFIX_def)
  then obtain rest where rest: "take (CONTEXT_HINTS_MAX_CHARS - 2 - length ?h) (RESUME_CONTEXT_PREFIX @ c) =
      RESUME_CONTEXT_PREFIX @ rest"
    using prefix_kept by blast
  have m: "merge_context_hints hints (RESUME_CONTEXT_PREFIX @ c) = ?h @ ?nl # ?nl # RESUME_CONTEXT_PREFIX @ rest"
    using False assms rest
    by (simp add: merge_context_hints_def operator_part_def [symmetric] Let_def line_break_def)
  have "fst (partition_text RESUME_CONTEXT_PREFIX (?h @ ?nl # ?nl # RESUME_CONTEXT_PREFIX @ rest)) = ?h @ [?nl, ?nl]"
    by (intro front_before_break operator_part_no_block) (code_simp, simp add: RESUME_CONTEXT_PREFIX_def)
  moreover have "py_strip (?h @ [?nl, ?nl]) = ?h"
    using py_strip_breaks [of "fst (partition_text RESUME_CONTEXT_PREFIX (the_default [] hints))"] False
    by (simp add: operator_part_def line_break_def)
  moreover have "operator_part (Some t) = py_strip (fst (partition_text RESUME_CONTEXT_PREFIX t))" for t
    by (simp add: operator_part_def the_default_def)
  ultimately show ?thesis by (simp add: m)
qed

lemma merge_by_part:
  "operator_part hints = operator_part hints' \<Longrightarrow> merge_context_hints hints c = merge_context_hints hints' c"
  by (simp add: merge_context_hints_def operator_part_def [symmetric])

text \<open>
  hints that have been through one resume merge with a later resume's context exactly as the operator's
  own hints would: the earlier resume's block is gone, the operator's text is whole, and the limit holds.
\<close>

lemma resume_replaces_its_block:
  assumes "length (operator_part hints) \<le> CONTEXT_HINTS_MAX_CHARS - 2 - RESUME_CONTEXT_MIN_CHARS"
  shows "merge_context_hints (Some (merge_context_hints hints (resume_context r))) (resume_context r') =
      merge_context_hints hints (resume_context r') \<and>
    length (merge_context_hints hints (resume_context r')) \<le> CONTEXT_HINTS_MAX_CHARS"
proof -
  obtain c where c: "resume_context r = RESUME_CONTEXT_PREFIX @ c" using resume_context_prefix by blast
  show ?thesis
    using merge_by_part [OF operator_part_merge [OF assms]] merge_short unfolding c by blast
qed

lemma validated_goal:
  "validate_request trim kind rq = Some rq' \<Longrightarrow> rq_goal rq' = trim (rq_goal rq) \<and> rq_workflow_profile rq' = rq_workflow_profile rq"
  by (auto simp: validate_request_def stripped_request_def Let_def split: job_kind.splits if_splits)

text \<open>
  the request of a resumed job, which the worker validates again when it picks the job up, validates
  then too, for the same goal and under the same workflow profile.
\<close>

lemma resumed_request_validates:
  assumes shorter: "\<And>s. length (trim s) \<le> length s" and idem: "\<And>s. trim (trim s) = trim s"
    and steps: "max_steps = None \<or> (\<exists>m. max_steps = Some m \<and> 1 \<le> m \<and> m \<le> AGENT_RUN_MAX_STEPS)"
    and resumed: "resumed_request trim max_steps source = Inr rq"
  shows "\<exists>rq'. validate_request trim AgentRun rq = Some rq' \<and> rq_goal rq' = trim (rq_goal (jr_request source)) \<and>
    rq_workflow_profile rq' = rq_workflow_profile (jr_request source)"
proof -
  from resumed obtain p where p: "validate_request trim AgentRun (jr_request source) = Some p"
    and rq: "rq = p\<lparr>rq_max_steps := rq_max_steps rq, rq_context_hints := Some (merge_context_hints (rq_context_hints p) (resume_context source))\<rparr>"
    and ms: "rq_max_steps rq = Some (if max_steps = None \<or> max_steps = Some 0
      then max 1 (the_default 6 (rq_max_steps p) - int (length (jr_checkpoints source))) else the max_steps)"
    by (auto simp: resumed_request_def Let_def split: if_splits option.splits)
  from p obtain m where m: "rq_max_steps p = Some m" "1 \<le> m" "m \<le> AGENT_RUN_MAX_STEPS"
    and ok: "request_ok (stripped_request trim (jr_request source))"
    and pq: "p = (stripped_request trim (jr_request source))\<lparr>rq_max_steps := Some m\<rparr>"
    by (auto simp: validate_request_def Let_def split: if_splits)
  have "length (trim (merge_context_hints (rq_context_hints p) (resume_context source))) \<le> CONTEXT_HINTS_MAX_CHARS"
    using shorter merge_short order_trans by blast
  then have "request_ok (stripped_request trim rq)"
    using ok by (subst rq) (simp add: pq request_ok_def stripped_request_def idem opt_all_def option.map_comp comp_def)
  moreover have "\<exists>n. rq_max_steps rq = Some n \<and> 1 \<le> n \<and> n \<le> AGENT_RUN_MAX_STEPS"
    using steps m ms by (auto simp: the_default_def AGENT_RUN_MAX_STEPS_def)
  ultimately obtain rq' where v: "validate_request trim AgentRun rq = Some rq'"
    by (auto simp: validate_request_def Let_def the_default_def)
  have "rq_goal rq = trim (rq_goal (jr_request source)) \<and> rq_workflow_profile rq = rq_workflow_profile (jr_request source)"
    by (subst (1 2) rq) (simp add: pq stripped_request_def)
  with validated_goal [OF v] v idem show ?thesis by auto
qed

section \<open>A sample job\<close>

lemma py_strip_idem: "py_strip (py_strip s) = py_strip s"
  using py_strip_ends [of s] by (intro py_strip_id) auto

lemma py_strip_shorter: "length (py_strip s) \<le> length s"
  using py_strip_within [of s] by (metis le_add1 le_add2 le_trans length_append)

definition sample_run_request :: agent_request where
  "sample_run_request = \<lparr>rq_provider = ''openai'', rq_goal = ''buy milk'', rq_provider_model = None, rq_workflow_profile = Governed,
     rq_observation_limit = 40, rq_context_hints = Some ''use tab 2'', rq_upload_approved = False, rq_approval_id = None,
     rq_max_steps = Some 3\<rparr>"

definition sample_checkpoint :: job_checkpoint where
  "sample_checkpoint = \<lparr>cp_step_index = 1, cp_created_at = 0, cp_status = Acted, cp_action = Some ''click'', cp_reason = None,
     cp_url = Some ''https://shop.example/'', cp_title = None, cp_error = None\<rparr>"

definition sample_job :: job_record where
  "sample_job = \<lparr>jr_id = ''job1'', jr_session_id = ''s1'', jr_kind = AgentRun, jr_status = JInterrupted, jr_created_at = 0,
     jr_updated_at = 0, jr_request = sample_run_request, jr_parent_job_id = None, jr_checkpoints = [sample_checkpoint],
     jr_operator = None, jr_result = None, jr_error = None\<rparr>"

lemma resume_replaces_its_block_witness:
  "merge_context_hints (Some (merge_context_hints (Some '' use tab 2 '') (resume_context sample_job)))
     (resume_context (sample_job\<lparr>jr_checkpoints := []\<rparr>)) =
   merge_context_hints (Some '' use tab 2 '') (resume_context (sample_job\<lparr>jr_checkpoints := []\<rparr>))"
proof -
  have "operator_part (Some '' use tab 2 '') = ''use tab 2''" by code_simp
  then have "length (operator_part (Some '' use tab 2 '')) \<le> CONTEXT_HINTS_MAX_CHARS - 2 - RESUME_CONTEXT_MIN_CHARS"
    by (simp add: CONTEXT_HINTS_MAX_CHARS_def RESUME_CONTEXT_MIN_CHARS_def)
  then show ?thesis using resume_replaces_its_block by blast
qed

lemma resumed_request_validates_witness:
  "\<exists>rq rq'. resumed_request py_strip (Some 5) sample_job = Inr rq \<and> validate_request py_strip AgentRun rq = Some rq' \<and>
     rq_goal rq' = ''buy milk''"
proof -
  have goal: "py_strip ''buy milk'' = ''buy milk''" by code_simp
  have valid: "validate_request py_strip AgentRun sample_run_request \<noteq> None" by code_simp
  then obtain p where "validate_request py_strip AgentRun sample_run_request = Some p" by blast
  then obtain rq where rq: "resumed_request py_strip (Some 5) sample_job = Inr rq"
    by (simp add: resumed_request_def is_resumable_def sample_job_def Let_def)
  show ?thesis
    using resumed_request_validates [of py_strip "Some 5" sample_job rq] rq
    by (auto simp: py_strip_shorter py_strip_idem AGENT_RUN_MAX_STEPS_def sample_job_def sample_run_request_def goal)
qed

end
