(* ===== verification/CronStore.thy ===== *)
theory CronStore
  imports JobRecords
begin

text \<open>
  Cron jobs as they are stored and managed (cron_service.py): one JSON file for all of them, moved aside when
  it is corrupt, and the calls that create, list, read, change and delete a job. What parses a cron expression
  (APScheduler) and what decides about an auth profile (the browser manager) are parameters.
\<close>

text \<open>
  A job's dict. Fields an older version did not write, or a hand edit left out, are options; \<open>None\<close> in
  \<open>cj_enabled\<close> and \<open>cj_workflow_profile\<close> is an absent key.
\<close>

record cron_job =
  cj_id :: string
  cj_name :: string
  cj_provider :: "string option"
  cj_schedule :: "string option"
  cj_enabled :: "bool option"
  cj_webhook_key :: "string option"
  cj_goal :: string
  cj_start_url :: "string option"
  cj_auth_profile :: "string option"
  cj_proxy_persona :: "string option"
  cj_max_steps :: "int option"
  cj_workflow_profile :: "workflow_profile option"
  cj_owner :: "string option"
  cj_created_at :: stamp
  cj_last_run_at :: "stamp option"
  cj_last_status :: "string option"
  cj_run_count :: int

type_synonym cron_jobs = "(string \<times> cron_job) list"

text \<open>What a read of the store finds: nothing, an error of the file system, a file that does not hold an object, the jobs.\<close>

datatype cron_file = NoStore | BlockedStore cron_jobs | CorruptStore string | StoredJobs cron_jobs

record cron_service =
  cs_file :: cron_file
  cs_quarantined :: "(int \<times> string) list"     \<comment> \<open>by the second in their names\<close>
  cs_scheduler :: "string list option"           \<comment> \<open>the registered ids, once the scheduler runs\<close>
  cs_max_jobs :: nat

datatype cron_error =
    CronUnreadable | CronLimit nat | CronNotFound string | InvalidSchedule string | ProfileRefused string
  | WebhookDisabled | InvalidWebhookKey | CronDisabled | CronSaveFailed | RequestRejected

section \<open>The file\<close>

definition second_of :: "stamp \<Rightarrow> int" where
  "second_of now = now div 1000000"

text \<open>\<open>moved\<close>: whether the rename of a corrupt file succeeds.\<close>

definition load_cron :: "bool \<Rightarrow> stamp \<Rightarrow> cron_service \<Rightarrow> cron_service \<times> (cron_error + cron_jobs)" where
  "load_cron moved now s =
     (case cs_file s of
        NoStore \<Rightarrow> (s, Inr [])
      | BlockedStore jobs \<Rightarrow> (s, Inl CronUnreadable)
      | CorruptStore data \<Rightarrow>
          (if moved then s\<lparr>cs_file := NoStore, cs_quarantined := AList.update (second_of now) data (cs_quarantined s)\<rparr>
           else s, Inl CronUnreadable)
      | StoredJobs jobs \<Rightarrow> (s, Inr jobs))"

definition save_cron :: "bool \<Rightarrow> cron_jobs \<Rightarrow> cron_service \<Rightarrow> cron_error + cron_service" where
  "save_cron ok jobs s = (if ok then Inr (s\<lparr>cs_file := StoredJobs jobs\<rparr>) else Inl CronSaveFailed)"

section \<open>What a caller sees\<close>

record cron_view =
  cv_job :: cron_job
  cv_webhook_enabled :: bool
  cv_webhook_key_preview :: "string option"
  cv_webhook_key :: "string option"              \<comment> \<open>only in the answer to a creation\<close>

definition safe_job :: "cron_job \<Rightarrow> cron_view" where
  "safe_job j =
     \<lparr>cv_job = j\<lparr>cj_webhook_key := None\<rparr>, cv_webhook_enabled = truthy (cj_webhook_key j),
      cv_webhook_key_preview = (if truthy (cj_webhook_key j) then Some (take 8 (the (cj_webhook_key j)) @ ''...'') else None),
      cv_webhook_key = None\<rparr>"

definition accessible_cron :: "operator_var \<Rightarrow> cron_jobs \<Rightarrow> string \<Rightarrow> cron_error + cron_job" where
  "accessible_cron cur jobs job_id =
     (case map_of jobs job_id of
        None \<Rightarrow> Inl (CronNotFound job_id)
      | Some j \<Rightarrow> if may_use cur (cj_owner j) then Inr j else Inl (CronNotFound job_id))"

record cron_env =
  ce_apscheduler :: bool                                     \<comment> \<open>APScheduler is installed\<close>
  ce_schedule_ok :: "string \<Rightarrow> bool"                         \<comment> \<open>\<open>CronTrigger.from_crontab\<close> parses it\<close>
  ce_profile_access :: "operator_var \<Rightarrow> string \<Rightarrow> bool"
  ce_moved :: bool
  ce_save_ok :: bool
  ce_now :: stamp

definition validate_schedule :: "cron_env \<Rightarrow> string option \<Rightarrow> cron_error option" where
  "validate_schedule env schedule =
     (if \<not> truthy schedule \<or> \<not> ce_apscheduler env then None
      else if ce_schedule_ok env (the schedule) then None else Some (InvalidSchedule (the schedule)))"

definition as_owner :: "string option \<Rightarrow> (operator_var \<Rightarrow> 'r) \<Rightarrow> operator_var \<Rightarrow> 'r" where
  "as_owner owner block cur =
     fst (acting_as (Some (case owner_identity owner of None \<Rightarrow> ANONYMOUS | Some i \<Rightarrow> i)) (\<lambda>v. (block v, v)) cur)"

definition require_profile_access :: "cron_env \<Rightarrow> string option \<Rightarrow> string option \<Rightarrow> operator_var \<Rightarrow> cron_error option" where
  "require_profile_access env auth_profile owner cur =
     (if \<not> truthy auth_profile then None
      else if as_owner owner (\<lambda>v. ce_profile_access env v (the auth_profile)) cur then None
      else Some (ProfileRefused (the auth_profile)))"

text \<open>A job is registered with the scheduler when it is enabled and its expression parses (else it is only logged).\<close>

definition registered_if_due :: "cron_env \<Rightarrow> cron_job \<Rightarrow> string list \<Rightarrow> string list" where
  "registered_if_due env j ids =
     (if cj_enabled j = Some True \<and> truthy (cj_schedule j) \<and> ce_schedule_ok env (the (cj_schedule j))
      then cj_id j # filter (\<lambda>i. i \<noteq> cj_id j) ids else ids)"

section \<open>The calls\<close>

definition start_cron :: "cron_env \<Rightarrow> cron_service \<Rightarrow> cron_service \<times> cron_error option" where
  "start_cron env s =
     (case load_cron (ce_moved env) (ce_now env) s of
        (s', Inl e) \<Rightarrow> (s', Some e)
      | (s', Inr jobs) \<Rightarrow>
          (s'\<lparr>cs_scheduler := (if ce_apscheduler env then Some (foldr (registered_if_due env) (map snd jobs) []) else None)\<rparr>, None))"

definition create_cron ::
  "cron_env \<Rightarrow> operator_var \<Rightarrow> cron_job \<Rightarrow> string option \<Rightarrow> cron_service \<Rightarrow> cron_service \<times> (cron_error + cron_view)" where
  "create_cron env cur asked webhook_key s =
     (case validate_schedule env (cj_schedule asked) of
        Some e \<Rightarrow> (s, Inl e)
      | None \<Rightarrow>
     (case require_profile_access env (cj_auth_profile asked) (verified_operator cur) cur of
        Some e \<Rightarrow> (s, Inl e)
      | None \<Rightarrow>
     (case load_cron (ce_moved env) (ce_now env) s of
        (s', Inl e) \<Rightarrow> (s', Inl e)
      | (s', Inr jobs) \<Rightarrow>
          if cs_max_jobs s \<le> length jobs then (s', Inl (CronLimit (cs_max_jobs s)))
          else
            let job = asked\<lparr>cj_webhook_key := webhook_key, cj_owner := verified_operator cur, cj_created_at := ce_now env,
                            cj_last_run_at := None, cj_last_status := None, cj_run_count := 0\<rparr> in
            case save_cron (ce_save_ok env) (AList.update (cj_id job) job jobs) s' of
              Inl e \<Rightarrow> (s', Inl e)
            | Inr s'' \<Rightarrow>
                (s''\<lparr>cs_scheduler := map_option (registered_if_due env job) (cs_scheduler s'')\<rparr>,
                 Inr ((safe_job job)\<lparr>cv_webhook_key := or_none webhook_key\<rparr>)))))"

definition list_cron :: "cron_env \<Rightarrow> operator_var \<Rightarrow> cron_service \<Rightarrow> cron_service \<times> (cron_error + cron_view list)" where
  "list_cron env cur s =
     (case load_cron (ce_moved env) (ce_now env) s of
        (s', Inl e) \<Rightarrow> (s', Inl e)
      | (s', Inr jobs) \<Rightarrow> (s', Inr (map safe_job (filter (\<lambda>j. may_use cur (cj_owner j)) (map snd jobs)))))"

definition get_cron :: "cron_env \<Rightarrow> operator_var \<Rightarrow> string \<Rightarrow> cron_service \<Rightarrow> cron_service \<times> (cron_error + cron_view)" where
  "get_cron env cur job_id s =
     (case load_cron (ce_moved env) (ce_now env) s of
        (s', Inl e) \<Rightarrow> (s', Inl e)
      | (s', Inr jobs) \<Rightarrow>
          (s', case accessible_cron cur jobs job_id of Inl e \<Rightarrow> Inl e | Inr j \<Rightarrow> Inr (safe_job j)))"

text \<open>One entry of the updates; a key that may not be changed is ignored.\<close>

datatype cron_update =
    SetName string | SetGoal string | SetProvider "string option" | SetSchedule "string option" | SetEnabled bool
  | SetStartUrl "string option" | SetAuthProfile "string option" | SetProxyPersona "string option"
  | SetMaxSteps "int option" | OtherKey string

fun apply_update :: "cron_update \<Rightarrow> cron_job \<Rightarrow> cron_job" where
  "apply_update (SetName v) j = j\<lparr>cj_name := v\<rparr>"
| "apply_update (SetGoal v) j = j\<lparr>cj_goal := v\<rparr>"
| "apply_update (SetProvider v) j = j\<lparr>cj_provider := v\<rparr>"
| "apply_update (SetSchedule v) j = j\<lparr>cj_schedule := v\<rparr>"
| "apply_update (SetEnabled v) j = j\<lparr>cj_enabled := Some v\<rparr>"
| "apply_update (SetStartUrl v) j = j\<lparr>cj_start_url := v\<rparr>"
| "apply_update (SetAuthProfile v) j = j\<lparr>cj_auth_profile := v\<rparr>"
| "apply_update (SetProxyPersona v) j = j\<lparr>cj_proxy_persona := v\<rparr>"
| "apply_update (SetMaxSteps v) j = j\<lparr>cj_max_steps := v\<rparr>"
| "apply_update (OtherKey k) j = j"

fun first_error :: "cron_error option list \<Rightarrow> cron_error option" where
  "first_error [] = None"
| "first_error (Some e # rest) = Some e"
| "first_error (None # rest) = first_error rest"

definition update_cron ::
  "cron_env \<Rightarrow> operator_var \<Rightarrow> string \<Rightarrow> cron_update list \<Rightarrow> cron_service \<Rightarrow> cron_service \<times> (cron_error + cron_view)" where
  "update_cron env cur job_id updates s =
     (case first_error (map (\<lambda>u. case u of SetSchedule v \<Rightarrow> validate_schedule env v | _ \<Rightarrow> None) updates) of
        Some e \<Rightarrow> (s, Inl e)
      | None \<Rightarrow>
     (case load_cron (ce_moved env) (ce_now env) s of
        (s', Inl e) \<Rightarrow> (s', Inl e)
      | (s', Inr jobs) \<Rightarrow>
     (case accessible_cron cur jobs job_id of
        Inl e \<Rightarrow> (s', Inl e)
      | Inr j \<Rightarrow>
     (case first_error (map (\<lambda>u. case u of SetAuthProfile v \<Rightarrow> require_profile_access env v (cj_owner j) cur | _ \<Rightarrow> None) updates) of
        Some e \<Rightarrow> (s', Inl e)
      | None \<Rightarrow>
          let job = fold apply_update updates j in
          case save_cron (ce_save_ok env) (AList.update job_id job jobs) s' of
            Inl e \<Rightarrow> (s', Inl e)
          | Inr s'' \<Rightarrow>
              (s''\<lparr>cs_scheduler := map_option (\<lambda>ids. registered_if_due env job (filter (\<lambda>i. i \<noteq> job_id) ids)) (cs_scheduler s'')\<rparr>,
               Inr (safe_job job))))))"

definition delete_cron :: "cron_env \<Rightarrow> operator_var \<Rightarrow> string \<Rightarrow> cron_service \<Rightarrow> cron_service \<times> (cron_error + bool)" where
  "delete_cron env cur job_id s =
     (case load_cron (ce_moved env) (ce_now env) s of
        (s', Inl e) \<Rightarrow> (s', Inl e)
      | (s', Inr jobs) \<Rightarrow>
     (case accessible_cron cur jobs job_id of
        Inl e \<Rightarrow> (s', Inr False)
      | Inr _ \<Rightarrow>
     (case save_cron (ce_save_ok env) (AList.delete job_id jobs) s' of
        Inl e \<Rightarrow> (s', Inl e)
      | Inr s'' \<Rightarrow> (s''\<lparr>cs_scheduler := map_option (filter (\<lambda>i. i \<noteq> job_id)) (cs_scheduler s'')\<rparr>, Inr True))))"

text \<open>The job a webhook call may run: its key decides, not the caller's operator.\<close>

definition webhook_job :: "cron_env \<Rightarrow> string \<Rightarrow> string \<Rightarrow> cron_service \<Rightarrow> cron_service \<times> (cron_error + cron_job)" where
  "webhook_job env job_id webhook_key s =
     (case load_cron (ce_moved env) (ce_now env) s of
        (s', Inl e) \<Rightarrow> (s', Inl e)
      | (s', Inr jobs) \<Rightarrow>
          (s', case map_of jobs job_id of
                 None \<Rightarrow> Inl (CronNotFound job_id)
               | Some j \<Rightarrow>
                   if \<not> truthy (cj_webhook_key j) then Inl WebhookDisabled
                   else if webhook_key \<noteq> the (cj_webhook_key j) then Inl InvalidWebhookKey
                   else Inr j))"

definition triggered_job :: "cron_env \<Rightarrow> operator_var \<Rightarrow> string \<Rightarrow> cron_service \<Rightarrow> cron_service \<times> (cron_error + cron_job)" where
  "triggered_job env cur job_id s =
     (case load_cron (ce_moved env) (ce_now env) s of
        (s', Inl e) \<Rightarrow> (s', Inl e)
      | (s', Inr jobs) \<Rightarrow> (s', accessible_cron cur jobs job_id))"

text \<open>A scheduled fire: a job gone from the store is dropped.\<close>

definition scheduled_job :: "cron_env \<Rightarrow> string \<Rightarrow> cron_service \<Rightarrow> cron_service \<times> cron_job option" where
  "scheduled_job env job_id s =
     (case load_cron (ce_moved env) (ce_now env) s of
        (s', Inl e) \<Rightarrow> (s', None)
      | (s', Inr jobs) \<Rightarrow> (s', map_of jobs job_id))"

text \<open>The request a run is queued with, built before its session exists.\<close>

definition cron_request :: "(string \<Rightarrow> string) \<Rightarrow> cron_job \<Rightarrow> cron_error + agent_request" where
  "cron_request trim j =
     (if cj_enabled j = Some False then Inl CronDisabled
      else
        let steps = (case cj_max_steps j of None \<Rightarrow> 20 | Some n \<Rightarrow> if n = 0 then 20 else n);
            asked = \<lparr>rq_provider = the_default ''openai'' (or_none (cj_provider j)), rq_goal = cj_goal j, rq_provider_model = None,
                     rq_workflow_profile = the_default Fast (cj_workflow_profile j), rq_observation_limit = 40,
                     rq_context_hints = None, rq_upload_approved = False, rq_approval_id = None,
                     rq_max_steps = Some (min steps AGENT_RUN_MAX_STEPS)\<rparr>
        in case validate_request trim AgentRun asked of None \<Rightarrow> Inl RequestRejected | Some rq \<Rightarrow> Inr rq)"

text \<open>The metadata after a run was queued; a job deleted meanwhile is left alone.\<close>

definition note_run :: "cron_env \<Rightarrow> string \<Rightarrow> cron_service \<Rightarrow> cron_service \<times> cron_error option" where
  "note_run env job_id s =
     (case load_cron (ce_moved env) (ce_now env) s of
        (s', Inl e) \<Rightarrow> (s', Some e)
      | (s', Inr jobs) \<Rightarrow>
         (case map_of jobs job_id of
            None \<Rightarrow> (s', None)
          | Some j \<Rightarrow>
              let job = j\<lparr>cj_last_run_at := Some (ce_now env), cj_last_status := Some ''queued'', cj_run_count := cj_run_count j + 1\<rparr> in
              case save_cron (ce_save_ok env) (AList.update job_id job jobs) s' of
                Inl e \<Rightarrow> (s', Some e)
              | Inr s'' \<Rightarrow> (s'', None)))"

end
