(* ===== verification/JobStore.thy ===== *)
theory JobStore
  imports JobRecords
begin

text \<open>
  The store of agent jobs (agent_jobs.py, \<open>AgentJobStore\<close>): one JSON file for each job. Every operation reads
  a record, changes it and writes it back, in a thread that runs under the store's lock. The change is a
  function of the record, so that the queue's theory can also run it in a thread whose caller was cancelled
  (the lock is free again, the thread goes on).
\<close>

datatype stored_job = ReadableJob job_record | UnreadableJob

type_synonym job_files = "(string \<times> stored_job) list"

datatype job_error = NoJob string | JobUnreadable string | JobWriteFailed | NotCancellable | NotDiscardable

fun readable_job :: "stored_job \<Rightarrow> job_record option" where
  "readable_job (ReadableJob r) = Some r"
| "readable_job UnreadableJob = None"

definition job_at :: "job_files \<Rightarrow> string \<Rightarrow> job_record option" where
  "job_at files i = Option.bind (map_of files i) readable_job"

section \<open>Reading and writing\<close>

definition job_wanted :: "job_status option \<Rightarrow> string option \<Rightarrow> job_record \<Rightarrow> bool" where
  "job_wanted status session_id r \<longleftrightarrow>
     (status = None \<or> status = Some (jr_status r)) \<and> (session_id = None \<or> session_id = Some (jr_session_id r))"

definition list_jobs :: "job_files \<Rightarrow> job_status option \<Rightarrow> string option \<Rightarrow> job_record list" where
  "list_jobs files status session_id =
     sort_desc (\<lambda>r. (stamp_text_key (jr_created_at r), jr_id r))
       (filter (job_wanted status session_id)
         (List.map_filter (\<lambda>(stem, stored). readable_job stored)
           (sort_desc (\<lambda>(stem, stored). stem @ ''.json'') files)))"

definition get_job :: "job_files \<Rightarrow> string \<Rightarrow> job_error + job_record" where
  "get_job files job_id =
     (if record_path job_id ''.json'' = None then Inl (NoJob job_id)
      else case map_of files job_id of
        None \<Rightarrow> Inl (NoJob job_id)
      | Some stored \<Rightarrow> (case readable_job stored of None \<Rightarrow> Inl (JobUnreadable job_id) | Some r \<Rightarrow> Inr r))"

definition write_job :: "bool \<Rightarrow> job_record \<Rightarrow> job_files \<Rightarrow> job_error + job_files" where
  "write_job ok r files =
     (if record_path (jr_id r) ''.json'' = None then Inl (NoJob (jr_id r))
      else if ok then Inr (AList.update (jr_id r) (ReadableJob r) files)
      else Inl JobWriteFailed)"

definition new_job ::
  "stamp \<Rightarrow> string \<Rightarrow> string \<Rightarrow> job_kind \<Rightarrow> agent_request \<Rightarrow> string option \<Rightarrow> operator_identity option \<Rightarrow> job_record" where
  "new_job now job_id session_id kind request parent_job_id operator' =
     \<lparr>jr_id = job_id, jr_session_id = session_id, jr_kind = kind, jr_status = JQueued, jr_created_at = now,
      jr_updated_at = now, jr_request = request, jr_parent_job_id = parent_job_id, jr_checkpoints = [],
      jr_operator = operator', jr_result = None, jr_error = None\<rparr>"

text \<open>The write of a new job is waited for, even by a caller that is cancelled meanwhile.\<close>

definition create_job :: "bool \<Rightarrow> job_record \<Rightarrow> job_files \<Rightarrow> job_files \<times> (job_error + job_record)" where
  "create_job ok r files =
     (case write_job ok r files of Inl e \<Rightarrow> (files, Inl e) | Inr files' \<Rightarrow> (files', Inr r))"

definition update_job :: "bool \<Rightarrow> stamp \<Rightarrow> job_record \<Rightarrow> job_files \<Rightarrow> job_error + job_files" where
  "update_job ok now r files = write_job ok (r\<lparr>jr_updated_at := now\<rparr>) files"

section \<open>The changes\<close>

text \<open>The changed record, and whether it is written.\<close>

type_synonym job_change = "job_record \<Rightarrow> job_error + job_record \<times> bool"

definition start_queued :: "stamp \<Rightarrow> job_change" where
  "start_queued now r =
     (if jr_status r \<noteq> JQueued then Inr (r, False)
      else Inr (r\<lparr>jr_status := JRunning, jr_updated_at := now\<rparr>, True))"

definition append_checkpoint :: "stamp \<Rightarrow> job_checkpoint \<Rightarrow> job_change" where
  "append_checkpoint now checkpoint r =
     Inr (r\<lparr>jr_checkpoints := jr_checkpoints r @ [checkpoint], jr_updated_at := now\<rparr>, True)"

definition finish_job ::
  "stamp \<Rightarrow> job_status \<Rightarrow> agent_result option \<Rightarrow> string option \<Rightarrow> job_change" where
  "finish_job now status result error r =
     (let r' = (if jr_status r = JCancelling then
                  r\<lparr>jr_status := JCancelled, jr_error := Some ''agent_job_cancelled'', jr_result := None\<rparr>
                else if jr_status r \<notin> {JCancelled, JDiscarded} then
                  r\<lparr>jr_status := status, jr_error := error, jr_result := result\<rparr>
                else r)
      in Inr (r'\<lparr>jr_updated_at := now\<rparr>, True))"

definition finish_cancelled :: "stamp \<Rightarrow> bool \<Rightarrow> job_change" where
  "finish_cancelled now user_cancelled r =
     (let r' = (if user_cancelled then r\<lparr>jr_status := JCancelled, jr_error := Some ''agent_job_cancelled''\<rparr>
                else r\<lparr>jr_status := JInterrupted, jr_error := Some ''agent_job_interrupted''\<rparr>)
      in Inr (r'\<lparr>jr_result := None, jr_updated_at := now\<rparr>, True))"

definition request_cancel :: "stamp \<Rightarrow> job_change" where
  "request_cancel now r =
     (case jr_status r of
        JQueued \<Rightarrow> Inr (r\<lparr>jr_status := JCancelled, jr_error := Some ''agent_job_cancelled'', jr_updated_at := now\<rparr>, True)
      | JRunning \<Rightarrow>
          Inr (r\<lparr>jr_status := JCancelling, jr_error := Some ''agent_job_cancellation_requested'', jr_updated_at := now\<rparr>, True)
      | JCancelling \<Rightarrow> Inr (r, False)
      | JCancelled \<Rightarrow> Inr (r, False)
      | _ \<Rightarrow> Inl NotCancellable)"

definition interrupt_queued :: "stamp \<Rightarrow> job_change" where
  "interrupt_queued now r =
     (if jr_status r \<noteq> JQueued then Inr (r, False)
      else Inr (r\<lparr>jr_status := JInterrupted, jr_error := Some ''agent_job_interrupted'', jr_updated_at := now\<rparr>, True))"

definition discard_job :: "stamp \<Rightarrow> job_change" where
  "discard_job now r =
     (if jr_status r \<in> {JRunning, JCancelling} then Inl NotDiscardable
      else if jr_status r \<noteq> JDiscarded then
        Inr (r\<lparr>jr_status := JDiscarded, jr_error := Some ''agent_job_discarded'', jr_updated_at := now\<rparr>, True)
      else Inr (r, False))"

text \<open>One operation under the lock: read, change, write.\<close>

definition modify_job :: "job_change \<Rightarrow> bool \<Rightarrow> string \<Rightarrow> job_files \<Rightarrow> job_files \<times> (job_error + job_record \<times> bool)" where
  "modify_job change ok job_id files =
     (case get_job files job_id of
        Inl e \<Rightarrow> (files, Inl e)
      | Inr r \<Rightarrow>
         (case change r of
            Inl e \<Rightarrow> (files, Inl e)
          | Inr (r', changed) \<Rightarrow>
              if \<not> changed then (files, Inr (r', False))
              else case write_job ok r' files of
                Inl e \<Rightarrow> (files, Inl e)
              | Inr files' \<Rightarrow> (files', Inr (r', True))))"

section \<open>A restart\<close>

definition after_restart :: "job_record \<Rightarrow> job_record option" where
  "after_restart r =
     (if jr_status r = JRunning then
        Some (r\<lparr>jr_status := JInterrupted, jr_error := Some ''agent_job_interrupted_on_restart''\<rparr>)
      else if jr_status r = JCancelling then
        Some (r\<lparr>jr_status := JCancelled, jr_error := Some ''agent_job_cancelled''\<rparr>)
      else None)"

text \<open>A write that fails ends the start.\<close>

fun mark_each :: "(string \<Rightarrow> bool) \<Rightarrow> stamp \<Rightarrow> job_record list \<Rightarrow> job_files \<Rightarrow> job_files \<times> job_error option" where
  "mark_each ok now [] files = (files, None)"
| "mark_each ok now (r # rs) files =
     (case after_restart r of
        None \<Rightarrow> mark_each ok now rs files
      | Some r' \<Rightarrow>
         (case update_job (ok (jr_id r)) now r' files of
            Inl e \<Rightarrow> (files, Some e)
          | Inr files' \<Rightarrow> mark_each ok now rs files'))"

definition mark_running_interrupted :: "(string \<Rightarrow> bool) \<Rightarrow> stamp \<Rightarrow> job_files \<Rightarrow> job_files \<times> job_error option" where
  "mark_running_interrupted ok now files = mark_each ok now (list_jobs files None None) files"

end
