(* ===== verification/JobQueue.thy ===== *)
theory JobQueue
  imports JobStore Machines
begin

text \<open>
  The queue of agent jobs and its workers (agent_jobs.py, \<open>AgentJobQueue\<close>), cut where the code awaits: each
  definition is what runs between two awaits, and \<open>job_step\<close> interleaves them. An operation of the store runs
  under its lock and is one piece; a thread whose caller was cancelled goes on without the lock, as a
  \<open>pending\<close> read and a \<open>pending\<close> write. A finish callback is opaque: the model says when it starts, ends
  or is cancelled.
\<close>

text \<open>
  Where the task of a job is: picked up, known to run as an operator, started (its audit event under way), in
  the orchestrator, recording a failure, recording that it was stopped, recorded (its audit event under way),
  in the finish callback or done with it.
\<close>

datatype job_phase =
    Fetched | Acting "operator_identity option" | Started | Working | Failing string | Stopping | Reported | Closing bool

datatype job_op =
    StartQueued | AppendCheckpoint job_checkpoint | Finish job_status "agent_result option" "string option"
  | FinishCancelled bool | RequestCancel | InterruptQueued | Discard

fun change_of :: "job_op \<Rightarrow> stamp \<Rightarrow> job_change" where
  "change_of StartQueued now = start_queued now"
| "change_of (AppendCheckpoint c) now = append_checkpoint now c"
| "change_of (Finish status result error) now = finish_job now status result error"
| "change_of (FinishCancelled user) now = finish_cancelled now user"
| "change_of RequestCancel now = request_cancel now"
| "change_of InterruptQueued now = interrupt_queued now"
| "change_of Discard now = discard_job now"

datatype pending = Reading job_op string | Writing job_record

record job_system =
  js_files :: job_files
  js_worker_count :: nat
  js_queue :: "string list"
  js_requeue :: "string list"                        \<comment> \<open>what the re-queue task has yet to put\<close>
  js_tasks :: "(string \<times> job_phase) list"            \<comment> \<open>\<open>_running_tasks\<close>\<close>
  js_cancelling :: "string list"                     \<comment> \<open>tasks with a cancellation still to be delivered\<close>
  js_reasons :: "(string \<times> string) list"
  js_finishing :: "string list"
  js_on_finish :: "string list"                      \<comment> \<open>the ids a callback is registered for\<close>
  js_enqueuing :: "(string \<times> bool) list"             \<comment> \<open>enqueues in their audit, and whether they gave a callback\<close>
  js_pending :: "pending list"
  js_started :: "(string \<times> operator_var) list"        \<comment> \<open>ghost: the starts so far, and as whom they ran\<close>
  js_registered :: "string list"                     \<comment> \<open>ghost: every callback of this process\<close>
  js_dropped :: "string list"                        \<comment> \<open>ghost: those an enqueue took back\<close>
  js_called :: "string list"                         \<comment> \<open>ghost: those started, in order\<close>
  js_aborted :: "string list"                        \<comment> \<open>ghost: those cancelled while they ran\<close>

definition QUEUE_SIZE :: nat where
  "QUEUE_SIZE = 100"

definition phase_of :: "job_system \<Rightarrow> string \<Rightarrow> job_phase option" where
  "phase_of s i = map_of (js_tasks s) i"

definition set_phase :: "string \<Rightarrow> job_phase \<Rightarrow> job_system \<Rightarrow> job_system" where
  "set_phase i p s = s\<lparr>js_tasks := AList.update i p (js_tasks s)\<rparr>"

section \<open>Queuing\<close>

definition start_queue :: "(string \<Rightarrow> bool) \<Rightarrow> stamp \<Rightarrow> nat \<Rightarrow> job_files \<Rightarrow> (string \<times> operator_var) list \<Rightarrow> job_system" where
  "start_queue ok now workers files started =
     (let (files', failure) = mark_running_interrupted ok now files in
      \<lparr>js_files = files', js_worker_count = (if failure = None then max 1 workers else 0), js_queue = [],
       js_requeue = (if failure = None then map jr_id (rev (list_jobs files' (Some JQueued) None)) else []),
       js_tasks = [], js_cancelling = [], js_reasons = [], js_finishing = [], js_on_finish = [], js_enqueuing = [],
       js_pending = [], js_started = started, js_registered = [], js_dropped = [], js_called = [], js_aborted = []\<rparr>)"

definition requeue :: "job_system \<Rightarrow> job_system" where
  "requeue s =
     (case js_requeue s of
        [] \<Rightarrow> s
      | i # is \<Rightarrow> if length (js_queue s) < QUEUE_SIZE then s\<lparr>js_queue := js_queue s @ [i], js_requeue := is\<rparr> else s)"

text \<open>
  \<open>_enqueue\<close> up to its audit event. A job the full queue turns away is still to be marked failed
  (\<open>store.update\<close> waits for the lock).
\<close>

datatype enqueue_error = CreateFailed job_error | QueueAtCapacity

definition enqueue :: "bool \<Rightarrow> bool \<Rightarrow> job_record \<Rightarrow> job_system \<Rightarrow> job_system \<times> (enqueue_error + job_record)" where
  "enqueue ok on_finish r s =
     (case create_job ok r (js_files s) of
        (files, Inl e) \<Rightarrow> (s\<lparr>js_files := files\<rparr>, Inl (CreateFailed e))
      | (files, Inr r) \<Rightarrow>
          let s1 = s\<lparr>js_files := files\<rparr> in
          if length (js_queue s) < QUEUE_SIZE then
            (s1\<lparr>js_queue := js_queue s @ [jr_id r],
                js_on_finish := (if on_finish then jr_id r # js_on_finish s else js_on_finish s),
                js_registered := (if on_finish then jr_id r # js_registered s else js_registered s),
                js_enqueuing := (jr_id r, on_finish) # js_enqueuing s\<rparr>, Inr r)
          else
            (s1\<lparr>js_pending := Writing (r\<lparr>jr_status := JFailed, jr_error := Some ''Job queue is full (max 100 queued jobs)''\<rparr>)
                # js_pending s\<rparr>, Inl QueueAtCapacity))"

text \<open>A create that was cancelled left its record queued on disk and in no queue.\<close>

definition create_cancelled :: "bool \<Rightarrow> job_record \<Rightarrow> job_system \<Rightarrow> job_system" where
  "create_cancelled ok r s = s\<lparr>js_files := fst (create_job ok r (js_files s))\<rparr>"

definition enqueued :: "string \<Rightarrow> job_system \<Rightarrow> job_system" where
  "enqueued i s = s\<lparr>js_enqueuing := filter (\<lambda>e. fst e \<noteq> i) (js_enqueuing s)\<rparr>"

text \<open>The end of an enqueue whose audit event failed: its callback is taken back, after \<open>withdraw\<close>.\<close>

definition take_back_callback :: "string \<Rightarrow> job_system \<Rightarrow> job_system" where
  "take_back_callback i s =
     (enqueued i s)\<lparr>js_on_finish := filter (\<lambda>x. x \<noteq> i) (js_on_finish s),
       js_dropped := (if i \<in> set (js_on_finish s) then i # js_dropped s else js_dropped s)\<rparr>"

definition cancel_task :: "string \<Rightarrow> job_system \<Rightarrow> job_system" where
  "cancel_task i s = (if phase_of s i = None then s else s\<lparr>js_cancelling := i # filter (\<lambda>x. x \<noteq> i) (js_cancelling s)\<rparr>)"

datatype withdrawal = Interrupted | TaskCancelled | AlreadyFinished | WithdrawError job_error

definition withdraw :: "bool \<Rightarrow> stamp \<Rightarrow> string \<Rightarrow> job_system \<Rightarrow> job_system \<times> withdrawal" where
  "withdraw ok now i s =
     (case modify_job (interrupt_queued now) ok i (js_files s) of
        (files, Inl e) \<Rightarrow> (s\<lparr>js_files := files\<rparr>, WithdrawError e)
      | (files, Inr (r, changed)) \<Rightarrow>
          let s1 = s\<lparr>js_files := files\<rparr> in
          if changed then (s1, Interrupted)
          else if phase_of s1 i = None \<or> i \<in> set (js_finishing s1) \<or> jr_status r \<notin> {JRunning, JCancelling} then
            (s1, AlreadyFinished)
          else
            (cancel_task i
              (s1\<lparr>js_reasons := (if map_of (js_reasons s1) i = None then AList.update i ''withdrawn'' (js_reasons s1)
                                 else js_reasons s1)\<rparr>), TaskCancelled))"

section \<open>A job's task\<close>

definition fetch :: "job_system \<Rightarrow> job_system" where
  "fetch s =
     (case js_queue s of
        [] \<Rightarrow> s
      | i # is \<Rightarrow>
          if length (js_tasks s) < js_worker_count s then set_phase i Fetched (s\<lparr>js_queue := is\<rparr>) else s)"

text \<open>The \<open>finally\<close> of \<open>_process_job\<close>: from here the job is done running.\<close>

definition begin_closing :: "string \<Rightarrow> job_system \<Rightarrow> job_system" where
  "begin_closing i s =
     (set_phase i (Closing (i \<in> set (js_on_finish s))) s)
       \<lparr>js_finishing := i # js_finishing s, js_on_finish := filter (\<lambda>x. x \<noteq> i) (js_on_finish s),
        js_called := (if i \<in> set (js_on_finish s) then js_called s @ [i] else js_called s)\<rparr>"

text \<open>The task is over, and the worker's \<open>finally\<close>.\<close>

definition end_task :: "string \<Rightarrow> job_system \<Rightarrow> job_system" where
  "end_task i s =
     s\<lparr>js_tasks := AList.delete i (js_tasks s), js_reasons := AList.delete i (js_reasons s),
       js_finishing := filter (\<lambda>x. x \<noteq> i) (js_finishing s), js_cancelling := filter (\<lambda>x. x \<noteq> i) (js_cancelling s)\<rparr>"

definition queued_by :: "string \<Rightarrow> job_system \<Rightarrow> job_system" where
  "queued_by i s =
     (case get_job (js_files s) i of
        Inr r \<Rightarrow> set_phase i (Acting (jr_operator r)) s
      | Inl (NoJob _) \<Rightarrow> set_phase i (Acting None) s
      | Inl _ \<Rightarrow> begin_closing i s)"

text \<open>The current operator inside \<open>with acting_as(identity)\<close>, in a worker, which has none of its own.\<close>

definition operator_inside :: "operator_identity option \<Rightarrow> operator_var" where
  "operator_inside identity = fst (acting_as identity (\<lambda>cur. (cur, cur)) None)"

definition start_job :: "bool \<Rightarrow> stamp \<Rightarrow> string \<Rightarrow> operator_identity option \<Rightarrow> job_system \<Rightarrow> job_system" where
  "start_job ok now i identity s =
     (case modify_job (start_queued now) ok i (js_files s) of
        (files, Inr (r, True)) \<Rightarrow>
          set_phase i Started (s\<lparr>js_files := files, js_started := js_started s @ [(i, operator_inside identity)]\<rparr>)
      | (files, _) \<Rightarrow> begin_closing i (s\<lparr>js_files := files\<rparr>))"

definition started_audited :: "bool \<Rightarrow> string \<Rightarrow> job_system \<Rightarrow> job_system" where
  "started_audited audit_ok i s = (if audit_ok then set_phase i Working s else begin_closing i s)"

text \<open>A step's checkpoint; a failure of its write is an exception in the orchestrator's run.\<close>

definition checkpoint_step :: "bool \<Rightarrow> stamp \<Rightarrow> string \<Rightarrow> job_checkpoint \<Rightarrow> string \<Rightarrow> job_system \<Rightarrow> job_system" where
  "checkpoint_step ok now detail checkpoint i s =
     (case modify_job (append_checkpoint now checkpoint) ok i (js_files s) of
        (files, Inr _) \<Rightarrow> s\<lparr>js_files := files\<rparr>
      | (files, Inl _) \<Rightarrow> set_phase i (Failing detail) (s\<lparr>js_files := files\<rparr>))"

definition orchestrator_raised :: "string \<Rightarrow> string \<Rightarrow> job_system \<Rightarrow> job_system" where
  "orchestrator_raised detail i s = set_phase i (Failing detail) s"

definition finish_working :: "bool \<Rightarrow> stamp \<Rightarrow> string \<Rightarrow> agent_result \<Rightarrow> string \<Rightarrow> job_system \<Rightarrow> job_system" where
  "finish_working ok now detail result i s =
     (let failed = (result_status result = EndedAs StepError) in
      case modify_job (finish_job now (if failed then JFailed else JCompleted) (Some result)
                        (if failed then Some (reported_error result) else None)) ok i (js_files s) of
        (files, Inr _) \<Rightarrow> set_phase i Reported (s\<lparr>js_files := files\<rparr>)
      | (files, Inl _) \<Rightarrow> set_phase i (Failing detail) (s\<lparr>js_files := files\<rparr>))"

definition finish_failing :: "bool \<Rightarrow> stamp \<Rightarrow> string \<Rightarrow> string \<Rightarrow> job_system \<Rightarrow> job_system" where
  "finish_failing ok now detail i s =
     (case modify_job (finish_job now JFailed None (Some (take 500 detail))) ok i (js_files s) of
        (files, Inr _) \<Rightarrow> set_phase i Reported (s\<lparr>js_files := files\<rparr>)
      | (files, Inl _) \<Rightarrow> begin_closing i (s\<lparr>js_files := files\<rparr>))"

definition record_stop :: "bool \<Rightarrow> stamp \<Rightarrow> string \<Rightarrow> job_system \<Rightarrow> job_system" where
  "record_stop ok now i s =
     (let user_cancelled = (map_of (js_reasons s) i = Some ''user'') in
      begin_closing i (s\<lparr>js_files := fst (modify_job (finish_cancelled now user_cancelled) ok i (js_files s))\<rparr>))"

text \<open>
  A cancellation reaches the task where it is. A store operation the task was waiting for goes on in its
  thread: \<open>left\<close> is that operation, if there was one.
\<close>

fun left_by :: "job_phase \<Rightarrow> job_op \<Rightarrow> bool" where
  "left_by (Acting identity) op' = (op' = StartQueued)"
| "left_by Working op' = ((\<exists>c. op' = AppendCheckpoint c) \<or> (\<exists>r e. op' = Finish JCompleted r e \<or> op' = Finish JFailed r e))"
| "left_by (Failing detail) op' = (op' = Finish JFailed None (Some (take 500 detail)))"
| "left_by Stopping op' = (op' \<in> {FinishCancelled True, FinishCancelled False})"
| "left_by p op' = False"

definition deliver_cancel :: "job_op option \<Rightarrow> string \<Rightarrow> job_system \<Rightarrow> job_system" where
  "deliver_cancel left i s =
     (let s1 = s\<lparr>js_cancelling := filter (\<lambda>x. x \<noteq> i) (js_cancelling s),
                 js_pending := (case left of None \<Rightarrow> js_pending s | Some op' \<Rightarrow> Reading op' i # js_pending s)\<rparr>
      in case phase_of s i of
           None \<Rightarrow> s1
         | Some Started \<Rightarrow> set_phase i Stopping s1
         | Some Working \<Rightarrow> set_phase i Stopping s1
         | Some (Closing running) \<Rightarrow>
             if running then set_phase i (Closing False) (s1\<lparr>js_aborted := i # js_aborted s\<rparr>) else s1
         | Some _ \<Rightarrow> begin_closing i s1)"

text \<open>The threads without a caller.\<close>

definition pending_read :: "pending list \<Rightarrow> job_op \<Rightarrow> string \<Rightarrow> pending list \<Rightarrow> stamp \<Rightarrow> job_system \<Rightarrow> job_system" where
  "pending_read before op' i after now s =
     s\<lparr>js_pending := before @
        (case get_job (js_files s) i of
           Inl _ \<Rightarrow> []
         | Inr r \<Rightarrow> (case change_of op' now r of Inr (r', True) \<Rightarrow> [Writing r'] | _ \<Rightarrow> [])) @ after\<rparr>"

definition pending_write :: "bool \<Rightarrow> pending list \<Rightarrow> job_record \<Rightarrow> pending list \<Rightarrow> job_system \<Rightarrow> job_system" where
  "pending_write ok before r after s =
     s\<lparr>js_pending := before @ after,
       js_files := (case write_job ok r (js_files s) of Inl _ \<Rightarrow> js_files s | Inr files \<Rightarrow> files)\<rparr>"

section \<open>The operator's calls\<close>

definition accessible_job :: "(string \<Rightarrow> bool) \<Rightarrow> string \<Rightarrow> job_system \<Rightarrow> job_error + job_record" where
  "accessible_job access i s =
     (case get_job (js_files s) i of
        Inl e \<Rightarrow> Inl e
      | Inr r \<Rightarrow> if access (jr_session_id r) then Inr r else Inl (NoJob i))"

definition list_public :: "(string \<Rightarrow> bool) \<Rightarrow> job_status option \<Rightarrow> string option \<Rightarrow> job_system \<Rightarrow> public_job list" where
  "list_public access status session_id s =
     map public_record (filter (\<lambda>r. access (jr_session_id r)) (list_jobs (js_files s) status session_id))"

definition get_public :: "(string \<Rightarrow> bool) \<Rightarrow> string \<Rightarrow> job_system \<Rightarrow> job_error + public_job" where
  "get_public access i s = (case accessible_job access i s of Inl e \<Rightarrow> Inl e | Inr r \<Rightarrow> Inr (public_record r))"

definition discard_public ::
  "(string \<Rightarrow> bool) \<Rightarrow> bool \<Rightarrow> stamp \<Rightarrow> string \<Rightarrow> job_system \<Rightarrow> job_system \<times> (job_error + public_job)" where
  "discard_public access ok now i s =
     (case accessible_job access i s of
        Inl e \<Rightarrow> (s, Inl e)
      | Inr _ \<Rightarrow>
         (case modify_job (discard_job now) ok i (js_files s) of
            (files, Inl e) \<Rightarrow> (s\<lparr>js_files := files\<rparr>, Inl e)
          | (files, Inr (r, _)) \<Rightarrow> (s\<lparr>js_files := files\<rparr>, Inr (public_record r))))"

text \<open>
  \<open>cancel_job\<close> up to where it waits: the answer it would give now. A cancelling record without a task is
  still to be recorded as interrupted.
\<close>

definition cancel_job ::
  "(string \<Rightarrow> bool) \<Rightarrow> bool \<Rightarrow> stamp \<Rightarrow> string \<Rightarrow> job_system \<Rightarrow> job_system \<times> (job_error + public_job)" where
  "cancel_job access ok now i s =
     (case accessible_job access i s of
        Inl e \<Rightarrow> (s, Inl e)
      | Inr _ \<Rightarrow>
         (case modify_job (request_cancel now) ok i (js_files s) of
            (files, Inl e) \<Rightarrow> (s\<lparr>js_files := files\<rparr>, Inl e)
          | (files, Inr (r, _)) \<Rightarrow>
              let s1 = s\<lparr>js_files := files\<rparr> in
              if jr_status r \<noteq> JCancelling then (s1, Inr (public_record r))
              else if phase_of s1 i = None then
                (s1\<lparr>js_pending := Reading (FinishCancelled False) i # js_pending s1\<rparr>, Inr (public_record r))
              else
                (cancel_task i (s1\<lparr>js_reasons := AList.update i ''user'' (js_reasons s1)\<rparr>), Inr (public_record r))))"

definition resume_job ::
  "(string \<Rightarrow> string) \<Rightarrow> (string \<Rightarrow> bool) \<Rightarrow> bool \<Rightarrow> stamp \<Rightarrow> string \<Rightarrow> operator_identity \<Rightarrow> int option \<Rightarrow> string \<Rightarrow> job_system \<Rightarrow>
   job_system \<times> (job_error + resume_error + enqueue_error + job_record)" where
  "resume_job trim access ok now fresh_id operator' max_steps i s =
     (case accessible_job access i s of
        Inl e \<Rightarrow> (s, Inl e)
      | Inr source \<Rightarrow>
         (case resumed_request trim max_steps source of
            Inl e \<Rightarrow> (s, Inr (Inl e))
          | Inr payload \<Rightarrow>
             (case enqueue ok False
                  (new_job now fresh_id (jr_session_id source) AgentRun payload (Some (jr_id source)) (Some operator')) s of
                (s', answer) \<Rightarrow> (s', Inr (Inr answer)))))"

text \<open>\<open>shutdown\<close>: the re-queue task and the workers are cancelled.\<close>

definition shutdown :: "job_system \<Rightarrow> job_system" where
  "shutdown s = s\<lparr>js_requeue := [], js_worker_count := 0, js_cancelling := map fst (js_tasks s)\<rparr>"

section \<open>The interleaving\<close>

text \<open>An id \<open>uuid4\<close> has just made: nothing has heard of it.\<close>

definition unheard_of :: "string \<Rightarrow> job_system \<Rightarrow> bool" where
  "unheard_of i s \<longleftrightarrow>
     record_path i ''.json'' \<noteq> None \<and> map_of (js_files s) i = None \<and> i \<notin> set (map fst (js_started s)) \<and>
     i \<notin> set (js_queue s) \<and> i \<notin> set (js_requeue s) \<and> i \<notin> set (map fst (js_tasks s)) \<and> i \<notin> set (js_on_finish s) \<and>
     i \<notin> set (js_registered s) \<and> i \<notin> set (js_called s)"

text \<open>The task of \<open>i\<close> is at \<open>p\<close> and goes on: no cancellation is about to reach it.\<close>

definition goes_on :: "job_system \<Rightarrow> string \<Rightarrow> job_phase \<Rightarrow> bool" where
  "goes_on s i p \<longleftrightarrow> phase_of s i = Some p \<and> i \<notin> set (js_cancelling s)"

inductive job_step :: "job_system \<Rightarrow> job_system \<Rightarrow> bool" where
  requeueing: "job_step s (requeue s)"
| enqueueing: "unheard_of (jr_id r) s \<Longrightarrow> jr_status r = JQueued \<Longrightarrow> job_step s (fst (enqueue ok given r s))"
| creating: "unheard_of (jr_id r) s \<Longrightarrow> jr_status r = JQueued \<Longrightarrow> job_step s (create_cancelled ok r s)"
| enqueued: "job_step s (enqueued i s)"
| withdrawing: "job_step s (fst (withdraw ok now i s))"
| taking_back: "(i, True) \<in> set (js_enqueuing s) \<Longrightarrow> job_step s (take_back_callback i s)"
| fetching: "job_step s (fetch s)"
| asking: "goes_on s i Fetched \<Longrightarrow> job_step s (queued_by i s)"
| starting: "goes_on s i (Acting identity) \<Longrightarrow> job_step s (start_job ok now i identity s)"
| auditing: "goes_on s i Started \<Longrightarrow> job_step s (started_audited ok i s)"
| checkpointing: "goes_on s i Working \<Longrightarrow> job_step s (checkpoint_step ok now detail c i s)"
| raising: "goes_on s i Working \<Longrightarrow> job_step s (orchestrator_raised detail i s)"
| finishing: "goes_on s i Working \<Longrightarrow> job_step s (finish_working ok now detail result i s)"
| failing: "goes_on s i (Failing detail) \<Longrightarrow> job_step s (finish_failing ok now detail i s)"
| stopping: "goes_on s i Stopping \<Longrightarrow> job_step s (record_stop ok now i s)"
| reported: "goes_on s i Reported \<Longrightarrow> job_step s (begin_closing i s)"
| closing: "goes_on s i (Closing running) \<Longrightarrow> job_step s (end_task i s)"
| cancelling: "i \<in> set (js_cancelling s) \<Longrightarrow> phase_of s i = Some p \<Longrightarrow>
    left = None \<or> (\<exists>op'. left = Some op' \<and> left_by p op') \<Longrightarrow> job_step s (deliver_cancel left i s)"
| reading: "js_pending s = before @ Reading op' i # after \<Longrightarrow> job_step s (pending_read before op' i after now s)"
| writing: "js_pending s = before @ Writing r # after \<Longrightarrow> job_step s (pending_write ok before r after s)"
| discarding: "job_step s (fst (discard_public access ok now i s))"
| cancelling_job: "job_step s (fst (cancel_job access ok now i s))"
| resuming: "unheard_of fresh_id s \<Longrightarrow> job_step s (fst (resume_job trim access ok now fresh_id operator' max_steps i s))"
| call_left: "op' \<in> {RequestCancel, InterruptQueued, Discard} \<Longrightarrow>
    job_step s (s\<lparr>js_pending := Reading op' i # js_pending s\<rparr>)"
| stopped: "job_step s (shutdown s)"

text \<open>A new process over the files the last one left, with its threads gone.\<close>

inductive process_step :: "job_system \<Rightarrow> job_system \<Rightarrow> bool" where
  within_process: "job_step s t \<Longrightarrow> process_step s t"
| restarting: "process_step s (start_queue ok now workers (js_files s) (js_started s))"

end
