(* ===== verification/JobFacts.thy ===== *)
theory JobFacts
  imports JobQueue
begin

text \<open>
  What holds of agent jobs in every state a process, and the processes after it, can reach.
\<close>

section \<open>What the store's operations leave alone\<close>

definition job_identity ::
  "job_record \<Rightarrow> string \<times> string \<times> job_kind \<times> stamp \<times> agent_request \<times> string option \<times> operator_identity option" where
  "job_identity r = (jr_id r, jr_session_id r, jr_kind r, jr_created_at r, jr_request r, jr_parent_job_id r, jr_operator r)"

definition files_named :: "job_files \<Rightarrow> bool" where
  "files_named files \<longleftrightarrow> distinct (map fst files) \<and> (\<forall>i r. job_at files i = Some r \<longrightarrow> jr_id r = i)"

text \<open>A record that replaces another: the same job, and not queued again.\<close>

definition same_job :: "job_record \<Rightarrow> job_record \<Rightarrow> bool" where
  "same_job r r' \<longleftrightarrow> job_identity r' = job_identity r \<and> (jr_status r \<noteq> JQueued \<longrightarrow> jr_status r' \<noteq> JQueued)"

text \<open>The files at a later moment; \<open>new\<close> are the ids that may have got a record.\<close>

definition files_later :: "string set \<Rightarrow> job_files \<Rightarrow> job_files \<Rightarrow> bool" where
  "files_later new files files' \<longleftrightarrow>
     (distinct (map fst files) \<longrightarrow> distinct (map fst files')) \<and>
     (\<forall>i r. job_at files i = Some r \<longrightarrow> (\<exists>r'. job_at files' i = Some r' \<and> same_job r r')) \<and>
     (\<forall>i r'. job_at files' i = Some r' \<longrightarrow> job_at files i \<noteq> None \<or> (i \<in> new \<and> jr_id r' = i))"

lemma same_job_refl [simp]: "same_job r r"
  by (simp add: same_job_def)

lemma same_job_id: "same_job r r' \<Longrightarrow> jr_id r' = jr_id r \<and> jr_operator r' = jr_operator r"
  by (simp add: same_job_def job_identity_def)

lemma files_later_refl [simp]: "files_later new files files"
  by (simp add: files_later_def)

lemma same_job_trans: "same_job a b \<Longrightarrow> same_job b c \<Longrightarrow> same_job a c"
  by (simp add: same_job_def)

lemma files_laterI:
  "(distinct (map fst files) \<Longrightarrow> distinct (map fst files')) \<Longrightarrow>
   (\<And>i r. job_at files i = Some r \<Longrightarrow> \<exists>r'. job_at files' i = Some r' \<and> same_job r r') \<Longrightarrow>
   (\<And>i r'. job_at files' i = Some r' \<Longrightarrow> job_at files i \<noteq> None \<or> (i \<in> new \<and> jr_id r' = i)) \<Longrightarrow>
   files_later new files files'"
  by (simp add: files_later_def)

lemma files_laterD: "files_later new files files' \<Longrightarrow> job_at files i = Some r \<Longrightarrow> \<exists>r'. job_at files' i = Some r' \<and> same_job r r'"
  by (simp add: files_later_def)

lemma files_later_old:
  "files_later new files files' \<Longrightarrow> job_at files' i = Some r' \<Longrightarrow> i \<notin> new \<Longrightarrow> \<exists>r. job_at files i = Some r \<and> same_job r r'"
  unfolding files_later_def by (metis not_None_eq option.inject)

lemma files_later_trans:
  assumes ab: "files_later {} a b" and bc: "files_later {} b c"
  shows "files_later {} a c"
proof (rule files_laterI)
  show "distinct (map fst a) \<Longrightarrow> distinct (map fst c)" using ab bc by (simp add: files_later_def)
  show "\<exists>r'. job_at c i = Some r' \<and> same_job r r'" if "job_at a i = Some r" for i r
    using files_laterD [OF ab that] files_laterD [OF bc] same_job_trans by blast
  show "job_at a i \<noteq> None \<or> (i \<in> {} \<and> jr_id r' = i)" if "job_at c i = Some r'" for i r'
    using files_later_old [OF bc that] files_later_old [OF ab] by force
qed

lemma files_later_named:
  assumes named: "files_named files" and later: "files_later new files files'"
  shows "files_named files'"
proof -
  have "jr_id r' = i" if r': "job_at files' i = Some r'" for i r'
  proof (cases "i \<in> new \<and> job_at files i = None")
    case False
    then obtain r where "job_at files i = Some r" using later r' unfolding files_later_def by blast
    then show ?thesis using files_laterD [OF later] r' named same_job_id by (fastforce simp: files_named_def)
  next
    case True
    then show ?thesis using later r' unfolding files_later_def by (metis option.distinct(1))
  qed
  then show ?thesis using named later by (simp add: files_named_def files_later_def)
qed

lemma job_at_update:
  "job_at (AList.update k (ReadableJob r) files) i = (if i = k then Some r else job_at files i)"
  by (simp add: job_at_def alist_lookup)

lemma get_job_iff: "get_job files i = Inr r \<longleftrightarrow> record_path i ''.json'' \<noteq> None \<and> job_at files i = Some r"
  by (auto simp: get_job_def job_at_def split: option.splits)

lemma write_job_Some:
  "write_job ok r files = Inr files' \<longleftrightarrow>
   record_path (jr_id r) ''.json'' \<noteq> None \<and> ok \<and> files' = AList.update (jr_id r) (ReadableJob r) files"
  by (auto simp: write_job_def)

lemma write_same_job:
  assumes r0: "job_at files (jr_id r) = Some r0" and same: "same_job r0 r"
  shows "files_later {} files (AList.update (jr_id r) (ReadableJob r) files)"
  by (rule files_laterI) (use r0 same in \<open>auto simp: job_at_update distinct_update split: if_splits\<close>)

text \<open>Every change but a checkpoint's keeps to one job and leaves nothing it writes queued.\<close>

definition settles :: "job_op \<Rightarrow> bool" where
  "settles op' \<longleftrightarrow> (\<forall>st r e. op' = Finish st r e \<longrightarrow> st \<noteq> JQueued)"

lemma change_same_job:
  "change_of op' now r = Inr (r', changed) \<Longrightarrow> settles op' \<Longrightarrow>
   same_job r r' \<and> (changed \<longrightarrow> (\<forall>c. op' \<noteq> AppendCheckpoint c) \<longrightarrow> jr_status r' \<noteq> JQueued)"
  by (cases op')
    (auto simp: settles_def start_queued_def append_checkpoint_def finish_job_def finish_cancelled_def request_cancel_def
      interrupt_queued_def discard_job_def same_job_def job_identity_def Let_def split: if_splits job_status.splits)

lemma modify_job_cases:
  assumes "modify_job change ok i files = (files', answer)"
  shows "files' = files \<or>
    (\<exists>r r'. get_job files i = Inr r \<and> change r = Inr (r', True) \<and> write_job ok r' files = Inr files' \<and> answer = Inr (r', True))"
  using assms by (auto simp: modify_job_def split: sum.splits if_splits)

lemma modify_job_later:
  assumes "modify_job (change_of op' now) ok i files = (files', answer)" and "files_named files" and "settles op'"
  shows "files_later {} files files'"
  using modify_job_cases [OF assms(1)]
proof (elim disjE exE conjE)
  fix r r' assume "get_job files i = Inr r" "change_of op' now r = Inr (r', True)" "write_job ok r' files = Inr files'"
  moreover have same: "same_job r r'" using change_same_job calculation assms(3) by blast
  ultimately have "job_at files (jr_id r') = Some r" "files' = AList.update (jr_id r') (ReadableJob r') files"
    using assms(2) same_job_id [OF same] by (auto simp: get_job_iff write_job_Some files_named_def)
  with write_same_job [OF _ same] show ?thesis by simp
qed simp

lemmas store_later = modify_job_later [of StartQueued, simplified] modify_job_later [of "AppendCheckpoint c" for c, simplified]
  modify_job_later [of "Finish st r e" for st r e, simplified] modify_job_later [of "FinishCancelled u" for u, simplified]
  modify_job_later [of RequestCancel, simplified] modify_job_later [of InterruptQueued, simplified]
  modify_job_later [of Discard, simplified]

lemma mark_each_later:
  assumes "files_named files" and "\<forall>r \<in> set rs. \<exists>r0. job_at files (jr_id r) = Some r0 \<and> same_job r0 r"
    and "distinct (map jr_id rs)" and "mark_each ok now rs files = (files', failure)"
  shows "files_later {} files files'"
  using assms
proof (induction rs arbitrary: files)
  case (Cons r rs)
  show ?case
  proof (cases "after_restart r")
    case None
    with Cons show ?thesis by auto
  next
    case (Some r')
    have r': "same_job r r'" "jr_id r' = jr_id r"
      using Some by (auto simp: after_restart_def same_job_def job_identity_def split: if_splits)
    show ?thesis
    proof (cases "update_job (ok (jr_id r)) now r' files")
      case (Inl e)
      with Cons.prems Some show ?thesis by auto
    next
      case (Inr files1)
      let ?w = "r'\<lparr>jr_updated_at := now\<rparr>"
      have w: "same_job r ?w" "jr_id ?w = jr_id r"
        using r' by (auto simp: same_job_def job_identity_def)
      have f1: "files1 = AList.update (jr_id r) (ReadableJob ?w) files"
        using Inr r'(2) by (simp add: update_job_def write_job_Some)
      obtain r0 where r0: "job_at files (jr_id r) = Some r0" "same_job r0 r" using Cons.prems(2) by auto
      then have "same_job r0 ?w" using w(1) unfolding same_job_def by simp
      then have later: "files_later {} files files1"
        using write_same_job [of files ?w r0] r0 w by (simp add: f1)
      have "\<forall>x \<in> set rs. \<exists>r0. job_at files1 (jr_id x) = Some r0 \<and> same_job r0 x"
        using Cons.prems(2,3) by (auto simp: f1 job_at_update rev_image_eqI)
      moreover have "mark_each ok now rs files1 = (files', failure)" using Cons.prems(4) Some Inr by simp
      ultimately have "files_later {} files1 files'"
        using Cons.IH [OF files_later_named [OF Cons.prems(1) later]] Cons.prems(3) by auto
      then show ?thesis using later files_later_trans by blast
    qed
  qed
qed simp

lemma listed_job:
  assumes listed: "r \<in> set (list_jobs files status session_id)" and named: "files_named files"
  shows "job_at files (jr_id r) = Some r"
proof -
  from listed obtain stem stored where "(stem, stored) \<in> set files" "readable_job stored = Some r"
    by (auto simp: list_jobs_def set_map_filter_iff)
  then have at: "job_at files stem = Some r" using named by (simp add: files_named_def job_at_def)
  then show ?thesis using named by (simp add: files_named_def)
qed

lemma distinct_entries:
  "distinct (map fst entries) \<Longrightarrow> (\<And>k st r. (k, st) \<in> set entries \<Longrightarrow> readable_job st = Some r \<Longrightarrow> jr_id r = k) \<Longrightarrow>
   distinct (map jr_id (List.map_filter (\<lambda>(k, st). readable_job st) entries))"
proof (induction entries)
  case (Cons e entries)
  obtain k st where e: "e = (k, st)" by (cases e)
  have "k \<notin> jr_id ` set (List.map_filter (\<lambda>(k, st). readable_job st) entries)"
    using Cons.prems e by (force simp: set_map_filter_iff)
  then show ?case using Cons e by (auto simp: List.map_filter_simps split: option.split)
qed (simp add: List.map_filter_simps)

lemma distinct_list_jobs: "files_named files \<Longrightarrow> distinct (map jr_id (list_jobs files status session_id))"
  unfolding list_jobs_def distinct_map_sort_desc
  by (intro distinct_map_filter distinct_entries)
    (auto simp: files_named_def job_at_def)

lemma startup_files:
  assumes named: "files_named files" and marked: "mark_running_interrupted ok now files = (files', failure)"
  shows "files_later {} files files'"
  using mark_each_later [OF named _ distinct_list_jobs [OF named]] marked listed_job [OF _ named]
  by (fastforce simp: mark_running_interrupted_def)

section \<open>A job starts at most once\<close>

definition started_ids :: "job_system \<Rightarrow> string set" where
  "started_ids s = fst ` set (js_started s)"

fun pending_fine :: "job_files \<Rightarrow> string set \<Rightarrow> pending \<Rightarrow> bool" where
  "pending_fine files started (Reading op' i) = (settles op' \<and> ((\<exists>c. op' = AppendCheckpoint c) \<longrightarrow> i \<in> started))"
| "pending_fine files started (Writing r) =
     (jr_status r \<noteq> JQueued \<and> (\<exists>r0. job_at files (jr_id r) = Some r0 \<and> job_identity r = job_identity r0))"

definition started_fine :: "job_files \<Rightarrow> string \<times> operator_var \<Rightarrow> bool" where
  "started_fine files e \<longleftrightarrow>
     (\<exists>r. job_at files (fst e) = Some r \<and> jr_status r \<noteq> JQueued \<and> snd e = operator_inside (jr_operator r))"

fun phase_fine :: "job_files \<Rightarrow> string set \<Rightarrow> string \<Rightarrow> job_phase \<Rightarrow> bool" where
  "phase_fine files started i Fetched = True"
| "phase_fine files started i (Acting identity) = (\<forall>r. get_job files i = Inr r \<longrightarrow> identity = jr_operator r)"
| "phase_fine files started i (Closing running) = True"
| "phase_fine files started i p = (i \<in> started)"

definition jobs_ok :: "job_system \<Rightarrow> bool" where
  "jobs_ok s \<longleftrightarrow> files_named (js_files s) \<and> distinct (map fst (js_started s)) \<and>
     (\<forall>e \<in> set (js_started s). started_fine (js_files s) e) \<and>
     (\<forall>p \<in> set (js_pending s). pending_fine (js_files s) (started_ids s) p) \<and>
     (\<forall>i p. phase_of s i = Some p \<longrightarrow> phase_fine (js_files s) (started_ids s) i p)"

lemma jobs_okI:
  "files_named (js_files s) \<Longrightarrow> distinct (map fst (js_started s)) \<Longrightarrow>
   (\<And>e. e \<in> set (js_started s) \<Longrightarrow> started_fine (js_files s) e) \<Longrightarrow>
   (\<And>p. p \<in> set (js_pending s) \<Longrightarrow> pending_fine (js_files s) (started_ids s) p) \<Longrightarrow>
   (\<And>i p. phase_of s i = Some p \<Longrightarrow> phase_fine (js_files s) (started_ids s) i p) \<Longrightarrow> jobs_ok s"
  by (simp add: jobs_ok_def)

lemma started_fine_later:
  assumes later: "files_later new files files'" and fine: "started_fine files e"
  shows "started_fine files' e"
proof -
  from fine obtain r where r: "job_at files (fst e) = Some r" "jr_status r \<noteq> JQueued" "snd e = operator_inside (jr_operator r)"
    by (auto simp: started_fine_def)
  from files_laterD [OF later r(1)] obtain r' where r': "job_at files' (fst e) = Some r'" "same_job r r'" by blast
  with r show ?thesis using same_job_id [OF r'(2)] by (simp add: started_fine_def same_job_def)
qed

lemma pending_fine_later:
  assumes later: "files_later new files files'" and fine: "pending_fine files started p"
  shows "pending_fine files' started p"
proof (cases p)
  case (Writing r)
  with fine obtain r0 where r0: "job_at files (jr_id r) = Some r0" "job_identity r = job_identity r0" by auto
  from files_laterD [OF later r0(1)] obtain r' where "job_at files' (jr_id r) = Some r'" "same_job r0 r'" by blast
  with fine r0 show ?thesis by (simp add: Writing same_job_def)
qed (use fine in simp)

lemma phase_fine_later:
  "files_later new files files' \<Longrightarrow> i \<notin> new \<Longrightarrow> phase_fine files started i p \<Longrightarrow> phase_fine files' started i p"
  by (cases p) (auto simp: get_job_iff dest!: files_later_old dest: same_job_id)

text \<open>Other files: the invariant stays where the new ids have no task.\<close>

lemma jobs_ok_files:
  assumes ok: "jobs_ok s" and later: "files_later new (js_files s) files'" and unused: "\<And>i. i \<in> new \<Longrightarrow> phase_of s i = None"
  shows "jobs_ok (s\<lparr>js_files := files'\<rparr>)"
proof (rule jobs_okI)
  show "phase_fine (js_files (s\<lparr>js_files := files'\<rparr>)) (started_ids (s\<lparr>js_files := files'\<rparr>)) i p"
    if "phase_of (s\<lparr>js_files := files'\<rparr>) i = Some p" for i p
  proof -
    have p: "phase_of s i = Some p" using that by (simp add: phase_of_def)
    then have "i \<notin> new" using unused by fastforce
    with p show ?thesis using ok phase_fine_later [OF later] by (simp add: jobs_ok_def started_ids_def)
  qed
qed (use ok later in \<open>auto simp: jobs_ok_def started_ids_def intro: files_later_named started_fine_later pending_fine_later\<close>)

text \<open>Other phases and threads: each new one has to be fine.\<close>

lemma jobs_ok_change:
  assumes "jobs_ok s" and "js_files t = js_files s" and "js_started t = js_started s"
    and "\<And>p. p \<in> set (js_pending t) \<Longrightarrow> p \<in> set (js_pending s) \<or> pending_fine (js_files s) (started_ids s) p"
    and "\<And>i p. phase_of t i = Some p \<Longrightarrow> phase_of s i = Some p \<or> phase_fine (js_files s) (started_ids s) i p"
  shows "jobs_ok t"
proof -
  have "started_ids t = started_ids s" using assms(3) by (simp add: started_ids_def)
  with assms show ?thesis unfolding jobs_ok_def by metis
qed

lemma phase_of_set [simp]: "phase_of (set_phase i p s) j = (if j = i then Some p else phase_of s j)"
  by (simp add: phase_of_def set_phase_def alist_lookup)

lemma set_phase_fields [simp]:
  "js_files (set_phase i p s) = js_files s" "js_started (set_phase i p s) = js_started s"
  "js_pending (set_phase i p s) = js_pending s"
  by (simp_all add: set_phase_def)

lemma begin_closing_fields [simp]:
  "js_files (begin_closing i s) = js_files s" "js_started (begin_closing i s) = js_started s"
  "js_pending (begin_closing i s) = js_pending s"
  by (simp_all add: begin_closing_def)

lemma phase_of_begin_closing [simp]:
  "phase_of (begin_closing i s) j = (if j = i then Some (Closing (i \<in> set (js_on_finish s))) else phase_of s j)"
  by (simp add: begin_closing_def phase_of_def set_phase_def alist_lookup)

lemma phase_of_end [simp]: "phase_of (end_task i s) j = (if j = i then None else phase_of s j)"
  by (simp add: end_task_def phase_of_def alist_lookup)

lemma phase_of_cancel_task [simp]: "phase_of (cancel_task i s) j = phase_of s j"
  by (simp add: cancel_task_def phase_of_def)

lemma cancel_task_fields [simp]:
  "js_files (cancel_task i s) = js_files s" "js_started (cancel_task i s) = js_started s"
  "js_pending (cancel_task i s) = js_pending s"
  by (simp_all add: cancel_task_def)

lemma phase_of_update [simp]:
  "phase_of (s\<lparr>js_files := f\<rparr>) = phase_of s" "phase_of (s\<lparr>js_pending := q\<rparr>) = phase_of s"
  "phase_of (s\<lparr>js_queue := l\<rparr>) = phase_of s" "phase_of (s\<lparr>js_requeue := l\<rparr>) = phase_of s"
  "phase_of (s\<lparr>js_on_finish := l\<rparr>) = phase_of s" "phase_of (s\<lparr>js_reasons := rs\<rparr>) = phase_of s"
  "phase_of (s\<lparr>js_enqueuing := es\<rparr>) = phase_of s" "phase_of (s\<lparr>js_cancelling := l\<rparr>) = phase_of s"
  "phase_of (s\<lparr>js_registered := l\<rparr>) = phase_of s" "phase_of (s\<lparr>js_dropped := l\<rparr>) = phase_of s"
  "phase_of (s\<lparr>js_aborted := l\<rparr>) = phase_of s" "phase_of (s\<lparr>js_worker_count := n\<rparr>) = phase_of s"
  "phase_of (s\<lparr>js_started := st\<rparr>) = phase_of s"
  by (auto simp: phase_of_def)

lemma jobs_ok_closing: "jobs_ok s \<Longrightarrow> jobs_ok (begin_closing i s)"
  by (erule jobs_ok_change) (auto split: if_splits)

lemma jobs_ok_phase: "jobs_ok s \<Longrightarrow> phase_fine (js_files s) (started_ids s) i p \<Longrightarrow> jobs_ok (set_phase i p s)"
  by (erule jobs_ok_change) (auto split: if_splits)

text \<open>After an operation of the store.\<close>

lemma jobs_ok_modify:
  assumes "jobs_ok s" and "modify_job (change_of op' now) ok i (js_files s) = (files', answer)" and "settles op'"
  shows "jobs_ok (s\<lparr>js_files := files'\<rparr>)"
  using jobs_ok_files [OF assms(1) modify_job_later [OF assms(2)]] assms by (simp add: jobs_ok_def)

lemma settles_simps [simp]:
  "settles StartQueued" "settles (AppendCheckpoint c)" "settles (FinishCancelled u)" "settles RequestCancel"
  "settles InterruptQueued" "settles Discard" "settles (Finish st r e) \<longleftrightarrow> st \<noteq> JQueued"
  by (simp_all add: settles_def)

lemmas jobs_ok_store =
  jobs_ok_modify [of _ "AppendCheckpoint c" for c, simplified] jobs_ok_modify [of _ "Finish st r e" for st r e, simplified]
  jobs_ok_modify [of _ "FinishCancelled u" for u, simplified] jobs_ok_modify [of _ RequestCancel, simplified]
  jobs_ok_modify [of _ InterruptQueued, simplified] jobs_ok_modify [of _ Discard, simplified]
  jobs_ok_modify [of _ StartQueued, simplified]

lemma jobs_ok_started:
  assumes ok: "jobs_ok s" and acting: "phase_of s i = Some (Acting identity)"
  shows "jobs_ok (start_job io now i identity s)"
proof -
  obtain files answer where m: "modify_job (start_queued now) io i (js_files s) = (files, answer)" by fastforce
  have okf: "jobs_ok (s\<lparr>js_files := files\<rparr>)" using jobs_ok_store(7) [OF ok m] .
  show ?thesis
  proof (cases "\<exists>r. answer = Inr (r, True)")
    case False
    then have "start_job io now i identity s = begin_closing i (s\<lparr>js_files := files\<rparr>)"
      using m by (auto simp: start_job_def split: sum.splits bool.splits)
    then show ?thesis using jobs_ok_closing [OF okf] by simp
  next
    case True
    then obtain r where r: "answer = Inr (r, True)" by blast
    from modify_job_cases [OF m] obtain r0 where r0: "get_job (js_files s) i = Inr r0" "start_queued now r0 = Inr (r, True)"
      and files: "write_job io r (js_files s) = Inr files"
    proof (elim disjE exE conjE)
      assume same: "files = js_files s"
      from m r obtain r0 where "get_job (js_files s) i = Inr r0" "start_queued now r0 = Inr (r, True)"
        "write_job io r (js_files s) = Inr files"
        by (auto simp: modify_job_def split: sum.splits if_splits)
      then show ?thesis using that by blast
    qed (use r that in auto)
    have id: "jr_id r0 = i" using r0(1) ok by (simp add: get_job_iff jobs_ok_def files_named_def)
    have q: "jr_status r0 = JQueued" and r': "r = r0\<lparr>jr_status := JRunning, jr_updated_at := now\<rparr>"
      using r0(2) by (auto simp: start_queued_def split: if_splits)
    have new: "i \<notin> started_ids s"
    proof
      assume "i \<in> started_ids s"
      then have "\<exists>r. job_at (js_files s) i = Some r \<and> jr_status r \<noteq> JQueued"
        using ok by (auto simp: started_ids_def jobs_ok_def started_fine_def)
      then show False using r0(1) q by (simp add: get_job_iff)
    qed
    have "phase_fine (js_files s) (started_ids s) i (Acting identity)" using ok acting unfolding jobs_ok_def by blast
    then have op_id: "identity = jr_operator r0" using r0(1) by simp
    let ?t = "start_job io now i identity s"
    have t: "?t = set_phase i Started (s\<lparr>js_files := files, js_started := js_started s @ [(i, operator_inside identity)]\<rparr>)"
      using m r by (simp add: start_job_def)
    have fine: "started_fine files (i, operator_inside identity)"
      using files id r' op_id by (simp add: started_fine_def write_job_Some job_at_update)
    have ids: "started_ids ?t = insert i (started_ids s)" by (simp add: t started_ids_def)
    show ?thesis
    proof (rule jobs_okI)
      show "pending_fine (js_files ?t) (started_ids ?t) p" if "p \<in> set (js_pending ?t)" for p
        using okf that unfolding ids by (cases p) (auto simp: t jobs_ok_def started_ids_def)
      show "phase_fine (js_files ?t) (started_ids ?t) j p" if "phase_of ?t j = Some p" for j p
      proof (cases "j = i")
        case False
        with that have "phase_fine files (started_ids s) j p"
          using okf by (simp add: t jobs_ok_def started_ids_def)
        then show ?thesis unfolding ids by (cases p) (auto simp: t)
      qed (use that ids in \<open>simp add: t\<close>)
    qed (use okf new fine in \<open>auto simp: t jobs_ok_def started_ids_def\<close>)
  qed
qed

lemma jobs_ok_startup:
  assumes "files_named files" and "distinct (map fst started)" and "\<forall>e \<in> set started. started_fine files e"
  shows "jobs_ok (start_queue ok now workers files started)"
proof -
  obtain files' failure where m: "mark_running_interrupted ok now files = (files', failure)" by fastforce
  note later = startup_files [OF assms(1) m]
  show ?thesis
    using assms files_later_named [OF assms(1) later] started_fine_later [OF later]
    by (auto simp: jobs_ok_def start_queue_def m phase_of_def)
qed

text \<open>A new record under an id nothing has heard of.\<close>

lemma create_later:
  assumes "create_job ok r files = (files', answer)" and "map_of files (jr_id r) = None"
  shows "files_later {jr_id r} files files'"
proof -
  have "files' = files \<or> files' = AList.update (jr_id r) (ReadableJob r) files"
    using assms(1) by (auto simp: create_job_def write_job_Some split: sum.splits)
  moreover have "job_at files (jr_id r) = None" using assms(2) by (simp add: job_at_def)
  ultimately show ?thesis by (auto intro!: files_laterI simp: job_at_update distinct_update split: if_splits)
qed

lemma unheard_of_idle: "unheard_of i s \<Longrightarrow> phase_of s i = None \<and> map_of (js_files s) i = None"
  by (auto simp: unheard_of_def phase_of_def map_of_eq_None_iff)

lemma jobs_ok_create:
  assumes "jobs_ok s" and "unheard_of (jr_id r) s" and "create_job ok r (js_files s) = (files', answer)"
  shows "jobs_ok (s\<lparr>js_files := files'\<rparr>)"
  using jobs_ok_files [OF assms(1) create_later [OF assms(3)]] unheard_of_idle [OF assms(2)] by simp

lemma jobs_ok_enqueue:
  assumes ok: "jobs_ok s" and unheard: "unheard_of (jr_id r) s"
  shows "jobs_ok (fst (enqueue io given r s))"
proof -
  obtain files answer where c: "create_job io r (js_files s) = (files, answer)" by fastforce
  note okf = jobs_ok_create [OF ok unheard c]
  have full: "pending_fine files (started_ids s) (Writing (r\<lparr>jr_status := JFailed, jr_error := e\<rparr>))" if "answer = Inr x" for x e
    using c that by (auto simp: create_job_def write_job_Some job_at_update job_identity_def split: sum.splits)
  show ?thesis
  proof (cases answer)
    case (Inr x)
    then have x: "x = r" using c by (auto simp: create_job_def split: sum.splits)
    show ?thesis
      by (rule jobs_ok_change [OF okf]) (use full [OF Inr] in \<open>auto simp: enqueue_def c Inr x Let_def started_ids_def split: if_splits\<close>)
  qed (use okf in \<open>simp add: enqueue_def c\<close>)
qed

lemma jobs_ok_pending_read:
  assumes ok: "jobs_ok s" and pend: "js_pending s = before @ Reading op' i # after"
  shows "jobs_ok (pending_read before op' i after now s)"
proof (rule jobs_ok_change [OF ok])
  fix p assume "p \<in> set (js_pending (pending_read before op' i after now s))"
  then consider "p \<in> set before \<union> set after"
    | r r' where "get_job (js_files s) i = Inr r" "change_of op' now r = Inr (r', True)" "p = Writing r'"
    by (cases "get_job (js_files s) i"; cases "change_of op' now (projr (get_job (js_files s) i))")
      (auto simp: pending_read_def split: bool.splits)
  then show "p \<in> set (js_pending s) \<or> pending_fine (js_files s) (started_ids s) p"
  proof cases
    case 2
    have rd: "pending_fine (js_files s) (started_ids s) (Reading op' i)" using ok pend by (auto simp: jobs_ok_def)
    have at: "job_at (js_files s) i = Some r" and named: "jr_id r = i"
      using 2(1) ok by (auto simp: get_job_iff jobs_ok_def files_named_def)
    have same: "same_job r r'" and settled: "(\<forall>c. op' \<noteq> AppendCheckpoint c) \<longrightarrow> jr_status r' \<noteq> JQueued"
      using change_same_job [OF 2(2)] rd by auto
    have "jr_status r' \<noteq> JQueued"
    proof (cases "\<exists>c. op' = AppendCheckpoint c")
      case True
      then have "i \<in> started_ids s" using rd by auto
      then have "jr_status r \<noteq> JQueued" using ok at by (auto simp: started_ids_def jobs_ok_def started_fine_def)
      then show ?thesis using same by (simp add: same_job_def)
    qed (use settled in blast)
    then show ?thesis using 2(3) same at named same_job_id [OF same] by (simp add: same_job_def)
  qed (use pend in auto)
qed (simp_all add: pending_read_def)

lemma jobs_ok_pending_write:
  assumes ok: "jobs_ok s" and pend: "js_pending s = before @ Writing r # after"
  shows "jobs_ok (pending_write io before r after s)"
proof -
  have wr: "pending_fine (js_files s) (started_ids s) (Writing r)" using ok pend by (auto simp: jobs_ok_def)
  then obtain r0 where r0: "job_at (js_files s) (jr_id r) = Some r0" "same_job r0 r" by (auto simp: same_job_def)
  define files where "files = (case write_job io r (js_files s) of Inl _ \<Rightarrow> js_files s | Inr files \<Rightarrow> files)"
  have "files_later {} (js_files s) files"
    using write_same_job [OF r0] by (auto simp: files_def write_job_Some split: sum.split)
  from jobs_ok_files [OF ok this] have "jobs_ok (s\<lparr>js_files := files\<rparr>)" by simp
  then show ?thesis
    by (rule jobs_ok_change) (use pend in \<open>auto simp: pending_write_def files_def\<close>)
qed

lemma jobs_ok_withdraw:
  assumes "jobs_ok s" shows "jobs_ok (fst (withdraw ok now i s))"
proof -
  obtain files answer where m: "modify_job (interrupt_queued now) ok i (js_files s) = (files, answer)" by fastforce
  show ?thesis
    by (rule jobs_ok_change [OF jobs_ok_store(5) [OF assms m]])
      (auto simp: withdraw_def m Let_def started_ids_def split: sum.splits if_splits)
qed

lemma jobs_ok_cancel_job:
  assumes "jobs_ok s" shows "jobs_ok (fst (cancel_job access ok now i s))"
proof -
  obtain files answer where m: "modify_job (request_cancel now) ok i (js_files s) = (files, answer)" by fastforce
  show ?thesis
  proof (cases "accessible_job access i s")
    case (Inr r)
    show ?thesis
      by (rule jobs_ok_change [OF jobs_ok_store(4) [OF assms m]])
        (auto simp: cancel_job_def Inr m Let_def started_ids_def split: sum.splits if_splits)
  qed (simp add: cancel_job_def assms)
qed

lemma jobs_ok_discard:
  assumes "jobs_ok s" shows "jobs_ok (fst (discard_public access ok now i s))"
proof -
  obtain files answer where m: "modify_job (discard_job now) ok i (js_files s) = (files, answer)" by fastforce
  show ?thesis
    using jobs_ok_store(6) [OF assms m] assms
    by (auto simp: discard_public_def m split: sum.splits)
qed

lemma jobs_ok_resume:
  assumes ok: "jobs_ok s" and unheard: "unheard_of fresh_id s"
  shows "jobs_ok (fst (resume_job trim access io now fresh_id operator' max_steps i s))"
proof -
  have "jobs_ok (fst (enqueue io False (new_job now fresh_id sid AgentRun payload parent op') s))" for sid payload parent op'
    using jobs_ok_enqueue [OF ok] unheard by (simp add: new_job_def)
  then show ?thesis
    using ok by (simp add: resume_job_def split: sum.split prod.split) (metis fst_conv)
qed

lemma started_fine_ids: "jobs_ok s \<Longrightarrow> phase_of s i = Some p \<Longrightarrow> p \<in> {Started, Working, Stopping, Reported} \<or> (\<exists>d. p = Failing d) \<Longrightarrow>
  i \<in> started_ids s"
  unfolding jobs_ok_def by force

lemma jobs_ok_task:
  assumes ok: "jobs_ok s" and at: "phase_of s i = Some p"
  shows "p = Fetched \<Longrightarrow> jobs_ok (queued_by i s)"
    and "p = Started \<Longrightarrow> jobs_ok (started_audited io i s)"
    and "p = Working \<Longrightarrow> jobs_ok (orchestrator_raised detail i s)"
    and "p = Working \<Longrightarrow> jobs_ok (checkpoint_step io now detail c i s)"
    and "p = Working \<Longrightarrow> jobs_ok (finish_working io now detail result i s)"
    and "p = Failing detail \<Longrightarrow> jobs_ok (finish_failing io now detail i s)"
    and "p = Stopping \<Longrightarrow> jobs_ok (record_stop io now i s)"
proof -
  have in_started: "i \<in> started_ids (s\<lparr>js_files := files\<rparr>)"
    if "p \<in> {Started, Working, Stopping, Reported} \<or> (\<exists>d. p = Failing d)" for files
    using started_fine_ids [OF ok at that] by (simp add: started_ids_def)
  show "jobs_ok (queued_by i s)"
    using ok by (auto simp: queued_by_def intro: jobs_ok_closing jobs_ok_phase split: sum.split job_error.split)
  show "p = Started \<Longrightarrow> jobs_ok (started_audited io i s)"
    using ok started_fine_ids [OF ok at] by (simp add: started_audited_def jobs_ok_closing jobs_ok_phase)
  show "p = Working \<Longrightarrow> jobs_ok (orchestrator_raised detail i s)"
    using ok started_fine_ids [OF ok at] by (simp add: orchestrator_raised_def jobs_ok_phase)
  show "p = Working \<Longrightarrow> jobs_ok (checkpoint_step io now detail c i s)"
  proof -
    assume "p = Working"
    obtain files answer where m: "modify_job (append_checkpoint now c) io i (js_files s) = (files, answer)" by fastforce
    show ?thesis
      using jobs_ok_store(1) [OF ok m] in_started [of files] \<open>p = Working\<close>
      by (auto simp: checkpoint_step_def m intro!: jobs_ok_phase split: sum.split)
  qed
  show "p = Working \<Longrightarrow> jobs_ok (finish_working io now detail result i s)"
  proof -
    assume "p = Working"
    define st where "st = (if result_status result = EndedAs StepError then JFailed else JCompleted)"
    define e where "e = (if result_status result = EndedAs StepError then Some (reported_error result) else None)"
    obtain files answer where m: "modify_job (finish_job now st (Some result) e) io i (js_files s) = (files, answer)" by fastforce
    have "st \<noteq> JQueued" by (simp add: st_def)
    from jobs_ok_store(2) [OF ok m this] in_started [of files] \<open>p = Working\<close> show ?thesis
      using m by (auto simp: finish_working_def st_def e_def Let_def intro!: jobs_ok_phase split: sum.split)
  qed
  show "p = Failing detail \<Longrightarrow> jobs_ok (finish_failing io now detail i s)"
  proof -
    assume "p = Failing detail"
    obtain files answer where m: "modify_job (finish_job now JFailed None (Some (take 500 detail))) io i (js_files s) = (files, answer)"
      by fastforce
    from jobs_ok_store(2) [OF ok m] in_started [of files] \<open>p = Failing detail\<close> show ?thesis
      by (auto simp: finish_failing_def m intro!: jobs_ok_phase jobs_ok_closing split: sum.split)
  qed
  show "p = Stopping \<Longrightarrow> jobs_ok (record_stop io now i s)"
  proof -
    obtain files answer where
      m: "modify_job (finish_cancelled now (map_of (js_reasons s) i = Some ''user'')) io i (js_files s) = (files, answer)"
      by fastforce
    from jobs_ok_store(3) [OF ok m] show ?thesis
      by (simp add: record_stop_def m Let_def jobs_ok_closing)
  qed
qed

lemma left_by_fine: "phase_of s i = Some p \<Longrightarrow> jobs_ok s \<Longrightarrow> left_by p op' \<Longrightarrow>
  pending_fine (js_files s) (started_ids s) (Reading op' i)"
  using started_fine_ids [of s i p] by (cases p) auto

lemma jobs_ok_deliver:
  assumes ok: "jobs_ok s" and at: "phase_of s i = Some p" and left: "left = None \<or> (\<exists>op'. left = Some op' \<and> left_by p op')"
  shows "jobs_ok (deliver_cancel left i s)"
proof -
  let ?s1 = "s\<lparr>js_cancelling := filter (\<lambda>x. x \<noteq> i) (js_cancelling s),
    js_pending := (case left of None \<Rightarrow> js_pending s | Some op' \<Rightarrow> Reading op' i # js_pending s)\<rparr>"
  have s1: "jobs_ok ?s1"
    by (rule jobs_ok_change [OF ok]) (use left left_by_fine [OF at ok] in \<open>auto split: option.splits simp del: pending_fine.simps\<close>)
  have ids: "started_ids ?s1 = started_ids s" by (simp add: started_ids_def)
  have "jobs_ok (set_phase i (Closing False) (?s1\<lparr>js_aborted := a\<rparr>))" for a
    by (rule jobs_ok_change [OF s1]) (auto split: if_splits)
  then show ?thesis
    using s1 started_fine_ids [OF ok at]
    by (cases p) (auto simp: deliver_cancel_def at Let_def ids intro!: jobs_ok_closing jobs_ok_phase)
qed

lemma job_step_jobs_ok: "job_step s t \<Longrightarrow> jobs_ok s \<Longrightarrow> jobs_ok t"
proof (induction rule: job_step.induct)
  case (requeueing s)
  then show ?case by (rule jobs_ok_change) (auto simp: requeue_def split: list.splits if_splits)
next
  case (enqueueing r s ok given)
  then show ?case using jobs_ok_enqueue by blast
next
  case (creating r s ok)
  then show ?case using jobs_ok_create [of s r ok] by (cases "create_job ok r (js_files s)") (simp add: create_cancelled_def)
next
  case (enqueued s i)
  then show ?case by (rule jobs_ok_change) (auto simp: enqueued_def)
next
  case (taking_back i s)
  from this(2) show ?case by (rule jobs_ok_change) (auto simp: take_back_callback_def enqueued_def)
next
  case (fetching s)
  then show ?case by (rule jobs_ok_change) (auto simp: fetch_def split: list.splits if_splits)
next
  case (closing s i running)
  from this(2) show ?case by (rule jobs_ok_change) (auto simp: end_task_def phase_of_def alist_lookup split: if_splits)
next
  case (call_left op' s i)
  from this(2) show ?case by (rule jobs_ok_change) (use call_left(1) in auto)
next
  case (stopped s)
  then show ?case by (rule jobs_ok_change) (auto simp: shutdown_def phase_of_def)
qed (auto simp: goes_on_def intro: jobs_ok_withdraw jobs_ok_task jobs_ok_started jobs_ok_closing jobs_ok_deliver
      jobs_ok_pending_read jobs_ok_pending_write jobs_ok_discard jobs_ok_cancel_job jobs_ok_resume)

interpretation jobs: machine process_step jobs_ok
proof
  fix s t assume "jobs_ok s" "process_step s t"
  from this(2,1) show "jobs_ok t"
  proof (induction rule: process_step.induct)
    case (restarting s ok now workers)
    then show ?case by (intro jobs_ok_startup) (auto simp: jobs_ok_def)
  qed (rule job_step_jobs_ok)
qed

text \<open>
  C4: in any run of the controller, over any number of restarts and whatever writes fail or are left behind by
  a cancelled call, a job starts at most once, and as the operator its record names.
\<close>

theorem job_starts_at_most_once:
  assumes "files_named files" and "process_step\<^sup>*\<^sup>* (start_queue ok now workers files []) s"
  shows "distinct (map fst (js_started s)) \<and>
    (\<forall>(i, as_whom) \<in> set (js_started s). \<exists>r. job_at (js_files s) i = Some r \<and> jr_status r \<noteq> JQueued \<and>
       as_whom = operator_inside (jr_operator r))"
proof -
  have "jobs_ok (start_queue ok now workers files [])" using jobs_ok_startup [OF assms(1)] by simp
  from jobs.run_keeps [OF assms(2) this] show ?thesis by (auto simp: jobs_ok_def started_fine_def)
qed

end
