(* ===== verification/JobCallbacks.thy ===== *)
theory JobCallbacks
  imports JobFacts
begin

text \<open>
  The finish callbacks of the job queue: within a process each is called at most once, none is lost while its
  job is queued or running, and none is called before its job is done running.
\<close>

fun is_closing :: "job_phase \<Rightarrow> bool" where
  "is_closing (Closing running) = True"
| "is_closing p = False"

definition waiting_ids :: "job_system \<Rightarrow> string list" where
  "waiting_ids s = js_queue s @ js_requeue s"

definition under_way :: "job_system \<Rightarrow> string \<Rightarrow> bool" where
  "under_way s i \<longleftrightarrow> i \<in> set (js_queue s) \<or> (\<exists>p. phase_of s i = Some p \<and> \<not> is_closing p)"

definition done_running :: "job_system \<Rightarrow> string \<Rightarrow> bool" where
  "done_running s i \<longleftrightarrow> i \<notin> set (waiting_ids s) \<and> (\<forall>p. phase_of s i = Some p \<longrightarrow> is_closing p)"

definition places_ok :: "job_system \<Rightarrow> bool" where
  "places_ok s \<longleftrightarrow> distinct (waiting_ids s) \<and> distinct (map fst (js_tasks s)) \<and>
     (\<forall>i \<in> set (waiting_ids s). phase_of s i = None) \<and> length (js_queue s) \<le> QUEUE_SIZE \<and>
     (js_worker_count s = 0 \<or> length (js_tasks s) \<le> js_worker_count s)"

definition callbacks_ok :: "job_system \<Rightarrow> bool" where
  "callbacks_ok s \<longleftrightarrow> places_ok s \<and> distinct (js_called s) \<and>
     (\<forall>i \<in> set (js_on_finish s). under_way s i) \<and>
     (\<forall>i \<in> set (js_called s). i \<notin> set (js_on_finish s) \<and> done_running s i) \<and>
     (\<forall>i \<in> set (js_registered s). i \<in> set (js_called s) \<or> i \<in> set (js_dropped s) \<or> i \<in> set (js_on_finish s))"

lemma callbacks_okI:
  "places_ok s \<Longrightarrow> distinct (js_called s) \<Longrightarrow>
   (\<And>i. i \<in> set (js_on_finish s) \<Longrightarrow> under_way s i) \<Longrightarrow>
   (\<And>i. i \<in> set (js_called s) \<Longrightarrow> i \<notin> set (js_on_finish s) \<and> done_running s i) \<Longrightarrow>
   (\<And>i. i \<in> set (js_registered s) \<Longrightarrow> i \<in> set (js_called s) \<or> i \<in> set (js_dropped s) \<or> i \<in> set (js_on_finish s)) \<Longrightarrow>
   callbacks_ok s"
  by (simp add: callbacks_ok_def)

lemmas place_defs = places_ok_def waiting_ids_def under_way_def done_running_def phase_of_def

text \<open>Steps that touch neither a job's place nor a callback.\<close>

definition same_places :: "job_system \<Rightarrow> job_system \<Rightarrow> bool" where
  "same_places s t \<longleftrightarrow> js_queue t = js_queue s \<and> js_requeue t = js_requeue s \<and> js_tasks t = js_tasks s \<and>
     js_on_finish t = js_on_finish s \<and> js_called t = js_called s \<and> js_registered t = js_registered s \<and>
     js_dropped t = js_dropped s \<and> js_worker_count t = js_worker_count s"

lemma callbacks_ok_same:
  assumes "callbacks_ok s" and same: "same_places s t"
  shows "callbacks_ok t"
proof -
  have "places_ok t = places_ok s" "under_way t = under_way s" "done_running t = done_running s"
    using same by (simp_all add: same_places_def place_defs fun_eq_iff)
  with assms show ?thesis by (simp add: callbacks_ok_def same_places_def)
qed

lemma task_listed: "phase_of s i = Some p \<Longrightarrow> i \<in> set (map fst (js_tasks s))"
  by (force simp: phase_of_def dest: map_of_SomeD)

lemma length_update_listed: "k \<in> set (map fst xs) \<Longrightarrow> length (AList.update k v xs) = length xs"
  by (induction xs) auto

lemma update_unlisted: "k \<notin> set (map fst xs) \<Longrightarrow> AList.update k v xs = xs @ [(k, v)]"
  by (induction xs) auto

lemma length_delete_listed: "length (AList.delete k xs) \<le> length xs"
  by (simp add: AList.delete_eq)

lemma set_phase_callbacks [simp]:
  "js_on_finish (set_phase i p s) = js_on_finish s" "js_called (set_phase i p s) = js_called s"
  "js_registered (set_phase i p s) = js_registered s" "js_dropped (set_phase i p s) = js_dropped s"
  "js_queue (set_phase i p s) = js_queue s" "js_requeue (set_phase i p s) = js_requeue s"
  "js_worker_count (set_phase i p s) = js_worker_count s"
  by (simp_all add: set_phase_def)

lemma places_set_phase:
  assumes ok: "places_ok s" and at: "phase_of s i = Some q"
  shows "places_ok (set_phase i p s)"
proof -
  have "length (js_tasks (set_phase i p s)) = length (js_tasks s)"
    using length_update_listed [OF task_listed [OF at]] by (simp add: set_phase_def)
  moreover have "distinct (map fst (js_tasks (set_phase i p s)))"
    using ok by (simp add: set_phase_def distinct_update places_ok_def)
  ultimately show ?thesis
    using ok at unfolding places_ok_def waiting_ids_def by auto
qed

lemma callbacks_set_phase:
  assumes ok: "callbacks_ok s" and at: "phase_of s i = Some q" and kind: "is_closing p = is_closing q"
  shows "callbacks_ok (set_phase i p s)"
proof (rule callbacks_okI)
  show "places_ok (set_phase i p s)" using places_set_phase [OF _ at] ok by (simp add: callbacks_ok_def)
  show "under_way (set_phase i p s) j" if "j \<in> set (js_on_finish (set_phase i p s))" for j
    using that ok at kind unfolding callbacks_ok_def under_way_def by auto
  show "j \<notin> set (js_on_finish (set_phase i p s)) \<and> done_running (set_phase i p s) j"
    if "j \<in> set (js_called (set_phase i p s))" for j
    using that ok at kind unfolding callbacks_ok_def done_running_def waiting_ids_def by auto
qed (use ok in \<open>auto simp: callbacks_ok_def\<close>)

lemma callbacks_begin_closing:
  assumes ok: "callbacks_ok s" and at: "phase_of s i = Some q" and running: "\<not> is_closing q"
  shows "callbacks_ok (begin_closing i s)"
proof (rule callbacks_okI)
  have "places_ok (set_phase i (Closing (i \<in> set (js_on_finish s))) s)"
    using places_set_phase [OF _ at] ok by (simp add: callbacks_ok_def)
  then show "places_ok (begin_closing i s)" by (simp add: begin_closing_def place_defs)
  have not_called: "i \<notin> set (js_called s)" using ok at running unfolding callbacks_ok_def done_running_def by blast
  then show "distinct (js_called (begin_closing i s))" using ok by (simp add: begin_closing_def callbacks_ok_def)
  show "under_way (begin_closing i s) j" if "j \<in> set (js_on_finish (begin_closing i s))" for j
    using that ok by (auto simp: callbacks_ok_def under_way_def) (auto simp: begin_closing_def)
  have "i \<notin> set (waiting_ids s)" using ok at by (auto simp: callbacks_ok_def places_ok_def)
  then show "j \<notin> set (js_on_finish (begin_closing i s)) \<and> done_running (begin_closing i s) j"
    if "j \<in> set (js_called (begin_closing i s))" for j
    using that ok by (auto simp: callbacks_ok_def done_running_def)
      (auto simp: begin_closing_def waiting_ids_def split: if_splits)
  show "j \<in> set (js_called (begin_closing i s)) \<or> j \<in> set (js_dropped (begin_closing i s)) \<or>
      j \<in> set (js_on_finish (begin_closing i s))" if "j \<in> set (js_registered (begin_closing i s))" for j
    using that ok by (auto simp: begin_closing_def callbacks_ok_def)
qed

lemma callbacks_requeue: "callbacks_ok s \<Longrightarrow> callbacks_ok (requeue s)"
proof (cases "js_requeue s")
  case (Cons i rest)
  assume ok: "callbacks_ok s"
  show ?thesis
  proof (cases "length (js_queue s) < QUEUE_SIZE")
    case True
    then have t: "requeue s = s\<lparr>js_queue := js_queue s @ [i], js_requeue := rest\<rparr>" using Cons by (simp add: requeue_def)
    have w: "waiting_ids (requeue s) = waiting_ids s" using Cons by (simp add: t waiting_ids_def)
    then have "places_ok (requeue s)" using ok True by (simp add: callbacks_ok_def places_ok_def) (simp add: t)
    moreover have "under_way s j \<Longrightarrow> under_way (requeue s) j" for j by (auto simp: under_way_def t)
    moreover have "done_running (requeue s) j = done_running s j" for j
      unfolding done_running_def w by (simp add: t)
    ultimately show ?thesis using ok by (simp add: callbacks_ok_def) (simp add: t)
  qed (use ok Cons in \<open>simp add: requeue_def\<close>)
qed (simp add: requeue_def)

lemma callbacks_fetch: "callbacks_ok s \<Longrightarrow> callbacks_ok (fetch s)"
proof (cases "js_queue s")
  case (Cons i rest)
  assume ok: "callbacks_ok s"
  show ?thesis
  proof (cases "length (js_tasks s) < js_worker_count s")
    case True
    then have t: "fetch s = set_phase i Fetched (s\<lparr>js_queue := rest\<rparr>)" using Cons by (simp add: fetch_def)
    have idle: "phase_of s i = None" using ok Cons by (simp add: callbacks_ok_def places_ok_def waiting_ids_def)
    then have unlisted: "i \<notin> set (map fst (js_tasks s))" by (simp add: phase_of_def map_of_eq_None_iff)
    then have tasks: "AList.update i Fetched (js_tasks s) = js_tasks s @ [(i, Fetched)]" by (rule update_unlisted)
    have fields: "js_tasks (fetch s) = js_tasks s @ [(i, Fetched)]" "js_queue (fetch s) = rest"
      "js_requeue (fetch s) = js_requeue s" "js_worker_count (fetch s) = js_worker_count s"
      by (simp_all add: t set_phase_def tasks)
    have phases: "phase_of (fetch s) j = (if j = i then Some Fetched else phase_of s j)" for j by (simp add: t)
    have "places_ok (fetch s)"
      using ok True Cons idle unlisted unfolding callbacks_ok_def places_ok_def waiting_ids_def fields phases by auto
    moreover have "under_way s j \<Longrightarrow> under_way (fetch s) j" for j
      using Cons idle by (auto simp: under_way_def t split: if_splits)
    moreover have "done_running (fetch s) j" if "j \<in> set (js_called s)" for j
      using that ok Cons by (auto simp: callbacks_ok_def done_running_def t waiting_ids_def)
    ultimately show ?thesis using ok by (simp add: callbacks_ok_def) (simp add: t)
  qed (use ok Cons in \<open>simp add: fetch_def\<close>)
qed (simp add: fetch_def)

lemma callbacks_end:
  assumes ok: "callbacks_ok s" and at: "phase_of s i = Some (Closing running)"
  shows "callbacks_ok (end_task i s)"
proof -
  have same: "waiting_ids (end_task i s) = waiting_ids s" "js_queue (end_task i s) = js_queue s"
    "js_on_finish (end_task i s) = js_on_finish s" "js_called (end_task i s) = js_called s"
    "js_registered (end_task i s) = js_registered s" "js_dropped (end_task i s) = js_dropped s"
    "js_worker_count (end_task i s) = js_worker_count s"
    by (simp_all add: end_task_def waiting_ids_def)
  have "length (js_tasks (end_task i s)) \<le> length (js_tasks s)" "distinct (map fst (js_tasks s)) \<Longrightarrow> distinct (map fst (js_tasks (end_task i s)))"
    by (simp_all add: end_task_def length_delete_listed distinct_keys_delete)
  then have "places_ok (end_task i s)" using ok by (auto simp: callbacks_ok_def places_ok_def same)
  moreover have "under_way s j \<Longrightarrow> under_way (end_task i s) j" for j using at by (auto simp: under_way_def same)
  moreover have "done_running s j \<Longrightarrow> done_running (end_task i s) j" for j by (simp add: done_running_def same)
  ultimately show ?thesis using ok by (simp add: callbacks_ok_def same)
qed

lemma callbacks_take_back: "callbacks_ok s \<Longrightarrow> callbacks_ok (take_back_callback i s)"
proof -
  assume ok: "callbacks_ok s"
  have "under_way (take_back_callback i s) = under_way s" "done_running (take_back_callback i s) = done_running s"
    "places_ok (take_back_callback i s) = places_ok s"
    by (simp_all add: take_back_callback_def enqueued_def place_defs fun_eq_iff)
  then show ?thesis using ok
    by (simp add: callbacks_ok_def) (auto simp: take_back_callback_def enqueued_def)
qed

lemma callbacks_enqueue:
  assumes ok: "callbacks_ok s" and new: "unheard_of (jr_id r) s"
  shows "callbacks_ok (fst (enqueue io given r s))"
proof -
  obtain files answer where c: "create_job io r (js_files s) = (files, answer)" by fastforce
  show ?thesis
  proof (cases "answer = Inr r \<and> length (js_queue s) < QUEUE_SIZE")
    case False
    have "same_places s (fst (enqueue io given r s))"
      using False c by (auto simp: enqueue_def Let_def same_places_def create_job_def split: sum.splits)
    then show ?thesis using callbacks_ok_same [OF ok] by blast
  next
    case True
    let ?t = "fst (enqueue io given r s)" and ?i = "jr_id r"
    have t: "js_queue ?t = js_queue s @ [?i]" "js_requeue ?t = js_requeue s" "js_tasks ?t = js_tasks s" "js_called ?t = js_called s"
      "js_on_finish ?t = (if given then ?i # js_on_finish s else js_on_finish s)" "js_dropped ?t = js_dropped s"
      "js_registered ?t = (if given then ?i # js_registered s else js_registered s)" "js_worker_count ?t = js_worker_count s"
      using True c by (simp_all add: enqueue_def Let_def)
    have ph: "phase_of ?t = phase_of s" by (simp add: phase_of_def t fun_eq_iff)
    have fresh: "?i \<notin> set (waiting_ids s)" "phase_of s ?i = None" "?i \<notin> set (js_called s)" "?i \<notin> set (js_on_finish s)"
      using new unheard_of_idle [OF new] by (auto simp: unheard_of_def waiting_ids_def)
    have "places_ok ?t"
      using ok True fresh unfolding callbacks_ok_def places_ok_def waiting_ids_def ph t by auto
    moreover have "under_way s j \<Longrightarrow> under_way ?t j" "under_way ?t ?i" for j by (auto simp: under_way_def ph t)
    moreover have "done_running ?t j" if "j \<in> set (js_called s)" for j
      using that ok fresh unfolding callbacks_ok_def done_running_def waiting_ids_def ph t by auto
    ultimately show ?thesis using ok fresh unfolding callbacks_ok_def t by auto
  qed
qed

lemma callbacks_startup:
  assumes "files_named files"
  shows "callbacks_ok (start_queue ok now workers files started)"
proof -
  obtain files' failure where m: "mark_running_interrupted ok now files = (files', failure)" by fastforce
  have "distinct (map jr_id (list_jobs files' (Some JQueued) None))"
    by (intro distinct_list_jobs files_later_named [OF assms startup_files [OF assms m]])
  then show ?thesis
    by (auto simp: callbacks_ok_def start_queue_def m place_defs rev_map [symmetric] QUEUE_SIZE_def)
qed

section \<open>Every step\<close>

lemma callbacks_files: "callbacks_ok s \<Longrightarrow> callbacks_ok (s\<lparr>js_files := files\<rparr>)"
  by (erule callbacks_ok_same) (simp add: same_places_def)

lemma callbacks_task:
  assumes ok: "callbacks_ok s" and at: "phase_of s i = Some p" and running: "\<not> is_closing p"
  shows "callbacks_ok (queued_by i s)" and "callbacks_ok (start_job io now i identity s)"
    and "callbacks_ok (started_audited io i s)" and "callbacks_ok (checkpoint_step io now detail c i s)"
    and "callbacks_ok (orchestrator_raised detail i s)" and "callbacks_ok (finish_working io now detail result i s)"
    and "callbacks_ok (finish_failing io now detail i s)" and "callbacks_ok (record_stop io now i s)"
    and "callbacks_ok (begin_closing i s)"
proof -
  have closing: "callbacks_ok (begin_closing i (s\<lparr>js_files := files\<rparr>))" for files
    using callbacks_begin_closing [OF callbacks_files [OF ok] _ running] at by simp
  have phase: "callbacks_ok (set_phase i q (s\<lparr>js_files := files\<rparr>))" if "\<not> is_closing q" for q files
    using callbacks_set_phase [OF callbacks_files [OF ok]] at running that by simp
  have here: "s\<lparr>js_files := js_files s\<rparr> = s" by simp
  note now = closing [of "js_files s", unfolded here] phase [of _ "js_files s", unfolded here]
  have started: "callbacks_ok (set_phase i Started (s\<lparr>js_files := files, js_started := st\<rparr>))" for files st
    by (rule callbacks_ok_same [OF phase [of Started files]]) (simp_all add: same_places_def set_phase_def)
  show "callbacks_ok (begin_closing i s)" using now by simp
  show "callbacks_ok (queued_by i s)" using now by (auto simp: queued_by_def split: sum.split job_error.split)
  show "callbacks_ok (start_job io now i identity s)" using closing started
    by (auto simp: start_job_def split: prod.split sum.split bool.split)
  show "callbacks_ok (started_audited io i s)" using now by (simp add: started_audited_def)
  show "callbacks_ok (checkpoint_step io now detail c i s)" using phase callbacks_files [OF ok]
    by (auto simp: checkpoint_step_def split: prod.split sum.split)
  show "callbacks_ok (orchestrator_raised detail i s)" using now by (simp add: orchestrator_raised_def)
  show "callbacks_ok (finish_working io now detail result i s)" using phase
    by (auto simp: finish_working_def Let_def split: prod.split sum.split)
  show "callbacks_ok (finish_failing io now detail i s)" using phase closing
    by (auto simp: finish_failing_def split: prod.split sum.split)
  show "callbacks_ok (record_stop io now i s)" using closing by (simp add: record_stop_def Let_def)
qed

lemma callbacks_deliver:
  assumes ok: "callbacks_ok s" and at: "phase_of s i = Some p"
  shows "callbacks_ok (deliver_cancel left i s)"
proof -
  define s1 where "s1 = s\<lparr>js_cancelling := filter (\<lambda>x. x \<noteq> i) (js_cancelling s),
    js_pending := (case left of None \<Rightarrow> js_pending s | Some op' \<Rightarrow> Reading op' i # js_pending s)\<rparr>"
  have s1: "callbacks_ok s1" by (rule callbacks_ok_same [OF ok]) (simp add: same_places_def s1_def)
  have at1: "phase_of s1 i = Some p" by (simp add: s1_def at)
  have closed: "callbacks_ok (set_phase i (Closing False) (s1\<lparr>js_aborted := a\<rparr>))" if "p = Closing running" for a running
    by (rule callbacks_ok_same [OF callbacks_set_phase [OF s1 at1, of "Closing False"]])
      (simp_all add: that same_places_def set_phase_def)
  have d: "deliver_cancel left i s = (case p of Started \<Rightarrow> set_phase i Stopping s1 | Working \<Rightarrow> set_phase i Stopping s1
     | Closing running \<Rightarrow> if running then set_phase i (Closing False) (s1\<lparr>js_aborted := i # js_aborted s\<rparr>) else s1
     | _ \<Rightarrow> begin_closing i s1)"
    by (cases p) (simp_all add: deliver_cancel_def at Let_def s1_def)
  show ?thesis
    unfolding d using s1 closed callbacks_set_phase [OF s1 at1, of Stopping] callbacks_begin_closing [OF s1 at1]
    by (cases p) simp_all
qed

lemma same_places_other:
  "same_places s (fst (withdraw ok now i s))" "same_places s (fst (cancel_job access ok now i s))"
  "same_places s (fst (discard_public access ok now i s))" "same_places s (enqueued i s)"
  "same_places s (create_cancelled ok r s)" "same_places s (pending_read before op' i after now s)"
  "same_places s (pending_write ok before r after s)" "same_places s (s\<lparr>js_pending := q\<rparr>)"
  by (auto simp: withdraw_def cancel_job_def discard_public_def enqueued_def create_cancelled_def pending_read_def
      pending_write_def cancel_task_def same_places_def Let_def split: prod.split sum.split)

lemma callbacks_resume:
  assumes ok: "callbacks_ok s" and unheard: "unheard_of fresh_id s"
  shows "callbacks_ok (fst (resume_job trim access io now fresh_id operator' max_steps i s))"
proof -
  have "callbacks_ok (fst (enqueue io False (new_job now fresh_id sid AgentRun payload parent op') s))" for sid payload parent op'
    using callbacks_enqueue [OF ok] unheard by (simp add: new_job_def)
  then show ?thesis using ok by (simp add: resume_job_def split: sum.split prod.split) (metis fst_conv)
qed

lemma callbacks_shutdown: "callbacks_ok s \<Longrightarrow> callbacks_ok (shutdown s)"
proof -
  assume ok: "callbacks_ok s"
  have "under_way (shutdown s) = under_way s" by (simp add: shutdown_def under_way_def phase_of_def fun_eq_iff)
  moreover have "done_running s j \<Longrightarrow> done_running (shutdown s) j" for j
    by (simp add: shutdown_def done_running_def waiting_ids_def phase_of_def)
  moreover have "places_ok (shutdown s)"
    using ok by (auto simp: callbacks_ok_def shutdown_def places_ok_def waiting_ids_def phase_of_def)
  ultimately show ?thesis using ok by (simp add: callbacks_ok_def) (simp add: shutdown_def)
qed

lemma job_step_callbacks: "job_step s t \<Longrightarrow> callbacks_ok s \<Longrightarrow> callbacks_ok t"
  by (induction rule: job_step.induct)
    (auto simp: goes_on_def intro: callbacks_requeue callbacks_fetch callbacks_end callbacks_take_back callbacks_enqueue
      callbacks_task callbacks_deliver callbacks_resume callbacks_shutdown callbacks_ok_same same_places_other)

definition process_ok :: "job_system \<Rightarrow> bool" where
  "process_ok s \<longleftrightarrow> jobs_ok s \<and> callbacks_ok s"

interpretation processes: machine process_step process_ok
proof
  fix s t assume ok: "process_ok s" and st: "process_step s t"
  from st ok show "process_ok t"
  proof (induction rule: process_step.induct)
    case (restarting s ok now workers)
    then show ?case
      using callbacks_startup jobs.step_keeps process_step.restarting unfolding process_ok_def jobs_ok_def by blast
  qed (simp add: process_ok_def job_step_jobs_ok job_step_callbacks)
qed


section \<open>A run\<close>

definition ann :: operator_identity where
  "ann = \<lparr>op_id = ''ann'', op_name = None, op_source = ''token'', op_asserted_id = None\<rparr>"

definition new_process :: job_system where
  "new_process = start_queue (\<lambda>_. True) 0 1 [] []"

definition queued_run :: job_system where
  "queued_run = fst (enqueue True True (new_job 1 ''job1'' ''s1'' AgentRun sample_run_request None (Some ann)) new_process)"

definition started_run :: job_system where
  "started_run = start_job True 2 ''job1'' (Some ann) (queued_by ''job1'' (fetch queued_run))"

text \<open>The audit event of the start could not be written, and the worker has gone on.\<close>

definition left_run :: job_system where
  "left_run = end_task ''job1'' (started_audited False ''job1'' started_run)"

lemma reach_started: "process_step\<^sup>*\<^sup>* new_process started_run"
proof -
  have "job_step new_process queued_run"
    unfolding queued_run_def by (rule enqueueing) (code_simp, simp add: new_job_def)
  moreover have "job_step queued_run (fetch queued_run)" by (rule fetching)
  moreover have "job_step (fetch queued_run) (queued_by ''job1'' (fetch queued_run))"
    by (rule asking) code_simp
  moreover have "job_step (queued_by ''job1'' (fetch queued_run)) started_run"
    unfolding started_run_def by (rule starting) code_simp
  ultimately show ?thesis by (meson process_step.within_process rtranclp.intros converse_rtranclp_into_rtranclp)
qed

lemma reach_left: "process_step\<^sup>*\<^sup>* new_process left_run"
proof -
  have "job_step started_run (started_audited False ''job1'' started_run)" by (rule auditing) code_simp
  moreover have "job_step (started_audited False ''job1'' started_run) left_run"
    unfolding left_run_def by (rule closing [where running = True]) code_simp
  ultimately show ?thesis
    using reach_started by (meson process_step.within_process rtranclp.intros)
qed

lemma no_files_named: "files_named []"
  by (simp add: files_named_def job_at_def)

theorem job_starts_at_most_once_witness:
  "distinct (map fst (js_started started_run)) \<and> js_started started_run = [(''job1'', Some ann)]"
proof -
  have "js_started started_run = [(''job1'', Some ann)]" by code_simp
  then show ?thesis
    using job_starts_at_most_once [OF no_files_named reach_started [unfolded new_process_def]] by simp
qed



end
