(* ===== verification/CronRuns.thy ===== *)
theory CronRuns
  imports CronStore JobCallbacks
begin

text \<open>
  The runs of cron jobs (cron_service.py, \<open>_run_job_now\<close> and \<open>_release_run\<close>) on top of the queue of agent
  jobs: each run gets a browser session of its own, which the run's finish callback, or the trigger when
  queuing fails, has to close. A trigger is cut at its awaits; \<open>cron_step\<close> interleaves triggers with the steps
  of the queue.
\<close>

text \<open>
  Where a trigger is: creating the session, writing the agent job's record, in the audit event of the
  enqueue, with an enqueue that raised, writing the run's metadata.
\<close>

datatype trigger =
    Opening string agent_request "string option"
  | Queuing string string agent_request "string option"
  | Enqueued string string string
  | Failed string string
  | Noting string

record cron_world =
  cw_jobs :: job_system
  cw_active :: "(string \<times> string) list"              \<comment> \<open>\<open>_active_runs\<close>\<close>
  cw_triggers :: "trigger list"
  cw_run_of :: "(string \<times> string \<times> string) list"     \<comment> \<open>what an agent job's callback releases: cron job and session\<close>
  cw_sessions :: "(string \<times> string \<times> operator_var) list"  \<comment> \<open>ghost: the sessions made for runs, and as whom\<close>
  cw_closing :: "string list"                          \<comment> \<open>ghost: the closes begun, in order\<close>

section \<open>The pieces of a trigger\<close>

text \<open>The operator a run's session and agent job are created as.\<close>

definition run_operator :: "string option \<Rightarrow> operator_var \<Rightarrow> operator_var" where
  "run_operator owner cur = as_owner owner (\<lambda>v. v) cur"

datatype trigger_start = PreviousRunActive | RunClaimed

definition begin_run :: "(string \<Rightarrow> string) \<Rightarrow> cron_job \<Rightarrow> cron_world \<Rightarrow> cron_world \<times> (cron_error + trigger_start)" where
  "begin_run trim j w =
     (if cj_enabled j = Some False then (w, Inl CronDisabled)
      else if map_of (cw_active w) (cj_id j) \<noteq> None then (w, Inr PreviousRunActive)
      else case cron_request trim j of
        Inl e \<Rightarrow> (w, Inl e)
      | Inr rq \<Rightarrow>
          (w\<lparr>cw_active := AList.update (cj_id j) [] (cw_active w),
             cw_triggers := Opening (cj_id j) rq (cj_owner j) # cw_triggers w\<rparr>, Inr RunClaimed))"

definition session_failed :: "trigger list \<Rightarrow> string \<Rightarrow> trigger list \<Rightarrow> cron_world \<Rightarrow> cron_world" where
  "session_failed before job after w =
     w\<lparr>cw_active := AList.delete job (cw_active w), cw_triggers := before @ after\<rparr>"

definition session_opened ::
  "operator_var \<Rightarrow> string \<Rightarrow> trigger list \<Rightarrow> string \<Rightarrow> agent_request \<Rightarrow> string option \<Rightarrow> trigger list \<Rightarrow> cron_world \<Rightarrow> cron_world" where
  "session_opened cur sid before job rq owner after w =
     w\<lparr>cw_active := AList.update job sid (cw_active w), cw_triggers := before @ Queuing job sid rq owner # after,
       cw_sessions := (job, sid, run_operator owner cur) # cw_sessions w\<rparr>"

text \<open>\<open>_release_run\<close>: only the call that still finds its run in the slot closes the session.\<close>

definition release_run :: "string \<Rightarrow> string \<Rightarrow> cron_world \<Rightarrow> cron_world" where
  "release_run job sid w =
     (if map_of (cw_active w) job \<noteq> Some sid then w
      else w\<lparr>cw_active := AList.delete job (cw_active w), cw_closing := cw_closing w @ [sid]\<rparr>)"

definition queue_run ::
  "bool \<Rightarrow> stamp \<Rightarrow> string \<Rightarrow> operator_var \<Rightarrow> trigger list \<Rightarrow> string \<Rightarrow> string \<Rightarrow> agent_request \<Rightarrow> string option \<Rightarrow>
   trigger list \<Rightarrow> cron_world \<Rightarrow> cron_world" where
  "queue_run ok now i cur before job sid rq owner after w =
     (case enqueue ok True
             (new_job now i sid AgentRun rq None (Some (get_current_operator (run_operator owner cur)))) (cw_jobs w) of
        (jobs, Inl e) \<Rightarrow> w\<lparr>cw_jobs := jobs, cw_triggers := before @ Failed job sid # after\<rparr>
      | (jobs, Inr r) \<Rightarrow>
          w\<lparr>cw_jobs := jobs, cw_triggers := before @ Enqueued job sid i # after,
            cw_run_of := (i, job, sid) # cw_run_of w\<rparr>)"

definition queue_cancelled ::
  "bool \<Rightarrow> job_record \<Rightarrow> trigger list \<Rightarrow> string \<Rightarrow> string \<Rightarrow> trigger list \<Rightarrow> cron_world \<Rightarrow> cron_world" where
  "queue_cancelled ok r before job sid after w =
     w\<lparr>cw_jobs := create_cancelled ok r (cw_jobs w), cw_triggers := before @ Failed job sid # after\<rparr>"

definition enqueue_returned :: "trigger list \<Rightarrow> string \<Rightarrow> string \<Rightarrow> trigger list \<Rightarrow> cron_world \<Rightarrow> cron_world" where
  "enqueue_returned before job i after w =
     w\<lparr>cw_jobs := enqueued i (cw_jobs w), cw_triggers := before @ Noting job # after\<rparr>"

definition enqueue_raised :: "trigger list \<Rightarrow> string \<Rightarrow> string \<Rightarrow> string \<Rightarrow> trigger list \<Rightarrow> cron_world \<Rightarrow> cron_world" where
  "enqueue_raised before job sid i after w =
     w\<lparr>cw_jobs := take_back_callback i (cw_jobs w), cw_triggers := before @ Failed job sid # after\<rparr>"

definition trigger_failed :: "trigger list \<Rightarrow> string \<Rightarrow> string \<Rightarrow> trigger list \<Rightarrow> cron_world \<Rightarrow> cron_world" where
  "trigger_failed before job sid after w = release_run job sid (w\<lparr>cw_triggers := before @ after\<rparr>)"

text \<open>A step of the queue; where it starts a finish callback, \<open>_release_run\<close> runs up to its first await.\<close>

definition with_jobs :: "job_system \<Rightarrow> cron_world \<Rightarrow> cron_world" where
  "with_jobs jobs w =
     (let called = drop (length (js_called (cw_jobs w))) (js_called jobs);
          w' = w\<lparr>cw_jobs := jobs\<rparr>
      in foldl (\<lambda>v i. case map_of (cw_run_of v) i of None \<Rightarrow> v | Some (job, sid) \<Rightarrow> release_run job sid v) w' called)"

section \<open>The interleaving\<close>

definition new_session :: "string \<Rightarrow> cron_world \<Rightarrow> bool" where
  "new_session sid w \<longleftrightarrow> sid \<noteq> [] \<and> sid \<notin> set (map (fst \<circ> snd) (cw_sessions w))"

text \<open>Only cron triggers give the queue a callback, so no other caller takes one back.\<close>

inductive cron_step :: "cron_world \<Rightarrow> cron_world \<Rightarrow> bool" where
  triggered: "cron_step w (fst (begin_run trim j w))"
| opening_failed: "cw_triggers w = before @ Opening job rq owner # after \<Longrightarrow> cron_step w (session_failed before job after w)"
| opened: "cw_triggers w = before @ Opening job rq owner # after \<Longrightarrow> new_session sid w \<Longrightarrow>
    cron_step w (session_opened cur sid before job rq owner after w)"
| queued: "cw_triggers w = before @ Queuing job sid rq owner # after \<Longrightarrow> unheard_of i (cw_jobs w) \<Longrightarrow>
    cron_step w (queue_run ok now i cur before job sid rq owner after w)"
| queuing_cancelled: "cw_triggers w = before @ Queuing job sid rq owner # after \<Longrightarrow> unheard_of (jr_id r) (cw_jobs w) \<Longrightarrow>
    jr_status r = JQueued \<Longrightarrow> cron_step w (queue_cancelled ok r before job sid after w)"
| returned: "cw_triggers w = before @ Enqueued job sid i # after \<Longrightarrow> cron_step w (enqueue_returned before job i after w)"
| raised: "cw_triggers w = before @ Enqueued job sid i # after \<Longrightarrow> cron_step w (enqueue_raised before job sid i after w)"
| failed: "cw_triggers w = before @ Failed job sid # after \<Longrightarrow> cron_step w (trigger_failed before job sid after w)"
| noted: "cw_triggers w = before @ Noting job # after \<Longrightarrow> cron_step w (w\<lparr>cw_triggers := before @ after\<rparr>)"
| queue_steps: "job_step (cw_jobs w) jobs \<Longrightarrow> js_dropped jobs = js_dropped (cw_jobs w) \<Longrightarrow>
    js_registered jobs = js_registered (cw_jobs w) \<Longrightarrow> cron_step w (with_jobs jobs w)"

definition new_world :: "job_system \<Rightarrow> cron_world" where
  "new_world jobs = \<lparr>cw_jobs = jobs, cw_active = [], cw_triggers = [], cw_run_of = [], cw_sessions = [], cw_closing = []\<rparr>"

end
