(* ===== verification/CronFacts.thy ===== *)
theory CronFacts
  imports CronRuns
begin

text \<open>
  No session of a cron run is stranded and none is closed twice; what a call may change in the store; and as
  whom a run works.
\<close>

section \<open>What a step of the queue does to callbacks\<close>

definition callbacks_move :: "job_system \<Rightarrow> job_system \<Rightarrow> bool" where
  "callbacks_move s t \<longleftrightarrow>
     (js_called t = js_called s \<and> set (js_on_finish s) \<subseteq> set (js_on_finish t)) \<or>
     (\<exists>i \<in> set (js_on_finish s). js_called t = js_called s @ [i] \<and> set (js_on_finish t) = set (js_on_finish s) - {i})"

lemma callbacks_move_same: "js_called t = js_called s \<Longrightarrow> js_on_finish t = js_on_finish s \<Longrightarrow> callbacks_move s t"
  by (simp add: callbacks_move_def)

lemma callbacks_move_places: "same_places s t \<Longrightarrow> callbacks_move s t"
  by (simp add: same_places_def callbacks_move_def)

lemma callbacks_move_closing: "js_on_finish s' = js_on_finish s \<Longrightarrow> js_called s' = js_called s \<Longrightarrow> callbacks_move s (begin_closing i s')"
  by (auto simp: callbacks_move_def begin_closing_def)

lemma callbacks_move_tasks:
  "callbacks_move s (queued_by i s)" "callbacks_move s (start_job io now i identity s)"
  "callbacks_move s (started_audited io i s)" "callbacks_move s (checkpoint_step io now detail c i s)"
  "callbacks_move s (orchestrator_raised detail i s)" "callbacks_move s (finish_working io now detail result i s)"
  "callbacks_move s (finish_failing io now detail i s)" "callbacks_move s (record_stop io now i s)"
  "callbacks_move s (begin_closing i s)"
  by (auto simp: queued_by_def start_job_def started_audited_def checkpoint_step_def orchestrator_raised_def finish_working_def
      finish_failing_def record_stop_def Let_def callbacks_move_closing callbacks_move_same
      split: sum.split job_error.split prod.split bool.split)

lemma callbacks_move_enqueue: "callbacks_move s (fst (enqueue io given r s))"
  by (auto simp: callbacks_move_def enqueue_def Let_def split: prod.split sum.split)

lemma callbacks_move_deliver: "callbacks_move s (deliver_cancel left i s)"
  by (cases "phase_of s i")
    (auto simp: deliver_cancel_def Let_def callbacks_move_closing callbacks_move_same split: job_phase.split)

lemma callbacks_move_others:
  "callbacks_move s (requeue s)" "callbacks_move s (fetch s)" "callbacks_move s (end_task i s)" "callbacks_move s (shutdown s)"
  by (auto simp: requeue_def fetch_def end_task_def shutdown_def callbacks_move_same split: list.split)

lemma callbacks_move_resume: "callbacks_move s (fst (resume_job trim access io now fresh_id operator' max_steps i s))"
  by (simp add: resume_job_def split_beta callbacks_move_enqueue callbacks_move_same split: sum.split)

lemma job_step_callbacks_move: "job_step s t \<Longrightarrow> js_dropped t = js_dropped s \<Longrightarrow> callbacks_move s t"
proof (induction rule: job_step.induct)
  case (taking_back i s)
  then show ?case by (auto simp: take_back_callback_def enqueued_def callbacks_move_def split: if_splits)
qed (auto intro: callbacks_move_tasks callbacks_move_enqueue callbacks_move_deliver callbacks_move_others callbacks_move_resume
      callbacks_move_places same_places_other)

section \<open>Who will release a run\<close>

definition slot :: "cron_world \<Rightarrow> string \<Rightarrow> string option" where
  "slot w job = map_of (cw_active w) job"

definition session_pairs :: "cron_world \<Rightarrow> (string \<times> string) set" where
  "session_pairs w = (\<lambda>(job, sid, as_whom). (job, sid)) ` set (cw_sessions w)"

fun opening_job :: "trigger \<Rightarrow> string option" where
  "opening_job (Opening job rq owner) = Some job"
| "opening_job t = None"

text \<open>A trigger, or the callback of an agent job, that will release the run.\<close>

definition keeper :: "cron_world \<Rightarrow> string \<Rightarrow> string \<Rightarrow> bool" where
  "keeper w job sid \<longleftrightarrow>
     (\<exists>rq owner. Queuing job sid rq owner \<in> set (cw_triggers w)) \<or> Failed job sid \<in> set (cw_triggers w) \<or>
     (\<exists>i. map_of (cw_run_of w) i = Some (job, sid) \<and> i \<in> set (js_on_finish (cw_jobs w)))"

fun trigger_ok :: "cron_world \<Rightarrow> trigger \<Rightarrow> bool" where
  "trigger_ok w (Opening job rq owner) = (slot w job = Some [])"
| "trigger_ok w (Queuing job sid rq owner) = ((job, sid) \<in> session_pairs w)"
| "trigger_ok w (Enqueued job sid i) = ((job, sid) \<in> session_pairs w \<and> map_of (cw_run_of w) i = Some (job, sid))"
| "trigger_ok w (Failed job sid) = ((job, sid) \<in> session_pairs w)"
| "trigger_ok w (Noting job) = True"

definition slots_ok :: "cron_world \<Rightarrow> bool" where
  "slots_ok w \<longleftrightarrow> distinct (cw_closing w) \<and> set (cw_closing w) \<subseteq> snd ` session_pairs w \<and>
     (\<forall>job sid. slot w job = Some sid \<longrightarrow> sid \<noteq> [] \<longrightarrow> sid \<notin> set (cw_closing w) \<and> (job, sid) \<in> session_pairs w) \<and>
     (\<forall>job sid. (job, sid) \<in> session_pairs w \<longrightarrow> sid \<noteq> [] \<and> (sid \<in> set (cw_closing w) \<or> slot w job = Some sid) \<and>
        (\<forall>job'. (job', sid) \<in> session_pairs w \<longrightarrow> job' = job))"

definition triggers_ok :: "cron_world \<Rightarrow> bool" where
  "triggers_ok w \<longleftrightarrow> (\<forall>t \<in> set (cw_triggers w). trigger_ok w t) \<and> distinct (List.map_filter opening_job (cw_triggers w))"

definition callbacks_known :: "cron_world \<Rightarrow> bool" where
  "callbacks_known w \<longleftrightarrow> (\<forall>i job sid. map_of (cw_run_of w) i = Some (job, sid) \<longrightarrow>
     (job, sid) \<in> session_pairs w \<and> i \<in> set (js_registered (cw_jobs w)))"

definition kept :: "cron_world \<Rightarrow> bool" where
  "kept w \<longleftrightarrow> (\<forall>job sid. slot w job = Some sid \<longrightarrow> sid \<noteq> [] \<longrightarrow> keeper w job sid)"

definition runs_ok :: "cron_world \<Rightarrow> bool" where
  "runs_ok w \<longleftrightarrow> slots_ok w \<and> triggers_ok w \<and> callbacks_known w \<and> kept w"

lemmas runs_defs = runs_ok_def slots_ok_def triggers_ok_def callbacks_known_def kept_def

lemma opening_split:
  "List.map_filter opening_job (before @ t # after) =
   List.map_filter opening_job before @ (case opening_job t of None \<Rightarrow> [] | Some j \<Rightarrow> [j]) @ List.map_filter opening_job after"
  by (induction before) (auto simp: List.map_filter_simps split: option.split)

lemma opening_app: "List.map_filter opening_job (xs @ ys) = List.map_filter opening_job xs @ List.map_filter opening_job ys"
  by (induction xs) (auto simp: List.map_filter_simps split: option.split)

lemma opening_listed: "Opening job rq owner \<in> set ts \<Longrightarrow> job \<in> set (List.map_filter opening_job ts)"
  by (force simp: set_map_filter_iff)

lemma release_fields [simp]:
  "cw_jobs (release_run job sid w) = cw_jobs w" "cw_triggers (release_run job sid w) = cw_triggers w"
  "cw_run_of (release_run job sid w) = cw_run_of w" "cw_sessions (release_run job sid w) = cw_sessions w"
  "session_pairs (release_run job sid w) = session_pairs w"
  by (simp_all add: release_run_def session_pairs_def)

lemma slot_release: "slot (release_run job sid w) j = (if j = job \<and> slot w job = Some sid then None else slot w j)"
  by (auto simp: release_run_def slot_def alist_lookup)

lemma closing_release: "cw_closing (release_run job sid w) = (if slot w job = Some sid then cw_closing w @ [sid] else cw_closing w)"
  by (simp add: release_run_def slot_def)

text \<open>A release keeps everything but the keepers of what it releases.\<close>

lemma slots_okD:
  assumes "slots_ok w"
  shows "slot w job = Some sid \<Longrightarrow> sid \<noteq> [] \<Longrightarrow> sid \<notin> set (cw_closing w) \<and> (job, sid) \<in> session_pairs w"
    and "(job, sid) \<in> session_pairs w \<Longrightarrow> sid \<noteq> [] \<and> (sid \<in> set (cw_closing w) \<or> slot w job = Some sid)"
    and "(job, sid) \<in> session_pairs w \<Longrightarrow> (job', sid) \<in> session_pairs w \<Longrightarrow> job' = job"
  using assms unfolding slots_ok_def by blast+

lemma slots_okI:
  assumes "distinct (cw_closing w)" and "set (cw_closing w) \<subseteq> snd ` session_pairs w"
    and "\<And>job sid. slot w job = Some sid \<Longrightarrow> sid \<noteq> [] \<Longrightarrow> sid \<notin> set (cw_closing w) \<and> (job, sid) \<in> session_pairs w"
    and "\<And>job sid. (job, sid) \<in> session_pairs w \<Longrightarrow> sid \<noteq> [] \<and> (sid \<in> set (cw_closing w) \<or> slot w job = Some sid)"
    and "\<And>job job' sid. (job, sid) \<in> session_pairs w \<Longrightarrow> (job', sid) \<in> session_pairs w \<Longrightarrow> job' = job"
  shows "slots_ok w"
  using assms unfolding slots_ok_def by blast

lemma slots_release:
  assumes ok: "slots_ok w" and pair: "(job, sid) \<in> session_pairs w"
  shows "slots_ok (release_run job sid w)"
proof (cases "slot w job = Some sid")
  case True
  note D = slots_okD [OF ok]
  have new: "sid \<notin> set (cw_closing w)" using D(1) [OF True] D(2) [OF pair] by blast
  have other: "s \<noteq> sid" if "slot w j = Some s" "j \<noteq> job" "s \<noteq> []" for j s
    using D(1) [OF that(1,3)] D(3) [OF pair] that(2) by blast
  have here: "s = sid" if "(job, s) \<in> session_pairs w" "s \<notin> set (cw_closing w)" for s
    using D(2) [OF that(1)] that(2) True by simp
  have closing: "cw_closing (release_run job sid w) = cw_closing w @ [sid]" using True by (simp add: closing_release)
  show ?thesis
  proof (rule slots_okI)
    show "distinct (cw_closing (release_run job sid w))" using ok new by (simp add: closing slots_ok_def)
    show "set (cw_closing (release_run job sid w)) \<subseteq> snd ` session_pairs (release_run job sid w)"
      using ok pair by (auto simp: closing slots_ok_def rev_image_eqI)
    fix j t
    show "t \<notin> set (cw_closing (release_run job sid w)) \<and> (j, t) \<in> session_pairs (release_run job sid w)"
      if "slot (release_run job sid w) j = Some t" "t \<noteq> []"
    proof -
      have at: "slot w j = Some t" "j \<noteq> job" using that True by (auto simp: slot_release split: if_splits)
      show ?thesis using D(1) [OF at(1) that(2)] other [OF at that(2)] by (simp add: closing)
    qed
    show "t \<noteq> [] \<and> (t \<in> set (cw_closing (release_run job sid w)) \<or> slot (release_run job sid w) j = Some t)"
      if "(j, t) \<in> session_pairs (release_run job sid w)"
      using D(2) [of j t] that here [of t] by (cases "j = job") (auto simp: slot_release closing)
  next
    show "job'' = job'" if "(job', t) \<in> session_pairs (release_run job sid w)" "(job'', t) \<in> session_pairs (release_run job sid w)"
      for job' job'' t using D(3) that by simp
  qed
qed (use ok in \<open>simp add: release_run_def slot_def\<close>)

lemma triggers_release: "triggers_ok w \<Longrightarrow> (job, sid) \<in> session_pairs w \<Longrightarrow> slots_ok w \<Longrightarrow> triggers_ok (release_run job sid w)"
proof -
  assume ok: "triggers_ok w" and pair: "(job, sid) \<in> session_pairs w" and slots: "slots_ok w"
  have "sid \<noteq> []" using slots_okD(2) [OF slots pair] by blast
  then have "trigger_ok (release_run job sid w) t" if "trigger_ok w t" for t
    using that by (cases t) (auto simp: slot_release)
  with ok show ?thesis by (simp add: triggers_ok_def)
qed

lemma known_release: "callbacks_known w \<Longrightarrow> callbacks_known (release_run job sid w)"
  by (simp add: callbacks_known_def)

lemma kept_release:
  assumes "\<And>j s. slot w j = Some s \<Longrightarrow> s \<noteq> [] \<Longrightarrow> (j, s) \<noteq> (job, sid) \<Longrightarrow> keeper w j s"
  shows "kept (release_run job sid w)"
  using assms by (auto simp: kept_def slot_release keeper_def split: if_splits)

lemma runs_release:
  assumes "slots_ok w" and "triggers_ok w" and "callbacks_known w" and "(job, sid) \<in> session_pairs w"
    and "\<And>j s. slot w j = Some s \<Longrightarrow> s \<noteq> [] \<Longrightarrow> (j, s) \<noteq> (job, sid) \<Longrightarrow> keeper w j s"
  shows "runs_ok (release_run job sid w)"
  using assms slots_release triggers_release known_release kept_release by (simp add: runs_ok_def)

section \<open>Every step\<close>

definition same_slots :: "cron_world \<Rightarrow> cron_world \<Rightarrow> bool" where
  "same_slots w v \<longleftrightarrow> cw_active v = cw_active w \<and> cw_sessions v = cw_sessions w \<and> cw_closing v = cw_closing w"

lemma same_slotsD: "same_slots w v \<Longrightarrow> slot v = slot w \<and> session_pairs v = session_pairs w \<and> slots_ok v = slots_ok w"
  by (auto simp: same_slots_def slot_def session_pairs_def slots_ok_def fun_eq_iff)

lemma trigger_ok_same:
  "same_slots w v \<Longrightarrow> (\<And>i p. map_of (cw_run_of w) i = Some p \<Longrightarrow> map_of (cw_run_of v) i = Some p) \<Longrightarrow> trigger_ok w t \<Longrightarrow> trigger_ok v t"
  using same_slotsD [of w v] by (cases t) auto

text \<open>A trigger goes on to its next await, with the slots as they are.\<close>

lemma runs_trigger:
  assumes ok: "runs_ok w" and at: "cw_triggers w = before @ t # after" and same: "same_slots w v"
    and now: "cw_triggers v = before @ ts @ after" and none: "List.map_filter opening_job ts = []"
    and fine: "\<And>u. u \<in> set ts \<Longrightarrow> trigger_ok v u"
    and grown: "\<And>i p. map_of (cw_run_of w) i = Some p \<Longrightarrow> map_of (cw_run_of v) i = Some p"
    and known: "callbacks_known v"
    and keeps: "\<And>job sid. slot w job = Some sid \<Longrightarrow> sid \<noteq> [] \<Longrightarrow> keeper w job sid \<Longrightarrow> keeper v job sid"
  shows "runs_ok v"
proof -
  note D = same_slotsD [OF same]
  have "trigger_ok v u" if "u \<in> set (cw_triggers v)" for u
    using that ok trigger_ok_same [OF same grown, of u] fine unfolding now runs_ok_def triggers_ok_def at by auto
  moreover have "distinct (List.map_filter opening_job (cw_triggers v))"
    using ok by (auto simp: runs_ok_def triggers_ok_def at now none opening_split opening_app split: option.splits)
  ultimately show ?thesis
    using ok D known keeps by (simp add: runs_ok_def triggers_ok_def kept_def)
qed

lemma keeper_other_trigger:
  "keeper w job sid \<Longrightarrow> cw_triggers w = before @ t # after \<Longrightarrow> cw_triggers v = before @ ts @ after \<Longrightarrow>
   (\<And>rq owner. t \<noteq> Queuing job sid rq owner) \<Longrightarrow> t \<noteq> Failed job sid \<Longrightarrow> cw_run_of v = cw_run_of w \<Longrightarrow>
   (\<And>i. map_of (cw_run_of w) i = Some (job, sid) \<Longrightarrow> i \<in> set (js_on_finish (cw_jobs w)) \<Longrightarrow> i \<in> set (js_on_finish (cw_jobs v))) \<Longrightarrow>
   keeper v job sid"
  unfolding keeper_def by auto

text \<open>A slot taken or given up before there is a session.\<close>

lemma slots_placeholder:
  assumes ok: "slots_ok w" and idle: "slot w job = None \<or> slot w job = Some []" and new: "x = None \<or> x = Some []"
    and sl: "\<And>k. slot v k = (if k = job then x else slot w k)"
    and same: "session_pairs v = session_pairs w" "cw_closing v = cw_closing w"
  shows "slots_ok v"
proof (rule slots_okI)
  note D = slots_okD [OF ok]
  show "t \<notin> set (cw_closing v) \<and> (k, t) \<in> session_pairs v" if "slot v k = Some t" "t \<noteq> []" for k t
    using that D(1) [of k t] new by (auto simp: sl same split: if_splits)
  show "t \<noteq> [] \<and> (t \<in> set (cw_closing v) \<or> slot v k = Some t)" if "(k, t) \<in> session_pairs v" for k t
    using D(2) [of k t] that idle by (auto simp: sl same split: if_splits)
  show "k' = k" if "(k, t) \<in> session_pairs v" "(k', t) \<in> session_pairs v" for k k' t
    using D(3) that by (simp add: same)
qed (use ok same in \<open>simp_all add: slots_ok_def\<close>)

lemma runs_begin:
  assumes ok: "runs_ok w" shows "runs_ok (fst (begin_run trim j w))"
proof (cases "cj_enabled j = Some False \<or> map_of (cw_active w) (cj_id j) \<noteq> None \<or> (\<exists>e. cron_request trim j = Inl e)")
  case True
  with ok show ?thesis by (auto simp: begin_run_def)
next
  case False
  then obtain rq where rq: "cron_request trim j = Inr rq" by (cases "cron_request trim j") auto
  let ?i = "cj_id j" and ?v = "fst (begin_run trim j w)"
  have v: "?v = w\<lparr>cw_active := AList.update ?i [] (cw_active w), cw_triggers := Opening ?i rq (cj_owner j) # cw_triggers w\<rparr>"
    using False rq by (simp add: begin_run_def)
  have free: "slot w ?i = None" using False by (simp add: slot_def)
  have sl: "slot ?v k = (if k = ?i then Some [] else slot w k)" for k by (simp add: v slot_def alist_lookup)
  have pairs: "session_pairs ?v = session_pairs w" and closing: "cw_closing ?v = cw_closing w" and run_of: "cw_run_of ?v = cw_run_of w"
    and jobs: "cw_jobs ?v = cw_jobs w" by (simp_all add: v session_pairs_def)
  have slots: "slots_ok w" and trig: "triggers_ok w" and kn: "callbacks_known w" and kp: "kept w"
    using ok by (simp_all add: runs_ok_def)
  have "slots_ok ?v"
    using slots_placeholder [OF slots, of ?i "Some []" ?v] free by (simp add: sl pairs closing)
  moreover have "trigger_ok ?v t" if "trigger_ok w t" for t
    using that by (cases t) (auto simp: sl pairs run_of)
  moreover have "?i \<notin> set (List.map_filter opening_job (cw_triggers w))"
  proof
    assume "?i \<in> set (List.map_filter opening_job (cw_triggers w))"
    then obtain t where "t \<in> set (cw_triggers w)" "opening_job t = Some ?i" by (auto simp: set_map_filter_iff)
    with trig free show False by (cases t) (auto simp: triggers_ok_def)
  qed
  moreover have "keeper ?v k sid" if "keeper w k sid" for k sid
    using that unfolding keeper_def by (auto simp: v)
  moreover have "cw_triggers ?v = Opening ?i rq (cj_owner j) # cw_triggers w" by (simp add: v)
  ultimately show ?thesis
    using trig kn kp
    by (simp add: runs_ok_def triggers_ok_def callbacks_known_def kept_def sl pairs run_of jobs List.map_filter_simps)
qed

lemma runs_session_failed:
  assumes ok: "runs_ok w" and at: "cw_triggers w = before @ Opening job rq owner # after"
  shows "runs_ok (session_failed before job after w)"
proof -
  let ?v = "session_failed before job after w"
  have slots: "slots_ok w" and trig: "triggers_ok w" and kn: "callbacks_known w" and kp: "kept w"
    using ok by (simp_all add: runs_ok_def)
  have here: "slot w job = Some []" using trig by (auto simp: triggers_ok_def at)
  have sl: "slot ?v k = (if k = job then None else slot w k)" for k by (simp add: session_failed_def slot_def alist_lookup)
  have pairs: "session_pairs ?v = session_pairs w" and closing: "cw_closing ?v = cw_closing w" and run_of: "cw_run_of ?v = cw_run_of w"
    and jobs: "cw_jobs ?v = cw_jobs w" and trs: "cw_triggers ?v = before @ after"
    by (simp_all add: session_failed_def session_pairs_def)
  have other: "opening_job t \<noteq> Some job" if "t \<in> set before \<union> set after" for t
    using trig that by (force simp: triggers_ok_def at opening_split set_map_filter_iff)
  have "slots_ok ?v"
    using slots_placeholder [OF slots, of job None ?v] here by (simp add: sl pairs closing)
  moreover have "trigger_ok ?v t" if "t \<in> set before \<union> set after" for t
  proof -
    have "trigger_ok w t" using trig that unfolding triggers_ok_def at by auto
    then show ?thesis using other [OF that] by (cases t) (simp_all add: sl pairs run_of)
  qed
  moreover have "keeper ?v k sid" if "keeper w k sid" for k sid
    using that unfolding keeper_def by (auto simp: at trs run_of jobs)
  ultimately show ?thesis
    using trig kn kp by (simp add: runs_ok_def triggers_ok_def callbacks_known_def kept_def sl pairs run_of jobs trs)
      (auto simp: at opening_split opening_app)
qed

lemma runs_session_opened:
  assumes ok: "runs_ok w" and at: "cw_triggers w = before @ Opening job rq owner # after" and new: "new_session sid w"
  shows "runs_ok (session_opened cur sid before job rq owner after w)"
proof -
  let ?v = "session_opened cur sid before job rq owner after w"
  have slots: "slots_ok w" and trig: "triggers_ok w" and kn: "callbacks_known w" and kp: "kept w"
    using ok by (simp_all add: runs_ok_def)
  note D = slots_okD [OF slots]
  have here: "slot w job = Some []" using trig by (auto simp: triggers_ok_def at)
  have sl: "slot ?v k = (if k = job then Some sid else slot w k)" for k by (simp add: session_opened_def slot_def alist_lookup)
  have pairs: "session_pairs ?v = insert (job, sid) (session_pairs w)" and closing: "cw_closing ?v = cw_closing w"
    and run_of: "cw_run_of ?v = cw_run_of w" and jobs: "cw_jobs ?v = cw_jobs w"
    and trs: "cw_triggers ?v = before @ Queuing job sid rq owner # after"
    by (simp_all add: session_opened_def session_pairs_def)
  have fresh: "(k, sid) \<notin> session_pairs w" for k
    using new by (force simp: new_session_def session_pairs_def)
  have not_closing: "sid \<notin> set (cw_closing w)" using slots fresh by (force simp: slots_ok_def)
  have "slots_ok ?v"
  proof (rule slots_okI)
    show "t \<notin> set (cw_closing ?v) \<and> (k, t) \<in> session_pairs ?v" if "slot ?v k = Some t" "t \<noteq> []" for k t
      using that D(1) [of k t] not_closing by (auto simp: sl pairs closing split: if_splits)
    show "t \<noteq> [] \<and> (t \<in> set (cw_closing ?v) \<or> slot ?v k = Some t)" if "(k, t) \<in> session_pairs ?v" for k t
      using that D(2) [of k t] here new by (auto simp: sl pairs closing new_session_def)
    show "k' = k" if "(k, t) \<in> session_pairs ?v" "(k', t) \<in> session_pairs ?v" for k k' t
      using that D(3) fresh by (auto simp: pairs)
  qed (use slots in \<open>auto simp: slots_ok_def pairs closing\<close>)
  moreover have "trigger_ok ?v t" if "t \<in> set before \<union> set after" for t
  proof -
    have "trigger_ok w t" using trig that unfolding triggers_ok_def at by auto
    moreover have "opening_job t \<noteq> Some job"
      using trig that by (force simp: triggers_ok_def at opening_split set_map_filter_iff)
    ultimately show ?thesis by (cases t) (simp_all add: sl pairs run_of)
  qed
  moreover have "keeper ?v k t" if "keeper w k t" for k t
    using that unfolding keeper_def by (auto simp: at trs run_of jobs)
  moreover have "keeper ?v job sid" by (auto simp: keeper_def trs)
  ultimately show ?thesis
    using trig kn kp by (simp add: runs_ok_def triggers_ok_def callbacks_known_def kept_def sl pairs run_of jobs trs)
      (auto simp: at opening_split opening_app)
qed

lemma enqueue_answers:
  assumes "enqueue ok True r s = (t, answer)"
  shows "set (js_registered s) \<subseteq> set (js_registered t) \<and> set (js_on_finish s) \<subseteq> set (js_on_finish t) \<and>
    (\<forall>x. answer = Inr x \<longrightarrow> jr_id r \<in> set (js_registered t) \<and> jr_id r \<in> set (js_on_finish t))"
  using assms by (auto simp: enqueue_def create_job_def Let_def split: prod.splits sum.splits if_splits)

lemma runs_queue_run:
  assumes ok: "runs_ok w" and at: "cw_triggers w = before @ Queuing job sid rq owner # after"
    and unheard: "unheard_of i (cw_jobs w)"
  shows "runs_ok (queue_run io now i cur before job sid rq owner after w)"
proof -
  let ?v = "queue_run io now i cur before job sid rq owner after w"
  let ?r = "new_job now i sid AgentRun rq None (Some (get_current_operator (run_operator owner cur)))"
  obtain jobs answer where e: "enqueue io True ?r (cw_jobs w) = (jobs, answer)" by fastforce
  note E = enqueue_answers [OF e]
  have pair: "(job, sid) \<in> session_pairs w" using ok by (auto simp: runs_ok_def triggers_ok_def at)
  have kn: "callbacks_known w" using ok by (simp add: runs_ok_def)
  have free: "map_of (cw_run_of w) i = None"
  proof (rule ccontr)
    assume "map_of (cw_run_of w) i \<noteq> None"
    then have "i \<in> set (js_registered (cw_jobs w))" using kn by (auto simp: callbacks_known_def)
    with unheard show False by (simp add: unheard_of_def)
  qed
  show ?thesis
  proof (cases answer)
    case (Inl x)
    then have v: "?v = w\<lparr>cw_jobs := jobs, cw_triggers := before @ Failed job sid # after\<rparr>" by (simp add: queue_run_def e)
    show ?thesis
      by (rule runs_trigger [OF ok at, where ts = "[Failed job sid]"])
        (use pair kn E in \<open>auto simp: v same_slots_def session_pairs_def List.map_filter_simps callbacks_known_def keeper_def at\<close>)
  next
    case (Inr x)
    then have v: "?v = w\<lparr>cw_jobs := jobs, cw_triggers := before @ Enqueued job sid i # after,
        cw_run_of := (i, job, sid) # cw_run_of w\<rparr>" by (simp add: queue_run_def e)
    have same: "same_slots w ?v" by (simp add: v same_slots_def)
    have mapped: "map_of (cw_run_of ?v) k = (if k = i then Some (job, sid) else map_of (cw_run_of w) k)" for k by (simp add: v)
    have added: "i \<in> set (js_registered jobs)" "i \<in> set (js_on_finish jobs)" using E Inr by (auto simp: new_job_def)
    have pairs: "session_pairs ?v = session_pairs w" using same_slotsD [OF same] by simp
    show ?thesis
    proof (rule runs_trigger [OF ok at same, where ts = "[Enqueued job sid i]"])
      show "callbacks_known ?v"
        using kn E added pair unfolding callbacks_known_def mapped pairs by (auto simp: v)
      show "trigger_ok ?v u" if "u \<in> set [Enqueued job sid i]" for u using that pair by (simp add: mapped pairs)
      show "map_of (cw_run_of ?v) k = Some p" if "map_of (cw_run_of w) k = Some p" for k p
        using that free by (auto simp: mapped)
      show "keeper ?v k s" if "keeper w k s" for k s
      proof (cases "(k, s) = (job, sid)")
        case True
        then show ?thesis using added by (auto simp: keeper_def mapped v)
      next
        case False
        have old: "map_of (cw_run_of ?v) x = Some (k, s)" if "map_of (cw_run_of w) x = Some (k, s)" for x
          using that free by (auto simp: mapped)
        have finish: "set (js_on_finish (cw_jobs w)) \<subseteq> set (js_on_finish (cw_jobs ?v))" using E by (simp add: v)
        have "cw_triggers ?v = before @ Enqueued job sid i # after" by (simp add: v)
        with that False old finish show ?thesis unfolding keeper_def at by fastforce
      qed
    qed (simp_all add: v List.map_filter_simps)
  qed
qed

lemma take_back_fields:
  "js_registered (take_back_callback i s) = js_registered s"
  "set (js_on_finish (take_back_callback i s)) = set (js_on_finish s) - {i}"
  by (auto simp: take_back_callback_def enqueued_def)

lemma runs_queuing_cancelled:
  assumes ok: "runs_ok w" and at: "cw_triggers w = before @ Queuing job sid rq owner # after"
  shows "runs_ok (queue_cancelled io r before job sid after w)"
proof (rule runs_trigger [OF ok at, where ts = "[Failed job sid]"])
  let ?v = "queue_cancelled io r before job sid after w"
  have pairs: "session_pairs ?v = session_pairs w" by (simp add: queue_cancelled_def session_pairs_def)
  show "trigger_ok ?v u" if "u \<in> set [Failed job sid]" for u
    using that ok by (auto simp: runs_ok_def triggers_ok_def at pairs)
  show "callbacks_known ?v"
    using ok by (simp add: runs_ok_def callbacks_known_def pairs) (simp add: queue_cancelled_def create_cancelled_def)
  show "keeper ?v k s" if "keeper w k s" for k s
    using that by (auto simp: keeper_def at queue_cancelled_def create_cancelled_def)
qed (simp_all add: queue_cancelled_def same_slots_def List.map_filter_simps)

lemma runs_returned:
  assumes ok: "runs_ok w" and at: "cw_triggers w = before @ Enqueued job sid i # after"
  shows "runs_ok (enqueue_returned before job i after w)"
proof (rule runs_trigger [OF ok at, where ts = "[Noting job]"])
  let ?v = "enqueue_returned before job i after w"
  have pairs: "session_pairs ?v = session_pairs w" by (simp add: enqueue_returned_def session_pairs_def)
  show "callbacks_known ?v"
    using ok by (simp add: runs_ok_def callbacks_known_def pairs) (simp add: enqueue_returned_def enqueued_def)
  show "keeper ?v k s" if "keeper w k s" for k s
    using that by (auto simp: keeper_def at enqueue_returned_def enqueued_def)
qed (simp_all add: enqueue_returned_def same_slots_def List.map_filter_simps)

lemma runs_raised:
  assumes ok: "runs_ok w" and at: "cw_triggers w = before @ Enqueued job sid i # after"
  shows "runs_ok (enqueue_raised before job sid i after w)"
proof (rule runs_trigger [OF ok at, where ts = "[Failed job sid]"])
  let ?v = "enqueue_raised before job sid i after w"
  have en: "(job, sid) \<in> session_pairs w" "map_of (cw_run_of w) i = Some (job, sid)"
    using ok by (auto simp: runs_ok_def triggers_ok_def at)
  have pairs: "session_pairs ?v = session_pairs w" by (simp add: enqueue_raised_def session_pairs_def)
  have v: "cw_triggers ?v = before @ Failed job sid # after" "cw_run_of ?v = cw_run_of w"
    "cw_jobs ?v = take_back_callback i (cw_jobs w)" by (simp_all add: enqueue_raised_def)
  show "trigger_ok ?v u" if "u \<in> set [Failed job sid]" for u using that en by (simp add: pairs)
  show "callbacks_known ?v"
    using ok by (simp add: runs_ok_def callbacks_known_def pairs v take_back_fields)
  show "keeper ?v k s" if "keeper w k s" for k s
    using that en(2) unfolding keeper_def at v take_back_fields by fastforce
qed (simp_all add: enqueue_raised_def same_slots_def List.map_filter_simps)

lemma runs_failed:
  assumes ok: "runs_ok w" and at: "cw_triggers w = before @ Failed job sid # after"
  shows "runs_ok (trigger_failed before job sid after w)"
proof -
  let ?u = "w\<lparr>cw_triggers := before @ after\<rparr>"
  have same: "same_slots w ?u" by (simp add: same_slots_def)
  note D = same_slotsD [OF same]
  have fine: "trigger_ok ?u t" if "trigger_ok w t" for t by (rule trigger_ok_same [OF same _ that]) simp
  have "triggers_ok ?u"
    using ok fine by (auto simp: runs_ok_def triggers_ok_def at opening_split opening_app)
  moreover have "slots_ok ?u" "callbacks_known ?u" "(job, sid) \<in> session_pairs ?u"
    using ok D by (auto simp: runs_ok_def triggers_ok_def callbacks_known_def at)
  moreover have "keeper ?u j s" if "slot ?u j = Some s" "s \<noteq> []" "(j, s) \<noteq> (job, sid)" for j s
  proof -
    have "keeper w j s" using ok that D by (simp add: runs_ok_def kept_def)
    with that(3) show ?thesis by (auto simp: keeper_def at)
  qed
  ultimately show ?thesis unfolding trigger_failed_def by (intro runs_release) auto
qed

lemma runs_noted:
  assumes ok: "runs_ok w" and at: "cw_triggers w = before @ Noting job # after"
  shows "runs_ok (w\<lparr>cw_triggers := before @ after\<rparr>)"
proof (rule runs_trigger [OF ok at, where ts = "[]"])
  show "callbacks_known (w\<lparr>cw_triggers := before @ after\<rparr>)"
    using ok by (simp add: runs_ok_def callbacks_known_def session_pairs_def)
  show "keeper (w\<lparr>cw_triggers := before @ after\<rparr>) k s" if "keeper w k s" for k s
    using that by (auto simp: keeper_def at)
qed (simp_all add: same_slots_def List.map_filter_simps)

lemma runs_with_jobs:
  assumes ok: "runs_ok w" and move: "callbacks_move (cw_jobs w) jobs"
    and reg: "js_registered jobs = js_registered (cw_jobs w)"
  shows "runs_ok (with_jobs jobs w)"
proof -
  let ?u = "w\<lparr>cw_jobs := jobs\<rparr>"
  have same: "same_slots w ?u" by (simp add: same_slots_def)
  note D = same_slotsD [OF same]
  have "trigger_ok ?u t" if "trigger_ok w t" for t by (rule trigger_ok_same [OF same _ that]) simp
  then have parts: "slots_ok ?u" "triggers_ok ?u" "callbacks_known ?u"
    using ok D reg by (auto simp: runs_ok_def triggers_ok_def callbacks_known_def)
  have keeps: "keeper ?u j s"
    if "slot w j = Some s" "s \<noteq> []" and still: "\<And>i. map_of (cw_run_of w) i = Some (j, s) \<Longrightarrow>
      i \<in> set (js_on_finish (cw_jobs w)) \<Longrightarrow> i \<in> set (js_on_finish jobs)" for j s
    using ok that by (fastforce simp: runs_ok_def kept_def keeper_def)
  from move show ?thesis unfolding callbacks_move_def
  proof (elim disjE bexE conjE)
    assume c: "js_called jobs = js_called (cw_jobs w)" "set (js_on_finish (cw_jobs w)) \<subseteq> set (js_on_finish jobs)"
    then have "with_jobs jobs w = ?u" by (simp add: with_jobs_def)
    moreover have "kept ?u" using keeps c(2) D by (auto simp: kept_def)
    ultimately show ?thesis using parts by (simp add: runs_ok_def)
  next
    fix i assume i: "js_called jobs = js_called (cw_jobs w) @ [i]" "set (js_on_finish jobs) = set (js_on_finish (cw_jobs w)) - {i}"
    show ?thesis
    proof (cases "map_of (cw_run_of w) i")
      case None
      then have "with_jobs jobs w = ?u" by (simp add: with_jobs_def i)
      moreover have "kept ?u"
        unfolding kept_def
      proof (intro allI impI)
        fix j s assume at: "slot ?u j = Some s" "s \<noteq> []"
        then have "slot w j = Some s" using D by simp
        then show "keeper ?u j s" by (rule keeps [OF _ at(2)]) (use i(2) None in force)
      qed
      ultimately show ?thesis using parts by (simp add: runs_ok_def)
    next
      case (Some p)
      obtain job sid where p: "p = (job, sid)" by (cases p)
      have w: "with_jobs jobs w = release_run job sid ?u" by (simp add: with_jobs_def i Some p)
      have "(job, sid) \<in> session_pairs ?u" using ok Some p D by (auto simp: runs_ok_def callbacks_known_def)
      moreover have "keeper ?u j s" if "slot ?u j = Some s" "s \<noteq> []" "(j, s) \<noteq> (job, sid)" for j s
      proof -
        have "slot w j = Some s" using that(1) D by simp
        then show ?thesis by (rule keeps [OF _ that(2)]) (use i(2) Some p that(3) in force)
      qed
      ultimately show ?thesis unfolding w using parts by (intro runs_release) auto
    qed
  qed
qed

lemma cron_step_runs_ok: "cron_step w v \<Longrightarrow> runs_ok w \<Longrightarrow> runs_ok v"
  by (induction rule: cron_step.induct)
    (auto intro: runs_begin runs_session_failed runs_session_opened runs_queue_run runs_queuing_cancelled runs_returned
      runs_raised runs_failed runs_noted runs_with_jobs job_step_callbacks_move)

lemma with_jobs_jobs [simp]: "cw_jobs (with_jobs jobs w) = jobs"
proof -
  have "cw_jobs (foldl (\<lambda>v i. case map_of (cw_run_of v) i of None \<Rightarrow> v | Some (job, sid) \<Rightarrow> release_run job sid v) w ids) = cw_jobs w"
    for ids w
  proof (induction ids arbitrary: w)
    case (Cons i ids)
    then show ?case by (simp split: option.split)
  qed simp
  then show ?thesis by (simp add: with_jobs_def)
qed

lemma cron_step_callbacks: "cron_step w v \<Longrightarrow> callbacks_ok (cw_jobs w) \<Longrightarrow> callbacks_ok (cw_jobs v)"
proof (induction rule: cron_step.induct)
  case (queued w before job sid rq owner after i ok now cur)
  let ?r = "new_job now i sid AgentRun rq None (Some (get_current_operator (run_operator owner cur)))"
  have "callbacks_ok (fst (enqueue ok True ?r (cw_jobs w)))"
    using callbacks_enqueue [of "cw_jobs w" ?r] queued by (simp add: new_job_def)
  then show ?case by (auto simp: queue_run_def split: prod.splits sum.split)
next
  case (queuing_cancelled w before job sid rq owner after r ok)
  then show ?case using callbacks_ok_same same_places_other(5) by (simp add: queue_cancelled_def)
next
  case (returned w before job sid i after)
  then show ?case using callbacks_ok_same same_places_other(4) by (simp add: enqueue_returned_def)
next
  case (triggered w trim j)
  then show ?case by (simp add: begin_run_def split: sum.split)
qed (simp_all add: session_failed_def session_opened_def enqueue_raised_def callbacks_take_back trigger_failed_def job_step_callbacks)

definition world_ok :: "cron_world \<Rightarrow> bool" where
  "world_ok w \<longleftrightarrow> runs_ok w \<and> callbacks_ok (cw_jobs w)"

interpretation cron: machine cron_step world_ok
  using cron_step_runs_ok cron_step_callbacks by unfold_locales (auto simp: world_ok_def)

lemma new_world_ok: "callbacks_ok jobs \<Longrightarrow> world_ok (new_world jobs)"
  by (simp add: world_ok_def runs_defs new_world_def slot_def session_pairs_def List.map_filter_simps)


end
