(* ===== verification/CronCalls.thy ===== *)
theory CronCalls
  imports CronFacts
begin

text \<open>
  What the calls on cron jobs may change in the store, and as whom a run works.
\<close>

datatype cron_call =
    CreateCron cron_job "string option" | ListCron | GetCron string | UpdateCron string "cron_update list" | DeleteCron string
  | TriggerCron string | WebhookCron string string

fun after_call :: "cron_env \<Rightarrow> operator_var \<Rightarrow> cron_call \<Rightarrow> cron_service \<Rightarrow> cron_service" where
  "after_call env cur (CreateCron asked key) s = fst (create_cron env cur asked key s)"
| "after_call env cur ListCron s = fst (list_cron env cur s)"
| "after_call env cur (GetCron i) s = fst (get_cron env cur i s)"
| "after_call env cur (UpdateCron i updates) s = fst (update_cron env cur i updates s)"
| "after_call env cur (DeleteCron i) s = fst (delete_cron env cur i s)"
| "after_call env cur (TriggerCron i) s = fst (triggered_job env cur i s)"
| "after_call env cur (WebhookCron i key) s = fst (webhook_job env i key s)"

lemma load_outcomes:
  "load_cron moved now s = (s', answer) \<Longrightarrow>
   (case cs_file s of
      NoStore \<Rightarrow> s' = s \<and> answer = Inr []
    | BlockedStore jobs \<Rightarrow> s' = s \<and> answer = Inl CronUnreadable
    | CorruptStore data \<Rightarrow> answer = Inl CronUnreadable \<and>
        (s' = s \<or> s' = s\<lparr>cs_file := NoStore, cs_quarantined := AList.update (second_of now) data (cs_quarantined s)\<rparr>)
    | StoredJobs jobs \<Rightarrow> s' = s \<and> answer = Inr jobs)"
  by (auto simp: load_cron_def split: cron_file.splits if_splits)

lemma save_outcomes: "save_cron ok jobs s = Inr s' \<Longrightarrow> s' = s\<lparr>cs_file := StoredJobs jobs\<rparr>"
  by (simp add: save_cron_def split: if_splits)

lemma fold_updates_keep:
  "cj_owner (fold apply_update updates j) = cj_owner j \<and> cj_webhook_key (fold apply_update updates j) = cj_webhook_key j \<and>
   cj_workflow_profile (fold apply_update updates j) = cj_workflow_profile j \<and> cj_id (fold apply_update updates j) = cj_id j"
proof (induction updates arbitrary: j)
  case (Cons u updates)
  have "cj_owner (apply_update u j) = cj_owner j \<and> cj_webhook_key (apply_update u j) = cj_webhook_key j \<and>
    cj_workflow_profile (apply_update u j) = cj_workflow_profile j \<and> cj_id (apply_update u j) = cj_id j"
    by (cases u) auto
  with Cons show ?case by simp
qed simp

text \<open>What a call may have done to one job of the store.\<close>

definition job_kept :: "operator_var \<Rightarrow> cron_job \<Rightarrow> cron_job option \<Rightarrow> bool" where
  "job_kept cur j found \<longleftrightarrow> found = Some j \<or>
     (may_use cur (cj_owner j) \<and>
      (\<forall>j'. found = Some j' \<longrightarrow> cj_owner j' = cj_owner j \<and> cj_webhook_key j' = cj_webhook_key j \<and>
         cj_workflow_profile j' = cj_workflow_profile j))"

lemma accessible_cron_Some: "accessible_cron cur jobs i = Inr j \<longleftrightarrow> map_of jobs i = Some j \<and> may_use cur (cj_owner j)"
  by (auto simp: accessible_cron_def split: option.splits)

lemma stored_after_create:
  assumes "cs_file s = StoredJobs jobs" and "map_of jobs (cj_id asked) = None"
  shows "\<exists>jobs'. cs_file (fst (create_cron env cur asked key s)) = StoredJobs jobs' \<and>
    (\<forall>k j. map_of jobs k = Some j \<longrightarrow> map_of jobs' k = Some j)"
  using assms
  by (auto simp: create_cron_def load_cron_def Let_def alist_lookup dest!: save_outcomes split: option.splits sum.splits)

lemma stored_after_update:
  assumes stored: "cs_file s = StoredJobs jobs"
  shows "\<exists>jobs'. cs_file (fst (update_cron env cur i updates s)) = StoredJobs jobs' \<and>
    (\<forall>k j. map_of jobs k = Some j \<longrightarrow> job_kept cur j (map_of jobs' k))"
proof -
  have ld: "load_cron (ce_moved env) (ce_now env) s = (s, Inr jobs)" using stored by (simp add: load_cron_def)
  show ?thesis
  proof (cases "fst (update_cron env cur i updates s) = s")
    case False
    then obtain j0 s'' where at: "accessible_cron cur jobs i = Inr j0"
      and saved: "save_cron (ce_save_ok env) (AList.update i (fold apply_update updates j0) jobs) s = Inr s''"
      by (auto simp: update_cron_def ld Let_def split: option.splits sum.splits)
    have "cs_file (fst (update_cron env cur i updates s)) = StoredJobs (AList.update i (fold apply_update updates j0) jobs)"
      using False saved save_outcomes [OF saved] at by (auto simp: update_cron_def ld Let_def split: option.splits sum.splits)
    moreover have "job_kept cur j (map_of (AList.update i (fold apply_update updates j0) jobs) k)" if "map_of jobs k = Some j" for k j
      using that at fold_updates_keep [of updates j0] by (auto simp: job_kept_def alist_lookup accessible_cron_Some)
    ultimately show ?thesis by blast
  qed (use stored in \<open>auto simp: job_kept_def\<close>)
qed

lemma stored_after_delete:
  assumes stored: "cs_file s = StoredJobs jobs"
  shows "\<exists>jobs'. cs_file (fst (delete_cron env cur i s)) = StoredJobs jobs' \<and>
    (\<forall>k j. map_of jobs k = Some j \<longrightarrow> job_kept cur j (map_of jobs' k))"
  using stored
  by (auto simp: delete_cron_def load_cron_def job_kept_def alist_lookup accessible_cron_Some dest!: save_outcomes split: sum.splits)

lemma unreadable_after:
  assumes "load_cron (ce_moved env) (ce_now env) s = (s', Inl e)"
  shows "after_call env cur call s = s \<or> after_call env cur call s = s'"
  using assms
  by (cases call) (auto simp: create_cron_def list_cron_def get_cron_def update_cron_def delete_cron_def triggered_job_def webhook_job_def
      split: option.split)

text \<open>
  no call loses what is in the cron store. A store that cannot be read stays where it is; a corrupt one
  stays or is moved aside whole; and in a readable one a job changes only by a caller who may use it, who
  cannot change its owner, its webhook key or the profile its runs start under.
\<close>

lemma cron_calls_lose_nothing:
  assumes fresh: "\<And>asked key jobs. call = CreateCron asked key \<Longrightarrow> cs_file s = StoredJobs jobs \<Longrightarrow> map_of jobs (cj_id asked) = None"
  shows "case cs_file s of
      NoStore \<Rightarrow> cs_quarantined (after_call env cur call s) = cs_quarantined s
    | BlockedStore jobs \<Rightarrow> after_call env cur call s = s
    | CorruptStore data \<Rightarrow> after_call env cur call s = s \<or>
        (cs_file (after_call env cur call s) = NoStore \<and>
         cs_quarantined (after_call env cur call s) = AList.update (second_of (ce_now env)) data (cs_quarantined s))
    | StoredJobs jobs \<Rightarrow> \<exists>jobs'. cs_file (after_call env cur call s) = StoredJobs jobs' \<and>
        (\<forall>k j. map_of jobs k = Some j \<longrightarrow> job_kept cur j (map_of jobs' k))"
proof (cases "cs_file s")
  case NoStore
  then show ?thesis
    by (cases call) (auto simp: create_cron_def list_cron_def get_cron_def update_cron_def delete_cron_def triggered_job_def
        webhook_job_def load_cron_def Let_def dest!: save_outcomes split: option.splits sum.splits)
next
  case (BlockedStore jobs)
  then have "load_cron (ce_moved env) (ce_now env) s = (s, Inl CronUnreadable)" by (simp add: load_cron_def)
  from unreadable_after [OF this] BlockedStore show ?thesis by simp
next
  case (CorruptStore data)
  obtain s' where "load_cron (ce_moved env) (ce_now env) s = (s', Inl CronUnreadable)"
    and "s' = s \<or> s' = s\<lparr>cs_file := NoStore, cs_quarantined := AList.update (second_of (ce_now env)) data (cs_quarantined s)\<rparr>"
    using load_outcomes [of "ce_moved env" "ce_now env" s] CorruptStore by (cases "load_cron (ce_moved env) (ce_now env) s") auto
  with unreadable_after [of env s s'] CorruptStore show ?thesis by fastforce
next
  case (StoredJobs jobs)
  have ld: "load_cron (ce_moved env) (ce_now env) s = (s, Inr jobs)" using StoredJobs by (simp add: load_cron_def)
  have unchanged: "\<exists>jobs'. cs_file s = StoredJobs jobs' \<and> (\<forall>k j. map_of jobs k = Some j \<longrightarrow> job_kept cur j (map_of jobs' k))"
    using StoredJobs by (auto simp: job_kept_def)
  show ?thesis
  proof (cases call)
    case (CreateCron asked key)
    obtain jobs' where "cs_file (fst (create_cron env cur asked key s)) = StoredJobs jobs'"
      "\<forall>k j. map_of jobs k = Some j \<longrightarrow> map_of jobs' k = Some j"
      using stored_after_create [OF StoredJobs fresh [OF CreateCron StoredJobs]] by blast
    then have "cs_file (after_call env cur call s) = StoredJobs jobs' \<and>
        (\<forall>k j. map_of jobs k = Some j \<longrightarrow> job_kept cur j (map_of jobs' k))"
      by (simp add: CreateCron job_kept_def)
    then show ?thesis using StoredJobs by auto
  next
    case (UpdateCron i updates)
    with stored_after_update [OF StoredJobs] StoredJobs show ?thesis by simp
  next
    case (DeleteCron i)
    with stored_after_delete [OF StoredJobs] StoredJobs show ?thesis by simp
  qed (use unchanged StoredJobs ld in \<open>simp_all add: list_cron_def get_cron_def triggered_job_def webhook_job_def\<close>)
qed

section \<open>As whom a run works\<close>

lemma run_operator_owned:
  "owner \<noteq> [] \<Longrightarrow> py_strip owner = owner \<Longrightarrow>
   run_operator (Some owner) cur = Some \<lparr>op_id = owner, op_name = None, op_source = ''token'', op_asserted_id = None\<rparr>"
  by (simp add: run_operator_def as_owner_def owner_identity_def acting_as_def set_current_operator_def or_none_def Let_def)

lemma run_operator_unowned:
  "\<not> truthy owner \<Longrightarrow> run_operator owner cur = Some ANONYMOUS"
proof -
  have "py_strip ''anonymous'' = ''anonymous''" by code_simp
  then show "\<not> truthy owner \<Longrightarrow> run_operator owner cur = Some ANONYMOUS"
    by (simp add: run_operator_def as_owner_def owner_identity_def acting_as_def set_current_operator_def or_none_def
        ANONYMOUS_def Let_def)
qed

text \<open>
  whoever triggers a run, an operator, a webhook or the scheduler, its session and agent job are its
  owner's and nobody else's: it may use what its owner owns and what nobody owns; a run of an unowned job
  may use only the latter.
\<close>

lemma cron_run_acts_as_owner:
  assumes "truthy owner \<Longrightarrow> py_strip (the owner) = the owner"
  shows "may_use (run_operator owner cur) asked \<longleftrightarrow> asked = None \<or> (truthy owner \<and> asked = owner)"
proof (cases "truthy owner")
  case True
  then obtain o' where "owner = Some o'" "o' \<noteq> []" by (cases owner) auto
  with assms run_operator_owned [of o' cur] show ?thesis
    by (auto simp: may_use_def get_current_operator_def SYSTEM_SOURCE_def split: option.split)
next
  case False
  then show ?thesis using run_operator_unowned [OF False, of cur]
    by (auto simp: may_use_def get_current_operator_def SYSTEM_SOURCE_def ANONYMOUS_def split: option.split)
qed

section \<open>A sample\<close>

definition sample_cron :: cron_job where
  "sample_cron = \<lparr>cj_id = ''c1'', cj_name = ''nightly'', cj_provider = None, cj_schedule = None, cj_enabled = Some True,
     cj_webhook_key = Some ''0123456789'', cj_goal = ''check'', cj_start_url = None, cj_auth_profile = None,
     cj_proxy_persona = None, cj_max_steps = Some 100, cj_workflow_profile = Some Governed, cj_owner = Some ''ann'',
     cj_created_at = 0, cj_last_run_at = None, cj_last_status = None, cj_run_count = 0\<rparr>"

definition sample_env :: cron_env where
  "sample_env = \<lparr>ce_apscheduler = False, ce_schedule_ok = (\<lambda>_. True), ce_profile_access = (\<lambda>_ _. True), ce_moved = True,
     ce_save_ok = True, ce_now = 7000000\<rparr>"

definition sample_service :: cron_service where
  "sample_service = \<lparr>cs_file = StoredJobs [(''c1'', sample_cron)], cs_quarantined = [], cs_scheduler = None, cs_max_jobs = 50\<rparr>"

definition bob_var :: operator_var where
  "bob_var = Some \<lparr>op_id = ''bob'', op_name = None, op_source = ''token'', op_asserted_id = None\<rparr>"

lemma cron_calls_lose_nothing_witness:
  "\<exists>jobs'. cs_file (after_call sample_env bob_var (DeleteCron ''c1'') sample_service) = StoredJobs jobs' \<and>
     map_of jobs' ''c1'' = Some sample_cron"
proof -
  have "\<not> may_use bob_var (cj_owner sample_cron)" by code_simp
  then show ?thesis
    using cron_calls_lose_nothing [of "DeleteCron ''c1''" sample_service sample_env bob_var]
    by (simp add: sample_service_def job_kept_def) (metis (mono_tags))
qed

lemma cron_run_acts_as_owner_witness:
  "may_use (run_operator (Some ''ann'') bob_var) (Some ''ann'') \<and> \<not> may_use (run_operator (Some ''ann'') bob_var) (Some ''bob'')"
proof -
  have "py_strip ''ann'' = ''ann''" by code_simp
  then show ?thesis
    using cron_run_acts_as_owner [of "Some ''ann''" bob_var "Some ''ann''"]
      cron_run_acts_as_owner [of "Some ''ann''" bob_var "Some ''bob''"] by simp
qed

definition cron_rq :: agent_request where
  "cron_rq = projr (cron_request py_strip sample_cron)"

definition opening_world :: cron_world where
  "opening_world = fst (begin_run py_strip sample_cron (new_world new_process))"

definition queuing_world :: cron_world where
  "queuing_world = (case cw_triggers opening_world of
     Opening job rq owner # rest \<Rightarrow> session_opened bob_var ''s9'' [] job rq owner rest opening_world | _ \<Rightarrow> opening_world)"

definition queued_world :: cron_world where
  "queued_world = (case cw_triggers queuing_world of
     Queuing job sid rq owner # rest \<Rightarrow> queue_run True 5 ''job9'' bob_var [] job sid rq owner rest queuing_world | _ \<Rightarrow> queuing_world)"

lemma reach_queued_world: "cron_step\<^sup>*\<^sup>* (new_world new_process) queued_world"
proof -
  have start: "cron_step (new_world new_process) opening_world" unfolding opening_world_def by (rule triggered)
  have o': "cw_triggers opening_world = [] @ Opening ''c1'' cron_rq (Some ''ann'') # []" by code_simp
  have "new_session ''s9'' opening_world" by code_simp
  with o' have second: "cron_step opening_world queuing_world"
    using opened [OF o', of "''s9''" bob_var] by (simp add: queuing_world_def)
  have q: "cw_triggers queuing_world = [] @ Queuing ''c1'' ''s9'' cron_rq (Some ''ann'') # []"
    using o' by (simp add: queuing_world_def session_opened_def)
  have "unheard_of ''job9'' (cw_jobs queuing_world)" by code_simp
  with q have "cron_step queuing_world queued_world"
    using queued [OF q, of "''job9''" True 5 bob_var] by (simp add: queued_world_def)
  with start second show ?thesis by (meson converse_rtranclp_into_rtranclp r_into_rtranclp)
qed


end
