(* ===== verification/JobAccess.thy ===== *)
theory JobAccess
  imports JobCallbacks
begin

text \<open>
  Whose jobs a caller sees: a job in a session the current operator may not use answers every call exactly as
  a job that does not exist.
\<close>

definition without_job :: "string \<Rightarrow> job_system \<Rightarrow> job_system" where
  "without_job i s = s\<lparr>js_files := AList.delete i (js_files s)\<rparr>"

lemma sort_desc_filter: "sort_desc f (filter P xs) = filter P (sort_desc f xs)"
  by (simp add: sort_desc_def rev_filter [symmetric] filter_sort)

lemma map_filter_skip: "(\<And>x. x \<in> set xs \<Longrightarrow> \<not> P x \<Longrightarrow> f x = None) \<Longrightarrow> List.map_filter f (filter P xs) = List.map_filter f xs"
  by (induction xs) (auto simp: List.map_filter_simps split: option.split)

lemma filter_map_filter:
  "filter P (List.map_filter f xs) = List.map_filter (\<lambda>x. case f x of None \<Rightarrow> None | Some y \<Rightarrow> if P y then Some y else None) xs"
  by (induction xs) (auto simp: List.map_filter_simps split: option.split)

lemma list_jobs_visible:
  "filter (\<lambda>r. access (jr_session_id r)) (list_jobs files status session_id) =
   sort_desc (\<lambda>r. (stamp_text_key (jr_created_at r), jr_id r))
     (List.map_filter (\<lambda>e. case readable_job (snd e) of None \<Rightarrow> None
        | Some r \<Rightarrow> if access (jr_session_id r) \<and> job_wanted status session_id r then Some r else None)
       (sort_desc (\<lambda>(stem, stored). stem @ ''.json'') files))"
proof -
  have parts: "(\<lambda>e. case (case case e of (stem, stored) \<Rightarrow> readable_job stored of None \<Rightarrow> None
          | Some r \<Rightarrow> if job_wanted status session_id r then Some r else None) of None \<Rightarrow> None
        | Some r \<Rightarrow> if access (jr_session_id r) then Some r else None) =
      (\<lambda>e. case readable_job (snd e) of None \<Rightarrow> None
        | Some r \<Rightarrow> if access (jr_session_id r) \<and> job_wanted status session_id r then Some r else None)"
    by (auto simp: fun_eq_iff split: option.split)
  show ?thesis
    unfolding list_jobs_def sort_desc_filter [symmetric] filter_map_filter parts ..
qed

lemma list_without:
  assumes "files_named files" and "job_at files i = Some r" and "\<not> access (jr_session_id r)"
  shows "filter (\<lambda>r. access (jr_session_id r)) (list_jobs (AList.delete i files) status session_id) =
    filter (\<lambda>r. access (jr_session_id r)) (list_jobs files status session_id)"
proof -
  have hidden: "readable_job (snd e) = None \<or> readable_job (snd e) = Some r" if "e \<in> set files" "fst e = i" for e
  proof -
    have "map_of files (fst e) = Some (snd e)"
      using assms(1) that by (intro map_of_is_SomeI) (auto simp: files_named_def)
    then show ?thesis using assms(2) that by (simp add: job_at_def)
  qed
  show ?thesis
    unfolding list_jobs_visible AList.delete_eq sort_desc_filter
    by (rule arg_cong [where f = "sort_desc _"], rule map_filter_skip)
      (use assms(3) in \<open>fastforce dest: hidden split: option.split\<close>)
qed

text \<open>
  a job in a session the caller may not use is told apart from a missing one by no call: listing, reading,
  cancelling, discarding and resuming answer as if its file were not there, and change nothing.
\<close>

lemma hidden_job_reads_as_missing:
  assumes "files_named (js_files s)" and "job_at (js_files s) i = Some r" and "\<not> access (jr_session_id r)"
  shows "list_public access status session_id s = list_public access status session_id (without_job i s) \<and>
    get_public access i s = get_public access i (without_job i s) \<and>
    cancel_job access ok now i s = (s, snd (cancel_job access ok now i (without_job i s))) \<and>
    discard_public access ok now i s = (s, snd (discard_public access ok now i (without_job i s))) \<and>
    resume_job trim access ok now fresh_id operator' max_steps i s =
      (s, snd (resume_job trim access ok now fresh_id operator' max_steps i (without_job i s)))"
proof -
  have hidden: "accessible_job access i s = Inl (NoJob i)"
    using assms(2,3) by (auto simp: accessible_job_def get_job_def job_at_def split: option.splits)
  have missing: "accessible_job access i (without_job i s) = Inl (NoJob i)"
    by (simp add: accessible_job_def get_job_def without_job_def alist_lookup)
  have "list_public access status session_id s = list_public access status session_id (without_job i s)"
    using list_without [of "js_files s" i r access status session_id, OF assms] by (simp add: list_public_def without_job_def)
  then show ?thesis
    by (simp add: get_public_def cancel_job_def discard_public_def resume_job_def hidden missing)
qed

lemma hidden_job_reads_as_missing_witness:
  "list_public (\<lambda>x. x = ''s2'') None None started_run = list_public (\<lambda>x. x = ''s2'') None None (without_job ''job1'' started_run)
   \<and> fst (cancel_job (\<lambda>x. x = ''s2'') True 9 ''job1'' started_run) = started_run"
proof -
  have at: "job_at (js_files started_run) ''job1'' = Some ((new_job 1 ''job1'' ''s1'' AgentRun sample_run_request None (Some ann))
      \<lparr>jr_status := JRunning, jr_updated_at := 2\<rparr>)" by code_simp
  have "jobs_ok new_process" using jobs_ok_startup [OF no_files_named] by (simp add: new_process_def)
  with jobs.run_keeps [OF reach_started] have "files_named (js_files started_run)" by (simp add: jobs_ok_def)
  from hidden_job_reads_as_missing [OF this at, of "\<lambda>x. x = ''s2''"] show ?thesis by (simp add: new_job_def)
qed

end
