(* ===== verification/ActionRecords.thy ===== *)
theory ActionRecords
  imports Machines
begin

text \<open>
  A session's records in order (action_records.py): each is written by a task that waits for the one before it,
  for at most five seconds, and goes on when its caller was cancelled. The session keeps its latest unfinished
  task. A task is named by its place in the list of all of them.
\<close>

datatype record_task = WaitsFor "nat option" | Writes nat | Ended

record session_records =
  sr_tasks :: "record_task list"
  sr_pending :: "nat option"                 \<comment> \<open>\<open>pending_record\<close>\<close>
  sr_log :: "(nat \<times> nat) list"              \<comment> \<open>the writes that landed: the record and which of its pieces\<close>
  sr_gave_up :: bool                         \<comment> \<open>a wait for an earlier record timed out\<close>

definition RECORD_PIECES :: nat where
  "RECORD_PIECES = 3"

definition no_records :: session_records where
  "no_records = \<lparr>sr_tasks = [], sr_pending = None, sr_log = [], sr_gave_up = False\<rparr>"

definition task_done :: "session_records \<Rightarrow> nat option \<Rightarrow> bool" where
  "task_done s p = (case p of None \<Rightarrow> True | Some i \<Rightarrow> sr_tasks s ! i = Ended)"

definition begin_record :: "session_records \<Rightarrow> session_records" where
  "begin_record s = s\<lparr>sr_tasks := sr_tasks s @ [WaitsFor (sr_pending s)], sr_pending := Some (length (sr_tasks s))\<rparr>"

definition start_writes :: "nat \<Rightarrow> session_records \<Rightarrow> session_records" where
  "start_writes i s = s\<lparr>sr_tasks := (sr_tasks s)[i := Writes 0]\<rparr>"

definition write_piece :: "nat \<Rightarrow> nat \<Rightarrow> session_records \<Rightarrow> session_records" where
  "write_piece i n s = s\<lparr>sr_tasks := (sr_tasks s)[i := Writes (Suc n)], sr_log := sr_log s @ [(i, n)]\<rparr>"

definition end_record :: "nat \<Rightarrow> session_records \<Rightarrow> session_records" where
  "end_record i s = s\<lparr>sr_tasks := (sr_tasks s)[i := Ended]\<rparr>"

definition forget_record :: "nat \<Rightarrow> session_records \<Rightarrow> session_records" where
  "forget_record i s = (if sr_pending s = Some i then s\<lparr>sr_pending := None\<rparr> else s)"

text \<open>A task's writes may raise after any of them; it has ended then too.\<close>

inductive record_step :: "session_records \<Rightarrow> session_records \<Rightarrow> bool" where
  begins: "record_step s (begin_record s)"
| starts: "i < length (sr_tasks s) \<Longrightarrow> sr_tasks s ! i = WaitsFor p \<Longrightarrow> task_done s p \<Longrightarrow> record_step s (start_writes i s)"
| gives_up: "i < length (sr_tasks s) \<Longrightarrow> sr_tasks s ! i = WaitsFor p \<Longrightarrow> \<not> task_done s p \<Longrightarrow>
    record_step s ((start_writes i s)\<lparr>sr_gave_up := True\<rparr>)"
| writes: "i < length (sr_tasks s) \<Longrightarrow> sr_tasks s ! i = Writes n \<Longrightarrow> n < RECORD_PIECES \<Longrightarrow> record_step s (write_piece i n s)"
| ends: "i < length (sr_tasks s) \<Longrightarrow> sr_tasks s ! i = Writes n \<Longrightarrow> record_step s (end_record i s)"
| forgets: "i < length (sr_tasks s) \<Longrightarrow> sr_tasks s ! i = Ended \<Longrightarrow> record_step s (forget_record i s)"

section \<open>The order of the writes\<close>

fun waiting :: "record_task \<Rightarrow> bool" where
  "waiting (WaitsFor _) = True"
| "waiting _ = False"

definition all_ended :: "record_task list \<Rightarrow> nat \<Rightarrow> bool" where
  "all_ended ts i \<longleftrightarrow> (\<forall>j < i. ts ! j = Ended)"

fun task_ok :: "record_task list \<Rightarrow> nat \<Rightarrow> record_task \<Rightarrow> bool" where
  "task_ok ts i (WaitsFor None) = all_ended ts i"
| "task_ok ts i (WaitsFor (Some k)) = (Suc k = i)"
| "task_ok ts i _ = all_ended ts i"

fun piece_ok :: "record_task list \<Rightarrow> nat \<times> nat \<Rightarrow> bool" where
  "piece_ok ts (i, n) = (i < length ts \<and> (case ts ! i of WaitsFor _ \<Rightarrow> False | Writes m \<Rightarrow> n < m | Ended \<Rightarrow> True))"

fun earlier :: "nat \<times> nat \<Rightarrow> nat \<times> nat \<Rightarrow> bool" where
  "earlier (i, n) (j, m) = (i < j \<or> (i = j \<and> n < m))"

definition in_order :: "session_records \<Rightarrow> bool" where
  "in_order s \<longleftrightarrow>
     (\<forall>i < length (sr_tasks s). task_ok (sr_tasks s) i (sr_tasks s ! i)) \<and>
     (case sr_pending s of None \<Rightarrow> all_ended (sr_tasks s) (length (sr_tasks s)) | Some k \<Rightarrow> Suc k = length (sr_tasks s)) \<and>
     (\<forall>x \<in> set (sr_log s). piece_ok (sr_tasks s) x) \<and> sorted_wrt earlier (sr_log s)"

definition records_ok :: "session_records \<Rightarrow> bool" where
  "records_ok s \<longleftrightarrow> sr_gave_up s \<or> in_order s"

lemma all_ended_update: "all_ended ts i \<Longrightarrow> (\<And>j. j < i \<Longrightarrow> j = k \<Longrightarrow> x = Ended) \<Longrightarrow> all_ended (ts[k := x]) i"
  unfolding all_ended_def by (metis nth_list_update_eq nth_list_update_neq list_update_beyond not_le)

lemma task_ok_update:
  "task_ok ts i t \<Longrightarrow> (all_ended ts i \<Longrightarrow> all_ended ts' i) \<Longrightarrow> task_ok ts' i t"
  by (cases t; cases "case t of WaitsFor p \<Rightarrow> p | _ \<Rightarrow> None") auto

text \<open>Changing a task that has not ended changes nothing for those before it, and nothing after it has begun.\<close>

lemma change_task:
  assumes ok: "in_order s" and i: "i < length (sr_tasks s)" "sr_tasks s ! i \<noteq> Ended"
    and t: "task_ok (sr_tasks s) i t"
  shows "\<forall>k < length (sr_tasks s). task_ok ((sr_tasks s)[i := t]) k ((sr_tasks s)[i := t] ! k)"
proof (intro allI impI)
  fix k assume k: "k < length (sr_tasks s)"
  have no: "\<not> all_ended (sr_tasks s) k" if "i < k" using that i(2) by (auto simp: all_ended_def)
  have tk: "task_ok (sr_tasks s) k ((sr_tasks s)[i := t] ! k)"
    using ok k t by (cases "k = i") (auto simp: in_order_def)
  moreover have "all_ended (sr_tasks s) k \<Longrightarrow> all_ended ((sr_tasks s)[i := t]) k"
    using no by (auto intro!: all_ended_update)
  ultimately show "task_ok ((sr_tasks s)[i := t]) k ((sr_tasks s)[i := t] ! k)" by (rule task_ok_update)
qed

lemma not_all_ended: "i < length ts \<Longrightarrow> ts ! i \<noteq> Ended \<Longrightarrow> \<not> all_ended ts (length ts)"
  by (auto simp: all_ended_def)

lemma task_begun: "in_order s \<Longrightarrow> i < length (sr_tasks s) \<Longrightarrow> \<not> waiting (sr_tasks s ! i) \<Longrightarrow> all_ended (sr_tasks s) i"
  by (cases "sr_tasks s ! i") (auto simp: in_order_def dest!: spec [of _ i])

lemma piece_kept:
  "piece_ok ts x \<Longrightarrow> (\<And>n. ts ! i = Writes n \<Longrightarrow> t = Ended \<or> t = Writes (Suc n)) \<Longrightarrow> ts ! i \<noteq> Ended \<Longrightarrow> piece_ok (ts[i := t]) x"
  by (cases x; cases "fst x = i"; cases "ts ! i") auto

lemma change_keeps_order:
  assumes ok: "in_order s" and i: "i < length (sr_tasks s)" "sr_tasks s ! i \<noteq> Ended"
    and t: "task_ok (sr_tasks s) i t" "\<And>n. sr_tasks s ! i = Writes n \<Longrightarrow> t = Ended \<or> t = Writes (Suc n)"
  shows "in_order (s\<lparr>sr_tasks := (sr_tasks s)[i := t]\<rparr>)"
proof -
  have "\<forall>x \<in> set (sr_log s). piece_ok ((sr_tasks s)[i := t]) x"
    using ok piece_kept [OF _ t(2) i(2)] by (simp add: in_order_def)
  with change_task [OF ok i t(1)] ok not_all_ended [OF i] show ?thesis
    by (simp add: in_order_def split: option.splits)
qed

lemma order_kept:
  assumes "record_step s t" and "in_order s" and "\<not> sr_gave_up t"
  shows "in_order t"
  using assms
proof (cases rule: record_step.cases)
  case begins
  have "all_ended (sr_tasks s @ [x]) i = all_ended (sr_tasks s) i" if "i \<le> length (sr_tasks s)" for x i
    using that by (auto simp: all_ended_def nth_append)
  moreover have "task_ok (sr_tasks s @ [x]) i y = task_ok (sr_tasks s) i y" if "i < length (sr_tasks s)" for x i y
    using calculation that by (cases y; cases "case y of WaitsFor p \<Rightarrow> p | _ \<Rightarrow> None") auto
  ultimately show ?thesis using assms(2) begins
    by (auto simp: in_order_def begin_record_def nth_append less_Suc_eq split: option.splits)
next
  case (starts i p)
  have "all_ended (sr_tasks s) i"
  proof (cases p)
    case (Some k)
    then have k: "Suc k = i" "sr_tasks s ! k = Ended"
      using assms(2) starts by (auto simp: in_order_def task_done_def)
    then have "all_ended (sr_tasks s) k" using task_begun [OF assms(2), of k] starts(2) by simp
    with k show ?thesis by (auto simp: all_ended_def less_Suc_eq)
  qed (use assms(2) starts in \<open>auto simp: in_order_def\<close>)
  with change_keeps_order [OF assms(2) starts(2), of "Writes 0"] starts show ?thesis by (simp add: start_writes_def)
next
  case (gives_up i p)
  with assms(3) show ?thesis by simp
next
  case (writes i n)
  have b: "all_ended (sr_tasks s) i" using task_begun [OF assms(2) writes(2)] writes(3) by simp
  have "earlier x (i, n)" if "x \<in> set (sr_log s)" for x
  proof (cases x)
    case (Pair k m)
    then have k: "piece_ok (sr_tasks s) (k, m)" using assms(2) that by (auto simp: in_order_def)
    then have "all_ended (sr_tasks s) k" using task_begun [OF assms(2), of k] by (cases "sr_tasks s ! k") auto
    then have "\<not> i < k" using writes(3) by (auto simp: all_ended_def)
    with k writes(3) Pair show ?thesis by (cases "k = i") auto
  qed
  moreover have "in_order (s\<lparr>sr_tasks := (sr_tasks s)[i := Writes (Suc n)]\<rparr>)"
    using change_keeps_order [OF assms(2) writes(2), of "Writes (Suc n)"] b writes(3) by simp
  ultimately show ?thesis using writes
    by (cases "sr_pending s") (auto simp: in_order_def write_piece_def sorted_wrt_append)
next
  case (ends i n)
  have b: "all_ended (sr_tasks s) i" using task_begun [OF assms(2) ends(2)] ends(3) by simp
  with change_keeps_order [OF assms(2) ends(2), of Ended] ends show ?thesis by (simp add: end_record_def)
next
  case (forgets i)
  have "all_ended (sr_tasks s) (length (sr_tasks s))" if "sr_pending s = Some i"
  proof -
    have "Suc i = length (sr_tasks s)" using that assms(2) by (simp add: in_order_def)
    moreover have "all_ended (sr_tasks s) i" using task_begun [OF assms(2) forgets(2)] forgets(3) by simp
    ultimately show ?thesis using forgets(3) by (metis all_ended_def less_Suc_eq)
  qed
  with assms(2) forgets show ?thesis by (simp add: in_order_def forget_record_def)
qed

lemma gave_up_stays: "record_step s t \<Longrightarrow> sr_gave_up s \<Longrightarrow> sr_gave_up t"
  by (cases rule: record_step.cases)
    (auto simp: begin_record_def start_writes_def write_piece_def end_record_def forget_record_def)

interpretation records: machine record_step records_ok
  using order_kept gave_up_stays by unfold_locales (auto simp: records_ok_def)

text \<open>
  C30: unless a wait for an earlier record timed out, the records of a session land whole and in the order in
  which their actions ended: no write of one comes between two of another, cancelled callers or not, and the
  writes of each come in their order.
\<close>

theorem records_land_in_order:
  assumes "record_step\<^sup>*\<^sup>* no_records s"
  shows "sr_gave_up s \<or> sorted_wrt earlier (sr_log s)"
proof -
  have "records_ok no_records" by (simp add: records_ok_def in_order_def no_records_def all_ended_def)
  from records.run_keeps [OF assms this] show ?thesis by (auto simp: records_ok_def in_order_def)
qed

definition two_records :: session_records where
  "two_records = write_piece 1 0 (start_writes 1 (end_record 0 (write_piece 0 0 (start_writes 0 (begin_record (begin_record no_records))))))"

lemma reach_two_records: "record_step\<^sup>*\<^sup>* no_records two_records"
proof -
  let ?a = "begin_record no_records" let ?b = "begin_record ?a" let ?c = "start_writes 0 ?b"
  let ?d = "write_piece 0 0 ?c" let ?e = "end_record 0 ?d" let ?f = "start_writes 1 ?e"
  note defs = begin_record_def start_writes_def write_piece_def end_record_def no_records_def task_done_def RECORD_PIECES_def
  have "record_step no_records ?a" "record_step ?a ?b" by (rule begins)+
  moreover have "record_step ?b ?c" by (rule starts [of _ _ None]) (simp_all add: defs)
  moreover have "record_step ?c ?d" by (rule writes) (simp_all add: defs)
  moreover have "record_step ?d ?e" by (rule ends [of _ _ 1]) (simp_all add: defs)
  moreover have "record_step ?e ?f" by (rule starts [of _ _ "Some 0"]) (simp_all add: defs)
  moreover have "record_step ?f two_records" unfolding two_records_def by (rule writes) (simp_all add: defs)
  ultimately show ?thesis by (meson converse_rtranclp_into_rtranclp r_into_rtranclp)
qed

theorem records_land_in_order_witness:
  "sr_log two_records = [(0, 0), (1, 0)] \<and> sorted_wrt earlier (sr_log two_records)"
proof -
  have "sr_log two_records = [(0, 0), (1, 0)]" "\<not> sr_gave_up two_records" by code_simp+
  with records_land_in_order [OF reach_two_records] show ?thesis by blast
qed

end
