(* ===== verification/Runs.thy ===== *)
theory Runs
  imports Prelude
begin

text \<open>
  Stateful code that may raise, as functions of the state: what a stretch of code did to the state stays done
  when it raises. \<open>Inl\<close> is an exception, \<open>Inr\<close> a result.
\<close>

type_synonym ('s, 'e, 'a) run = "'s \<Rightarrow> 's \<times> ('e + 'a)"

definition ret :: "'a \<Rightarrow> ('s, 'e, 'a) run" where
  "ret v s = (s, Inr v)"

definition raise :: "'e \<Rightarrow> ('s, 'e, 'a) run" where
  "raise e s = (s, Inl e)"

definition seq :: "('s, 'e, 'a) run \<Rightarrow> ('a \<Rightarrow> ('s, 'e, 'b) run) \<Rightarrow> ('s, 'e, 'b) run" where
  "seq m f s = (case m s of (s', Inl e) \<Rightarrow> (s', Inl e) | (s', Inr v) \<Rightarrow> f v s')"

text \<open>\<open>except\<close>: the handler runs in the state the body left, and may raise again.\<close>

definition catch :: "('s, 'e, 'a) run \<Rightarrow> ('e \<Rightarrow> ('s, 'e, 'a) run) \<Rightarrow> ('s, 'e, 'a) run" where
  "catch m h s = (case m s of (s', Inl e) \<Rightarrow> h e s' | (s', Inr v) \<Rightarrow> (s', Inr v))"

text \<open>\<open>try ... except ... else\<close>: neither branch is inside the \<open>try\<close>.\<close>

definition attempt :: "('s, 'e, 'a) run \<Rightarrow> ('e \<Rightarrow> ('s, 'e, 'b) run) \<Rightarrow> ('a \<Rightarrow> ('s, 'e, 'b) run) \<Rightarrow> ('s, 'e, 'b) run" where
  "attempt m h f s = (case m s of (s', Inl e) \<Rightarrow> h e s' | (s', Inr v) \<Rightarrow> f v s')"

definition update :: "('s \<Rightarrow> 's) \<Rightarrow> ('s, 'e, unit) run" where
  "update g s = (g s, Inr ())"

definition look :: "('s \<Rightarrow> ('s, 'e, 'a) run) \<Rightarrow> ('s, 'e, 'a) run" where
  "look f s = f s s"

definition guard :: "'e option \<Rightarrow> ('s, 'e, unit) run" where
  "guard refusal = (case refusal of None \<Rightarrow> ret () | Some e \<Rightarrow> raise e)"

definition unless_run :: "bool \<Rightarrow> ('s, 'e, unit) run \<Rightarrow> ('s, 'e, unit) run" where
  "unless_run b m = (if b then ret () else m)"

lemma run_simps [simp]:
  "ret v s = (s, Inr v)" "raise e s = (s, Inl e)" "update g s = (g s, Inr ())" "look f s = f s s"
  by (simp_all add: ret_def raise_def update_def look_def)

section \<open>What a stretch of code establishes\<close>

text \<open>From a state in \<open>P\<close>: a result leaves \<open>Q\<close>, an exception leaves \<open>E\<close>.\<close>

definition triple :: "('s \<Rightarrow> bool) \<Rightarrow> ('s, 'e, 'a) run \<Rightarrow> ('a \<Rightarrow> 's \<Rightarrow> bool) \<Rightarrow> ('e \<Rightarrow> 's \<Rightarrow> bool) \<Rightarrow> bool" where
  "triple P m Q E \<longleftrightarrow> (\<forall>s. P s \<longrightarrow> (case m s of (s', Inl e) \<Rightarrow> E e s' | (s', Inr v) \<Rightarrow> Q v s'))"

named_theorems triples \<open>one rule per way of composing code\<close>

lemma triple_ret [triples]: "(\<And>s. P s \<Longrightarrow> Q v s) \<Longrightarrow> triple P (ret v) Q E"
  by (simp add: triple_def)

lemma triple_raise [triples]: "(\<And>s. P s \<Longrightarrow> E e s) \<Longrightarrow> triple P (raise e) Q E"
  by (simp add: triple_def)

lemma triple_update [triples]: "(\<And>s. P s \<Longrightarrow> Q () (g s)) \<Longrightarrow> triple P (update g) Q E"
  by (simp add: triple_def)

lemma triple_look [triples]: "(\<And>s0. triple (\<lambda>s. P s \<and> s = s0) (f s0) Q E) \<Longrightarrow> triple P (look f) Q E"
  by (simp add: triple_def)

lemma triple_seq:
  "triple P m R E \<Longrightarrow> (\<And>v. triple (R v) (f v) Q E) \<Longrightarrow> triple P (seq m f) Q E"
  by (fastforce simp: triple_def seq_def split: prod.splits sum.splits)

lemma triple_catch:
  "triple P m Q R \<Longrightarrow> (\<And>e. triple (R e) (h e) Q E) \<Longrightarrow> triple P (catch m h) Q E"
  by (fastforce simp: triple_def catch_def split: prod.splits sum.splits)

lemma triple_attempt:
  "triple P m R S \<Longrightarrow> (\<And>e. triple (S e) (h e) Q E) \<Longrightarrow> (\<And>v. triple (R v) (f v) Q E) \<Longrightarrow> triple P (attempt m h f) Q E"
  by (fastforce simp: triple_def attempt_def split: prod.splits sum.splits)

lemma triple_guard [triples]:
  "(\<And>s. P s \<Longrightarrow> Q () s) \<Longrightarrow> (\<And>e s. refusal = Some e \<Longrightarrow> P s \<Longrightarrow> E e s) \<Longrightarrow> triple P (guard refusal) Q E"
  by (cases refusal) (auto simp: triple_def guard_def)

lemma triple_unless [triples]:
  "(\<And>s. b \<Longrightarrow> P s \<Longrightarrow> Q () s) \<Longrightarrow> (\<not> b \<Longrightarrow> triple P m Q E) \<Longrightarrow> triple P (unless_run b m) Q E"
  by (auto simp: triple_def unless_run_def)

lemma triple_if [triples]:
  "(b \<Longrightarrow> triple P m Q E) \<Longrightarrow> (\<not> b \<Longrightarrow> triple P n Q E) \<Longrightarrow> triple P (if b then m else n) Q E"
  by simp

lemma triple_strengthen:
  "triple P m Q E \<Longrightarrow> (\<And>s. P' s \<Longrightarrow> P s) \<Longrightarrow> (\<And>v s. Q v s \<Longrightarrow> Q' v s) \<Longrightarrow> (\<And>e s. E e s \<Longrightarrow> E' e s) \<Longrightarrow> triple P' m Q' E'"
  by (fastforce simp: triple_def split: prod.splits sum.splits)

lemma triple_conj:
  "triple P m Q E \<Longrightarrow> triple P' m Q' E' \<Longrightarrow>
   triple (\<lambda>s. P s \<and> P' s) m (\<lambda>v s. Q v s \<and> Q' v s) (\<lambda>e s. E e s \<and> E' e s)"
  by (fastforce simp: triple_def split: prod.splits sum.splits)

lemma tripleD:
  assumes "triple P m Q E" and "P s" and "m s = (s', r)"
  shows "case r of Inl e \<Rightarrow> E e s' | Inr v \<Rightarrow> Q v s'"
  using assms by (fastforce simp: triple_def split: sum.splits)

text \<open>An invariant, kept however the code ends.\<close>

definition keeps :: "('s \<Rightarrow> bool) \<Rightarrow> ('s, 'e, 'a) run \<Rightarrow> bool" where
  "keeps I m \<longleftrightarrow> triple I m (\<lambda>_. I) (\<lambda>_. I)"

named_theorems keeping \<open>one rule per way of composing code that keeps an invariant\<close>

lemma keepsI: "(\<And>s. I s \<Longrightarrow> I (fst (m s))) \<Longrightarrow> keeps I m"
  by (fastforce simp: keeps_def triple_def split: prod.splits sum.splits)

lemma keepsD: "keeps I m \<Longrightarrow> I s \<Longrightarrow> m s = (s', r) \<Longrightarrow> I s'"
  by (fastforce simp: keeps_def triple_def split: prod.splits sum.splits)

lemma keeps_fst: "keeps I m \<Longrightarrow> I s \<Longrightarrow> I (fst (m s))"
  using keepsD [of I m s "fst (m s)" "snd (m s)"] by simp

lemma keeps_basic [keeping]: "keeps I (ret v)" "keeps I (raise e)" "keeps I (guard refusal)"
  by (auto intro!: keepsI simp: guard_def split: option.split)

lemma keeps_update: "(\<And>s. I s \<Longrightarrow> I (g s)) \<Longrightarrow> keeps I (update g)"
  by (auto intro!: keepsI)

lemma keeps_look [keeping]: "(\<And>s. keeps I (f s)) \<Longrightarrow> keeps I (look f)"
  by (fastforce intro!: keepsI dest: keepsD simp: prod_eq_iff)

lemma keeps_seq [keeping]: "keeps I m \<Longrightarrow> (\<And>v. keeps I (f v)) \<Longrightarrow> keeps I (seq m f)"
  unfolding keeps_def by (rule triple_seq)

lemma keeps_catch [keeping]: "keeps I m \<Longrightarrow> (\<And>e. keeps I (h e)) \<Longrightarrow> keeps I (catch m h)"
  unfolding keeps_def by (rule triple_catch)

lemma keeps_attempt [keeping]:
  "keeps I m \<Longrightarrow> (\<And>e. keeps I (h e)) \<Longrightarrow> (\<And>v. keeps I (f v)) \<Longrightarrow> keeps I (attempt m h f)"
  unfolding keeps_def by (rule triple_attempt)

lemma keeps_unless [keeping]: "(\<not> b \<Longrightarrow> keeps I m) \<Longrightarrow> keeps I (unless_run b m)"
  by (auto intro!: keepsI dest: keepsD simp: unless_run_def prod_eq_iff)

lemma keeps_if [keeping]: "(b \<Longrightarrow> keeps I m) \<Longrightarrow> (\<not> b \<Longrightarrow> keeps I n) \<Longrightarrow> keeps I (if b then m else n)"
  by simp

end
