(* ===== verification/ActionChecks.thy ===== *)
theory ActionChecks
  imports ApprovalModel WitnessPolicy
begin

text \<open>
  What the controller decides about an action from its name, its decision and the page's reports alone
  (browser/services/actions.py, browser/services/witness.py): its class, the approval it needs, the policy
  context it is judged in, and whether the page shows that it did something.
\<close>

section \<open>Classes and kinds\<close>

definition READ_ACTIONS :: "string list" where
  "READ_ACTIONS = [''navigate'', ''hover'', ''scroll'', ''wait'', ''reload'', ''go_back'', ''go_forward'']"

definition action_class_of :: "string \<Rightarrow> string" where
  "action_class_of action_name = (if action_name \<in> set READ_ACTIONS then ''read'' else ''write'')"

definition witness_action_class :: "string \<Rightarrow> string option \<Rightarrow> action_class" where
  "witness_action_class action_name risk_category =
     (if risk_category = Some ''payment'' then PaymentClass
      else if risk_category = Some ''account_change'' then AccountChangeClass
      else if risk_category = Some ''destructive'' then DestructiveClass
      else if action_name = ''upload'' then UploadClass
      else if action_name \<in> {''save_auth_profile'', ''save_storage_state''} then AuthClass
      else if action_name \<in> {''request_human_takeover'', ''close_session'', ''create_session''} then ControlClass
      else if action_name \<in> set READ_ACTIONS then ReadClass
      else WriteClass)"

definition consequential_kind :: "string option \<Rightarrow> approval_kind option" where
  "consequential_kind risk_category =
     (if risk_category = Some ''post'' then Some KPost
      else if risk_category = Some ''payment'' then Some KPayment
      else if risk_category = Some ''account_change'' then Some KAccountChange
      else if risk_category = Some ''destructive'' then Some KDestructive
      else None)"

definition approval_kind_for_decision :: "bool \<Rightarrow> action_decision \<Rightarrow> approval_kind option" where
  "approval_kind_for_decision require_approval_for_uploads d =
     (if act_action d = ''upload'' then (if require_approval_for_uploads then Some KUpload else None)
      else consequential_kind (act_risk_category d))"

definition governed_approval_kind_for_decision :: "action_decision \<Rightarrow> approval_kind option" where
  "governed_approval_kind_for_decision d =
     (if act_risk_category d = Some ''read'' \<and> (act_action d = ''done'' \<or> action_class_of (act_action d) = ''read'') then None
      else if act_action d = ''upload'' \<or> act_risk_category d = Some ''upload'' then Some KUpload
      else if consequential_kind (act_risk_category d) \<noteq> None then consequential_kind (act_risk_category d)
      else Some KWrite)"

definition not_executable :: "string \<Rightarrow> bool" where
  "not_executable action_name \<longleftrightarrow> action_name = ''request_human_takeover'' \<or> action_name = ''done''"

section \<open>The policy context\<close>

text \<open>What the layer that dispatches an action tells the pipeline about it (\<open>action_witness_context\<close>).\<close>

record witness_context =
  wctx_risk_category :: "string option"
  wctx_approval_id :: "string option"
  wctx_approval_status :: "string option"
  wctx_runtime_requires_approval :: bool
  wctx_approval_checked :: bool                   \<comment> \<open>True when absent\<close>
  wctx_sensitive_input :: bool
  wctx_stores_auth_material :: bool

definition no_witness_context :: witness_context where
  "no_witness_context = \<lparr>wctx_risk_category = None, wctx_approval_id = None, wctx_approval_status = None,
     wctx_runtime_requires_approval = False, wctx_approval_checked = True, wctx_sensitive_input = False,
     wctx_stores_auth_material = False\<rparr>"

definition get_field :: "string \<Rightarrow> members \<Rightarrow> json" where
  "get_field key ms = the_default JNull (map_of ms key)"

definition text_field :: "string \<Rightarrow> members \<Rightarrow> string option" where
  "text_field key ms = (case map_of ms key of Some (JStr s) \<Rightarrow> or_none (Some s) | _ \<Rightarrow> None)"

text \<open>Whichever of the context and the target names an approval first.\<close>

definition approval_id_of :: "witness_context \<Rightarrow> members \<Rightarrow> string option" where
  "approval_id_of wctx target =
     (if truthy (wctx_approval_id wctx) then wctx_approval_id wctx else text_field ''approval_id'' target)"

definition build_action_context :: "string \<Rightarrow> members \<Rightarrow> witness_context \<Rightarrow> witness_action" where
  "build_action_context action_name target wctx =
     \<lparr>wx_action = action_name,
      wx_action_class = witness_action_class action_name (wctx_risk_category wctx),
      wx_risk_category = wctx_risk_category wctx,
      wx_target = target,
      wx_approval_id = approval_id_of wctx target,
      wx_approval_status = wctx_approval_status wctx,
      wx_sensitive_input = (wctx_sensitive_input wctx \<or> json_truthy (get_field ''text_redacted'' target)
         \<or> json_truthy (get_field ''sensitive'' target)),
      wx_stores_auth_material = (wctx_stores_auth_material wctx \<or> action_name \<in> {''save_auth_profile'', ''save_storage_state''}),
      wx_runtime_requires_approval = wctx_runtime_requires_approval wctx\<rparr>"

section \<open>Verification of an action\<close>

text \<open>Python's \<open>==\<close> on JSON values: the order of an object's keys does not count.\<close>

fun same_json :: "json \<Rightarrow> json \<Rightarrow> bool"
and same_items :: "json list \<Rightarrow> json list \<Rightarrow> bool"
and same_members :: "members \<Rightarrow> members \<Rightarrow> bool" where
  "same_json (JArr a) (JArr b) = same_items a b"
| "same_json (JObj a) (JObj b) = (length a = length b \<and> same_members a b)"
| "same_json a b = (a = b)"
| "same_items [] b = (b = [])"
| "same_items (x # a) b = (case b of [] \<Rightarrow> False | y # b' \<Rightarrow> same_json x y \<and> same_items a b')"
| "same_members [] b = True"
| "same_members ((k, v) # a) b = ((case map_of b k of None \<Rightarrow> False | Some w \<Rightarrow> same_json v w) \<and> same_members a b)"

definition object_of :: "json \<Rightarrow> members" where
  "object_of j = (case j of JObj ms \<Rightarrow> ms | _ \<Rightarrow> [])"

definition items_of :: "json \<Rightarrow> json list" where
  "items_of j = (case j of JArr items \<Rightarrow> items | _ \<Rightarrow> [])"

definition changed_signal :: "string \<Rightarrow> json \<Rightarrow> json \<Rightarrow> string list" where
  "changed_signal signal a b = (if same_json a b then [] else [signal])"

definition target_seen :: "members \<Rightarrow> members \<Rightarrow> bool option" where
  "target_seen target after =
     (let seen = (\<lambda>key wanted. list_ex (\<lambda>item. same_json (get_field key (object_of item)) wanted)
                    (items_of (get_field ''interactables'' after)))
      in if json_truthy (get_field ''element_id'' target) then Some (seen ''element_id'' (get_field ''element_id'' target))
         else if json_truthy (get_field ''selector'' target) then Some (seen ''selector_hint'' (get_field ''selector'' target))
         else None)"

definition delivery_outcome :: "members \<Rightarrow> string option" where
  "delivery_outcome target =
     (case get_field ''delivery'' target of JNull \<Rightarrow> None | d \<Rightarrow> text_field ''outcome'' (object_of d))"

definition action_signals :: "members \<Rightarrow> members \<Rightarrow> members \<Rightarrow> string list" where
  "action_signals target before after =
     (let sub = (\<lambda>key inner ms. get_field inner (object_of (get_field key ms))) in
      changed_signal ''url_changed'' (get_field ''url'' before) (get_field ''url'' after) @
      changed_signal ''title_changed'' (get_field ''title'' before) (get_field ''title'' after) @
      changed_signal ''active_element_changed'' (get_field ''active_element'' before) (get_field ''active_element'' after) @
      changed_signal ''text_excerpt_changed'' (get_field ''text_excerpt'' before) (get_field ''text_excerpt'' after) @
      changed_signal ''dom_counts_changed'' (JObj (object_of (sub ''dom_outline'' ''counts'' before)))
        (JObj (object_of (sub ''dom_outline'' ''counts'' after))) @
      changed_signal ''accessibility_focus_changed'' (sub ''accessibility_outline'' ''focused'' before)
        (sub ''accessibility_outline'' ''focused'' after) @
      (case target_seen target after of
         None \<Rightarrow> [] | Some True \<Rightarrow> [''target_still_visible''] | Some False \<Rightarrow> [''target_no_longer_visible'']) @
      (case delivery_outcome target of None \<Rightarrow> [] | Some outcome \<Rightarrow> [''upload_'' @ outcome]))"

definition PAGE_SIGNALS :: "string list" where
  "PAGE_SIGNALS = [''url_changed'', ''title_changed'', ''active_element_changed'', ''text_excerpt_changed'',
     ''accessibility_focus_changed'']"

definition FIELD_SIGNALS :: "string list" where
  "FIELD_SIGNALS = [''active_element_changed'', ''text_excerpt_changed'', ''accessibility_focus_changed'']"

definition action_verified :: "string \<Rightarrow> members \<Rightarrow> members \<Rightarrow> members \<Rightarrow> bool" where
  "action_verified action_name target before after =
     (let signals = action_signals target before after; among = (\<lambda>wanted. list_ex (\<lambda>x. x \<in> set wanted) signals) in
      if action_name \<in> {''navigate'', ''go_back'', ''go_forward''} then among [''url_changed'', ''title_changed'']
      else if action_name \<in> {''click'', ''press'', ''scroll''} then among PAGE_SIGNALS
      else if action_name = ''hover'' then among FIELD_SIGNALS \<or> target_seen target after \<noteq> None
      else if action_name \<in> {''type'', ''select_option''} then among FIELD_SIGNALS
      else if action_name \<in> {''wait'', ''reload''} then True
      else if action_name = ''upload'' then (case delivery_outcome target of None \<Rightarrow> True | Some outcome \<Rightarrow> outcome = ''confirmed'')
      else signals \<noteq> [])"

definition action_verification :: "string \<Rightarrow> members \<Rightarrow> members \<Rightarrow> members \<Rightarrow> members" where
  "action_verification action_name target before after =
     [(''verified'', JBool (action_verified action_name target before after)),
      (''signals'', JArr (map JStr (action_signals target before after))),
      (''target_seen_after'', (case target_seen target after of None \<Rightarrow> JNull | Some b \<Rightarrow> JBool b))]"

lemma governed_kind_None_iff:
  "governed_approval_kind_for_decision d = None \<longleftrightarrow>
   act_risk_category d = Some ''read'' \<and> (act_action d = ''done'' \<or> act_action d \<in> set READ_ACTIONS)"
  by (auto simp: governed_approval_kind_for_decision_def action_class_of_def consequential_kind_def)

end
