(* ===== verification/ActionPipeline.thy ===== *)
theory ActionPipeline
  imports Runs ActionChecks ApprovalExecution
begin

text \<open>
  The run of one browser action (actions/pipeline.py): its checks, the moment it may change the page, what is
  done when it is blocked, fails or is cut short, and the one terminal record it gets. What the browser, the
  page and the stores answer at each await is chosen by the environment, a cancellation included; an
  operator's decision may land on a hold at any await.
\<close>

section \<open>Exceptions\<close>

datatype failure =
    PermissionFailed string bool                   \<comment> \<open>PermissionError: its text, and whether it has an errno\<close>
  | HoldRefused approval_error                     \<comment> \<open>ApprovalRefusal\<close>
  | NavigationStopped string "string option"       \<comment> \<open>its text, and the refused origin\<close>
  | ActionFailed string string nat bool "string option"  \<comment> \<open>BrowserActionError: message, code, status, retryable, url\<close>
  | PageFailed string bool                         \<comment> \<open>PlaywrightError: its text, and whether the gate stopped a request\<close>
  | SessionMissing string                          \<comment> \<open>SessionNotFoundError\<close>
  | OtherFailed string                             \<comment> \<open>any other class, by name\<close>

text \<open>An exception object has an identity, since \<open>held_for_execution\<close> compares objects.\<close>

datatype thrown = Thrown nat failure | TaskCancelledHere

fun failure_of :: "thrown \<Rightarrow> failure option" where
  "failure_of (Thrown _ f) = Some f"
| "failure_of TaskCancelledHere = None"

fun is_permission_error :: "thrown \<Rightarrow> bool" where
  "is_permission_error (Thrown _ (PermissionFailed _ _)) = True"
| "is_permission_error (Thrown _ (HoldRefused _)) = True"
| "is_permission_error (Thrown _ (NavigationStopped _ _)) = True"
| "is_permission_error _ = False"

fun failure_type :: "failure \<Rightarrow> string" where
  "failure_type (PermissionFailed _ _) = ''PermissionError''"
| "failure_type (HoldRefused _) = ''ApprovalRefusal''"
| "failure_type (NavigationStopped _ _) = ''NavigationStoppedError''"
| "failure_type (ActionFailed _ _ _ _ _) = ''BrowserActionError''"
| "failure_type (PageFailed _ _) = ''Error''"
| "failure_type (SessionMissing _) = ''SessionNotFoundError''"
| "failure_type (OtherFailed name) = name"

definition refusal_code_name :: "refusal_code \<Rightarrow> string" where
  "refusal_code_name c = (case c of ApprovalReleased \<Rightarrow> ''approval_released'' | ApprovalRejected \<Rightarrow> ''approval_rejected''
     | ApprovalAlreadyUsed \<Rightarrow> ''approval_already_used'')"

fun refusal_text :: "approval_error \<Rightarrow> string" where
  "refusal_text (ApprovalRefusal i ApprovalReleased) = ''approval '' @ i @ '' was released before this action began''"
| "refusal_text (ApprovalRefusal i ApprovalRejected) = ''approval '' @ i @ '' was rejected by an operator before its action began''"
| "refusal_text (ApprovalRefusal i ApprovalAlreadyUsed) = ''approval '' @ i @ '' has already started its action; it covers one action''"
| "refusal_text _ = []"

fun refusal_code_of :: "approval_error \<Rightarrow> string" where
  "refusal_code_of (ApprovalRefusal _ c) = refusal_code_name c"
| "refusal_code_of _ = []"

fun permission_text :: "failure \<Rightarrow> string" where
  "permission_text (PermissionFailed text _) = text"
| "permission_text (HoldRefused e) = refusal_text e"
| "permission_text (NavigationStopped text _) = text"
| "permission_text _ = []"

text \<open>The exception object as the approval machinery sees it.\<close>

fun seen_exn :: "nat \<Rightarrow> failure \<Rightarrow> exn" where
  "seen_exn i f =
     \<lparr>exn_id = i,
      exn_kind = (case f of ActionFailed _ _ _ _ _ \<Rightarrow> BrowserActionError | SessionMissing _ \<Rightarrow> SessionNotFoundError
                  | _ \<Rightarrow> OtherException),
      exn_notes = [], exn_answer = None\<rparr>"

fun ending_of :: "thrown + 'a \<Rightarrow> ending" where
  "ending_of (Inr _) = Returned"
| "ending_of (Inl (Thrown i f)) = Raised (seen_exn i f)"
| "ending_of (Inl TaskCancelledHere) = CancelledEnding"

section \<open>The run's state\<close>

datatype page_effect = ChangeBegan | WentBack | LeftForBlank

datatype record_error = NoError | ErrorText string | ErrorPayload failure

text \<open>
  A terminal record: the line of actions.jsonl, the audit entry and the receipt, of which \<open>tr_pieces\<close> were
  written. \<open>tr_begun\<close> is a ghost: whether the action had begun its change when the record was made.
\<close>

record terminal_record =
  tr_status :: string
  tr_error :: record_error
  tr_code :: "string option"
  tr_target :: members
  tr_after :: members
  tr_verification :: "members option"
  tr_approval :: witness_approval
  tr_evidence :: witness_evidence
  tr_receipt_target :: members
  tr_pieces :: nat
  tr_begun :: bool

record run_state =
  rs_heap :: hold_heap
  rs_started :: bool                       \<comment> \<open>\<open>operation_started\<close>\<close>
  rs_upload_began :: bool                  \<comment> \<open>\<open>began()\<close> of an upload\<close>
  rs_transferred :: bool                   \<comment> \<open>\<open>change_made()\<close> of an upload\<close>
  rs_ran :: bool
  rs_recorded :: bool
  rs_after_phase :: string
  rs_policy_block :: "(string \<times> string) option"
  rs_target :: members
  rs_page :: "page_effect list"
  rs_records :: "terminal_record list"
  rs_emitted :: "string list"

definition new_run :: "hold_heap \<Rightarrow> members \<Rightarrow> run_state" where
  "new_run heap target =
     \<lparr>rs_heap = heap, rs_started = False, rs_upload_began = False, rs_transferred = False, rs_ran = False,
      rs_recorded = False, rs_after_phase = [], rs_policy_block = None, rs_target = target, rs_page = [],
      rs_records = [], rs_emitted = []\<rparr>"

text \<open>Whether the action may have changed anything.\<close>

definition begun :: "run_state \<Rightarrow> bool" where
  "begun s \<longleftrightarrow> rs_started s \<or> rs_upload_began s"

section \<open>The environment\<close>

datatype await =
    SessionLock | PageGrace | EarlierRecord | BeforeSnapshot | WitnessPreflight | OperationRuns | UploadChecks
  | UploadTransfer | UploadDelivery | UploadSettles | BlocksOnPage | TotpFill | BotChallenge | TakeoverRequest | GoBack | CloseUnreported | SettleAfterBack
  | GotoBlank | FailureSnapshot | Observation | SettleBeforeRetry | SecondObservation | RecordWrites | PersistSession
  | SessionSummary

datatype raise_site =
    ClosedSession | GateLost | PageRefused | PreflightRefused | PolicyBlock | HoldRefusal | GateStop | RuntimeRefused
  | BlockedAction | FailedAction | ChallengeFound | EmptyMessage

datatype page_look = AtPrepare | AtExecute | AtBlock | AtFailure | AtEnd

record gate_block =
  gb_origin :: string
  gb_reason :: string
  gb_explanation :: string

record pipeline_env =
  pe_action :: string
  pe_witness :: witness_context
  pe_session :: witness_session
  pe_session_live :: bool                       \<comment> \<open>still the manager's session once the lock is held\<close>
  pe_gated :: bool                              \<comment> \<open>the manager has request gates\<close>
  pe_gate_live :: "page_look \<Rightarrow> bool"
  pe_page_refused :: "page_look \<Rightarrow> string option"  \<comment> \<open>ALLOWED_HOSTS refuses the session's page, and its text\<close>
  pe_landed_refused :: "string option"          \<comment> \<open>the page the operation led to\<close>
  pe_url_off_list :: bool                       \<comment> \<open>after the rollback\<close>
  pe_shown_url :: "page_look \<Rightarrow> string"
  pe_remote_required :: bool
  pe_remote_enabled :: bool
  pe_ends :: "await \<Rightarrow> thrown option"            \<comment> \<open>what an await raises\<close>
  pe_report :: "await \<Rightarrow> members"                \<comment> \<open>what a snapshot or observation answers\<close>
  pe_blocks :: "gate_block list"                \<comment> \<open>the gate's blocks on the page since the operation began\<close>
  pe_delivery :: "json option"                 \<comment> \<open>of an upload by element id\<close>
  pe_totp :: "json option"
  pe_challenge :: "string option"
  pe_pieces :: nat                              \<comment> \<open>of the record's three writes, those done before one raised\<close>
  pe_write_cancelled :: bool
  pe_id :: "raise_site \<Rightarrow> nat"
  pe_decisions :: "await \<Rightarrow> hold_id \<Rightarrow> (string option \<times> approval_decider) option \<Rightarrow> (string option \<times> approval_decider) option"

type_synonym 'a action_run = "(run_state, thrown, 'a) run"

definition throw :: "pipeline_env \<Rightarrow> raise_site \<Rightarrow> failure \<Rightarrow> 'a action_run" where
  "throw env site f = raise (Thrown (pe_id env site) f)"

definition meanwhile :: "pipeline_env \<Rightarrow> await \<Rightarrow> run_state \<Rightarrow> run_state" where
  "meanwhile env p s =
     s\<lparr>rs_heap := (\<lambda>h. (rs_heap s h)\<lparr>h_rejection := pe_decisions env p h (h_rejection (rs_heap s h))\<rparr>)\<rparr>"

definition awaiting :: "pipeline_env \<Rightarrow> await \<Rightarrow> unit action_run" where
  "awaiting env p = seq (update (meanwhile env p)) (\<lambda>_. guard (pe_ends env p))"

definition reading :: "pipeline_env \<Rightarrow> await \<Rightarrow> members action_run" where
  "reading env p = seq (awaiting env p) (\<lambda>_. ret (pe_report env p))"

section \<open>Preparing\<close>

text \<open>What a run knows once it is prepared: the policy's outcome and the page before it.\<close>

record prepared =
  pp_class :: action_class
  pp_outcome :: policy_outcome
  pp_before :: members

definition snapshot_error :: "pipeline_env \<Rightarrow> page_look \<Rightarrow> string \<Rightarrow> members" where
  "snapshot_error env at_look text = [(''url'', JStr (pe_shown_url env at_look)), (''snapshot_error'', JStr text)]"

definition observation_error :: "pipeline_env \<Rightarrow> string \<Rightarrow> members" where
  "observation_error env text = [(''url'', JStr (pe_shown_url env AtEnd)), (''observation_error'', JStr text)]"

definition NOT_READ :: string where
  "NOT_READ = ''The page is on a host ALLOWED_HOSTS does not allow; its content is not read.''"

definition WITHHELD_SNAPSHOT_ERROR :: string where
  "WITHHELD_SNAPSHOT_ERROR = ''The page is on a host ALLOWED_HOSTS does not allow; its content is withheld.''"

definition prepare :: "pipeline_env \<Rightarrow> prepared action_run" where
  "prepare env = look (\<lambda>s.
     let p = (\<lambda>before. \<lparr>pp_class = witness_action_class (pe_action env) (wctx_risk_category (pe_witness env)),
                pp_outcome = evaluate_action (pe_session env) (build_action_context (pe_action env) (rs_target s) (pe_witness env)),
                pp_before = before\<rparr>)
     in if pe_page_refused env AtPrepare \<noteq> None then ret (p (snapshot_error env AtPrepare NOT_READ))
        else catch (seq (reading env BeforeSnapshot) (\<lambda>before. ret (p before)))
               (\<lambda>e. if is_permission_error e then ret (p (snapshot_error env AtPrepare WITHHELD_SNAPSHOT_ERROR)) else raise e))"

section \<open>The operation\<close>

definition LEAVES_DISALLOWED_PAGE :: "string list" where
  "LEAVES_DISALLOWED_PAGE = [''navigate'', ''go_back'']"

definition NOT_ROLLED_BACK :: "string list" where
  "NOT_ROLLED_BACK = [''go_back'', ''reload'']"

definition MARKS_OWN_EFFECT :: "string list" where
  "MARKS_OWN_EFFECT = [''upload'']"

definition mark_effect :: "pipeline_env \<Rightarrow> hold_context \<Rightarrow> (run_state \<Rightarrow> run_state) \<Rightarrow> unit action_run" where
  "mark_effect env ctx mark = look (\<lambda>s.
     case effect_started ctx (rs_heap s) of
       (heap, Some e) \<Rightarrow> seq (update (\<lambda>s. s\<lparr>rs_heap := heap\<rparr>)) (\<lambda>_. throw env HoldRefusal (HoldRefused e))
     | (heap, None) \<Rightarrow> update (\<lambda>s. mark (s\<lparr>rs_heap := heap\<rparr>)))"

definition note_target :: "string \<Rightarrow> json \<Rightarrow> unit action_run" where
  "note_target key v = update (\<lambda>s. s\<lparr>rs_target := AList.update key v (rs_target s)\<rparr>)"

definition upload_operation :: "pipeline_env \<Rightarrow> hold_context \<Rightarrow> unit action_run" where
  "upload_operation env ctx =
     seq (awaiting env UploadChecks) (\<lambda>_.
     seq (mark_effect env ctx (\<lambda>s. s\<lparr>rs_upload_began := True\<rparr>)) (\<lambda>_.
     seq (update (\<lambda>s. s\<lparr>rs_page := rs_page s @ [ChangeBegan]\<rparr>)) (\<lambda>_.
     seq (awaiting env UploadTransfer) (\<lambda>_.
     seq (update (\<lambda>s. s\<lparr>rs_transferred := True\<rparr>)) (\<lambda>_.
     seq (awaiting env UploadDelivery) (\<lambda>_.
     seq (case pe_delivery env of None \<Rightarrow> ret () | Some d \<Rightarrow> note_target ''delivery'' d) (\<lambda>_.
     awaiting env UploadSettles)))))))"

definition run_operation :: "pipeline_env \<Rightarrow> hold_context \<Rightarrow> unit action_run" where
  "run_operation env ctx =
     (if pe_action env \<in> set MARKS_OWN_EFFECT then upload_operation env ctx
      else seq (update (\<lambda>s. s\<lparr>rs_page := rs_page s @ [ChangeBegan]\<rparr>)) (\<lambda>_. awaiting env OperationRuns))"

definition blocks_during :: "pipeline_env \<Rightarrow> gate_block list action_run" where
  "blocks_during env =
     (if pe_gated env then seq (awaiting env BlocksOnPage) (\<lambda>_. ret (pe_blocks env)) else ret [])"

definition block_summary :: "gate_block \<Rightarrow> json" where
  "block_summary b = JObj [(''origin'', JStr (gb_origin b)), (''reason'', JStr (gb_reason b)), (''explanation'', JStr (gb_explanation b))]"

definition note_blocks :: "pipeline_env \<Rightarrow> unit action_run" where
  "note_blocks env = seq (blocks_during env) (\<lambda>stopped.
     unless_run (stopped = []) (note_target ''blocked_navigations'' (JArr (map block_summary stopped))))"

definition require_gate :: "pipeline_env \<Rightarrow> page_look \<Rightarrow> unit action_run" where
  "require_gate env at_look =
     (if pe_gated env \<and> \<not> pe_gate_live env at_look then throw env GateLost (SessionMissing (ws_session_id (pe_session env)))
      else ret ())"

definition ensure_remote_ready :: "pipeline_env \<Rightarrow> unit action_run" where
  "ensure_remote_ready env =
     unless_run (\<not> pe_remote_required env)
       (if \<not> pe_remote_enabled env then
          throw env PreflightRefused (PermissionFailed
            ''Confidential session requires hosted Witness delivery, but WITNESS_REMOTE_URL is not configured.'' False)
        else catch (awaiting env WitnessPreflight)
          (\<lambda>e. if e = TaskCancelledHere then raise e
               else throw env PreflightRefused
                 (PermissionFailed (''Hosted Witness preflight failed before '' @ pe_action env @ ''.'') False)))"

definition DO_NOT_REPEAT :: string where
  "DO_NOT_REPEAT = ''. Observe the page before acting again, and do not repeat the action: that would make the change twice.''"

definition UNATTRIBUTED_STOP :: string where
  "UNATTRIBUTED_STOP = ''A navigation was stopped before it was sent by the pre-request gate.''"

text \<open>The gate's own failure of an operation is the policy block it is, with the last block on the page.\<close>

definition operation_or_block :: "pipeline_env \<Rightarrow> hold_context \<Rightarrow> unit action_run" where
  "operation_or_block env ctx = catch (run_operation env ctx)
     (\<lambda>e. case failure_of e of
        Some (PageFailed _ True) \<Rightarrow>
          seq (blocks_during env) (\<lambda>stopped.
            throw env GateStop (if stopped = [] then NavigationStopped UNATTRIBUTED_STOP None
              else NavigationStopped (gb_explanation (last stopped)) (Some (gb_origin (last stopped)))))
      | _ \<Rightarrow> raise e)"

definition check_landing :: "pipeline_env \<Rightarrow> unit action_run" where
  "check_landing env =
     (case pe_landed_refused env of
        None \<Rightarrow> ret ()
      | Some text \<Rightarrow>
          seq (note_target ''after_change''
                 (JStr (''The change was made, then the page it led to was blocked: '' @ take 300 text @ DO_NOT_REPEAT))) (\<lambda>_.
          seq (note_blocks env) (\<lambda>_. throw env RuntimeRefused (PermissionFailed text False))))"

definition follow_up :: "pipeline_env \<Rightarrow> unit action_run" where
  "follow_up env =
     seq (awaiting env TotpFill) (\<lambda>_.
     seq (look (\<lambda>s. case pe_totp env of
            None \<Rightarrow> ret ()
          | Some v \<Rightarrow> unless_run (map_of (rs_target s) ''totp'' \<noteq> None) (note_target ''totp'' v))) (\<lambda>_.
     seq (note_blocks env) (\<lambda>_.
     seq (awaiting env BotChallenge) (\<lambda>_.
     (case pe_challenge env of
        None \<Rightarrow> ret ()
      | Some signal \<Rightarrow>
          seq (awaiting env TakeoverRequest) (\<lambda>_.
            throw env ChallengeFound (ActionFailed (''Bot challenge detected: '' @ signal) ''captcha_detected'' 400 False None)))))))"

definition execute_action :: "pipeline_env \<Rightarrow> hold_context \<Rightarrow> prepared \<Rightarrow> unit action_run" where
  "execute_action env ctx p =
     seq (unless_run (pe_action env \<in> set LEAVES_DISALLOWED_PAGE)
            (case pe_page_refused env AtExecute of None \<Rightarrow> ret () | Some text \<Rightarrow> throw env PageRefused (PermissionFailed text False))) (\<lambda>_.
     seq (unless_run (pp_class p = ReadClass) (ensure_remote_ready env)) (\<lambda>_.
     seq (if po_should_block (pp_outcome p) then
            throw env PolicyBlock (PermissionFailed
              (the_default ''Witness policy blocked this action'' (or_none (po_block_reason (pp_outcome p)))) False)
          else ret ()) (\<lambda>_.
     seq (require_gate env AtExecute) (\<lambda>_.
     seq (unless_run (pe_action env \<in> set MARKS_OWN_EFFECT) (mark_effect env ctx (\<lambda>s. s\<lparr>rs_started := True\<rparr>))) (\<lambda>_.
     seq (operation_or_block env ctx) (\<lambda>_.
     seq (check_landing env) (\<lambda>_. follow_up env)))))))"

section \<open>The record\<close>

definition approval_outcome :: "pipeline_env \<Rightarrow> hold_context \<Rightarrow> run_state \<Rightarrow> string option" where
  "approval_outcome env ctx s =
     (case approval_id_of (pe_witness env) (rs_target s) of
        None \<Rightarrow> None
      | Some i \<Rightarrow> map_option status_name (held_status (rs_heap s) ctx i))"

definition record_approval :: "pipeline_env \<Rightarrow> hold_context \<Rightarrow> prepared \<Rightarrow> run_state \<Rightarrow> witness_approval" where
  "record_approval env ctx p s =
     \<lparr>wa_required = (po_require_approval (pp_outcome p) \<or>
        (truthy (wctx_approval_id (pe_witness env)) \<and> wctx_approval_checked (pe_witness env)) \<or>
        text_field ''approval_id'' (rs_target s) \<noteq> None),
      wa_approval_id = approval_id_of (pe_witness env) (rs_target s),
      wa_status = approval_outcome env ctx s, wa_reason = None\<rparr>"

definition evidence_of :: "prepared \<Rightarrow> members \<Rightarrow> members option \<Rightarrow> witness_evidence" where
  "evidence_of p after verification =
     (let shown = (\<lambda>ms. if po_evidence_mode (pp_outcome p) = Standard then Some ms else None) in
      \<lparr>we_before = shown (pp_before p), we_after = shown after, we_verification = verification, we_artifacts = []\<rparr>)"

definition write_terminal ::
  "pipeline_env \<Rightarrow> hold_context \<Rightarrow> prepared \<Rightarrow> string \<Rightarrow> members \<Rightarrow> members option \<Rightarrow> record_error \<Rightarrow> string option \<Rightarrow> unit action_run"
where
  "write_terminal env ctx p status after verification err code =
     seq (update (\<lambda>s. s\<lparr>rs_recorded := True,
            rs_records := rs_records s @
              [\<lparr>tr_status = status, tr_error = err, tr_code = code, tr_target = rs_target s, tr_after = after,
                tr_verification = verification, tr_approval = record_approval env ctx p s,
                tr_evidence = evidence_of p after verification,
                tr_receipt_target = redact_target (rs_target s) (po_evidence_mode (pp_outcome p)),
                tr_pieces = (if pe_ends env RecordWrites = None then 3 else min 2 (pe_pieces env)), tr_begun = begun s\<rparr>]\<rparr>)) (\<lambda>_.
     seq (update (meanwhile env RecordWrites)) (\<lambda>_.
     guard (if pe_write_cancelled env then Some TaskCancelledHere else pe_ends env RecordWrites)))"

section \<open>Reading the page afterwards\<close>

fun is_unobserved :: "thrown \<Rightarrow> bool" where
  "is_unobserved (Thrown _ (ActionFailed _ code _ _ _)) = (code = ''screenshot_withheld'' \<or> code = ''page_not_responding'')"
| "is_unobserved _ = False"

fun message_of :: "thrown \<Rightarrow> string" where
  "message_of (Thrown _ (ActionFailed message _ _ _ _)) = message"
| "message_of (Thrown _ (PageFailed message _)) = message"
| "message_of _ = []"

fun is_page_error :: "thrown \<Rightarrow> bool" where
  "is_page_error (Thrown _ (PageFailed _ _)) = True"
| "is_page_error _ = False"

definition failure_snapshot :: "pipeline_env \<Rightarrow> members action_run" where
  "failure_snapshot env =
     (if pe_page_refused env AtFailure \<noteq> None then ret (snapshot_error env AtFailure WITHHELD_SNAPSHOT_ERROR)
      else catch (reading env FailureSnapshot)
        (\<lambda>e. if is_page_error e \<or> is_unobserved e then ret (snapshot_error env AtFailure (take 300 (message_of e)))
             else if is_permission_error e then ret (snapshot_error env AtFailure WITHHELD_SNAPSHOT_ERROR)
             else raise e))"

definition OS_OBSERVATION_ERROR :: string where
  "OS_OBSERVATION_ERROR = ''The page could not be observed after the action (a file error on the controller).''"

fun withheld_text :: "thrown \<Rightarrow> string" where
  "withheld_text (Thrown _ (PermissionFailed text True)) = OS_OBSERVATION_ERROR"
| "withheld_text (Thrown _ f) = take 300 (permission_text f)"
| "withheld_text TaskCancelledHere = []"

definition withheld_or_unobserved :: "pipeline_env \<Rightarrow> thrown \<Rightarrow> members action_run" where
  "withheld_or_unobserved env e =
     (if is_permission_error e then ret (observation_error env (withheld_text e))
      else if is_unobserved e then ret (observation_error env (take 300 (message_of e)))
      else raise e)"

definition CHANGED_WHILE_OBSERVED :: string where
  "CHANGED_WHILE_OBSERVED = ''Page changed while it was being observed; observe again. (''"

definition after_observation :: "pipeline_env \<Rightarrow> members action_run" where
  "after_observation env =
     catch (reading env Observation)
       (\<lambda>e. if is_page_error e then
              catch (seq (awaiting env SettleBeforeRetry) (\<lambda>_. reading env SecondObservation))
                (\<lambda>e'. if is_page_error e'
                      then ret (observation_error env (take 300 (CHANGED_WHILE_OBSERVED @ message_of e' @ '')'')))
                      else withheld_or_unobserved env e')
            else withheld_or_unobserved env e)"

section \<open>How a run ends\<close>

definition record_success :: "pipeline_env \<Rightarrow> hold_context \<Rightarrow> prepared \<Rightarrow> members action_run" where
  "record_success env ctx p =
     seq (update (\<lambda>s. s\<lparr>rs_after_phase := ''reading''\<rparr>)) (\<lambda>_.
     seq (after_observation env) (\<lambda>after.
     seq (update (\<lambda>s. s\<lparr>rs_after_phase := ''observed''\<rparr>)) (\<lambda>_.
     seq (look (\<lambda>s. write_terminal env ctx p ''ok'' after
            (Some (action_verification (pe_action env) (rs_target s) (pp_before p) after)) NoError None)) (\<lambda>_.
     seq (awaiting env PersistSession) (\<lambda>_.
     seq (update (\<lambda>s. s\<lparr>rs_emitted := rs_emitted s @ [''ok'']\<rparr>)) (\<lambda>_.
     seq (awaiting env SessionSummary) (\<lambda>_. ret after)))))))"

text \<open>\<open>str.splitlines()[0]\<close>: it raises for an empty text.\<close>

definition line_break :: "char \<Rightarrow> bool" where
  "line_break c \<longleftrightarrow> (let n = of_char c :: nat in (10 \<le> n \<and> n \<le> 13) \<or> (28 \<le> n \<and> n \<le> 30) \<or> n = 133)"

definition record_after_change :: "pipeline_env \<Rightarrow> hold_context \<Rightarrow> prepared \<Rightarrow> string \<Rightarrow> members action_run" where
  "record_after_change env ctx p message =
     (if message = [] then throw env EmptyMessage (OtherFailed ''IndexError'')
      else
        seq (note_target ''after_change''
               (JStr (''The change was made, then a step after it failed: '' @
                  take 300 (takeWhile (\<lambda>c. \<not> line_break c) message) @ DO_NOT_REPEAT))) (\<lambda>_.
        seq (update (\<lambda>s. s\<lparr>rs_ran := True\<rparr>)) (\<lambda>_. record_success env ctx p)))"

definition roll_back :: "pipeline_env \<Rightarrow> prepared \<Rightarrow> unit action_run" where
  "roll_back env p = look (\<lambda>s.
     unless_run (\<not> (begun s \<and> pe_action env \<notin> set NOT_ROLLED_BACK \<and>
          JStr (pe_shown_url env AtBlock) \<noteq> get_field ''url'' (pp_before p)))
       (catch
         (seq (update (\<lambda>s. s\<lparr>rs_page := rs_page s @ [WentBack]\<rparr>)) (\<lambda>_.
          seq (awaiting env GoBack) (\<lambda>_.
          seq (awaiting env CloseUnreported) (\<lambda>_. awaiting env SettleAfterBack))))
         (\<lambda>e. if e = TaskCancelledHere then raise e else ret ())))"

definition leave_disallowed_page :: "pipeline_env \<Rightarrow> unit action_run" where
  "leave_disallowed_page env =
     unless_run (\<not> pe_url_off_list env)
       (catch (seq (update (\<lambda>s. s\<lparr>rs_page := rs_page s @ [LeftForBlank]\<rparr>)) (\<lambda>_. awaiting env GotoBlank))
         (\<lambda>e. if e = TaskCancelledHere then raise e else ret ()))"

definition handle_policy_block :: "pipeline_env \<Rightarrow> hold_context \<Rightarrow> prepared \<Rightarrow> string \<Rightarrow> string \<Rightarrow> members action_run" where
  "handle_policy_block env ctx p err code =
     seq (roll_back env p) (\<lambda>_.
     seq (leave_disallowed_page env) (\<lambda>_.
     seq (failure_snapshot env) (\<lambda>failed.
     seq (write_terminal env ctx p ''blocked'' failed None (ErrorText err) (Some code)) (\<lambda>_. ret failed))))"

definition handle_failure :: "pipeline_env \<Rightarrow> hold_context \<Rightarrow> prepared \<Rightarrow> record_error \<Rightarrow> members action_run" where
  "handle_failure env ctx p err =
     seq (failure_snapshot env) (\<lambda>failed.
     seq (write_terminal env ctx p ''failed'' failed None err None) (\<lambda>_. ret failed))"

definition BLOCKED :: string where
  "BLOCKED = ''browser_action_blocked''"

text \<open>What a permission error becomes: message, code, status and url.\<close>

fun block_answer :: "pipeline_env \<Rightarrow> failure \<Rightarrow> string \<times> string \<times> nat \<times> string option" where
  "block_answer env (HoldRefused e) = (refusal_text e, refusal_code_of e, 409, Some (pe_shown_url env AtBlock))"
| "block_answer env (NavigationStopped text origin) = (text, BLOCKED, 403, origin)"
| "block_answer env _ = (''Action blocked by policy'', BLOCKED, 403, Some (pe_shown_url env AtBlock))"

definition mark_refusal :: "hold_context \<Rightarrow> nat \<Rightarrow> failure \<Rightarrow> unit action_run" where
  "mark_refusal ctx i f = update (\<lambda>s. s\<lparr>rs_heap := refused_before_effect (seen_exn i f) ctx (rs_heap s)\<rparr>)"

definition FAILED_MESSAGE :: string where
  "FAILED_MESSAGE = ''Action failed. Refresh observation and retry.''"

definition handle_ending :: "pipeline_env \<Rightarrow> hold_context \<Rightarrow> prepared \<Rightarrow> thrown \<Rightarrow> members action_run" where
  "handle_ending env ctx p e =
     (case e of
        TaskCancelledHere \<Rightarrow> raise e
      | Thrown i f \<Rightarrow>
          if is_permission_error e then
            (case block_answer env f of (message, code, status_code, url) \<Rightarrow>
               seq (mark_refusal ctx i f) (\<lambda>_.
               seq (update (\<lambda>s. s\<lparr>rs_policy_block := Some (message, code)\<rparr>)) (\<lambda>_.
               seq (handle_policy_block env ctx p message code) (\<lambda>_.
               throw env BlockedAction (ActionFailed message code status_code False url)))))
          else
            (case f of
               ActionFailed message code status_code retryable url \<Rightarrow>
                 look (\<lambda>s. if retryable \<and> rs_transferred s then record_after_change env ctx p message
                           else seq (handle_failure env ctx p (ErrorPayload f)) (\<lambda>_. raise e))
             | PageFailed message gate \<Rightarrow>
                 look (\<lambda>s. if rs_transferred s then record_after_change env ctx p message
                           else seq (handle_failure env ctx p (ErrorText FAILED_MESSAGE)) (\<lambda>_.
                                throw env FailedAction
                                  (ActionFailed FAILED_MESSAGE ''browser_action_failed'' 400 True (Some (pe_shown_url env AtFailure)))))
             | _ \<Rightarrow> raise e))"

definition execute_and_record :: "pipeline_env \<Rightarrow> hold_context \<Rightarrow> prepared \<Rightarrow> members action_run" where
  "execute_and_record env ctx p =
     attempt (execute_action env ctx p) (handle_ending env ctx p)
       (\<lambda>_. seq (update (\<lambda>s. s\<lparr>rs_ran := True\<rparr>)) (\<lambda>_. record_success env ctx p))"

fun how_it_ended :: "thrown \<Rightarrow> string" where
  "how_it_ended TaskCancelledHere = ''was cancelled''"
| "how_it_ended (Thrown _ f) = ''ended in '' @ failure_type f"

definition OBSERVE_FIRST :: string where
  "OBSERVE_FIRST = ''. Observe the page before acting again.''"

text \<open>The record of a run that began, or was blocked, and was cut short before it was recorded.\<close>

definition interrupted_status :: "run_state \<Rightarrow> thrown \<Rightarrow> (string \<times> string \<times> string option) option" where
  "interrupted_status s e =
     (if \<not> (rs_ran s \<or> begun s) then
        map_option (\<lambda>(err, code). (''blocked'', err, Some code)) (rs_policy_block s)
      else if rs_ran s then
        Some (''error'', ''the action ran; '' @
          (if rs_after_phase s = ''reading'' then ''reading the page after it '' else ''recording it '') @ how_it_ended e @ OBSERVE_FIRST,
          None)
      else Some (''error'', ''outcome unknown: the action began and '' @ how_it_ended e @ OBSERVE_FIRST, None))"

definition record_interrupted :: "pipeline_env \<Rightarrow> hold_context \<Rightarrow> prepared \<Rightarrow> thrown \<Rightarrow> unit action_run" where
  "record_interrupted env ctx p e = look (\<lambda>s.
     case interrupted_status s e of
       None \<Rightarrow> ret ()
     | Some (status, err, code) \<Rightarrow>
         catch (write_terminal env ctx p status [(''url'', JStr (pe_shown_url env AtEnd))] None (ErrorText err) code)
           (\<lambda>e'. if e' = TaskCancelledHere \<and> e \<noteq> TaskCancelledHere then raise e' else ret ()))"

definition run_locked :: "pipeline_env \<Rightarrow> hold_context \<Rightarrow> members action_run" where
  "run_locked env ctx =
     seq (awaiting env SessionLock) (\<lambda>_.
     seq (if pe_session_live env then ret () else throw env ClosedSession (SessionMissing (ws_session_id (pe_session env)))) (\<lambda>_.
     seq (require_gate env AtPrepare) (\<lambda>_.
     seq (awaiting env PageGrace) (\<lambda>_.
     seq (awaiting env EarlierRecord) (\<lambda>_.
     seq (prepare env) (\<lambda>p.
     catch (execute_and_record env ctx p)
       (\<lambda>e. look (\<lambda>s. if rs_recorded s then raise e
                      else seq (record_interrupted env ctx p e) (\<lambda>_. raise e)))))))))"

definition run_action :: "pipeline_env \<Rightarrow> hold_context \<Rightarrow> members action_run" where
  "run_action env ctx =
     catch (run_locked env ctx)
       (\<lambda>e. case e of TaskCancelledHere \<Rightarrow> raise e | Thrown i f \<Rightarrow> seq (mark_refusal ctx i f) (\<lambda>_. raise e))"

end
