(* ===== verification/ActionFacts.thy ===== *)
theory ActionFacts
  imports ActionPipeline
begin

text \<open>
  What holds of every run of an action, however its awaits end: its holds' effect is marked exactly when it
  has begun, nothing is done to the page before, and what began is recorded once.
\<close>

section \<open>The invariant\<close>

definition heap_ok :: "hold_context \<Rightarrow> hold_heap \<Rightarrow> run_state \<Rightarrow> bool" where
  "heap_ok ctx heap s \<longleftrightarrow>
     (\<forall>k. h_active (rs_heap s k) = h_active (heap k) \<and> h_approval_id (rs_heap s k) = h_approval_id (heap k) \<and>
          h_origin (rs_heap s k) = h_origin (heap k) \<and> h_may_give_back (rs_heap s k) = h_may_give_back (heap k) \<and>
          h_effect (rs_heap s k) = (h_effect (heap k) \<or> (begun s \<and> k \<in> set (map snd ctx))))"

definition progress_ok :: "run_state \<Rightarrow> bool" where
  "progress_ok s \<longleftrightarrow> (rs_ran s \<longrightarrow> begun s) \<and> (rs_transferred s \<longrightarrow> begun s) \<and>
     (ChangeBegan \<in> set (rs_page s) \<or> WentBack \<in> set (rs_page s) \<longrightarrow> begun s)"

text \<open>A record's approval reads executed exactly when the action that holds it had begun.\<close>

definition record_ok :: "hold_context \<Rightarrow> hold_heap \<Rightarrow> bool \<Rightarrow> terminal_record \<Rightarrow> bool" where
  "record_ok ctx heap b r \<longleftrightarrow> tr_begun r = b \<and> (tr_status r \<in> {''ok'', ''error''} \<longrightarrow> b) \<and>
     (\<forall>i h. wa_approval_id (tr_approval r) = Some i \<longrightarrow> map_of ctx i = Some h \<longrightarrow> h_active (heap h) \<longrightarrow> \<not> h_effect (heap h) \<longrightarrow>
        (wa_status (tr_approval r) = Some ''executed'') = b)"

definition unrecorded :: "hold_context \<Rightarrow> hold_heap \<Rightarrow> run_state \<Rightarrow> bool" where
  "unrecorded ctx heap s \<longleftrightarrow> heap_ok ctx heap s \<and> progress_ok s \<and> rs_records s = [] \<and> \<not> rs_recorded s"

text \<open>Begun, and not recorded yet; and then also known to have happened.\<close>

definition changing :: "hold_context \<Rightarrow> hold_heap \<Rightarrow> run_state \<Rightarrow> bool" where
  "changing ctx heap s \<longleftrightarrow> unrecorded ctx heap s \<and> begun s"

definition happened :: "hold_context \<Rightarrow> hold_heap \<Rightarrow> run_state \<Rightarrow> bool" where
  "happened ctx heap s \<longleftrightarrow> unrecorded ctx heap s \<and> rs_ran s"

definition untouched :: "hold_context \<Rightarrow> hold_heap \<Rightarrow> run_state \<Rightarrow> bool" where
  "untouched ctx heap s \<longleftrightarrow> unrecorded ctx heap s \<and> \<not> begun s \<and> rs_policy_block s = None"

definition recorded :: "hold_context \<Rightarrow> hold_heap \<Rightarrow> (string \<Rightarrow> bool) \<Rightarrow> run_state \<Rightarrow> bool" where
  "recorded ctx heap status s \<longleftrightarrow> heap_ok ctx heap s \<and> progress_ok s \<and> rs_recorded s \<and>
     (\<exists>r. rs_records s = [r] \<and> record_ok ctx heap (begun s) r \<and> status (tr_status r))"

abbreviation recorded_some :: "hold_context \<Rightarrow> hold_heap \<Rightarrow> run_state \<Rightarrow> bool" where
  "recorded_some ctx heap \<equiv> recorded ctx heap (\<lambda>_. True)"

definition settled :: "hold_context \<Rightarrow> hold_heap \<Rightarrow> run_state \<Rightarrow> bool" where
  "settled ctx heap s \<longleftrightarrow> recorded_some ctx heap s \<or> unrecorded ctx heap s"

lemma begun_simps [simp]:
  "begun (s\<lparr>rs_heap := a\<rparr>) = begun s" "begun (s\<lparr>rs_page := b\<rparr>) = begun s" "begun (s\<lparr>rs_target := c\<rparr>) = begun s"
  "begun (s\<lparr>rs_ran := d\<rparr>) = begun s" "begun (s\<lparr>rs_records := e\<rparr>) = begun s" "begun (s\<lparr>rs_recorded := d\<rparr>) = begun s"
  "begun (s\<lparr>rs_recorded := d, rs_records := e\<rparr>) = begun s"
  "begun (s\<lparr>rs_after_phase := f\<rparr>) = begun s" "begun (s\<lparr>rs_policy_block := g\<rparr>) = begun s" "begun (s\<lparr>rs_emitted := i\<rparr>) = begun s"
  "begun (s\<lparr>rs_transferred := d\<rparr>) = begun s" "begun (meanwhile env p s) = begun s"
  "begun (s\<lparr>rs_upload_began := True\<rparr>)" "begun (s\<lparr>rs_started := True\<rparr>)"
  by (simp_all add: begun_def meanwhile_def)

lemma meanwhile_fields [simp]:
  "rs_page (meanwhile env p s) = rs_page s" "rs_ran (meanwhile env p s) = rs_ran s"
  "rs_transferred (meanwhile env p s) = rs_transferred s" "rs_upload_began (meanwhile env p s) = rs_upload_began s"
  "rs_records (meanwhile env p s) = rs_records s" "rs_recorded (meanwhile env p s) = rs_recorded s"
  "rs_started (meanwhile env p s) = rs_started s" "rs_policy_block (meanwhile env p s) = rs_policy_block s"
  "rs_target (meanwhile env p s) = rs_target s"
  by (simp_all add: meanwhile_def)

lemma heap_ok_simps [simp]:
  "heap_ok ctx heap (meanwhile env p s) = heap_ok ctx heap s"
  "heap_ok ctx heap (s\<lparr>rs_page := b\<rparr>) = heap_ok ctx heap s" "heap_ok ctx heap (s\<lparr>rs_target := c\<rparr>) = heap_ok ctx heap s"
  "heap_ok ctx heap (s\<lparr>rs_ran := d\<rparr>) = heap_ok ctx heap s"
  "heap_ok ctx heap (s\<lparr>rs_recorded := d, rs_records := e\<rparr>) = heap_ok ctx heap s"
  "heap_ok ctx heap (s\<lparr>rs_after_phase := f\<rparr>) = heap_ok ctx heap s"
  "heap_ok ctx heap (s\<lparr>rs_policy_block := g\<rparr>) = heap_ok ctx heap s"
  "heap_ok ctx heap (s\<lparr>rs_emitted := i\<rparr>) = heap_ok ctx heap s"
  "heap_ok ctx heap (s\<lparr>rs_transferred := d\<rparr>) = heap_ok ctx heap s"
  by (simp_all add: heap_ok_def meanwhile_def)

lemma heap_ok_refusal [simp]:
  "heap_ok ctx heap (s\<lparr>rs_heap := refused_before_effect e ctx' (rs_heap s)\<rparr>) = heap_ok ctx heap s"
  by (simp add: heap_ok_def)

lemma heap_ok_effect:
  assumes "heap_ok ctx heap s" and "effect_started ctx (rs_heap s) = (heap', None)"
    and "begun s'" and "rs_heap s' = heap'"
  shows "heap_ok ctx heap s'"
proof -
  have eq: "heap' = fst (effect_started ctx (rs_heap s))" and n: "snd (effect_started ctx (rs_heap s)) = None"
    using assms(2) by simp_all
  show ?thesis using assms(1,3,4) n
    by (auto simp: heap_ok_def eq effect_started_effect simp del: set_map)
qed

lemma heap_ok_no_effect:
  assumes "heap_ok ctx heap s" and "effect_started ctx (rs_heap s) = (heap', Some e)"
  shows "heap_ok ctx heap (s\<lparr>rs_heap := heap'\<rparr>)"
proof -
  have eq: "heap' = fst (effect_started ctx (rs_heap s))" and n: "snd (effect_started ctx (rs_heap s)) \<noteq> None"
    using assms(2) by simp_all
  show ?thesis using assms(1) n
    by (auto simp: heap_ok_def eq effect_started_effect simp del: set_map not_None_eq)
qed

text \<open>Steps that change nothing the invariants look at.\<close>

definition harmless :: "(run_state \<Rightarrow> run_state) \<Rightarrow> bool" where
  "harmless g \<longleftrightarrow> (\<forall>s ctx heap. heap_ok ctx heap (g s) = heap_ok ctx heap s \<and> begun (g s) = begun s \<and> rs_page (g s) = rs_page s \<and>
     rs_ran (g s) = rs_ran s \<and> rs_transferred (g s) = rs_transferred s \<and>
     rs_records (g s) = rs_records s \<and> rs_recorded (g s) = rs_recorded s \<and> rs_policy_block (g s) = rs_policy_block s)"

definition undisturbed :: "(run_state \<Rightarrow> bool) \<Rightarrow> bool" where
  "undisturbed I \<longleftrightarrow> (\<forall>g s. harmless g \<longrightarrow> I s \<longrightarrow> I (g s))"

lemma harmless_updates [simp]:
  "harmless (meanwhile env p)" "harmless (\<lambda>s. s\<lparr>rs_target := f s\<rparr>)" "harmless (\<lambda>s. s\<lparr>rs_after_phase := x\<rparr>)"
  "harmless (\<lambda>s. s\<lparr>rs_emitted := h s\<rparr>)"
  "harmless (\<lambda>s. s\<lparr>rs_heap := refused_before_effect e ctx' (rs_heap s)\<rparr>)"
  by (simp_all add: harmless_def)

lemma undisturbed_invariants [simp]:
  "undisturbed (unrecorded ctx heap)" "undisturbed (recorded ctx heap status)" "undisturbed (settled ctx heap)"
  "undisturbed (changing ctx heap)" "undisturbed (happened ctx heap)" "undisturbed (untouched ctx heap)"
  by (auto simp: untouched_def undisturbed_def harmless_def unrecorded_def recorded_def settled_def progress_ok_def changing_def happened_def)

lemma keeps_harmless [keeping]: "undisturbed I \<Longrightarrow> harmless g \<Longrightarrow> keeps I (update g)"
  by (rule keeps_update) (simp add: undisturbed_def)

lemma keeps_awaiting [keeping]: "undisturbed I \<Longrightarrow> keeps I (awaiting env p)" "undisturbed I \<Longrightarrow> keeps I (reading env p)"
  by (auto simp: awaiting_def reading_def intro!: keeping)

lemma keeps_throw [keeping]: "keeps I (throw env site f)"
  by (simp add: throw_def keeping)

lemma keeps_note [keeping]: "undisturbed I \<Longrightarrow> keeps I (note_target key v)"
  by (simp add: note_target_def keeping)

section \<open>Each part keeps it\<close>

lemma keeps_blocks [keeping]: "undisturbed I \<Longrightarrow> keeps I (blocks_during env)" "undisturbed I \<Longrightarrow> keeps I (note_blocks env)"
  by (auto simp: blocks_during_def note_blocks_def intro!: keeping)

lemma keeps_gate [keeping]: "undisturbed I \<Longrightarrow> keeps I (require_gate env at_look)" "undisturbed I \<Longrightarrow> keeps I (ensure_remote_ready env)"
  by (auto simp: require_gate_def ensure_remote_ready_def intro!: keeping)

lemma keeps_prepare [keeping]: "undisturbed I \<Longrightarrow> keeps I (prepare env)"
  by (auto simp: prepare_def Let_def intro!: keeping)

lemma keeps_landing [keeping]: "undisturbed I \<Longrightarrow> keeps I (check_landing env)"
  by (auto simp: check_landing_def split: option.split intro!: keeping)

lemma keeps_follow_up [keeping]: "undisturbed I \<Longrightarrow> keeps I (follow_up env)"
  by (auto simp: follow_up_def split: option.split intro!: keeping)

lemma keeps_snapshots [keeping]:
  "undisturbed I \<Longrightarrow> keeps I (failure_snapshot env)" "undisturbed I \<Longrightarrow> keeps I (withheld_or_unobserved env e)"
  by (auto simp: failure_snapshot_def withheld_or_unobserved_def intro!: keeping)

lemma keeps_observation [keeping]: "undisturbed I \<Longrightarrow> keeps I (after_observation env)"
  by (auto simp: after_observation_def intro!: keeping)

lemma keeps_blank [keeping]: "keeps (unrecorded ctx heap) (leave_disallowed_page env)"
  unfolding leave_disallowed_page_def
  by (intro keeping keeps_update undisturbed_invariants) (auto simp: unrecorded_def progress_ok_def)

lemma keeps_block [keeping]: "keeps (unrecorded ctx heap) (update (\<lambda>s. s\<lparr>rs_policy_block := y\<rparr>))"
  by (rule keeps_update) (simp add: unrecorded_def progress_ok_def)

lemma keeps_page [keeping]: "keeps (changing ctx heap) (update (\<lambda>s. s\<lparr>rs_page := rs_page s @ [x]\<rparr>))"
  by (rule keeps_update) (auto simp: changing_def unrecorded_def progress_ok_def)

lemma keeps_roll_back [keeping]: "keeps (unrecorded ctx heap) (roll_back env p)"
proof (rule keepsI)
  fix s assume u: "unrecorded ctx heap s"
  let ?body = "catch (seq (update (\<lambda>s. s\<lparr>rs_page := rs_page s @ [WentBack]\<rparr>)) (\<lambda>_. seq (awaiting env GoBack) (\<lambda>_.
      seq (awaiting env CloseUnreported) (\<lambda>_. awaiting env SettleAfterBack))))
    (\<lambda>e. if e = TaskCancelledHere then raise e else ret ())"
  have body: "keeps (changing ctx heap) ?body" by (intro keeping undisturbed_invariants)
  show "unrecorded ctx heap (fst (roll_back env p s))"
  proof (cases "begun s")
    case True
    then have "changing ctx heap (fst (?body s))" using keeps_fst [OF body] u by (simp add: changing_def)
    with u show ?thesis by (simp add: roll_back_def unless_run_def changing_def)
  qed (use u in \<open>simp add: roll_back_def unless_run_def\<close>)
qed

lemma triple_mark_effect:
  assumes "mark = (\<lambda>s. s\<lparr>rs_upload_began := True\<rparr>) \<or> mark = (\<lambda>s. s\<lparr>rs_started := True\<rparr>)"
  shows "triple (unrecorded ctx heap) (mark_effect env ctx mark) (\<lambda>_. changing ctx heap) (\<lambda>_. unrecorded ctx heap)"
  unfolding triple_def
proof (intro allI impI)
  fix s assume u: "unrecorded ctx heap s"
  obtain heap' r where e: "effect_started ctx (rs_heap s) = (heap', r)" by (cases "effect_started ctx (rs_heap s)")
  show "case mark_effect env ctx mark s of (s', Inl e) \<Rightarrow> unrecorded ctx heap s' | (s', Inr v) \<Rightarrow> changing ctx heap s'"
  proof (cases r)
    case None
    have "heap_ok ctx heap (mark (s\<lparr>rs_heap := heap'\<rparr>))"
      using heap_ok_effect [of ctx heap s heap' "mark (s\<lparr>rs_heap := heap'\<rparr>)"] e u None assms by (auto simp: unrecorded_def)
    with None e u assms show ?thesis
      by (auto simp: mark_effect_def changing_def unrecorded_def progress_ok_def)
  next
    case (Some err)
    with e u heap_ok_no_effect [of ctx heap s heap' err] show ?thesis
      by (simp add: mark_effect_def throw_def seq_def unrecorded_def progress_ok_def)
  qed
qed

lemma triple_keeps: "keeps I m \<Longrightarrow> triple I m (\<lambda>_. I) (\<lambda>_. I)"
  by (simp add: keeps_def)

lemma changing_unrecorded: "changing ctx heap s \<Longrightarrow> unrecorded ctx heap s"
  by (simp add: changing_def)

lemma triple_changing:
  "keeps (changing ctx heap) m \<Longrightarrow> triple (changing ctx heap) m (\<lambda>_. changing ctx heap) (\<lambda>_. unrecorded ctx heap)"
  by (rule triple_strengthen [OF triple_keeps [of "changing ctx heap"]]) (simp_all add: changing_unrecorded)

lemma keeps_transferred [keeping]: "keeps (changing ctx heap) (update (\<lambda>s. s\<lparr>rs_transferred := True\<rparr>))"
  by (rule keeps_update) (auto simp: changing_def unrecorded_def progress_ok_def)

lemma keeps_delivery [keeping]:
  "undisturbed I \<Longrightarrow> keeps I (case d of None \<Rightarrow> ret () | Some v \<Rightarrow> note_target key v)"
  by (cases d) (simp_all add: keeping)

lemma triple_operation:
  "triple (\<lambda>s. if pe_action env \<in> set MARKS_OWN_EFFECT then unrecorded ctx heap s else changing ctx heap s) (run_operation env ctx)
     (\<lambda>_. changing ctx heap) (\<lambda>_. unrecorded ctx heap)"
proof (cases "pe_action env \<in> set MARKS_OWN_EFFECT")
  case False
  then show ?thesis
    by (auto simp: run_operation_def intro!: triple_changing keeping undisturbed_invariants)
next
  case True
  have "triple (unrecorded ctx heap) (upload_operation env ctx) (\<lambda>_. changing ctx heap) (\<lambda>_. unrecorded ctx heap)"
    unfolding upload_operation_def
    by (intro triple_seq [OF triple_keeps] triple_seq [OF triple_mark_effect] triple_changing keeping undisturbed_invariants) simp
  with True show ?thesis by (simp add: run_operation_def)
qed

lemma triple_throw: "(\<And>s. P s \<Longrightarrow> E (Thrown (pe_id env site) f) s) \<Longrightarrow> triple P (throw env site f) Q E"
  by (simp add: throw_def triple_raise)

lemma triple_always_raises:
  "keeps I m \<Longrightarrow> triple I (seq m (\<lambda>v. throw env site (f v))) Q (\<lambda>_. I)"
  by (rule triple_seq [OF triple_keeps]) (simp_all add: triple_throw)

lemma triple_operation_or_block:
  "triple (\<lambda>s. if pe_action env \<in> set MARKS_OWN_EFFECT then unrecorded ctx heap s else changing ctx heap s)
     (operation_or_block env ctx) (\<lambda>_. changing ctx heap) (\<lambda>_. unrecorded ctx heap)"
  unfolding operation_or_block_def
  by (rule triple_catch [OF triple_operation])
    (auto split: option.split failure.split bool.split intro!: triple_raise triple_always_raises keeping undisturbed_invariants)

lemma triple_execute:
  "triple (unrecorded ctx heap) (execute_action env ctx p) (\<lambda>_. changing ctx heap) (\<lambda>_. unrecorded ctx heap)"
proof -
  let ?U = "unrecorded ctx heap"
  have mark: "triple ?U (unless_run (pe_action env \<in> set MARKS_OWN_EFFECT) (mark_effect env ctx (\<lambda>s. s\<lparr>rs_started := True\<rparr>)))
      (\<lambda>_ s. if pe_action env \<in> set MARKS_OWN_EFFECT then ?U s else changing ctx heap s) (\<lambda>_. ?U)"
  proof (cases "pe_action env \<in> set MARKS_OWN_EFFECT")
    case True
    then show ?thesis by (simp add: unless_run_def triple_ret)
  next
    case False
    then show ?thesis using triple_mark_effect [of "\<lambda>s. s\<lparr>rs_started := True\<rparr>"] by (simp add: unless_run_def)
  qed
  have first: "keeps ?U (unless_run (pe_action env \<in> set LEAVES_DISALLOWED_PAGE)
      (case pe_page_refused env AtExecute of None \<Rightarrow> ret () | Some text \<Rightarrow> throw env PageRefused (PermissionFailed text False)))"
    by (auto split: option.split intro!: keeping)
  show ?thesis
    unfolding execute_action_def
    by (intro triple_seq [OF triple_keeps [OF first]] triple_seq [OF mark] triple_seq [OF triple_operation_or_block]
        triple_seq [OF triple_keeps [of ?U]] triple_changing keeping undisturbed_invariants)
qed

section \<open>The record\<close>

lemma held_status_executed:
  assumes "heap_ok ctx heap s" and "map_of ctx i = Some h" and "h_active (heap h)" and "\<not> h_effect (heap h)"
  shows "(map_option status_name (held_status (rs_heap s) ctx i) = Some ''executed'') = begun s"
proof -
  have "h \<in> set (map snd ctx)" using map_of_SomeD [OF assms(2)] by force
  with assms have "h_active (rs_heap s h)" "h_effect (rs_heap s h) = begun s" by (simp_all add: heap_ok_def)
  with assms(2) show ?thesis by (simp add: held_status_def active_hold_def status_name_def)
qed

lemma written_record_ok:
  assumes "heap_ok ctx heap s" and "tr_begun r = begun s" and "tr_status r \<in> {''ok'', ''error''} \<longrightarrow> begun s"
    and "tr_approval r = record_approval env ctx p s"
  shows "record_ok ctx heap (begun s) r"
  using assms held_status_executed [OF assms(1)] by (simp add: record_ok_def record_approval_def approval_outcome_def)

lemma recorded_write:
  "unrecorded ctx heap s \<Longrightarrow> record_ok ctx heap (begun s) r \<Longrightarrow> tr_status r = status \<Longrightarrow>
   recorded ctx heap (\<lambda>x. x = status) (s\<lparr>rs_recorded := True, rs_records := rs_records s @ [r]\<rparr>)"
  by (simp add: unrecorded_def recorded_def progress_ok_def)

lemma triple_write_terminal:
  "triple (\<lambda>s. unrecorded ctx heap s \<and> (status \<in> {''ok'', ''error''} \<longrightarrow> begun s))
     (write_terminal env ctx p status after verification err code)
     (\<lambda>_. recorded ctx heap (\<lambda>x. x = status)) (\<lambda>_. recorded ctx heap (\<lambda>x. x = status))"
  unfolding write_terminal_def
proof (rule triple_seq [OF triple_update triple_keeps])
  fix s assume "unrecorded ctx heap s \<and> (status \<in> {''ok'', ''error''} \<longrightarrow> begun s)"
  then show "recorded ctx heap (\<lambda>x. x = status) (s\<lparr>rs_recorded := True,
            rs_records := rs_records s @
              [\<lparr>tr_status = status, tr_error = err, tr_code = code, tr_target = rs_target s, tr_after = after,
                tr_verification = verification, tr_approval = record_approval env ctx p s,
                tr_evidence = evidence_of p after verification,
                tr_receipt_target = redact_target (rs_target s) (po_evidence_mode (pp_outcome p)),
                tr_pieces = (if pe_ends env RecordWrites = None then 3 else min 2 (pe_pieces env)), tr_begun = begun s\<rparr>]\<rparr>)"
    by (intro recorded_write written_record_ok [of _ _ _ _ env p]) (auto simp: unrecorded_def)
qed (intro keeping undisturbed_invariants harmless_updates)

lemma settledI: "recorded ctx heap status s \<Longrightarrow> settled ctx heap s" "unrecorded ctx heap s \<Longrightarrow> settled ctx heap s"
  by (auto simp: settled_def recorded_def)

lemma happened_begun: "happened ctx heap s \<Longrightarrow> unrecorded ctx heap s \<and> begun s"
  by (simp add: happened_def unrecorded_def progress_ok_def)

lemma triple_record_success:
  "triple (happened ctx heap) (record_success env ctx p) (\<lambda>_. recorded ctx heap (\<lambda>x. x = ''ok'')) (\<lambda>_. settled ctx heap)"
proof -
  let ?H = "happened ctx heap" and ?R = "recorded ctx heap (\<lambda>x. x = ''ok'')"
  have before: "triple ?H m (\<lambda>_. ?H) (\<lambda>_. settled ctx heap)" if "keeps ?H m" for m :: "'x action_run"
    using happened_begun by (rule_tac triple_strengthen [OF triple_keeps [OF that]]) (auto intro: settledI)
  have after: "triple ?R m (\<lambda>_. ?R) (\<lambda>_. settled ctx heap)" if "keeps ?R m" for m :: "'x action_run"
    by (rule triple_strengthen [OF triple_keeps [OF that]]) (auto intro: settledI)
  have wr: "triple ?H (look (\<lambda>s. write_terminal env ctx p ''ok'' after
            (Some (action_verification (pe_action env) (rs_target s) (pp_before p) after)) NoError None))
      (\<lambda>_. ?R) (\<lambda>_. settled ctx heap)" for after
    using happened_begun
    by (intro triple_look triple_strengthen [OF triple_write_terminal]) (auto intro: settledI)
  show ?thesis unfolding record_success_def
    by (intro triple_seq [OF before] triple_seq [OF wr] triple_seq [OF after] after keeping undisturbed_invariants harmless_updates)
qed

section \<open>How a run ends\<close>

lemma triple_from_unrecorded:
  "keeps (unrecorded ctx heap) m \<Longrightarrow> triple (unrecorded ctx heap) m (\<lambda>_. unrecorded ctx heap) (\<lambda>_. settled ctx heap)"
  by (rule triple_strengthen [OF triple_keeps [of "unrecorded ctx heap"]]) (auto intro: settledI)

lemma triple_write_settled:
  "status \<notin> {''ok'', ''error''} \<Longrightarrow>
   triple (unrecorded ctx heap) (write_terminal env ctx p status after verification err code)
     (\<lambda>_. settled ctx heap) (\<lambda>_. settled ctx heap)"
  by (rule triple_strengthen [OF triple_write_terminal]) (auto intro: settledI)

lemma keeps_mark_refusal [keeping]: "undisturbed I \<Longrightarrow> keeps I (mark_refusal ctx i f)"
  by (simp add: mark_refusal_def keeping)

lemma triple_handled:
  "triple (unrecorded ctx heap) (handle_policy_block env ctx p err code) (\<lambda>_. settled ctx heap) (\<lambda>_. settled ctx heap)"
  "triple (unrecorded ctx heap) (handle_failure env ctx p err') (\<lambda>_. settled ctx heap) (\<lambda>_. settled ctx heap)"
  unfolding handle_policy_block_def handle_failure_def
  by (intro triple_seq [OF triple_from_unrecorded] triple_seq [OF triple_write_settled] triple_ret keeping undisturbed_invariants; simp)+

lemma triple_after_change:
  "triple (\<lambda>s. unrecorded ctx heap s \<and> rs_transferred s) (record_after_change env ctx p message)
     (\<lambda>_. recorded ctx heap (\<lambda>x. x = ''ok'')) (\<lambda>_. settled ctx heap)"
proof -
  let ?C = "changing ctx heap"
  have note_it: "triple ?C (note_target key v) (\<lambda>_. ?C) (\<lambda>_. settled ctx heap)" for key v
    by (rule triple_strengthen [OF triple_keeps [of ?C]]) (auto intro!: keeping undisturbed_invariants intro: settledI changing_unrecorded)
  have ran: "triple ?C (update (\<lambda>s. s\<lparr>rs_ran := True\<rparr>)) (\<lambda>_. happened ctx heap) (\<lambda>_. settled ctx heap)"
    by (rule triple_update) (simp add: changing_def happened_def unrecorded_def progress_ok_def)
  have "triple ?C (record_after_change env ctx p message) (\<lambda>_. recorded ctx heap (\<lambda>x. x = ''ok'')) (\<lambda>_. settled ctx heap)"
    unfolding record_after_change_def
    by (intro triple_if triple_throw triple_seq [OF note_it] triple_seq [OF ran] triple_record_success)
      (auto intro: settledI changing_unrecorded)
  then show ?thesis
    by (rule triple_strengthen) (auto simp: changing_def unrecorded_def progress_ok_def)
qed

lemma triple_handle_ending:
  "triple (unrecorded ctx heap) (handle_ending env ctx p e) (\<lambda>_. recorded ctx heap (\<lambda>x. x = ''ok'')) (\<lambda>_. settled ctx heap)"
proof (cases e)
  case TaskCancelledHere
  then show ?thesis by (auto simp: handle_ending_def intro!: triple_raise settledI)
next
  case (Thrown i f)
  let ?U = "unrecorded ctx heap" and ?S = "settled ctx heap" and ?R = "recorded ctx heap (\<lambda>x. x = ''ok'')"
  have throws: "triple ?S (throw env site g) (\<lambda>_ :: members. ?R) (\<lambda>_. ?S)" for site g by (rule triple_throw)
  have raises: "triple ?S (raise e') (\<lambda>_ :: members. ?R) (\<lambda>_. ?S)" for e' by (rule triple_raise)
  have looks: "triple ?U (look (\<lambda>s. if b s \<and> rs_transferred s then record_after_change env ctx p message
          else seq (handle_failure env ctx p err) (\<lambda>_. m))) (\<lambda>_. ?R) (\<lambda>_. ?S)"
    if "triple ?S m (\<lambda>_. ?R) (\<lambda>_. ?S)" for b message err m
    using that by (intro triple_look triple_if triple_strengthen [OF triple_after_change]
        triple_strengthen [OF triple_seq [OF triple_handled(2)]]) auto
  show ?thesis
  proof (cases "is_permission_error e")
    case True
    obtain message code status_code url where b: "block_answer env f = (message, code, status_code, url)"
      by (cases "block_answer env f")
    show ?thesis
      by (simp add: handle_ending_def Thrown True [unfolded Thrown] b)
        (intro triple_seq [OF triple_from_unrecorded] triple_seq [OF triple_handled(1)] throws keeping undisturbed_invariants harmless_updates)
  next
    case False
    have other: "triple ?U (raise e') (\<lambda>_ :: members. ?R) (\<lambda>_. ?S)" for e' by (rule triple_raise) (rule settledI)
    show ?thesis
      using False looks [OF raises, of "\<lambda>_. x" for x] looks [OF throws, of "\<lambda>_. True"]
      by (cases f) (simp_all add: handle_ending_def Thrown other)
  qed
qed

lemma triple_execute_and_record:
  "triple (unrecorded ctx heap) (execute_and_record env ctx p) (\<lambda>_. recorded ctx heap (\<lambda>x. x = ''ok'')) (\<lambda>_. settled ctx heap)"
  unfolding execute_and_record_def
proof (rule triple_attempt [OF triple_execute triple_handle_ending])
  have "triple (changing ctx heap) (update (\<lambda>s. s\<lparr>rs_ran := True\<rparr>)) (\<lambda>_. happened ctx heap) (\<lambda>_. settled ctx heap)"
    by (rule triple_update) (simp add: changing_def happened_def unrecorded_def progress_ok_def)
  then show "triple (changing ctx heap) (seq (update (\<lambda>s. s\<lparr>rs_ran := True\<rparr>)) (\<lambda>_. record_success env ctx p))
      (\<lambda>_. recorded ctx heap (\<lambda>x. x = ''ok'')) (\<lambda>_. settled ctx heap)"
    by (rule triple_seq) (rule triple_record_success)
qed

text \<open>In the end what began is recorded, and so is a block.\<close>

definition accounted :: "hold_context \<Rightarrow> hold_heap \<Rightarrow> run_state \<Rightarrow> bool" where
  "accounted ctx heap s \<longleftrightarrow> recorded_some ctx heap s \<or> untouched ctx heap s"

lemma undisturbed_accounted [simp]: "undisturbed (accounted ctx heap)"
  using undisturbed_invariants by (auto simp: accounted_def undisturbed_def)

lemma triple_record_interrupted:
  "triple (unrecorded ctx heap) (record_interrupted env ctx p e) (\<lambda>_. accounted ctx heap) (\<lambda>_. accounted ctx heap)"
  unfolding record_interrupted_def
proof (rule triple_look)
  fix s
  show "triple (\<lambda>s'. unrecorded ctx heap s' \<and> s' = s)
      (case interrupted_status s e of None \<Rightarrow> ret ()
       | Some (status, err, code) \<Rightarrow>
           catch (write_terminal env ctx p status [(''url'', JStr (pe_shown_url env AtEnd))] None (ErrorText err) code)
             (\<lambda>e'. if e' = TaskCancelledHere \<and> e \<noteq> TaskCancelledHere then raise e' else ret ()))
      (\<lambda>_. accounted ctx heap) (\<lambda>_. accounted ctx heap)"
  proof (cases "interrupted_status s e")
    case None
    then have "\<not> begun s \<and> rs_policy_block s = None" by (auto simp: interrupted_status_def split: if_splits)
    with None show ?thesis by (auto simp: accounted_def untouched_def intro!: triple_ret)
  next
    case (Some x)
    obtain status err code where x: "x = (status, err, code)" by (cases x)
    have b: "unrecorded ctx heap s \<Longrightarrow> status \<in> {''ok'', ''error''} \<Longrightarrow> begun s"
      using Some x by (auto simp: interrupted_status_def unrecorded_def progress_ok_def split: if_splits)
    have acc: "recorded ctx heap st s' \<Longrightarrow> accounted ctx heap s'" for st s' by (auto simp: accounted_def recorded_def)
    have "triple (\<lambda>s'. unrecorded ctx heap s' \<and> s' = s)
        (write_terminal env ctx p status [(''url'', JStr (pe_shown_url env AtEnd))] None (ErrorText err) code)
        (\<lambda>_. accounted ctx heap) (\<lambda>_. accounted ctx heap)"
      by (rule triple_strengthen [OF triple_write_terminal]) (use b in \<open>auto intro: acc\<close>)
    then show ?thesis
      using Some x by (auto intro!: triple_catch triple_ret triple_raise)
  qed
qed

lemma triple_run_locked:
  "triple (untouched ctx heap) (run_locked env ctx) (\<lambda>_. recorded ctx heap (\<lambda>x. x = ''ok'')) (\<lambda>_. accounted ctx heap)"
proof -
  let ?N = "untouched ctx heap" and ?R = "recorded ctx heap (\<lambda>x. x = ''ok'')"
  have early: "triple ?N m (\<lambda>_. ?N) (\<lambda>_. accounted ctx heap)" if "keeps ?N m" for m :: "'x action_run"
    by (rule triple_strengthen [OF triple_keeps [OF that]]) (simp_all add: accounted_def)
  have raises: "triple (accounted ctx heap) (raise e') (\<lambda>_ :: members. ?R) (\<lambda>_. accounted ctx heap)" for e'
    by (rule triple_raise)
  have cut: "triple (settled ctx heap)
      (look (\<lambda>s. if rs_recorded s then raise e else seq (record_interrupted env ctx p e) (\<lambda>_. raise e)))
      (\<lambda>_ :: members. ?R) (\<lambda>_. accounted ctx heap)" for e p
    by (intro triple_look triple_if triple_strengthen [OF raises] triple_strengthen [OF triple_seq [OF triple_record_interrupted raises]])
      (auto simp: settled_def accounted_def unrecorded_def recorded_def)
  have main: "triple ?N (catch (execute_and_record env ctx p)
       (\<lambda>e. look (\<lambda>s. if rs_recorded s then raise e else seq (record_interrupted env ctx p e) (\<lambda>_. raise e))))
      (\<lambda>_. ?R) (\<lambda>_. accounted ctx heap)" for p
    by (rule triple_strengthen [OF triple_catch [OF triple_execute_and_record cut]]) (auto simp: untouched_def)
  have live: "keeps ?N (if pe_session_live env then ret () else throw env ClosedSession f)" for f
    by (auto intro!: keeping)
  show ?thesis unfolding run_locked_def
    by (intro triple_seq [OF early] main live keeping undisturbed_invariants)
qed

text \<open>An exception, not a cancellation, that leaves before the effect is on every live hold as the refusal.\<close>

definition refused_all :: "hold_context \<Rightarrow> thrown \<Rightarrow> run_state \<Rightarrow> bool" where
  "refused_all ctx e s \<longleftrightarrow> (\<forall>i f. e = Thrown i f \<longrightarrow> (\<forall>h \<in> set (map snd ctx).
     h_active (rs_heap s h) \<longrightarrow> \<not> h_effect (rs_heap s h) \<longrightarrow> h_refusal (rs_heap s h) = Some (seen_exn i f)))"

lemma triple_run_action:
  assumes "distinct (map snd ctx)"
  shows "triple (untouched ctx heap) (run_action env ctx) (\<lambda>_. recorded ctx heap (\<lambda>x. x = ''ok''))
     (\<lambda>e s. accounted ctx heap s \<and> refused_all ctx e s)"
  unfolding run_action_def
proof (rule triple_catch [OF triple_run_locked])
  fix e
  show "triple (accounted ctx heap) (case e of TaskCancelledHere \<Rightarrow> raise e | Thrown i f \<Rightarrow> seq (mark_refusal ctx i f) (\<lambda>_. raise e))
      (\<lambda>_ :: members. recorded ctx heap (\<lambda>x. x = ''ok'')) (\<lambda>e s. accounted ctx heap s \<and> refused_all ctx e s)"
  proof (cases e)
    case TaskCancelledHere
    then show ?thesis by (auto simp: refused_all_def intro!: triple_raise)
  next
    case (Thrown i f)
    have "accounted ctx heap s \<Longrightarrow> accounted ctx heap (s\<lparr>rs_heap := refused_before_effect (seen_exn i f) ctx (rs_heap s)\<rparr>)" for s
      using undisturbed_accounted [of ctx heap] harmless_updates(5) [of "seen_exn i f" ctx] unfolding undisturbed_def by blast
    moreover have "refused_all ctx (Thrown i f) (s\<lparr>rs_heap := refused_before_effect (seen_exn i f) ctx (rs_heap s)\<rparr>)" for s
      using assms by (auto simp: refused_all_def refused_before_effect_def refused_before_effect_in_apply simp del: seen_exn.simps)
    ultimately show ?thesis
      by (simp add: triple_def Thrown mark_refusal_def seq_def del: seen_exn.simps)
  qed
qed

lemma new_run_untouched: "untouched ctx heap (new_run heap target)"
  by (simp add: untouched_def unrecorded_def new_run_def heap_ok_def progress_ok_def begun_def)

lemma run_action_outcome:
  assumes "run_action env ctx (new_run heap target) = (s, r)" and "distinct (map snd ctx)"
  shows "accounted ctx heap s" and "\<And>v. r = Inr v \<Longrightarrow> recorded ctx heap (\<lambda>x. x = ''ok'') s"
    and "\<And>e. r = Inl e \<Longrightarrow> refused_all ctx e s"
proof -
  note d = tripleD [OF triple_run_action [OF assms(2)] new_run_untouched assms(1)]
  show "accounted ctx heap s" using d by (cases r) (auto simp: accounted_def recorded_def)
  show "\<And>v. r = Inr v \<Longrightarrow> recorded ctx heap (\<lambda>x. x = ''ok'') s" using d by simp
  show "\<And>e. r = Inl e \<Longrightarrow> refused_all ctx e s" using d by simp
qed


section \<open>The approval of an action\<close>

text \<open>The run as the body of the block that holds its approval.\<close>

definition action_block :: "pipeline_env \<Rightarrow> members \<Rightarrow> block" where
  "action_block env target ctx s =
     (case run_action env ctx (new_run (as_heap s) target) of
        (rs, r) \<Rightarrow> (s\<lparr>as_heap := rs_heap rs\<rparr>, ending_of r))"

lemma approval_given_back_iff:
  assumes run: "run_action env ctx (new_run heap target) = (s, r)" and "distinct (map snd ctx)"
    and h: "h \<in> set (map snd ctx)" "h_active (heap h)" "h_may_give_back (heap h)" "\<not> h_effect (heap h)"
  shows "h_effect (rs_heap s h) = begun s" and "gives_back (rs_heap s h) (ending_of r) \<longleftrightarrow> \<not> begun s"
proof -
  note o = run_action_outcome [OF run assms(2)]
  have heap: "heap_ok ctx heap s" using o(1) by (auto simp: accounted_def recorded_def untouched_def unrecorded_def)
  then show eff: "h_effect (rs_heap s h) = begun s" using h by (simp add: heap_ok_def del: set_map)
  have act: "h_active (rs_heap s h)" "h_may_give_back (rs_heap s h)" using heap h by (simp_all add: heap_ok_def)
  show "gives_back (rs_heap s h) (ending_of r) \<longleftrightarrow> \<not> begun s"
  proof
    assume "\<not> begun s"
    with o(2) have "\<exists>e. r = Inl e" by (cases r) (auto simp: recorded_def record_ok_def)
    then obtain e where r: "r = Inl e" by blast
    from o(3) [OF r] h(1) act eff \<open>\<not> begun s\<close>
    have "e = Thrown i f \<Longrightarrow> h_refusal (rs_heap s h) = Some (seen_exn i f)" for i f
      by (auto simp: refused_all_def simp del: seen_exn.simps set_map)
    then show "gives_back (rs_heap s h) (ending_of r)"
      using act eff \<open>\<not> begun s\<close> r by (cases e) (auto simp: gives_back_def gives_back_on_its_own_def simp del: seen_exn.simps)
  qed (use eff in \<open>simp add: gives_back_def split: if_splits\<close>)
qed

end
