(* ===== verification/ActionApproval.thy ===== *)
theory ActionApproval
  imports ActionFacts
begin

text \<open>
  An action under an approval: the run is the body of the block that holds the approval
  (\<open>held_for_execution\<close>), and the block's end settles the approval by what the run did.
\<close>

text \<open>
  C15: the approval an action runs under is spent exactly when the action began its change. Refused, failed or
  cancelled at any point before, the approval comes back (rejected if an operator's reject waited); from the
  change on it stays spent, however the run ends. The action's record tells the same.
\<close>

theorem action_settles_its_approval:
  assumes "store_wf s" and "primary_get s i = Inr r" and "file_usable i"
    and "io_read_ok (env_io aenv) i" "io_before_ok (env_io aenv)" "io_file_ok (env_io aenv)"
      "io_sqlite_ok (env_io aenv)" "\<not> io_cancelled (env_io aenv)"
    and "distinct (map fst (as_claims s))" "distinct (map fst ctx)" "distinct (map snd ctx)"
    and "map_of ctx i = Some h" and "h_approval_id (as_heap s h) = i"
    and "h_active (as_heap s h)" "h_may_give_back (as_heap s h)" "\<not> h_effect (as_heap s h)"
    and "run_action env ctx (new_run (as_heap s) target) = (rs, outcome)"
    and "action_block env target ctx s = (s1, ended)"
    and "end_execution aenv cancelled h ended ctx s1 = (s2, ctx2, out)"
  shows "primary_get s2 i = Inr (if begun rs then r else given_back_record (env_now aenv) (as_heap s1 h) r) \<and>
    (\<forall>x \<in> set (rs_records rs). wa_approval_id (tr_approval x) = Some i \<longrightarrow>
       (wa_status (tr_approval x) = Some ''executed'') = begun rs)"
proof -
  have h: "h \<in> set (map snd ctx)" using map_of_SomeD [OF assms(12)] by force
  note o = run_action_outcome [OF assms(17,11)] and g = approval_given_back_iff [OF assms(17,11) h assms(14-16)]
  have heap: "heap_ok ctx (as_heap s) rs" using o(1) by (auto simp: accounted_def recorded_def untouched_def unrecorded_def)
  have s1: "s1 = s\<lparr>as_heap := rs_heap rs\<rparr>" and ended: "ended = ending_of outcome"
    using assms(17,18) by (simp_all add: action_block_def)
  have prim: "primary_get s1 = primary_get s" and wf: "store_wf s1"
    using assms(1) by (simp_all add: s1)
  have i: "h_approval_id (as_heap s1 h) = i" using heap assms(13) by (simp add: s1 heap_ok_def)
  have "primary_get s2 = (if gives_back (as_heap s1 h) ended
      then (primary_get s1)(i := Inr (given_back_record (env_now aenv) (as_heap s1 h) r)) else primary_get s1)"
    using end_execution_result(1) [OF wf, of h r aenv ctx cancelled ended s2 ctx2 out] assms(2-10,19) prim i
    by (simp add: s1)
  moreover have "gives_back (as_heap s1 h) ended = (\<not> begun rs)" using g(2) by (simp add: s1 ended)
  ultimately have "primary_get s2 i = Inr (if begun rs then r else given_back_record (env_now aenv) (as_heap s1 h) r)"
    using assms(2) prim by simp
  moreover have "wa_status (tr_approval x) = Some ''executed'' \<longleftrightarrow> begun rs"
    if "x \<in> set (rs_records rs)" "wa_approval_id (tr_approval x) = Some i" for x
    using that o(1) assms(12,14,16)
    by (auto simp: accounted_def recorded_def untouched_def unrecorded_def record_ok_def)
  ultimately show ?thesis by blast
qed

section \<open>A sample\<close>

definition quiet_env :: pipeline_env where
  "quiet_env =
     \<lparr>pe_action = ''click'',
      pe_witness = no_witness_context\<lparr>wctx_approval_id := Some ''a1''\<rparr>,
      pe_session = \<lparr>ws_session_id = ''s1'', ws_profile = Normal, ws_isolation_mode = ''shared'', ws_shared_takeover_surface = False,
        ws_shared_browser_process = False, ws_auth_state_encrypted = True, ws_operator = ANONYMOUS\<rparr>,
      pe_session_live = True, pe_gated = True, pe_gate_live = (\<lambda>_. True), pe_page_refused = (\<lambda>_. None), pe_landed_refused = None,
      pe_url_off_list = False, pe_shown_url = (\<lambda>_. ''https://a/''), pe_remote_required = False, pe_remote_enabled = False,
      pe_ends = (\<lambda>_. None), pe_report = (\<lambda>_. [(''url'', JStr ''https://a/'')]), pe_blocks = [], pe_delivery = None, pe_totp = None,
      pe_challenge = None, pe_pieces = 0, pe_write_cancelled = False, pe_id = (\<lambda>_. 0), pe_decisions = (\<lambda>_ _ x. x)\<rparr>"

text \<open>The page moved off the list after it was read: the click is blocked before it begins.\<close>

definition blocked_env :: pipeline_env where
  "blocked_env = quiet_env\<lparr>pe_page_refused := (\<lambda>at_look. if at_look = AtPrepare then None else Some ''not allowed'')\<rparr>"

definition held_store :: approval_store where
  "held_store = held_sample\<lparr>as_heap := (\<lambda>_. (new_hold ''a1'' ActionOrigin)\<lparr>h_may_give_back := True\<rparr>)\<rparr>"

definition blocked_run :: "run_state \<times> (thrown + members)" where
  "blocked_run = run_action blocked_env [(''a1'', 0)] (new_run (as_heap held_store) [])"

lemma blocked_run_facts:
  "\<not> begun (fst blocked_run)" "map tr_status (rs_records (fst blocked_run)) = [''blocked'']"
  "map (\<lambda>x. wa_approval_id (tr_approval x)) (rs_records (fst blocked_run)) = [Some ''a1'']"
  "h_rejection (rs_heap (fst blocked_run) 0) = None"
  by code_simp+

theorem action_settles_its_approval_witness:
  "\<exists>x. primary_get (fst (end_execution sample_env False 0 (snd (action_block blocked_env [] [(''a1'', 0)] held_store))
      [(''a1'', 0)] (fst (action_block blocked_env [] [(''a1'', 0)] held_store)))) ''a1'' = Inr x \<and> ar_status x = Approved"
proof -
  let ?b = "action_block blocked_env [] [(''a1'', 0)] held_store"
  let ?e = "end_execution sample_env False 0 (snd ?b) [(''a1'', 0)] (fst ?b)"
  have wf: "store_wf held_store"
    by (simp add: store_wf_def held_store_def held_sample_def file_sample_def sample_store_def file_wf_def file_usable_def
        executed_record_def sample_record_def)
  have r: "primary_get held_store ''a1'' = Inr (executed_record 20 sample_record)"
    by (simp add: primary_get_def primary_is_sqlite_def held_store_def held_sample_def file_sample_def sample_store_def file_get_def)
  have run: "run_action blocked_env [(''a1'', 0)] (new_run (as_heap held_store) []) = (fst blocked_run, snd blocked_run)"
    by (simp add: blocked_run_def)
  have b: "?b = (fst ?b, snd ?b)" and e: "?e = (fst ?e, fst (snd ?e), snd (snd ?e))" by simp_all
  have rej: "h_rejection (as_heap (fst ?b) 0) = None"
    using blocked_run_facts(4) by (simp add: action_block_def run case_prod_beta)
  show ?thesis
    using action_settles_its_approval [OF wf r _ _ _ _ _ _ _ _ _ _ _ _ _ _ run b e] blocked_run_facts(1) rej
    by (simp add: held_store_def held_sample_def file_usable_def sample_env_def sample_io_def)
qed


end
