(* ===== verification/ApprovalService.thy ===== *)
theory ApprovalService
  imports ActionApproval
begin

text \<open>
  What callers of the API may do with approvals (browser/services/approvals.py): listing, reading, deciding and
  executing them, each only for an operator who may use the approval, and the trail each leaves.
\<close>

text \<open>What is known of an approval's session: whether it has a record or is live, and its owner.\<close>

type_synonym owner_lookup = "bool \<times> string option"

record approval_service =
  sv_store :: approval_store
  sv_lookup :: "string \<Rightarrow> owner_lookup"
  sv_live :: "string \<Rightarrow> bool"                     \<comment> \<open>sessions of this controller\<close>
  sv_named :: bool                                \<comment> \<open>named credentials are configured\<close>
  sv_audit :: "approval_audit list"
  sv_receipts :: "(string \<times> string \<times> approval_status) list"  \<comment> \<open>approval, action and status\<close>

section \<open>Who may use an approval\<close>

definition owner_from :: "approval_record \<Rightarrow> owner_lookup option \<Rightarrow> string option" where
  "owner_from r lookup = (case lookup of Some (True, owner) \<Rightarrow> owner | _ \<Rightarrow> ar_owner r)"

definition usable_approval :: "bool \<Rightarrow> operator_var \<Rightarrow> approval_record \<Rightarrow> owner_lookup option \<Rightarrow> bool" where
  "usable_approval named cur r lookup =
     (if named \<and> (case lookup of Some (False, _) \<Rightarrow> True | _ \<Rightarrow> False) \<and> ar_owner r = None then False
      else may_use cur (owner_from r lookup))"

definition lookup_of :: "approval_service \<Rightarrow> approval_record \<Rightarrow> owner_lookup option" where
  "lookup_of sv r = (if ar_session_id r = CONTROLLER_SCOPE then None else Some (sv_lookup sv (ar_session_id r)))"

definition may_use_approval :: "operator_var \<Rightarrow> approval_service \<Rightarrow> approval_record \<Rightarrow> bool" where
  "may_use_approval cur sv r = usable_approval (sv_named sv) cur r (lookup_of sv r)"

definition accessible_approval :: "approval_env \<Rightarrow> string \<Rightarrow> approval_service \<Rightarrow> approval_error + approval_record" where
  "accessible_approval env i sv =
     (case store_get (env_io env) (sv_store sv) i of
        Inl e \<Rightarrow> Inl e
      | Inr r \<Rightarrow> if may_use_approval (env_operator env) sv r then Inr r else Inl (KeyErr i))"

section \<open>Reading\<close>

definition list_approvals ::
  "approval_env \<Rightarrow> approval_status option \<Rightarrow> string option \<Rightarrow> approval_service \<Rightarrow> approval_record list" where
  "list_approvals env status session_id sv =
     filter (may_use_approval (env_operator env) sv) (store_list (sv_store sv) status session_id)"

definition get_approval :: "approval_env \<Rightarrow> string \<Rightarrow> approval_service \<Rightarrow> approval_error + approval_record" where
  "get_approval = accessible_approval"

definition approval_arguments ::
  "approval_env \<Rightarrow> string \<Rightarrow> approval_service \<Rightarrow> approval_error + approval_record \<times> string" where
  "approval_arguments env i sv =
     (case accessible_approval env i sv of
        Inl e \<Rightarrow> Inl e
      | Inr r \<Rightarrow> (case store_arguments (sv_store sv) (ar_id r) of Inl e \<Rightarrow> Inl e | Inr text \<Rightarrow> Inr (r, text)))"

section \<open>Deciding\<close>

definition audit_entry ::
  "string \<Rightarrow> string \<Rightarrow> string \<Rightarrow> approval_record \<Rightarrow> (string option \<times> approval_decider option) option \<Rightarrow> approval_audit" where
  "audit_entry event_type status action r decision =
     \<lparr>aa_event_type = event_type, aa_status = status, aa_action = action, aa_session_id = ar_session_id r,
      aa_approval_id = ar_id r, aa_kind = ar_kind r, aa_decision = decision\<rparr>"

definition service_audit ::
  "string \<Rightarrow> string \<Rightarrow> string \<Rightarrow> approval_record \<Rightarrow> (string option \<times> approval_decider option) option \<Rightarrow>
   approval_service \<Rightarrow> approval_service" where
  "service_audit event_type status action r decision sv =
     sv\<lparr>sv_audit := sv_audit sv @ [audit_entry event_type status action r decision]\<rparr>"

text \<open>A decision's receipt goes into its session's chain, if the session is live.\<close>

definition decision_receipt :: "string \<Rightarrow> approval_record \<Rightarrow> approval_service \<Rightarrow> approval_service" where
  "decision_receipt action r sv =
     (if sv_live sv (ar_session_id r) then sv\<lparr>sv_receipts := sv_receipts sv @ [(ar_id r, action, ar_status r)]\<rparr> else sv)"

datatype decision_note = ClaimWithdrawn | GivenBackApproved | GivenBackExpired | StaysSpent | StopsIfNotBegun

definition withdrawal_note :: "approval_env \<Rightarrow> on_claim \<Rightarrow> approval_record \<Rightarrow> decision_note" where
  "withdrawal_note env c r =
     (if c = WithdrawnSpent then StaysSpent
      else if c = WithdrawnAfterRefusal then (if has_expired (env_check_now env) r then GivenBackExpired else GivenBackApproved)
      else ClaimWithdrawn)"

definition approve_approval ::
  "approval_env \<Rightarrow> string \<Rightarrow> string option \<Rightarrow> approval_decider \<Rightarrow> approval_service \<Rightarrow>
   approval_service \<times> (approval_error + approval_record \<times> decision_note option)" where
  "approve_approval env i comment decided_via sv =
     (case accessible_approval env i sv of
        Inl e \<Rightarrow> (sv, Inl e)
      | Inr _ \<Rightarrow>
     (case decide env i Approved comment decided_via (sv_store sv) of
        (s, Inl e) \<Rightarrow> (sv\<lparr>sv_store := s\<rparr>, Inl e)
      | (s, Inr d) \<Rightarrow>
          let r = dec_record d; sv' = sv\<lparr>sv_store := s\<rparr>; decision = Some (comment, Some decided_via) in
          case dec_on_claim d of
            Some c \<Rightarrow>
              (let sv'' = service_audit ''approval_decision'' ''withdrawn'' ''approve'' r decision sv' in
               (if c = WithdrawnAfterRefusal then decision_receipt ''approve'' (r\<lparr>ar_status := Approved\<rparr>) sv'' else sv'',
                Inr (r, Some (withdrawal_note env c r))))
          | None \<Rightarrow>
              (decision_receipt ''approve'' r (service_audit ''approval_decision'' ''approved'' ''approve'' r decision sv'),
               Inr (r, None))))"

definition reject_approval ::
  "approval_env \<Rightarrow> string \<Rightarrow> string option \<Rightarrow> approval_decider \<Rightarrow> approval_service \<Rightarrow>
   approval_service \<times> (approval_error + approval_record \<times> decision_note option)" where
  "reject_approval env i comment decided_via sv =
     (case accessible_approval env i sv of
        Inl e \<Rightarrow> (sv, Inl e)
      | Inr _ \<Rightarrow>
     (case reject env i comment decided_via (sv_store sv) of
        (s, Inl e) \<Rightarrow> (sv\<lparr>sv_store := s\<rparr>, Inl e)
      | (s, Inr r) \<Rightarrow>
          let sv' = sv\<lparr>sv_store := s\<rparr>; decision = Some (comment, Some decided_via) in
          if ar_status r = Executed then
            (service_audit ''approval_decision'' ''deferred'' ''reject'' r decision sv', Inr (r, Some StopsIfNotBegun))
          else
            (decision_receipt ''reject'' r (service_audit ''approval_decision'' ''rejected'' ''reject'' r decision sv'),
             Inr (r, None))))"

text \<open>\<open>rejection_receipt\<close>: the receipt of a deferred reject that a give-back applied.\<close>

definition rejection_receipt :: "approval_record \<Rightarrow> approval_service \<Rightarrow> approval_service" where
  "rejection_receipt = decision_receipt ''reject''"

section \<open>Executing\<close>

datatype execution_refusal =
    StoreRefuses approval_error | ControllerWide | ForAToolCall | TakeoverStandIn | EndsTheRun | NoSuchSession string
  | MissingUpload string

text \<open>The checks before the claim: the approval, then the session, then an upload's file.\<close>

definition execution_checks ::
  "approval_env \<Rightarrow> (string \<Rightarrow> bool) \<Rightarrow> string \<Rightarrow> approval_service \<Rightarrow>
   approval_service \<times> (execution_refusal + approval_record \<times> action_decision)" where
  "execution_checks env upload_ok i sv =
     (case accessible_approval env i sv of
        Inl e \<Rightarrow> (sv, Inl (StoreRefuses e))
      | Inr r \<Rightarrow>
          if ar_status r = Executed then (sv, Inl (StoreRefuses (refusal_for_executed (sv_store sv) r)))
          else if ar_status r \<noteq> Approved then (sv, Inl (StoreRefuses (NotApproved i)))
          else if ar_session_id r = CONTROLLER_SCOPE then (sv, Inl ControllerWide)
          else if ar_origin r = ToolCallOrigin then (sv, Inl ForAToolCall)
          else if act_action (ar_action r) = ''request_human_takeover'' then (sv, Inl TakeoverStandIn)
          else if act_action (ar_action r) = ''done'' then (sv, Inl EndsTheRun)
          else
            case executable_action (env_monotonic env) r (sv_store sv) of
              (s, Inl e) \<Rightarrow> (sv\<lparr>sv_store := s\<rparr>, Inl (StoreRefuses e))
            | (s, Inr d) \<Rightarrow>
                let sv' = sv\<lparr>sv_store := s\<rparr> in
                if \<not> sv_live sv (ar_session_id r) \<or> \<not> may_use (env_operator env) (snd (sv_lookup sv (ar_session_id r)))
                then (sv', Inl (NoSuchSession (ar_session_id r)))
                else if act_action d = ''upload'' \<and> \<not> upload_ok (the_default [] (act_file_path d))
                then (sv', Inl (MissingUpload (the_default [] (act_file_path d))))
                else (sv', Inr (r, d)))"

text \<open>
  The execution: the approved action, whatever it is (an upload or \<open>execute_decision\<close>), runs in the block that
  holds the approval; afterwards the trail says that it was executed.
\<close>

definition execute_approval ::
  "approval_env \<Rightarrow> approval_env \<Rightarrow> (string \<Rightarrow> bool) \<Rightarrow> string \<Rightarrow> exn \<Rightarrow> bool \<Rightarrow> (approval_record \<Rightarrow> action_decision \<Rightarrow> block) \<Rightarrow>
   hold_context \<Rightarrow> approval_service \<Rightarrow> approval_service \<times> hold_context \<times> (execution_refusal + outcome)" where
  "execute_approval env env' upload_ok i x cancelled run ctx sv =
     (case execution_checks env upload_ok i sv of
        (sv1, Inl e) \<Rightarrow> (sv1, ctx, Inl e)
      | (sv1, Inr (r, d)) \<Rightarrow>
     (case held_for_execution env env' (ar_id r) True x cancelled (run r d) ctx (sv_store sv1) of
        (s, ctx', Inl e) \<Rightarrow> (sv1\<lparr>sv_store := s\<rparr>, ctx', Inl (StoreRefuses e))
      | (s, ctx', Inr (Ended Returned)) \<Rightarrow>
          (let sv2 = sv1\<lparr>sv_store := s\<rparr> in
           case store_get (env_io env') s (ar_id r) of
             Inl e \<Rightarrow> (sv2, ctx', Inl (StoreRefuses e))
           | Inr latest \<Rightarrow>
               let sv3 = service_audit ''approval_executed'' ''ok'' ''execute_approval'' r None sv2 in
               (if sv_live sv3 (ar_session_id r)
                then sv3\<lparr>sv_receipts := sv_receipts sv3 @ [(ar_id r, ''execute_approval'', ar_status latest)]\<rparr> else sv3,
                ctx', Inr (Ended Returned)))
      | (s, ctx', Inr out) \<Rightarrow> (sv1\<lparr>sv_store := s\<rparr>, ctx', Inr out)))"

section \<open>Another operator's approval\<close>

lemma accessible_approval_Inr:
  "accessible_approval env i sv = Inr r \<longleftrightarrow>
   store_get (env_io env) (sv_store sv) i = Inr r \<and> may_use_approval (env_operator env) sv r"
  by (cases "store_get (env_io env) (sv_store sv) i") (auto simp: accessible_approval_def simp del: store_get_Inr)

text \<open>
  C29: an approval the caller may not use answers every call as if it did not exist, and none of them changes
  or records anything.
\<close>

theorem hidden_approval_reads_as_missing:
  assumes "store_get (env_io env) (sv_store sv) i = Inr r" and "\<not> may_use_approval (env_operator env) sv r"
  shows "get_approval env i sv = Inl (KeyErr i) \<and> approval_arguments env i sv = Inl (KeyErr i) \<and>
    approve_approval env i comment via sv = (sv, Inl (KeyErr i)) \<and>
    reject_approval env i comment via sv = (sv, Inl (KeyErr i)) \<and>
    execute_approval env env' upload_ok i x cancelled run ctx sv = (sv, ctx, Inl (StoreRefuses (KeyErr i))) \<and>
    r \<notin> set (list_approvals env status session_id sv)"
proof -
  have "accessible_approval env i sv = Inl (KeyErr i)" using assms by (simp add: accessible_approval_def del: store_get_Inr)
  then show ?thesis using assms(2)
    by (simp add: get_approval_def approval_arguments_def approve_approval_def reject_approval_def execute_approval_def
        execution_checks_def list_approvals_def)
qed

lemma execution_checks_pass:
  assumes "execution_checks env upload_ok i sv = (sv', Inr (r, d))"
  shows "primary_get (sv_store sv) i = Inr r \<and> may_use_approval (env_operator env) sv r \<and> ar_status r = Approved \<and>
    ar_session_id r \<noteq> CONTROLLER_SCOPE \<and> ar_origin r = ActionOrigin \<and> \<not> not_executable (act_action d) \<and>
    sv_live sv (ar_session_id r) \<and> d = (ar_action r)\<lparr>act_text := act_text d\<rparr> \<and>
    (act_action d = ''upload'' \<longrightarrow> upload_ok (the_default [] (act_file_path d)))"
proof -
  obtain r' where r': "accessible_approval env i sv = Inr r'"
    using assms by (auto simp: execution_checks_def split: sum.splits)
  obtain s ed where ex: "executable_action (env_monotonic env) r' (sv_store sv) = (s, ed)"
    by (cases "executable_action (env_monotonic env) r' (sv_store sv)")
  have all: "r' = r \<and> ed = Inr d \<and> ar_status r = Approved \<and> ar_session_id r \<noteq> CONTROLLER_SCOPE \<and>
      ar_origin r \<noteq> ToolCallOrigin \<and> act_action (ar_action r) \<noteq> ''request_human_takeover'' \<and> act_action (ar_action r) \<noteq> ''done'' \<and>
      sv_live sv (ar_session_id r) \<and> (act_action d = ''upload'' \<longrightarrow> upload_ok (the_default [] (act_file_path d)))"
    using assms r' ex by (auto simp: execution_checks_def Let_def split: if_splits sum.splits)
  moreover have "act_action d = act_action (ar_action r)" "d = (ar_action r)\<lparr>act_text := act_text d\<rparr>"
    using all ex by (auto simp: executable_action_def held_text_def Let_def split: if_splits option.splits)
  moreover have "primary_get (sv_store sv) i = Inr r'" "may_use_approval (env_operator env) sv r'"
    using r' by (auto simp: accessible_approval_Inr)
  moreover have "ar_origin r = ActionOrigin" using all by (cases "ar_origin r") auto
  ultimately show ?thesis by (simp add: not_executable_def)
qed


section \<open>A sample\<close>

definition sample_approvals :: "string option \<Rightarrow> approval_service" where
  "sample_approvals owner = \<lparr>sv_store = file_sample\<lparr>as_texts := [(''a1'', ''hunter2'', 19)]\<rparr>, sv_lookup = (\<lambda>_. (True, owner)),
     sv_live = (\<lambda>_. True), sv_named = True, sv_audit = [], sv_receipts = []\<rparr>"

theorem hidden_approval_reads_as_missing_witness:
  "get_approval sample_env ''a1'' (sample_approvals (Some ''ann'')) = Inl (KeyErr ''a1'') \<and>
   reject_approval sample_env ''a1'' None Operator (sample_approvals (Some ''ann'')) = (sample_approvals (Some ''ann''), Inl (KeyErr ''a1''))"
proof -
  have "store_get (env_io sample_env) (sv_store (sample_approvals (Some ''ann''))) ''a1'' = Inr sample_record"
    using sample_gets(1)
    by (simp add: sample_approvals_def sample_env_def sample_io_def primary_get_def primary_is_sqlite_def)
  moreover have "\<not> may_use_approval (env_operator sample_env) (sample_approvals (Some ''ann'')) sample_record"
    by code_simp
  ultimately show ?thesis using hidden_approval_reads_as_missing by blast
qed

definition leaves_alone :: "approval_record \<Rightarrow> action_decision \<Rightarrow> block" where
  "leaves_alone r d ctx s = (s, Returned)"

definition sets_ttl :: "approval_record \<Rightarrow> action_decision \<Rightarrow> block" where
  "sets_ttl r d ctx s = (s\<lparr>as_ttl := 5\<rparr>, Returned)"


end
