(* ===== verification/ActionDispatch.thy ===== *)
theory ActionDispatch
  imports ApprovalService
begin

text \<open>
  From a decision to its run (browser/services/actions.py, browser/services/uploads.py): what is refused before
  anything runs, the approval a decision needs, and the block its action runs in. What the page does is the
  parameter \<open>run\<close>; \<open>run_action\<close> is its instance.
\<close>

section \<open>Targets\<close>

definition valid_element_id :: "string \<Rightarrow> bool" where
  "valid_element_id s \<longleftrightarrow> take 3 s = ''op-'' \<and> length s = 27 \<and> list_all (\<lambda>c. c \<in> set ''0123456789abcdef'') (drop 3 s)"

definition HINT_START :: string where
  "HINT_START = ''[data-operator-id=''@ [CHR 0x22]"

definition HINT_END :: string where
  "HINT_END = [CHR 0x22] @ '']''"

definition selector_hint :: "string \<Rightarrow> string" where
  "selector_hint element_id = HINT_START @ element_id @ HINT_END"

definition hinted_element_id :: "string option \<Rightarrow> string option" where
  "hinted_element_id selector =
     (case selector of
        None \<Rightarrow> None
      | Some s \<Rightarrow>
          let inner = take (length s - length HINT_START - length HINT_END) (drop (length HINT_START) s) in
          if s = selector_hint inner \<and> CHR 0x22 \<notin> set inner then Some inner else None)"

datatype target = ByElement string | BySelector string | ByPoint

text \<open>\<open>None\<close>: refused, a malformed element id or nothing to act on.\<close>

definition resolve_target :: "string option \<Rightarrow> string option \<Rightarrow> bool \<Rightarrow> target option" where
  "resolve_target selector element_id has_point =
     (let named = (if truthy element_id then element_id else hinted_element_id selector) in
      case named of
        Some i \<Rightarrow> if valid_element_id i then Some (ByElement i) else None
      | None \<Rightarrow> if truthy selector then Some (BySelector (the selector)) else if has_point then Some ByPoint else None)"

section \<open>Refusals\<close>

datatype dispatch_refusal =
    NoSession | NothingRuns | HostRefused | FileRefused | BadTarget | StoreSaid approval_error
  | ApprovalRequired approval_record

record dispatch_env =
  dp_ask :: approval_env                         \<comment> \<open>asking for an approval, or checking the one presented\<close>
  dp_claim :: approval_env
  dp_end :: approval_env
  dp_session :: string
  dp_session_ok :: bool                          \<comment> \<open>live, and the caller may use it\<close>
  dp_host_ok :: bool                             \<comment> \<open>ALLOWED_HOSTS passes a navigate's URL\<close>
  dp_file_ok :: "string \<Rightarrow> bool"                 \<comment> \<open>\<open>safe_path\<close> finds the upload\<close>
  dp_uploads_need_approval :: bool
  dp_observation :: "string option"
  dp_exn :: exn                                  \<comment> \<open>the exception object a refusal raises\<close>
  dp_cancelled :: bool

fun refusal_kind :: "dispatch_refusal \<Rightarrow> exn_kind" where
  "refusal_kind NoSession = SessionNotFoundError"
| "refusal_kind BadTarget = BrowserActionError"
| "refusal_kind (ApprovalRequired r) = ApprovalRequiredError"
| "refusal_kind (StoreSaid SessionNotFound) = SessionNotFoundError"
| "refusal_kind _ = OtherException"

definition refusal_exn :: "dispatch_env \<Rightarrow> dispatch_refusal \<Rightarrow> exn" where
  "refusal_exn env e = (dp_exn env)\<lparr>exn_kind := refusal_kind e\<rparr>"

text \<open>Refused, and said so on every hold of the task; a cancellation is no refusal.\<close>

definition refuse_marked ::
  "dispatch_env \<Rightarrow> dispatch_refusal \<Rightarrow> hold_context \<Rightarrow> approval_store \<Rightarrow> approval_store \<times> (dispatch_refusal + 'a)" where
  "refuse_marked env e ctx s =
     (if e = StoreSaid CancelledErr then s else s\<lparr>as_heap := refused_before_effect (refusal_exn env e) ctx (as_heap s)\<rparr>, Inl e)"

section \<open>The approval of a decision\<close>

definition ask_for_approval ::
  "dispatch_env \<Rightarrow> string option \<Rightarrow> action_decision \<Rightarrow> string option \<Rightarrow> string option \<Rightarrow> approval_kind option \<Rightarrow> approval_origin \<Rightarrow>
   string option \<Rightarrow> hold_context \<Rightarrow> approval_store \<Rightarrow> approval_store \<times> (dispatch_refusal + approval_record option)" where
  "ask_for_approval env session d approval_id fallback_reason approval_kind origin arguments ctx s =
     (if session = Some CONTROLLER_SCOPE then (s, Inl NoSession)
      else if origin = ActionOrigin \<and> not_executable (act_action d) then (s, Inl NothingRuns)
      else
        case (if approval_kind \<noteq> None then approval_kind else approval_kind_for_decision (dp_uploads_need_approval env) d) of
          None \<Rightarrow> (s, Inr None)
        | Some kind \<Rightarrow>
            let scope = the_default CONTROLLER_SCOPE session in
            if truthy approval_id then
              (case require_approved (dp_ask env) (the approval_id) scope kind d origin ctx s of
                 Inl e \<Rightarrow> (s, Inl (StoreSaid e))
               | Inr r \<Rightarrow> (s, Inr (Some r)))
            else if session \<noteq> None \<and> \<not> dp_session_ok env then (s, Inl NoSession)
            else
              case create_or_reuse_pending (dp_ask env) scope kind
                     (the_default (act_reason d) (or_none fallback_reason)) d
                     (if session = None then None else dp_observation env) origin arguments s of
                (s', Inl e) \<Rightarrow> (s', Inl (StoreSaid e))
              | (s', Inr r) \<Rightarrow> (s', Inl (ApprovalRequired r)))"

definition require_decision_approval ::
  "dispatch_env \<Rightarrow> string option \<Rightarrow> action_decision \<Rightarrow> string option \<Rightarrow> string option \<Rightarrow> approval_kind option \<Rightarrow> approval_origin \<Rightarrow>
   string option \<Rightarrow> hold_context \<Rightarrow> approval_store \<Rightarrow> approval_store \<times> (dispatch_refusal + approval_record option)" where
  "require_decision_approval env session d approval_id fallback_reason approval_kind origin arguments ctx s =
     (case ask_for_approval env session d approval_id fallback_reason approval_kind origin arguments ctx s of
        (s', Inl e) \<Rightarrow> refuse_marked env e ctx s'
      | (s', Inr found) \<Rightarrow> (s', Inr found))"

definition GOVERNED_REASON :: "action_decision \<Rightarrow> string" where
  "GOVERNED_REASON d = ''Governed workflow requires operator approval before executing '' @
     the_default ''write'' (or_none (act_risk_category d)) @ '' action '' @ [CHR 0x27] @ act_action d @ [CHR 0x27] @ ''.''"

definition require_governed_approval ::
  "dispatch_env \<Rightarrow> string option \<Rightarrow> action_decision \<Rightarrow> string option \<Rightarrow> string option \<Rightarrow> approval_origin \<Rightarrow> string option \<Rightarrow>
   hold_context \<Rightarrow> approval_store \<Rightarrow> approval_store \<times> (dispatch_refusal + approval_record option)" where
  "require_governed_approval env session d approval_id reason origin arguments ctx s =
     (case governed_approval_kind_for_decision d of
        None \<Rightarrow> (s, if origin = ActionOrigin \<and> not_executable (act_action d) then Inl NothingRuns else Inr None)
      | Some kind \<Rightarrow>
          if act_action d = ''navigate'' \<and> \<not> dp_host_ok env then refuse_marked env HostRefused ctx s
          else require_decision_approval env session d approval_id (Some (the_default (GOVERNED_REASON d) (or_none reason)))
                 (Some kind) origin arguments ctx s)"

section \<open>Running a decision\<close>

text \<open>How a block that holds an approval ended, as its caller sees it.\<close>

definition ending_of_hold :: "dispatch_env \<Rightarrow> approval_error + outcome \<Rightarrow> ending" where
  "ending_of_hold env r =
     (case r of
        Inr (Ended e) \<Rightarrow> e
      | Inr (GiveBackFailed e) \<Rightarrow> if e = CancelledErr then CancelledEnding else Raised (refusal_exn env (StoreSaid e))
      | Inl e \<Rightarrow> if e = CancelledErr then CancelledEnding else Raised (refusal_exn env (StoreSaid e)))"

definition run_held :: "dispatch_env \<Rightarrow> string \<Rightarrow> block \<Rightarrow> hold_context \<Rightarrow> approval_store \<Rightarrow> approval_store \<times> ending" where
  "run_held env i run ctx s =
     (case held_for_execution (dp_claim env) (dp_end env) i True (refusal_exn env (StoreSaid OtherError)) (dp_cancelled env) run ctx s of
        (s', ctx', r) \<Rightarrow> (s', ending_of_hold env r))"

text \<open>The decision the upload service builds for the approval it checks.\<close>

definition upload_decision :: "string option \<Rightarrow> string option \<Rightarrow> string \<Rightarrow> action_decision" where
  "upload_decision selector element_id file_path =
     \<lparr>act_action = ''upload'', act_reason = ''Manual upload request'', act_confidence = None, act_risk_category = Some ''upload'',
      act_element_id = element_id, act_selector = selector, act_x = None, act_y = None, act_text = None, act_clear_first = True,
      act_sensitive = False, act_key = None, act_value = None, act_label = None, act_index = None, act_delta_x = 0,
      act_delta_y = 600, act_wait_ms = 1000, act_url = None, act_file_path = Some file_path, act_recipient = None,
      act_platform = None, act_username = None\<rparr>"

definition upload_action ::
  "dispatch_env \<Rightarrow> string option \<Rightarrow> string option \<Rightarrow> string \<Rightarrow> string option \<Rightarrow> (target \<Rightarrow> block) \<Rightarrow> hold_context \<Rightarrow>
   approval_store \<Rightarrow> approval_store \<times> (dispatch_refusal + ending)" where
  "upload_action env selector element_id file_path approval_id run ctx s =
     (if \<not> dp_session_ok env then refuse_marked env NoSession ctx s
      else if \<not> dp_file_ok env file_path then refuse_marked env FileRefused ctx s
      else
        case require_decision_approval env (Some (dp_session env)) (upload_decision selector element_id file_path) approval_id
               (Some ''Upload actions require approval'') None ActionOrigin None ctx s of
          (s', Inl e) \<Rightarrow> (s', Inl e)
        | (s', Inr found) \<Rightarrow>
            (case resolve_target selector element_id False of
               None \<Rightarrow> (s', Inl BadTarget)
             | Some target \<Rightarrow>
                 (case found of
                    None \<Rightarrow> (case run target ctx s' of (s'', ended) \<Rightarrow> (s'', Inr ended))
                  | Some r \<Rightarrow> (case run_held env (ar_id r) (run target) ctx s' of (s'', ended) \<Rightarrow> (s'', Inr ended)))))"

definition ending_of_dispatch :: "dispatch_env \<Rightarrow> dispatch_refusal + ending \<Rightarrow> ending" where
  "ending_of_dispatch env r =
     (case r of Inr ended \<Rightarrow> ended
      | Inl e \<Rightarrow> if e = StoreSaid CancelledErr then CancelledEnding else Raised (refusal_exn env e))"

text \<open>
  \<open>_dispatch_decision\<close>: an upload goes through the upload service, anything else runs; a failure is recorded
  for the holder of the approval (\<open>_dispatch_recorded\<close>).
\<close>

definition dispatch_decision ::
  "dispatch_env \<Rightarrow> action_decision \<Rightarrow> string option \<Rightarrow> (action_decision \<Rightarrow> block) \<Rightarrow> (target \<Rightarrow> block) \<Rightarrow> block" where
  "dispatch_decision env d approval_id run run_upload ctx s =
     (if act_action d = ''upload'' then
        (case upload_action env (act_selector d) (act_element_id d) (the_default [] (act_file_path d)) approval_id run_upload ctx s of
           (s', r) \<Rightarrow> (s', ending_of_dispatch env r))
      else run d ctx s)"

definition dispatch_recorded :: "block \<Rightarrow> block" where
  "dispatch_recorded body ctx s =
     (case body ctx s of
        (s', Raised e) \<Rightarrow> (s'\<lparr>as_heap := refused_before_effect e ctx (as_heap s')\<rparr>, Raised e)
      | (s', ended) \<Rightarrow> (s', ended))"

definition execute_decision ::
  "dispatch_env \<Rightarrow> action_decision \<Rightarrow> string option \<Rightarrow> (action_decision \<Rightarrow> block) \<Rightarrow> (target \<Rightarrow> block) \<Rightarrow> hold_context \<Rightarrow>
   approval_store \<Rightarrow> approval_store \<times> (dispatch_refusal + ending)" where
  "execute_decision env d approval_id run run_upload ctx s =
     (if \<not> dp_session_ok env then refuse_marked env NoSession ctx s
      else if not_executable (act_action d) then refuse_marked env NothingRuns ctx s
      else if act_action d = ''navigate'' \<and> \<not> dp_host_ok env then refuse_marked env HostRefused ctx s
      else if act_action d = ''upload'' \<and> \<not> dp_file_ok env (the_default [] (act_file_path d)) then refuse_marked env FileRefused ctx s
      else
        case require_decision_approval env (Some (dp_session env)) d approval_id None None ActionOrigin None ctx s of
          (s', Inl e) \<Rightarrow> (s', Inl e)
        | (s', Inr found) \<Rightarrow>
            let body = dispatch_recorded (dispatch_decision env d approval_id run run_upload) in
            case (if act_action d = ''upload'' then None else found) of
              None \<Rightarrow> (case body ctx s' of (s'', ended) \<Rightarrow> (s'', Inr ended))
            | Some r \<Rightarrow> (case run_held env (ar_id r) body ctx s' of (s'', ended) \<Rightarrow> (s'', Inr ended)))"

section \<open>What a decision needs before it runs\<close>

lemma require_decision_approval_Inr:
  "require_decision_approval env session d aid reason kind origin arguments ctx s = (s', Inr found) \<Longrightarrow>
   s' = s \<and>
   (case (if kind \<noteq> None then kind else approval_kind_for_decision (dp_uploads_need_approval env) d) of
      None \<Rightarrow> found = None
    | Some k \<Rightarrow> \<exists>r. truthy aid \<and> found = Some r \<and>
        require_approved (dp_ask env) (the aid) (the_default CONTROLLER_SCOPE session) k d origin ctx s = Inr r)"
  by (auto simp: require_decision_approval_def ask_for_approval_def refuse_marked_def Let_def
      split: prod.splits sum.splits option.splits if_splits)


section \<open>What a refusal gives back\<close>

lemma refused_before_effect_in_refusal:
  "h_active (heap k) \<Longrightarrow> \<not> h_effect (heap k) \<Longrightarrow> k \<in> set hs \<or> h_refusal (heap k) = Some e \<Longrightarrow>
   h_refusal (refused_before_effect_in e hs heap k) = Some e"
  by (induction e hs heap rule: refused_before_effect_in.induct) auto

lemma refuse_marked_heap:
  "refuse_marked env e ctx s = (s', Inl e') \<Longrightarrow> e' \<noteq> StoreSaid CancelledErr \<Longrightarrow>
   as_heap s' = refused_before_effect (refusal_exn env e') ctx (as_heap s)"
  by (auto simp: refuse_marked_def split: if_splits)

lemma marked_gives_back:
  assumes "(i, n) \<in> set ctx" and "h_active (hh n)" and "\<not> h_effect (hh n)" and "h_may_give_back (hh n)"
  shows "gives_back (refused_before_effect x ctx hh n) (Raised x)"
proof -
  have "n \<in> set (map snd ctx)" using assms(1) by force
  then show ?thesis
    using assms refused_before_effect_in_refusal [of hh n "map snd ctx" x]
    by (simp add: refused_before_effect_def gives_back_def gives_back_on_its_own_def)
qed

lemma create_or_reuse_pending_heap:
  assumes "create_or_reuse_pending env session_id kind reason a observation origin arguments s = (s', x)"
  shows "as_heap s' = as_heap s"
proof -
  have "as_heap (fst (create_or_reuse_pending env session_id kind reason a observation origin arguments s)) = as_heap s"
    unfolding create_or_reuse_pending_def Let_def
    by (auto simp: hold_text_def prune_sensitive_texts_def Let_def split: prod.split option.split sum.split
        dest: store_persist_frame(1))
  with assms show ?thesis by simp
qed

lemma ask_for_approval_heap:
  "ask_for_approval env session d aid reason kind origin arguments ctx s = (s', x) \<Longrightarrow> as_heap s' = as_heap s"
  by (auto simp: ask_for_approval_def Let_def dest: create_or_reuse_pending_heap
      split: prod.splits sum.splits option.splits if_splits)

lemma require_decision_approval_Inl:
  "require_decision_approval env session d aid reason kind origin arguments ctx s = (s', Inl e) \<Longrightarrow>
   e \<noteq> StoreSaid CancelledErr \<Longrightarrow> as_heap s' = refused_before_effect (refusal_exn env e) ctx (as_heap s)"
  by (auto simp: require_decision_approval_def dest!: refuse_marked_heap dest: ask_for_approval_heap split: prod.splits sum.splits)

text \<open>
  C22: a decision refused before it ran costs no approval. Whatever the reason, except the task's own
  cancellation, every approval held for the task that may be given back and whose effect has not begun is given
  back when the refusal reaches its block.
\<close>

theorem refused_decision_gives_back:
  assumes "execute_decision env d aid run run_upload ctx s = (s', Inl e)" and "e \<noteq> StoreSaid CancelledErr"
    and "(i, n) \<in> set ctx" and "h_active (as_heap s n)" and "\<not> h_effect (as_heap s n)" and "h_may_give_back (as_heap s n)"
  shows "gives_back (as_heap s' n) (Raised (refusal_exn env e))"
proof -
  have "as_heap s' = refused_before_effect (refusal_exn env e) ctx (as_heap s)"
    using assms(1,2) unfolding execute_decision_def Let_def
    by (auto dest: refuse_marked_heap require_decision_approval_Inl split: prod.splits sum.splits option.splits if_splits)
  then show ?thesis using marked_gives_back [of i n ctx "as_heap s"] assms(3-6) by simp
qed

section \<open>An upload under another label\<close>

text \<open>
  an upload approved under another label than its own can never run. The upload service checks the approval
  against a decision it builds, labelled upload with nothing but the target and the file, while the approval
  binds every field of the decision that was approved: whatever the upload would do, nothing happens and the
  store is as it was but for the mark of the refusal.
\<close>

lemma mislabelled_upload_never_runs:
  assumes "\<And>x y. env_digest (dp_ask env) x = env_digest (dp_ask env) y \<Longrightarrow> x = y"
    and "primary_get s i = Inr r" and "ar_action r = stored_action (env_digest (dp_ask env)) d" and "act_action d = ''upload''"
    and "bound_fields d \<noteq> bound_fields (upload_decision (act_selector d) (act_element_id d) (the_default [] (act_file_path d)))"
    and "truthy (Some i)" and "dp_uploads_need_approval env"
  shows "\<exists>e s'. upload_action env (act_selector d) (act_element_id d) (the_default [] (act_file_path d)) (Some i) run ctx s = (s', Inl e) \<and>
    (\<forall>run0 run'. dispatch_decision env d (Some i) run0 run ctx s = dispatch_decision env d (Some i) run0 run' ctx s) \<and>
    s' = s\<lparr>as_heap := as_heap s'\<rparr>"
proof -
  let ?u = "upload_decision (act_selector d) (act_element_id d) (the_default [] (act_file_path d))"
  let ?ask = "require_decision_approval env (Some (dp_session env)) ?u (Some i) (Some ''Upload actions require approval'') None
    ActionOrigin None ctx s"
  have "require_approved (dp_ask env) i (dp_session env) KUpload ?u ActionOrigin ctx s \<noteq> Inr r'" for r'
  proof
    assume got: "require_approved (dp_ask env) i (dp_session env) KUpload ?u ActionOrigin ctx s = Inr r'"
    have "r' = r" using require_approved_Inr [OF got] assms(2) by simp
    with approved_only_for_its_request [OF assms(1) got] assms(3,5) show False by metis
  qed
  moreover have "approval_kind_for_decision (dp_uploads_need_approval env) ?u = Some KUpload"
    using assms(7) by (simp add: approval_kind_for_decision_def upload_decision_def)
  ultimately have "\<exists>e s'. ?ask = (s', Inl e)  \<and> s' = s\<lparr>as_heap := as_heap s'\<rparr>"
    using assms(6)
    by (auto simp: require_decision_approval_def ask_for_approval_def refuse_marked_def the_default_def
        split: sum.splits if_splits)
  then show ?thesis
    using assms(4) by (auto simp: upload_action_def dispatch_decision_def refuse_marked_def)
qed

section \<open>An upload whose target is malformed\<close>

text \<open>
  an approved upload with an unusable target spends its approval on nothing. The upload service resolves the
  target outside any block that records a refusal: the error leaves the approval an outer layer holds for the
  upload with no refusal on record, so it is not given back, though nothing ran.
\<close>

lemma unusable_upload_target_spends_its_approval:
  assumes "resolve_target selector element_id False = None"
    and "require_decision_approval env (Some (dp_session env)) (upload_decision selector element_id file_path) aid
      (Some ''Upload actions require approval'') None ActionOrigin None ctx s = (s, Inr found)"
    and "dp_session_ok env" and "dp_file_ok env file_path"
    and "h_refusal (as_heap s n) = None" and "h_rejection (as_heap s n) = None"
  shows "upload_action env selector element_id file_path aid run ctx s = (s, Inl BadTarget) \<and>
    \<not> gives_back (as_heap s n) (Raised x)"
  using assms by (auto simp: upload_action_def gives_back_def gives_back_on_its_own_def)

section \<open>Samples\<close>

definition sample_dispatch :: dispatch_env where
  "sample_dispatch = \<lparr>dp_ask = sample_env, dp_claim = sample_env, dp_end = sample_env, dp_session = ''s1'', dp_session_ok = True,
     dp_host_ok = True, dp_file_ok = (\<lambda>_. True), dp_uploads_need_approval = True, dp_observation = None, dp_exn = sample_refusal,
     dp_cancelled = False\<rparr>"

definition approved_for :: "action_decision \<Rightarrow> approval_kind \<Rightarrow> approval_record" where
  "approved_for d kind = sample_record\<lparr>ar_kind := kind, ar_action := stored_action rev d\<rparr>"

definition holding_record :: "approval_record \<Rightarrow> approval_store" where
  "holding_record r = file_sample\<lparr>as_file := \<lparr>fs_records = [(''a1'', Readable r)], fs_arguments = []\<rparr>\<rparr>"

definition post_action :: action_decision where
  "post_action = sample_action\<lparr>act_risk_category := Some ''post''\<rparr>"

lemma holding_record_gets: "primary_get (holding_record r) ''a1'' = Inr r"
  by (simp add: holding_record_def file_sample_def sample_store_def primary_get_def primary_is_sqlite_def file_get_def)

lemma sample_digest: "env_digest (dp_ask sample_dispatch) = rev"
  by (simp add: sample_dispatch_def sample_env_def)


theorem refused_decision_gives_back_witness:
  "gives_back (as_heap (fst (execute_decision (sample_dispatch\<lparr>dp_session_ok := False\<rparr>) sample_action (Some ''a1'')
     (\<lambda>_ _ s. (s, Returned)) (\<lambda>_ _ s. (s, Returned)) [(''a1'', 0)] held_store)) 0)
     (Raised (refusal_exn (sample_dispatch\<lparr>dp_session_ok := False\<rparr>) NoSession))"
proof -
  let ?run = "execute_decision (sample_dispatch\<lparr>dp_session_ok := False\<rparr>) sample_action (Some ''a1'')
     (\<lambda>_ _ s. (s, Returned)) (\<lambda>_ _ s. (s, Returned)) [(''a1'', 0)] held_store"
  have "?run = (fst ?run, Inl NoSession)" by (simp add: execute_decision_def refuse_marked_def)
  from refused_decision_gives_back [OF this, of "''a1''" 0] show ?thesis
    by (simp add: held_store_def new_hold_def)
qed

definition labelled_upload :: action_decision where
  "labelled_upload = (upload_decision (Some ''#f'') None ''cv.pdf'')\<lparr>act_risk_category := Some ''post''\<rparr>"

lemma labelled_upload_fields:
  "act_action labelled_upload = ''upload''" "act_selector labelled_upload = Some ''#f''" "act_element_id labelled_upload = None"
  "the_default [] (act_file_path labelled_upload) = ''cv.pdf''" "ar_action (approved_for labelled_upload k) = stored_action rev labelled_upload"
  "dp_uploads_need_approval sample_dispatch"
  by (simp_all add: labelled_upload_def upload_decision_def the_default_def approved_for_def sample_dispatch_def)

lemma mislabelled_upload_never_runs_witness:
  "\<exists>e s'. upload_action sample_dispatch (Some ''#f'') None ''cv.pdf'' (Some ''a1'') (\<lambda>_ _ s. (s, Returned)) []
     (holding_record (approved_for labelled_upload KUpload)) = (s', Inl e)"
proof -
  have "bound_fields labelled_upload \<noteq> bound_fields (upload_decision (act_selector labelled_upload) (act_element_id labelled_upload)
      (the_default [] (act_file_path labelled_upload)))" by code_simp
  then show ?thesis
    using mislabelled_upload_never_runs [OF _ holding_record_gets [of "approved_for labelled_upload KUpload"], of sample_dispatch
        labelled_upload "\<lambda>_ _ s. (s, Returned)" "[]"] sample_digest labelled_upload_fields
    by simp blast
qed

definition running_upload :: approval_store where
  "running_upload = (holding_record (executed_record 20 (approved_for (upload_decision None (Some ''op-1'') ''cv.pdf'') KUpload)))
     \<lparr>as_heap := (\<lambda>_. (new_hold ''a1'' ActionOrigin)\<lparr>h_may_give_back := True\<rparr>)\<rparr>"

lemma unusable_upload_target_spends_its_approval_witness:
  "\<not> gives_back (as_heap (fst (upload_action sample_dispatch None (Some ''op-1'') ''cv.pdf'' (Some ''a1'') (\<lambda>_ _ s. (s, Returned))
     [(''a1'', 0)] running_upload)) 0) (Raised sample_refusal)"
proof -
  let ?d = "upload_decision None (Some ''op-1'') ''cv.pdf''"
  let ?r = "executed_record 20 (approved_for ?d KUpload)"
  have "primary_get running_upload ''a1'' = Inr ?r"
    using holding_record_gets [of ?r] by (simp add: running_upload_def primary_get_def primary_is_sqlite_def)
  then have "store_get (env_io sample_env) running_upload ''a1'' = Inr ?r" by (simp add: sample_env_def sample_io_def)
  moreover have "active_hold (as_heap running_upload) [(''a1'', 0)] ''a1'' = Some 0"
    by (simp add: active_hold_def running_upload_def new_hold_def)
  moreover have "actions_match (env_digest sample_env) (ar_action ?r) ?d" by code_simp
  ultimately have "require_approved sample_env ''a1'' ''s1'' KUpload ?d ActionOrigin [(''a1'', 0)] running_upload = Inr ?r"
    unfolding require_approved_def Let_def
    by (simp add: executed_record_def approved_for_def sample_record_def CONTROLLER_SCOPE_def del: store_get_Inr)
  then have ask: "require_decision_approval sample_dispatch (Some ''s1'') ?d (Some ''a1'') (Some ''Upload actions require approval'') None
      ActionOrigin None [(''a1'', 0)] running_upload = (running_upload, Inr (Some ?r))"
    by (simp add: require_decision_approval_def ask_for_approval_def sample_dispatch_def upload_decision_def the_default_def
        approval_kind_for_decision_def CONTROLLER_SCOPE_def not_executable_def)
  have bad: "resolve_target None (Some ''op-1'') False = None" by code_simp
  show ?thesis
    using unusable_upload_target_spends_its_approval [of None "Some ''op-1''" sample_dispatch "''cv.pdf''" "Some ''a1''" "[(''a1'', 0)]"
        running_upload "Some ?r" 0 "\<lambda>_ _ s. (s, Returned)" sample_refusal] ask bad
    by (simp add: running_upload_def new_hold_def sample_dispatch_def)
qed

end
