(* ===== verification/ToolText.thy ===== *)
theory ToolText
  imports JsonValues
begin

text \<open>
  JSON as the tool gateway writes it (tool_gateway/gateway.py): the canonical text of a call's arguments, whose
  digest an approval names, the text an operator is shown, and the pages of a long result. Texts are
  \<^verbatim>\<open>json.dumps\<close>'s, a number its \<open>repr\<close>.
\<close>

section \<open>Strings\<close>

definition hex_digit :: "nat \<Rightarrow> char" where
  "hex_digit n = ''0123456789abcdef'' ! n"

definition unicode_escape :: "char \<Rightarrow> string" where
  "unicode_escape c = CHR 0x5C # ''u00'' @ [hex_digit (of_char c div 16), hex_digit (of_char c mod 16)]"

definition short_escape :: "char \<Rightarrow> char option" where
  "short_escape c =
     (if c = CHR 0x22 then Some (CHR 0x22) else if c = CHR 0x5C then Some (CHR 0x5C) else if c = CHR 0x0A then Some (CHR ''n'')
      else if c = CHR 0x0D then Some (CHR ''r'') else if c = CHR 0x09 then Some (CHR ''t'')
      else if c = CHR 0x0C then Some (CHR ''f'') else if c = CHR 0x08 then Some (CHR ''b'') else None)"

text \<open>\<open>ensure_ascii\<close> writes every character outside the printable ASCII as an escape, otherwise only controls.\<close>

definition escaped_char :: "bool \<Rightarrow> char \<Rightarrow> string" where
  "escaped_char ensure_ascii c =
     (case short_escape c of
        Some e \<Rightarrow> [CHR 0x5C, e]
      | None \<Rightarrow> if c < CHR 0x20 \<or> (ensure_ascii \<and> CHR 0x7E < c) then unicode_escape c else [c])"

definition quoted :: "bool \<Rightarrow> string \<Rightarrow> string" where
  "quoted ensure_ascii s = CHR 0x22 # concat (map (escaped_char ensure_ascii) s) @ [CHR 0x22]"

section \<open>Values\<close>

fun separated :: "string \<Rightarrow> string list \<Rightarrow> string" where
  "separated sep [] = []"
| "separated sep [x] = x"
| "separated sep (x # y # xs) = x @ sep @ separated sep (y # xs)"

fun dumped :: "bool \<Rightarrow> string \<Rightarrow> string \<Rightarrow> json \<Rightarrow> string" where
  "dumped ascii sep colon JNull = ''null''"
| "dumped ascii sep colon (JBool b) = (if b then ''true'' else ''false'')"
| "dumped ascii sep colon (JNum n) = n"
| "dumped ascii sep colon (JStr s) = quoted ascii s"
| "dumped ascii sep colon (JArr items) = ''['' @ separated sep (map (dumped ascii sep colon) items) @ '']''"
| "dumped ascii sep colon (JObj ms) =
     ''{'' @ separated sep (map (\<lambda>(k, v). quoted ascii k @ colon @ dumped ascii sep colon v) ms) @ ''}''"

fun sorted_keys :: "json \<Rightarrow> json" where
  "sorted_keys (JArr items) = JArr (map sorted_keys items)"
| "sorted_keys (JObj ms) = JObj (sort_key fst (map (\<lambda>(k, v). (k, sorted_keys v)) ms))"
| "sorted_keys j = j"

definition canonical_text :: "members \<Rightarrow> string" where
  "canonical_text args = dumped False '','' '':'' (sorted_keys (JObj args))"

section \<open>The text is the value\<close>

text \<open>A code for characters or values whose words neither begin with \<open>stop\<close> nor with one another.\<close>

locale prefix_code =
  fixes enc :: "'a \<Rightarrow> string" and stop :: char
  assumes unique: "enc x @ r = enc y @ s \<Longrightarrow> x = y \<and> r = s"
    and no_stop: "enc x \<noteq> [] \<and> hd (enc x) \<noteq> stop"
begin

lemma stops: "enc x @ r \<noteq> stop # s"
  using no_stop [of x] by (cases "enc x") auto

lemma words_unique:
  "concat (map enc xs) @ stop # r = concat (map enc ys) @ stop # s \<Longrightarrow> xs = ys \<and> r = s"
proof (induction xs arbitrary: ys)
  case Nil
  then show ?case using stops by (cases ys) (auto simp flip: append_assoc, metis append_assoc)
next
  case (Cons x xs)
  show ?case
  proof (cases ys)
    case Nil
    with Cons.prems show ?thesis using stops [of x "concat (map enc xs) @ stop # r" s] by simp
  next
    case (Cons y ys')
    with Cons.prems unique [of x "concat (map enc xs) @ stop # r" y "concat (map enc ys') @ stop # s"] Cons.IH [of ys']
    show ?thesis by simp
  qed
qed

end

lemma hex_digit_inj: "hex_digit m = hex_digit n \<Longrightarrow> m < 16 \<Longrightarrow> n < 16 \<Longrightarrow> m = n"
  by (simp add: hex_digit_def nth_eq_iff_index_eq)

lemma unicode_escape_inj: "unicode_escape c @ r = unicode_escape d @ s \<Longrightarrow> c = d \<and> r = s"
proof -
  assume eq: "unicode_escape c @ r = unicode_escape d @ s"
  have bound: "of_char x div 16 < (16::nat)" for x
    using nat_of_char_less_256 [of x] less_mult_imp_div_less [of "of_char x" 16 16] by simp
  from eq have "hex_digit (of_char c div 16) = hex_digit (of_char d div 16)" "hex_digit (of_char c mod 16) = hex_digit (of_char d mod 16)"
    by (simp_all add: unicode_escape_def)
  then have "of_char c div 16 = (of_char d div 16 :: nat)" "of_char c mod 16 = (of_char d mod 16 :: nat)"
    using hex_digit_inj bound by simp_all
  then have "of_char c = (of_char d :: nat)" by (metis div_mult_mod_eq)
  with eq show ?thesis by (simp add: unicode_escape_def)
qed

lemma short_escape_inj: "short_escape c = Some e \<Longrightarrow> short_escape d = Some e \<Longrightarrow> c = d"
  by (auto simp: short_escape_def split: if_splits)

lemma short_escape_not_u: "short_escape c \<noteq> Some (CHR ''u'')"
  by (simp add: short_escape_def)

lemma escaped_char_unique: "escaped_char a c @ r = escaped_char a d @ s \<Longrightarrow> c = d \<and> r = s"
  using unicode_escape_inj [of c r d s] short_escape_inj [of c _ d] short_escape_not_u [of c] short_escape_not_u [of d]
  by (auto simp: escaped_char_def unicode_escape_def short_escape_def [of "CHR 0x5C"] split: option.splits if_splits)

lemma escaped_char_start: "escaped_char a c \<noteq> [] \<and> hd (escaped_char a c) \<noteq> CHR 0x22"
  by (auto simp: escaped_char_def unicode_escape_def short_escape_def split: option.splits)

interpretation text_code: prefix_code "escaped_char a" "CHR 0x22" for a
  by unfold_locales (use escaped_char_unique escaped_char_start in blast)+

lemma quoted_unique: "quoted a x @ r = quoted a y @ s \<Longrightarrow> x = y \<and> r = s"
  using text_code.words_unique [of a x r y s] by (simp add: quoted_def)

definition number_text :: "string \<Rightarrow> bool" where
  "number_text n \<longleftrightarrow> n \<noteq> [] \<and> hd n \<in> set ''-0123456789NI'' \<and> list_all (\<lambda>c. c \<in> set ''0123456789+-.eENaIfinty'') n"

fun numbers_ok :: "json \<Rightarrow> bool" where
  "numbers_ok (JNum n) = number_text n"
| "numbers_ok (JArr items) = list_all numbers_ok items"
| "numbers_ok (JObj ms) = list_all (\<lambda>(k, v). numbers_ok v) ms"
| "numbers_ok _ = True"

definition delimiter :: "char \<Rightarrow> bool" where
  "delimiter c \<longleftrightarrow> c \<in> set '',]}''"

definition ends_value :: "string \<Rightarrow> bool" where
  "ends_value r \<longleftrightarrow> r = [] \<or> delimiter (hd r)"

definition starts_value :: "string \<Rightarrow> bool" where
  "starts_value t \<longleftrightarrow> t \<noteq> [] \<and> \<not> delimiter (hd t)"

lemma delimiters: "delimiter (CHR '','')" "delimiter (CHR '']'')" "delimiter (CHR ''}'')"
  by (simp_all add: delimiter_def)

lemma ends_value_simps [simp]: "ends_value []" "ends_value (c # r) \<longleftrightarrow> delimiter c"
  by (simp_all add: ends_value_def)

lemma starts_value_append: "starts_value t \<Longrightarrow> delimiter c \<Longrightarrow> t @ r \<noteq> c # s"
  by (cases t) (auto simp: starts_value_def)

lemma number_text_unique:
  assumes "number_text m" and "number_text n" and "ends_value r" and "ends_value s" and "m @ r = n @ s"
  shows "m = n \<and> r = s"
proof -
  let ?p = "\<lambda>c. c \<in> set ''0123456789+-.eENaIfinty''"
  have none: "takeWhile ?p t = []" if "ends_value t" for t
    using that by (cases t) (auto simp: delimiter_def)
  have "takeWhile ?p (n' @ t) = n'" if "number_text n'" "ends_value t" for n' t
    using that none [OF that(2)] unfolding number_text_def list_all_iff by (subst takeWhile_append2) blast+
  from this [OF assms(1,3)] this [OF assms(2,4)] assms(5) show ?thesis by simp
qed

lemma dumped_start: "numbers_ok j \<Longrightarrow> starts_value (dumped a sep colon j)"
  by (cases j) (auto simp: quoted_def number_text_def starts_value_def delimiter_def)

lemma separated_Cons: "separated sep (x # xs) = x @ (if xs = [] then [] else sep @ separated sep xs)"
  by (cases xs) auto

lemma separated_unique:
  assumes unique: "\<And>x y r s. x \<in> set xs \<Longrightarrow> y \<in> set ys \<Longrightarrow> ends_value r \<Longrightarrow> ends_value s \<Longrightarrow> f x @ r = f y @ s \<Longrightarrow> x = y \<and> r = s"
    and start: "\<And>x. x \<in> set xs \<union> set ys \<Longrightarrow> starts_value (f x)"
    and close: "delimiter stop" "stop \<noteq> CHR '',''"
    and eq: "separated '','' (map f xs) @ stop # r = separated '','' (map f ys) @ stop # s"
  shows "xs = ys \<and> r = s"
  using unique start eq
proof (induction xs arbitrary: ys)
  case Nil
  show ?case
  proof (cases ys)
    case (Cons y ys')
    then have "starts_value (f y)" using Nil.prems(2) by simp
    from starts_value_append [OF this close(1), of _ r] Nil.prems(3) Cons show ?thesis
      by (simp add: separated_Cons) metis
  qed (use Nil in simp)
next
  case (Cons x xs)
  let ?rest = "\<lambda>zs t. (if zs = [] then [] else '','' @ separated '','' (map f zs)) @ stop # t"
  have ends: "ends_value (?rest zs t)" for zs t using close(1) delimiters by simp
  have x: "starts_value (f x)" using Cons.prems(2) by simp
  show ?case
  proof (cases ys)
    case Nil
    then show ?thesis using starts_value_append [OF x close(1)] Cons.prems(3)
      by (simp add: separated_Cons)
  next
    case ys: (Cons y ys')
    have "f x @ ?rest xs r = f y @ ?rest ys' s"
      using Cons.prems(3) by (simp add: ys separated_Cons split: if_splits)
    then have both: "x = y \<and> ?rest xs r = ?rest ys' s"
      by (rule Cons.prems(1) [rotated 4]) (use ys ends in simp_all)
    have "xs = ys' \<and> r = s"
    proof (cases "xs = [] \<or> ys' = []")
      case True
      then show ?thesis using both close(2) by (auto split: if_splits)
    next
      case False
      then have "separated '','' (map f xs) @ stop # r = separated '','' (map f ys') @ stop # s" using both by simp
      then show ?thesis
      proof (rule Cons.IH [rotated 2])
        show "u = v \<and> r' = s'" if "u \<in> set xs" "v \<in> set ys'" "ends_value r'" "ends_value s'" "f u @ r' = f v @ s'" for u v r' s'
          by (rule Cons.prems(1)) (use that ys in simp_all)
      qed (use Cons.prems(2) ys in auto)
    qed
    then show ?thesis using both ys by simp
  qed
qed

text \<open>A value's first character says what it is.\<close>

fun shape :: "json \<Rightarrow> nat" where
  "shape JNull = 0"
| "shape (JBool b) = (if b then 1 else 2)"
| "shape (JNum n) = 3"
| "shape (JStr s) = 4"
| "shape (JArr items) = 5"
| "shape (JObj ms) = 6"

definition shape_of :: "char \<Rightarrow> nat" where
  "shape_of c = (if c = CHR ''n'' then 0 else if c = CHR ''t'' then 1 else if c = CHR ''f'' then 2
     else if c = CHR 0x22 then 4 else if c = CHR ''['' then 5 else if c = CHR ''{'' then 6 else 3)"

lemma dumped_shape: "numbers_ok j \<Longrightarrow> shape_of (hd (dumped a sep colon j @ r)) = shape j"
  by (cases j) (auto simp: quoted_def number_text_def shape_of_def)

lemma same_shape:
  assumes "numbers_ok j" and "numbers_ok k" and "dumped a sep colon j @ r = dumped a sep colon k @ s"
  shows "shape j = shape k"
  using dumped_shape [OF assms(1), of a sep colon r] dumped_shape [OF assms(2), of a sep colon s] assms(3) by simp

lemma shape_cases:
  "shape j = 3 \<longleftrightarrow> (\<exists>n. j = JNum n)" "shape j = 4 \<longleftrightarrow> (\<exists>s. j = JStr s)" "shape j = 5 \<longleftrightarrow> (\<exists>items. j = JArr items)"
  "shape j = 6 \<longleftrightarrow> (\<exists>ms. j = JObj ms)" "shape j = 0 \<longleftrightarrow> j = JNull" "shape j = 1 \<longleftrightarrow> j = JBool True" "shape j = 2 \<longleftrightarrow> j = JBool False"
  by (cases j; simp)+

lemma dumped_unique:
  "numbers_ok j \<Longrightarrow> numbers_ok k \<Longrightarrow> ends_value r \<Longrightarrow> ends_value s \<Longrightarrow>
   dumped a '','' '':'' j @ r = dumped a '','' '':'' k @ s \<Longrightarrow> j = k \<and> r = s"
proof (induction j arbitrary: k r s)
  case JNull
  from same_shape [OF JNull(1,2,5)] JNull(5) show ?case by (auto simp: shape_cases)
next
  case (JBool b)
  from same_shape [OF JBool(1,2,5)] JBool(5) show ?case by (cases b; cases k) (auto split: if_splits)
next
  case (JNum n)
  from same_shape [OF JNum(1,2,5)] obtain n' where "k = JNum n'" by (auto simp: shape_cases)
  then show ?case using number_text_unique [of n n' r s] JNum by simp
next
  case (JStr x)
  from same_shape [OF JStr(1,2,5)] obtain x' where "k = JStr x'" by (auto simp: shape_cases)
  then show ?case using quoted_unique [of a x r x' s] JStr by simp
next
  case (JArr items)
  from same_shape [OF JArr.prems(1,2,5)] obtain items' where k: "k = JArr items'" by (auto simp: shape_cases)
  have "items = items' \<and> r = s"
  proof (rule separated_unique [of items items' "dumped a '','' '':''" "CHR '']''"])
    show "x = y \<and> r' = s'" if "x \<in> set items" "y \<in> set items'" "ends_value r'" "ends_value s'"
      "dumped a '','' '':'' x @ r' = dumped a '','' '':'' y @ s'" for x y r' s'
      by (rule JArr.IH) (use that JArr.prems(1,2) k in \<open>simp_all add: list_all_iff\<close>)
  qed (use JArr.prems k dumped_start in \<open>auto simp: list_all_iff delimiters\<close>)
  then show ?case using k by simp
next
  case (JObj ms)
  let ?f = "\<lambda>(k, v). quoted a k @ '':'' @ dumped a '','' '':'' v"
  from same_shape [OF JObj.prems(1,2,5)] obtain ms' where k: "k = JObj ms'" by (auto simp: shape_cases)
  have "ms = ms' \<and> r = s"
  proof (rule separated_unique [of ms ms' ?f "CHR ''}''"])
    show "x = y \<and> r' = s'" if "x \<in> set ms" "y \<in> set ms'" "ends_value r'" "ends_value s'" "?f x @ r' = ?f y @ s'" for x y r' s'
    proof -
      obtain kx vx ky vy where xy: "x = (kx, vx)" "y = (ky, vy)" by (cases x, cases y)
      have "kx = ky \<and> '':'' @ dumped a '','' '':'' vx @ r' = '':'' @ dumped a '','' '':'' vy @ s'"
        using that(5) xy by (intro quoted_unique [of a]) simp
      moreover have "numbers_ok vx" "numbers_ok vy" using that(1,2) xy JObj.prems(1,2) k by (auto simp: list_all_iff)
      ultimately show ?thesis using JObj.IH [of x vx vy r' s'] that xy by simp
    qed
  qed (use JObj.prems k in \<open>auto simp: quoted_def starts_value_def delimiter_def\<close>)
  then show ?case using k by simp
qed

lemma numbers_ok_sorted: "numbers_ok j \<Longrightarrow> numbers_ok (sorted_keys j)"
  by (induction j) (auto simp: list_all_iff)

lemma canonical_text_unique:
  assumes "numbers_ok (JObj a)" and "numbers_ok (JObj b)" and "canonical_text a = canonical_text b"
  shows "sorted_keys (JObj a) = sorted_keys (JObj b)"
  using dumped_unique [of "sorted_keys (JObj a)" "sorted_keys (JObj b)" "[]" "[]" False] assms numbers_ok_sorted
  by (auto simp: canonical_text_def simp del: sorted_keys.simps)

section \<open>Pages and previews\<close>

record text_page =
  tp_content :: string
  tp_offset :: nat
  tp_total :: nat
  tp_truncated :: bool
  tp_next :: "nat option"

definition page_of :: "string \<Rightarrow> nat \<Rightarrow> nat \<Rightarrow> text_page" where
  "page_of content offset max_chars =
     (let truncated = offset + max_chars < length content in
      \<lparr>tp_content = take max_chars (drop offset content), tp_offset = offset, tp_total = length content,
       tp_truncated = truncated, tp_next = (if truncated then Some (offset + max_chars) else None)\<rparr>)"

text \<open>A reader that asks for the next page until there is none.\<close>

function read_from :: "string \<Rightarrow> nat \<Rightarrow> nat \<Rightarrow> string" where
  "read_from content max_chars offset =
     tp_content (page_of content offset (Suc max_chars)) @
     (case tp_next (page_of content offset (Suc max_chars)) of None \<Rightarrow> [] | Some n \<Rightarrow> read_from content max_chars n)"
  by pat_completeness auto

termination
  by (relation "measure (\<lambda>(content, _, offset). length content - offset)") (auto simp: page_of_def Let_def split: if_splits)

declare read_from.simps [simp del]

lemma read_from_rest: "read_from content max_chars offset = drop offset content"
proof (induction content max_chars offset rule: read_from.induct)
  case (1 content max_chars offset)
  let ?p = "page_of content offset (Suc max_chars)"
  show ?case
  proof (cases "offset + Suc max_chars < length content")
    case True
    then have "read_from content max_chars offset = take (Suc max_chars) (drop offset content) @ drop (offset + Suc max_chars) content"
      using 1 [of "offset + Suc max_chars"] by (subst read_from.simps) (simp add: page_of_def)
    also have "\<dots> = drop offset content" by (metis add.commute append_take_drop_id drop_drop)
    finally show ?thesis .
  next
    case False
    then show ?thesis by (subst read_from.simps) (simp add: page_of_def)
  qed
qed

text \<open>
  a reader that asks for the next page until none is named gets the whole text, once.
\<close>

lemma pages_make_up_the_text: "read_from content max_chars 0 = content"
  by (simp add: read_from_rest)

definition lower_hex :: "char \<Rightarrow> bool" where
  "lower_hex c \<longleftrightarrow> c \<in> set ''0123456789abcdef''"

text \<open>
  How many characters the next match of \<open>_JSON_CHARACTER\<close> takes: a surrogate pair of escapes, an escape, a
  backslash and its character, or one character.
\<close>

definition unicode_escape_at :: "string \<Rightarrow> bool" where
  "unicode_escape_at s \<longleftrightarrow> take 2 s = CHR 0x5C # ''u'' \<and> 6 \<le> length s \<and> list_all lower_hex (take 4 (drop 2 s))"

definition json_character :: "string \<Rightarrow> nat" where
  "json_character s =
     (if unicode_escape_at s \<and> take 1 (drop 2 s) = ''d'' \<and> s ! 3 \<in> set ''89ab'' \<and> unicode_escape_at (drop 6 s) then 12
      else if unicode_escape_at s then 6
      else if take 1 s = [CHR 0x5C] \<and> 2 \<le> length s then 2
      else 1)"

lemma json_character_pos: "0 < json_character s"
  by (simp add: json_character_def)

function cut_between_characters :: "string \<Rightarrow> nat \<Rightarrow> string" where
  "cut_between_characters s limit =
     (if s = [] \<or> limit < json_character s then []
      else take (json_character s) s @ cut_between_characters (drop (json_character s) s) (limit - json_character s))"
  by pat_completeness auto

termination
  by (relation "measure (\<lambda>(s, _). length s)") (use json_character_pos in auto)

declare cut_between_characters.simps [simp del]

lemma cut_is_a_start: "\<exists>rest. s = cut_between_characters s limit @ rest"
proof (induction s limit rule: cut_between_characters.induct)
  case (1 s limit)
  then show ?case
    by (subst cut_between_characters.simps) (auto, metis append_take_drop_id append_assoc)
qed

lemma cut_within_limit: "length (cut_between_characters s limit) \<le> limit"
proof (induction s limit rule: cut_between_characters.induct)
  case (1 s limit)
  then show ?case
    by (subst cut_between_characters.simps) auto
qed

lemma hex_digits_lower: "lower_hex (hex_digit (of_char c div 16))" "lower_hex (hex_digit (of_char c mod 16))"
proof -
  have "lower_hex (hex_digit n)" if "n < 16" for n
  proof -
    have "hex_digit n \<in> set ''0123456789abcdef''" unfolding hex_digit_def by (rule nth_mem) (use that in simp)
    then show ?thesis by (simp add: lower_hex_def)
  qed
  then show "lower_hex (hex_digit (of_char c div 16))" "lower_hex (hex_digit (of_char c mod 16))"
    using nat_of_char_less_256 [of c] less_mult_imp_div_less [of "of_char c" 16 16] by simp_all
qed

text \<open>On a text that \<open>json.dumps\<close> wrote, a match is one character of the string, so the cut splits none.\<close>

lemma json_character_escaped: "json_character (escaped_char a c @ rest) = length (escaped_char a c)"
proof (cases "short_escape c")
  case (Some e)
  then have "\<not> unicode_escape_at ([CHR 0x5C, e] @ rest)"
    using short_escape_not_u [of c] by (auto simp: unicode_escape_at_def)
  with Some show ?thesis by (simp add: escaped_char_def json_character_def)
next
  case None
  then have c: "c \<noteq> CHR 0x5C" by (auto simp: short_escape_def)
  have plain: "json_character ([c] @ rest) = 1" using c by (simp add: json_character_def unicode_escape_at_def)
  have "unicode_escape_at (unicode_escape c @ rest)"
    using hex_digits_lower [of c] by (simp add: unicode_escape_at_def unicode_escape_def lower_hex_def)
  then have "json_character (unicode_escape c @ rest) = 6" by (simp add: json_character_def unicode_escape_def)
  then show ?thesis using None plain by (simp add: escaped_char_def unicode_escape_def)
qed

lemma cut_of_a_string:
  "\<exists>k \<le> length s. cut_between_characters (concat (map (escaped_char a) s)) limit = concat (map (escaped_char a) (take k s)) \<and>
     (k < length s \<longrightarrow> limit < length (concat (map (escaped_char a) (take (Suc k) s))))"
proof (induction s arbitrary: limit)
  case (Cons c s)
  let ?w = "escaped_char a c" and ?rest = "concat (map (escaped_char a) s)"
  show ?case
  proof (cases "limit < length ?w")
    case True
    then show ?thesis
      by (intro exI [of _ 0]) (simp add: cut_between_characters.simps json_character_escaped escaped_char_start)
  next
    case False
    obtain k where "k \<le> length s" "cut_between_characters ?rest (limit - length ?w) = concat (map (escaped_char a) (take k s))"
      "k < length s \<longrightarrow> limit - length ?w < length (concat (map (escaped_char a) (take (Suc k) s)))"
      using Cons by blast
    with False show ?thesis
      by (intro exI [of _ "Suc k"])
        (auto simp: cut_between_characters.simps [of "?w @ ?rest"] json_character_escaped escaped_char_start)
  qed
qed (simp add: cut_between_characters.simps)

end
