(* ===== verification/ToolSelection.thy ===== *)
theory ToolSelection
  imports AuthPolicy
begin

text \<open>
  Which tools a controller serves (tool_gateway/selection.py, tool_gateway/registry.py, tool_gateway/packs): the
  packs, the profile and what MCP_TOOL_PACKS changes of it, the registry of tools, and what a call to a tool that
  is not served is told.
\<close>

section \<open>Packs and profiles\<close>

definition PACKS :: "string list" where
  "PACKS = [''browse'', ''sessions'', ''tabs'', ''downloads'', ''auth_profiles'', ''wait'', ''scripting'', ''vision'', ''devtools'',
     ''deployment'', ''witness'', ''memory_profiles'', ''advanced_actions'', ''storage'', ''auth_admin'', ''session_admin'', ''approvals'',
     ''agent_jobs'', ''proxies'', ''cron'', ''harness'']"

definition PROFILES :: "(string \<times> string list) list" where
  "PROFILES = [(''lean'', [''browse'']),
     (''curated'', [''browse'', ''sessions'', ''tabs'', ''downloads'', ''auth_profiles'', ''wait'', ''scripting'', ''vision'']),
     (''full'', PACKS)]"

definition DEFAULT_PROFILE :: string where
  "DEFAULT_PROFILE = ''curated''"

definition profile_packs :: "string \<Rightarrow> string list" where
  "profile_packs name = (case map_of PROFILES name of None \<Rightarrow> [] | Some packs \<Rightarrow> packs)"

text \<open>The name of the first profile that contains a pack.\<close>

fun first_profile_with :: "string \<Rightarrow> (string \<times> string list) list \<Rightarrow> string" where
  "first_profile_with pack [] = []"
| "first_profile_with pack ((name, packs) # rest) = (if pack \<in> set packs then name else first_profile_with pack rest)"

definition smallest_profile_with :: "string \<Rightarrow> string" where
  "smallest_profile_with pack = first_profile_with pack PROFILES"

definition tool_profile_name :: "string \<Rightarrow> string" where
  "tool_profile_name value =
     (if py_strip value = [] then DEFAULT_PROFILE else if map_of PROFILES value \<noteq> None then value else DEFAULT_PROFILE)"

section \<open>The selection\<close>

datatype selection_error = NotAPack string | IsAProfile string | SelectsNothing

definition removes_a_pack :: "string \<Rightarrow> bool" where
  "removes_a_pack item \<longleftrightarrow> has_prefix ''-'' item"

definition item_pack :: "string \<Rightarrow> string" where
  "item_pack item = (if removes_a_pack item then py_strip (tl item) else item)"

definition pack_name :: "string \<Rightarrow> selection_error + string" where
  "pack_name item =
     (let name = item_pack item in
      if name \<in> set PACKS then Inr name
      else if map_of PROFILES name \<noteq> None then Inl (IsAProfile name)
      else Inl (NotAPack item))"

fun pack_names :: "string list \<Rightarrow> selection_error + string list" where
  "pack_names [] = Inr []"
| "pack_names (item # items) =
     (case pack_name item of
        Inl e \<Rightarrow> Inl e
      | Inr name \<Rightarrow> (case pack_names items of Inl e \<Rightarrow> Inl e | Inr names \<Rightarrow> Inr (name # names)))"

record tool_selection =
  ts_profile :: string
  ts_modifiers :: "string list"
  ts_packs :: "string set"
  ts_added :: "string set"
  ts_turned_off :: "string set"
  ts_removed :: "string set"
  ts_requested :: "string set"

definition modifiers_of :: "string \<Rightarrow> string list" where
  "modifiers_of packs = filter (\<lambda>item. item \<noteq> []) (map py_strip (split_on (CHR '','') packs))"

definition resolve_tool_selection :: "string \<Rightarrow> string \<Rightarrow> selection_error + tool_selection" where
  "resolve_tool_selection profile packs =
     (let name = tool_profile_name profile; modifiers = modifiers_of packs in
      case pack_names (filter (\<lambda>item. \<not> removes_a_pack item) modifiers) of
        Inl e \<Rightarrow> Inl e
      | Inr adds \<Rightarrow>
     (case pack_names (filter removes_a_pack modifiers) of
        Inl e \<Rightarrow> Inl e
      | Inr removes \<Rightarrow>
          let base = set (profile_packs name); wanted = base \<union> set adds; selected = wanted - set removes in
          if selected = {} then Inl SelectsNothing
          else Inr \<lparr>ts_profile = name, ts_modifiers = modifiers, ts_packs = selected, ts_added = set adds - base - set removes,
                    ts_turned_off = wanted \<inter> set removes, ts_removed = set removes, ts_requested = set adds\<rparr>))"

section \<open>What to change to serve a tool\<close>

datatype serve_advice = DropRemoval string | DropRemovalAndAdd string string | AddPack string string

definition how_to_serve :: "string \<Rightarrow> tool_selection \<Rightarrow> serve_advice" where
  "how_to_serve pack sel =
     (if pack \<in> ts_turned_off sel then DropRemoval pack
      else if pack \<in> ts_removed sel then DropRemovalAndAdd pack (smallest_profile_with pack)
      else AddPack pack (smallest_profile_with pack))"

definition BROWSE_INSTEAD :: string where
  "BROWSE_INSTEAD = '' Without it, browser.observe creates a session when none is live.''"

fun advice_text :: "string \<Rightarrow> string \<Rightarrow> serve_advice \<Rightarrow> string" where
  "advice_text profile name (DropRemoval pack) =
     name @ '' is in the '' @ pack @ '' tool pack, which MCP_TOOL_PACKS turns off on this controller. To use it, remove -'' @ pack @
     '' from MCP_TOOL_PACKS.''"
| "advice_text profile name (DropRemovalAndAdd pack smallest) =
     name @ '' is in the '' @ pack @ '' tool pack, which this controller does not serve: the '' @ profile @
     '' profile does not include it, and MCP_TOOL_PACKS removes it. To use it, remove -'' @ pack @
     '' from MCP_TOOL_PACKS and either add '' @ pack @ '' to it or set MCP_TOOL_PROFILE='' @ smallest @ '' on the controller.''"
| "advice_text profile name (AddPack pack smallest) =
     name @ '' is in the '' @ pack @ '' tool pack, which this controller does not serve (it serves the '' @ profile @
     '' profile). To use it, add '' @ pack @ '' to MCP_TOOL_PACKS or set MCP_TOOL_PROFILE='' @ smallest @ '' on the controller.''"

definition withheld_tool_message :: "string \<Rightarrow> string \<Rightarrow> tool_selection \<Rightarrow> string list \<Rightarrow> string" where
  "withheld_tool_message name pack sel served =
     advice_text (ts_profile sel) name (how_to_serve pack sel) @
     (if name = ''browser.create_session'' \<and> ''browser.observe'' \<in> set served then BROWSE_INSTEAD else [])"

text \<open>The settings after the change the message names.\<close>

definition without_removal :: "string \<Rightarrow> string list \<Rightarrow> string list" where
  "without_removal pack modifiers = filter (\<lambda>m. \<not> (removes_a_pack m \<and> item_pack m = pack)) modifiers"

fun advised_settings :: "serve_advice \<Rightarrow> tool_selection \<Rightarrow> (string \<times> string) list" where
  "advised_settings (DropRemoval pack) sel = [(ts_profile sel, join_comma (without_removal pack (ts_modifiers sel)))]"
| "advised_settings (DropRemovalAndAdd pack smallest) sel =
     [(ts_profile sel, join_comma (without_removal pack (ts_modifiers sel) @ [pack])),
      (smallest, join_comma (without_removal pack (ts_modifiers sel)))]"
| "advised_settings (AddPack pack smallest) sel =
     [(ts_profile sel, join_comma (ts_modifiers sel @ [pack])), (smallest, join_comma (ts_modifiers sel))]"

section \<open>The registry\<close>

text \<open>
  A tool's specification without its description and handler. Of its input model: whether it names a session
  (\<open>SessionIdInput\<close>), and whether it has fields of its own for an approval id and a workflow profile.
\<close>

record tool_spec =
  tl_name :: string
  tl_pack :: string
  tl_governed_kind :: "string option"
  tl_session_bound :: bool
  tl_takes_approval_id :: bool
  tl_takes_profile :: bool
  tl_read_only_hint :: "bool option"

definition tool :: "string \<Rightarrow> string \<Rightarrow> string option \<Rightarrow> bool \<Rightarrow> bool \<Rightarrow> bool \<Rightarrow> bool option \<Rightarrow> tool_spec" where
  "tool name pack kind session approval profile read_only =
     \<lparr>tl_name = name, tl_pack = pack, tl_governed_kind = kind, tl_session_bound = session, tl_takes_approval_id = approval,
      tl_takes_profile = profile, tl_read_only_hint = read_only\<rparr>"

record tool_registry =
  tg_selection :: tool_selection
  tg_tools :: "(string \<times> tool_spec) list"
  tg_withheld :: "(string \<times> string) list"

text \<open>None: a tool that names an unknown pack. Every tool here is past its experimental stage.\<close>

definition register_tool :: "tool_registry \<Rightarrow> tool_spec \<Rightarrow> tool_registry option" where
  "register_tool reg spec =
     (if tl_pack spec \<notin> set PACKS then None
      else if tl_pack spec \<notin> ts_packs (tg_selection reg) then
        Some (reg\<lparr>tg_withheld := AList.update (tl_name spec) (tl_pack spec) (tg_withheld reg)\<rparr>)
      else Some (reg\<lparr>tg_tools := AList.update (tl_name spec) spec (tg_tools reg)\<rparr>))"

fun register_tools :: "tool_registry \<Rightarrow> tool_spec list \<Rightarrow> tool_registry option" where
  "register_tools reg [] = Some reg"
| "register_tools reg (spec # specs) =
     (case register_tool reg spec of None \<Rightarrow> None | Some reg' \<Rightarrow> register_tools reg' specs)"

definition unregister_tool :: "string \<Rightarrow> tool_registry \<Rightarrow> tool_registry" where
  "unregister_tool name reg = reg\<lparr>tg_tools := AList.delete name (tg_tools reg)\<rparr>"

definition served_tool :: "tool_registry \<Rightarrow> string \<Rightarrow> tool_spec option" where
  "served_tool reg name = map_of (tg_tools reg) name"

definition withheld_pack :: "tool_registry \<Rightarrow> string \<Rightarrow> string option" where
  "withheld_pack reg name = map_of (tg_withheld reg) name"

definition READ_ONLY_TOOL_NAMES :: "string list" where
  "READ_ONLY_TOOL_NAMES = map (\<lambda>x. ''browser.'' @ x)
     [''get_auth_profile'', ''get_console'', ''get_cookies'', ''get_html'', ''get_local_storage'', ''get_memory_profile'',
      ''get_network_log'', ''get_page_errors'', ''get_remote_access'', ''get_request_failures'', ''get_session'', ''list_agent_jobs'',
      ''list_approvals'', ''list_auth_profiles'', ''list_cron_jobs'', ''list_downloads'', ''list_memory_profiles'', ''list_providers'',
      ''list_proxy_personas'', ''list_sessions'', ''list_tabs'', ''pii_scrubber_status'', ''readiness_check''] @
     map (\<lambda>x. ''harness.'' @ x)
     [''check_all_drifts'', ''check_drift'', ''get_candidate'', ''get_status'', ''get_trace'', ''list_candidates'', ''list_runs'']"

definition READ_ONLY_NON_IDEMPOTENT_TOOL_NAMES :: "string list" where
  "READ_ONLY_NON_IDEMPOTENT_TOOL_NAMES =
     [''browser.find_by_vision'', ''browser.observe'', ''browser.screenshot'', ''browser.wait_for_selector'']"

definition DESTRUCTIVE_TOOL_NAMES :: "string list" where
  "DESTRUCTIVE_TOOL_NAMES = map (\<lambda>x. ''browser.'' @ x)
     [''cancel_agent_job'', ''close_session'', ''close_tab'', ''delete_cron_job'', ''delete_memory_profile'',
      ''delete_proxy_persona'', ''discard_agent_job'']"

definition read_only_tool :: "tool_spec \<Rightarrow> bool" where
  "read_only_tool spec =
     (case tl_read_only_hint spec of
        Some b \<Rightarrow> b
      | None \<Rightarrow> tl_name spec \<in> set READ_ONLY_TOOL_NAMES \<or> tl_name spec \<in> set READ_ONLY_NON_IDEMPOTENT_TOOL_NAMES)"

definition destructive_tool :: "tool_spec \<Rightarrow> bool" where
  "destructive_tool spec =
     (if read_only_tool spec then False
      else tl_name spec \<in> set DESTRUCTIVE_TOOL_NAMES \<or> tl_governed_kind spec = Some ''destructive'')"

definition idempotent_tool :: "tool_spec \<Rightarrow> bool" where
  "idempotent_tool spec =
     (if tl_name spec \<in> set READ_ONLY_NON_IDEMPOTENT_TOOL_NAMES then False else read_only_tool spec)"

section \<open>The tools\<close>

definition CORE_TOOLS :: "tool_spec list" where
  "CORE_TOOLS =
     [tool ''browser.create_session'' ''sessions'' (None) False False False (None),
      tool ''browser.save_memory_profile'' ''memory_profiles'' (Some ''write'') True False False (None),
      tool ''browser.get_memory_profile'' ''memory_profiles'' (None) False False False (None),
      tool ''browser.list_memory_profiles'' ''memory_profiles'' (None) False False False (None),
      tool ''browser.delete_memory_profile'' ''memory_profiles'' (Some ''destructive'') False False False (None),
      tool ''browser.list_sessions'' ''sessions'' (None) False False False (None),
      tool ''browser.get_session'' ''sessions'' (None) True False False (None),
      tool ''browser.observe'' ''browse'' (None) True False False (None),
      tool ''browser.screenshot'' ''browse'' (None) True False False (None),
      tool ''browser.get_console'' ''devtools'' (None) True False False (None),
      tool ''browser.get_page_errors'' ''devtools'' (None) True False False (None),
      tool ''browser.get_request_failures'' ''devtools'' (None) True False False (None),
      tool ''browser.stop_trace'' ''devtools'' (None) True False False (None),
      tool ''browser.list_auth_profiles'' ''auth_profiles'' (None) False False False (None),
      tool ''browser.get_auth_profile'' ''auth_admin'' (None) False False False (None),
      tool ''browser.list_downloads'' ''downloads'' (None) True False False (None),
      tool ''browser.read_download'' ''downloads'' (None) True False False (None),
      tool ''browser.list_tabs'' ''tabs'' (None) True False False (None),
      tool ''browser.activate_tab'' ''tabs'' (None) True False False (None),
      tool ''browser.close_tab'' ''tabs'' (Some ''write'') True False False (None),
      tool ''browser.execute_action'' ''browse'' (Some ''dynamic'') True True False (None),
      tool ''browser.save_auth_state'' ''auth_admin'' (Some ''account_change'') True False False (None),
      tool ''browser.save_auth_profile'' ''auth_profiles'' (Some ''account_change'') True False False (None),
      tool ''browser.request_human_takeover'' ''browse'' (Some ''write'') True False False (None),
      tool ''browser.close_session'' ''browse'' (Some ''write'') True False False (None),
      tool ''browser.list_approvals'' ''approvals'' (None) False False False (None),
      tool ''browser.approve_approval'' ''approvals'' (None) False True False (None),
      tool ''browser.reject_approval'' ''approvals'' (None) False True False (None),
      tool ''browser.execute_approval'' ''approvals'' (None) False True False (None),
      tool ''browser.list_agent_jobs'' ''agent_jobs'' (None) False False False (None),
      tool ''browser.get_agent_job'' ''agent_jobs'' (None) False False False (None),
      tool ''browser.resume_agent_job'' ''agent_jobs'' (None) False False False (None),
      tool ''browser.discard_agent_job'' ''agent_jobs'' (None) False False False (None),
      tool ''browser.cancel_agent_job'' ''agent_jobs'' (None) False False False (None),
      tool ''browser.queue_agent_step'' ''agent_jobs'' (None) True False False (None),
      tool ''browser.queue_agent_run'' ''agent_jobs'' (None) True False False (None),
      tool ''browser.list_providers'' ''agent_jobs'' (None) False False False (None)]"

definition DIAGNOSTICS_TOOLS :: "tool_spec list" where
  "DIAGNOSTICS_TOOLS =
     [tool ''browser.get_remote_access'' ''deployment'' (None) False False False (None),
      tool ''browser.readiness_check'' ''deployment'' (None) False False False (None),
      tool ''browser.get_network_log'' ''devtools'' (None) True False False (None),
      tool ''browser.verify_witness'' ''witness'' (None) True False False (Some True),
      tool ''browser.export_witness_bundle'' ''witness'' (None) True False False (Some True),
      tool ''browser.export_script'' ''devtools'' (None) True False False (None),
      tool ''browser.pii_scrubber_status'' ''deployment'' (None) False False False (None)]"

definition DOM_TOOLS :: "tool_spec list" where
  "DOM_TOOLS =
     [tool ''browser.eval_js'' ''scripting'' (Some ''write'') True True False (None),
      tool ''browser.wait_for_selector'' ''wait'' (None) True False False (None),
      tool ''browser.get_html'' ''browse'' (None) True False False (None),
      tool ''browser.find_elements'' ''browse'' (None) True False False (None),
      tool ''browser.drag_drop'' ''advanced_actions'' (Some ''write'') True False False (None),
      tool ''browser.set_viewport'' ''advanced_actions'' (None) True False False (None),
      tool ''browser.find_by_vision'' ''vision'' (None) True False False (None)]"

definition HARNESS_TOOLS :: "tool_spec list" where
  "HARNESS_TOOLS =
     [tool ''harness.start_convergence'' ''harness'' (Some ''write'') False False False (None),
      tool ''harness.get_status'' ''harness'' (None) False False False (None),
      tool ''harness.get_trace'' ''harness'' (None) False False False (None),
      tool ''harness.list_runs'' ''harness'' (None) False False False (None),
      tool ''harness.list_candidates'' ''harness'' (None) False False False (None),
      tool ''harness.get_candidate'' ''harness'' (None) False False False (None),
      tool ''harness.check_drift'' ''harness'' (None) False False False (None),
      tool ''harness.check_all_drifts'' ''harness'' (None) False False False (None),
      tool ''harness.graduate'' ''harness'' (None) False False False (None)]"

definition OPERATIONS_TOOLS :: "tool_spec list" where
  "OPERATIONS_TOOLS =
     [tool ''browser.list_proxy_personas'' ''proxies'' (None) False False False (None),
      tool ''browser.create_proxy_persona'' ''proxies'' (None) False False False (None),
      tool ''browser.delete_proxy_persona'' ''proxies'' (None) False False False (None),
      tool ''browser.list_cron_jobs'' ''cron'' (None) False False False (None),
      tool ''browser.create_cron_job'' ''cron'' (Some ''write'') False False True (None),
      tool ''browser.delete_cron_job'' ''cron'' (Some ''destructive'') False False False (None),
      tool ''browser.trigger_cron_job'' ''cron'' (Some ''write'') False False False (None)]"

definition SESSION_OPS_TOOLS :: "tool_spec list" where
  "SESSION_OPS_TOOLS =
     [tool ''browser.fork_session'' ''sessions'' (None) True False False (None),
      tool ''browser.cdp_attach'' ''session_admin'' (Some ''account_change'') False False False (None),
      tool ''browser.share_session'' ''session_admin'' (Some ''write'') True False False (None),
      tool ''browser.enable_shadow_browse'' ''session_admin'' (Some ''write'') True False False (None)]"

definition STORAGE_TOOLS :: "tool_spec list" where
  "STORAGE_TOOLS =
     [tool ''browser.get_cookies'' ''storage'' (None) True False False (None),
      tool ''browser.set_cookies'' ''storage'' (Some ''account_change'') True False False (None),
      tool ''browser.get_local_storage'' ''storage'' (None) True False False (None),
      tool ''browser.set_local_storage'' ''storage'' (Some ''account_change'') True False False (None)]"


definition ALL_TOOLS :: "tool_spec list" where
  "ALL_TOOLS = CORE_TOOLS @ HARNESS_TOOLS @ DIAGNOSTICS_TOOLS @ SESSION_OPS_TOOLS @ DOM_TOOLS @ STORAGE_TOOLS @ OPERATIONS_TOOLS"

text \<open>The gateway's registry: every tool, and vision only with a model for it.\<close>

definition new_tool_registry :: "string \<Rightarrow> string \<Rightarrow> bool \<Rightarrow> selection_error + tool_registry" where
  "new_tool_registry profile packs has_vision =
     (case resolve_tool_selection profile packs of
        Inl e \<Rightarrow> Inl e
      | Inr sel \<Rightarrow>
          (case register_tools \<lparr>tg_selection = sel, tg_tools = [], tg_withheld = []\<rparr> ALL_TOOLS of
             None \<Rightarrow> Inl (NotAPack [])
           | Some reg \<Rightarrow> Inr (if has_vision then reg else unregister_tool ''browser.find_by_vision'' reg)))"

section \<open>What the message advises\<close>

definition plain_item :: "string \<Rightarrow> bool" where
  "plain_item w \<longleftrightarrow> w \<noteq> [] \<and> CHR '','' \<notin> set w \<and> py_strip w = w"

lemma split_on_pieces: "w \<in> set (split_on c s) \<Longrightarrow> c \<notin> set w"
  by (induction s arbitrary: w) (auto split: list.splits if_splits)

lemma py_strip_strip_chars: "py_strip = strip_chars py_space"
  by (rule ext) (simp add: py_strip_def strip_chars_def)

lemma set_py_strip: "set (py_strip s) \<subseteq> set s"
  by (auto simp: py_strip_def dest!: set_dropWhileD)

lemma modifiers_plain: "w \<in> set (modifiers_of packs) \<Longrightarrow> plain_item w"
proof -
  assume "w \<in> set (modifiers_of packs)"
  then obtain x where x: "x \<in> set (split_on (CHR '','') packs)" "w = py_strip x" "w \<noteq> []" by (auto simp: modifiers_of_def)
  then have "CHR '','' \<notin> set w" using split_on_pieces set_py_strip by blast
  with x show ?thesis by (simp add: plain_item_def py_strip_strip_chars)
qed

lemma modifiers_of_join: "list_all plain_item ws \<Longrightarrow> modifiers_of (join_comma ws) = ws"
proof (cases "ws = []")
  case True
  then show ?thesis by (simp add: modifiers_of_def py_strip_def)
next
  case False
  assume plain: "list_all plain_item ws"
  have "split_on (CHR '','') (join_comma ws) = ws"
    by (rule split_join_comma [OF False]) (use plain in \<open>auto simp: list_all_iff plain_item_def\<close>)
  moreover have "map py_strip ws = ws" "filter (\<lambda>item. item \<noteq> []) ws = ws"
    using plain by (auto simp: list_all_iff plain_item_def map_idI filter_id_conv)
  ultimately show ?thesis by (simp add: modifiers_of_def)
qed

definition known_items :: "string list \<Rightarrow> bool" where
  "known_items items \<longleftrightarrow> list_all (\<lambda>x. item_pack x \<in> set PACKS) items"

lemma pack_names_known: "known_items items \<Longrightarrow> pack_names items = Inr (map item_pack items)"
  by (induction items) (simp_all add: known_items_def pack_name_def)

lemma pack_names_unknown: "\<not> known_items items \<Longrightarrow> \<exists>e. pack_names items = Inl e"
proof (induction items)
  case (Cons x items)
  then show ?case by (cases "item_pack x \<in> set PACKS") (auto simp: known_items_def pack_name_def Let_def)
qed (simp add: known_items_def)

definition packs_added :: "string list \<Rightarrow> string set" where
  "packs_added modifiers = item_pack ` {x \<in> set modifiers. \<not> removes_a_pack x}"

definition packs_removed :: "string list \<Rightarrow> string set" where
  "packs_removed modifiers = item_pack ` {x \<in> set modifiers. removes_a_pack x}"

definition selection_of :: "string \<Rightarrow> string list \<Rightarrow> tool_selection" where
  "selection_of name modifiers =
     (let base = set (profile_packs name); adds = packs_added modifiers; removes = packs_removed modifiers in
      \<lparr>ts_profile = name, ts_modifiers = modifiers, ts_packs = (base \<union> adds) - removes, ts_added = adds - base - removes,
       ts_turned_off = (base \<union> adds) \<inter> removes, ts_removed = removes, ts_requested = adds\<rparr>)"

lemma known_parts: "known_items ws \<longleftrightarrow> known_items (filter (\<lambda>x. \<not> removes_a_pack x) ws) \<and> known_items (filter removes_a_pack ws)"
  by (auto simp: known_items_def list_all_iff)

lemma resolve_Inr:
  "resolve_tool_selection profile packs = Inr sel \<longleftrightarrow>
   known_items (modifiers_of packs) \<and> sel = selection_of (tool_profile_name profile) (modifiers_of packs) \<and> ts_packs sel \<noteq> {}"
proof -
  let ?m = "modifiers_of packs"
  show ?thesis
  proof (cases "known_items ?m")
    case True
    then have "pack_names (filter (\<lambda>x. \<not> removes_a_pack x) ?m) = Inr (map item_pack (filter (\<lambda>x. \<not> removes_a_pack x) ?m))"
      "pack_names (filter removes_a_pack ?m) = Inr (map item_pack (filter removes_a_pack ?m))"
      using known_parts pack_names_known by blast+
    then have "resolve_tool_selection profile packs =
        (let sel = selection_of (tool_profile_name profile) ?m in if ts_packs sel = {} then Inl SelectsNothing else Inr sel)"
      by (simp add: resolve_tool_selection_def Let_def selection_of_def packs_added_def packs_removed_def)
    then show ?thesis using True by (auto simp: Let_def split: if_splits)
  next
    case False
    then obtain e where "pack_names (filter (\<lambda>x. \<not> removes_a_pack x) ?m) = Inl e \<or> pack_names (filter removes_a_pack ?m) = Inl e"
      using known_parts pack_names_unknown by blast
    then show ?thesis using False by (auto simp: resolve_tool_selection_def Let_def split: sum.split)
  qed
qed

lemma profiles_facts:
  "list_all (\<lambda>(name, packs). name \<noteq> [] \<and> py_strip name \<noteq> [] \<and> map_of PROFILES name = Some packs) PROFILES"
  "list_all (\<lambda>pack. plain_item pack \<and> \<not> removes_a_pack pack \<and> pack \<in> set (profile_packs (smallest_profile_with pack)) \<and>
     tool_profile_name (smallest_profile_with pack) = smallest_profile_with pack) PACKS"
  by code_simp+

lemma profile_name_stays: "tool_profile_name (tool_profile_name value) = tool_profile_name value"
proof -
  have "tool_profile_name DEFAULT_PROFILE = DEFAULT_PROFILE" by code_simp
  then show ?thesis by (cases "py_strip value = [] \<or> map_of PROFILES value = None") (auto simp: tool_profile_name_def)
qed

text \<open>
  a call to a tool that is not served is told what to change, and any of the changes it names serves the
  tool's pack: the settings that result are valid and select it.
\<close>

theorem advice_serves_the_pack:
  assumes "resolve_tool_selection profile packs = Inr sel" and "pack \<in> set PACKS" and "pack \<notin> ts_packs sel"
    and "(profile', packs') \<in> set (advised_settings (how_to_serve pack sel) sel)"
  shows "\<exists>sel'. resolve_tool_selection profile' packs' = Inr sel' \<and> pack \<in> ts_packs sel'"
proof -
  let ?m = "modifiers_of packs" and ?base = "\<lambda>p. set (profile_packs p)"
  have pack: "plain_item pack" "\<not> removes_a_pack pack" "item_pack pack = pack" "pack \<in> ?base (smallest_profile_with pack)"
    "tool_profile_name (smallest_profile_with pack) = smallest_profile_with pack"
    using profiles_facts(2) assms(2) by (auto simp: list_all_iff item_pack_def)
  have known: "known_items ?m" and sel: "sel = selection_of (tool_profile_name profile) ?m"
    using assms(1) by (auto simp: resolve_Inr)
  have plain: "list_all plain_item ?m" using modifiers_plain by (simp add: list_all_iff)
  have works: "\<exists>sel'. resolve_tool_selection p (join_comma ws) = Inr sel' \<and> pack \<in> ts_packs sel'"
    if "list_all plain_item ws" "known_items ws" "pack \<in> ?base (tool_profile_name p) \<union> packs_added ws" "pack \<notin> packs_removed ws" for p ws
    using that unfolding resolve_Inr modifiers_of_join [OF that(1)] by (auto simp: selection_of_def Let_def)
  let ?w = "without_removal pack ?m"
  have w: "list_all plain_item ?w" "known_items ?w" "pack \<notin> packs_removed ?w" "packs_added ?w = packs_added ?m"
    using plain known pack(2,3) by (auto simp: without_removal_def known_items_def list_all_iff packs_removed_def packs_added_def)
  have ext: "list_all plain_item (ws @ [pack])" "known_items (ws @ [pack])" "pack \<in> packs_added (ws @ [pack])"
    "pack \<notin> packs_removed (ws @ [pack])" if "list_all plain_item ws" "known_items ws" "pack \<notin> packs_removed ws" for ws
  proof -
    show "list_all plain_item (ws @ [pack])" using that(1) pack(1) by simp
    show "known_items (ws @ [pack])" using that(2) pack(3) assms(2) by (simp add: known_items_def)
    show "pack \<in> packs_added (ws @ [pack])"
      unfolding packs_added_def by (rule image_eqI [of _ _ pack]) (use pack(2,3) in simp_all)
    show "pack \<notin> packs_removed (ws @ [pack])" using that(3) pack(2) by (auto simp: packs_removed_def)
  qed
  have names: "ts_profile sel = tool_profile_name profile" "ts_modifiers sel = ?m" by (simp_all add: sel selection_of_def Let_def)
  show ?thesis
  proof (cases "how_to_serve pack sel")
    case (DropRemoval q)
    then have q: "q = pack" "pack \<in> ?base (tool_profile_name profile) \<union> packs_added ?m"
      by (auto simp: how_to_serve_def sel selection_of_def Let_def split: if_splits)
    then have "profile' = tool_profile_name profile" "packs' = join_comma ?w" using assms(4) DropRemoval names by auto
    then show ?thesis using works [OF w(1,2)] w(3,4) q(2) profile_name_stays by simp
  next
    case (DropRemovalAndAdd q smallest)
    then have "q = pack" "smallest = smallest_profile_with pack" by (auto simp: how_to_serve_def split: if_splits)
    then have "profile' = tool_profile_name profile \<and> packs' = join_comma (?w @ [pack]) \<or> profile' = smallest_profile_with pack \<and> packs' = join_comma ?w"
      using assms(4) DropRemovalAndAdd names by auto
    then show ?thesis using works [OF w(1,2)] works [OF ext(1,2)] ext(3,4) w pack(4,5) by auto
  next
    case (AddPack q smallest)
    then have q: "q = pack" "smallest = smallest_profile_with pack" "pack \<notin> packs_removed ?m"
      by (auto simp: how_to_serve_def sel selection_of_def Let_def split: if_splits)
    then have "profile' = tool_profile_name profile \<and> packs' = join_comma (?m @ [pack]) \<or> profile' = smallest_profile_with pack \<and> packs' = join_comma ?m"
      using assms(4) AddPack names by auto
    then show ?thesis using works [OF plain known] works [OF ext(1,2)] ext(3,4) plain known q(3) pack(4,5) by auto
  qed
qed

theorem advice_serves_the_pack_witness:
  "\<exists>sel'. resolve_tool_selection ''full'' [] = Inr sel' \<and> ''cron'' \<in> ts_packs sel'"
proof -
  obtain sel where sel: "resolve_tool_selection ''lean'' ''-cron'' = Inr sel"
    by (cases "resolve_tool_selection ''lean'' ''-cron''") (insert resolve_Inr [of "''lean''" "''-cron''"], code_simp, blast)
  moreover have "selection_of (tool_profile_name ''lean'') (modifiers_of ''-cron'') =
      \<lparr>ts_profile = ''lean'', ts_modifiers = [''-cron''], ts_packs = {''browse''}, ts_added = {}, ts_turned_off = {},
       ts_removed = {''cron''}, ts_requested = {}\<rparr>" by code_simp
  ultimately have "(''full'', []) \<in> set (advised_settings (how_to_serve ''cron'' sel) sel)" "''cron'' \<notin> ts_packs sel"
    unfolding resolve_Inr by (simp_all add: how_to_serve_def without_removal_def removes_a_pack_def has_prefix_def item_pack_def, code_simp+)
  moreover have "''cron'' \<in> set PACKS" by code_simp
  ultimately show ?thesis using advice_serves_the_pack [OF sel] by blast
qed

section \<open>What the registry holds\<close>

lemma tools_facts:
  "distinct (map tl_name ALL_TOOLS)" "list_all (\<lambda>spec. tl_pack spec \<in> set PACKS) ALL_TOOLS"
  "list_all (\<lambda>spec. CHR '' '' \<notin> set (tl_name spec)) ALL_TOOLS"
  by code_simp+

text \<open>No tool annotated read-only asks for an approval, and none is destructive.\<close>

lemma read_only_tools:
  "list_all (\<lambda>spec. read_only_tool spec \<longrightarrow> tl_governed_kind spec = None \<and> \<not> destructive_tool spec) ALL_TOOLS"
  by code_simp

lemma find_by_key: "distinct (map f xs) \<Longrightarrow> x \<in> set xs \<Longrightarrow> find (\<lambda>y. f y = f x) xs = Some x"
  by (induction xs) auto

lemma find_Some_found: "find P xs = Some x \<Longrightarrow> x \<in> set xs \<and> P x"
  by (induction xs) (auto split: if_splits)

lemma register_tools_spec:
  assumes "distinct (map tl_name specs)" and "list_all (\<lambda>spec. tl_pack spec \<in> set PACKS) specs"
  shows "\<exists>reg'. register_tools reg specs = Some reg' \<and> tg_selection reg' = tg_selection reg \<and>
    (\<forall>name. served_tool reg' name =
      (case find (\<lambda>spec. tl_name spec = name) specs of
         None \<Rightarrow> served_tool reg name
       | Some spec \<Rightarrow> if tl_pack spec \<in> ts_packs (tg_selection reg) then Some spec else served_tool reg name)) \<and>
    (\<forall>name. withheld_pack reg' name =
      (case find (\<lambda>spec. tl_name spec = name) specs of
         None \<Rightarrow> withheld_pack reg name
       | Some spec \<Rightarrow> if tl_pack spec \<in> ts_packs (tg_selection reg) then withheld_pack reg name else Some (tl_pack spec)))"
  using assms
proof (induction specs arbitrary: reg)
  case (Cons spec specs)
  have "find (\<lambda>x. tl_name x = tl_name spec) specs = None" using Cons.prems(1) by (simp add: find_None_iff) (metis imageI)
  moreover obtain reg1 where reg1: "register_tool reg spec = Some reg1"
    by (cases "register_tool reg spec") (use Cons.prems(2) in \<open>auto simp: register_tool_def split: if_splits\<close>)
  moreover have "tg_selection reg1 = tg_selection reg"
    "served_tool reg1 name = (if tl_name spec = name \<and> tl_pack spec \<in> ts_packs (tg_selection reg) then Some spec else served_tool reg name)"
    "withheld_pack reg1 name = (if tl_name spec = name \<and> tl_pack spec \<notin> ts_packs (tg_selection reg) then Some (tl_pack spec) else withheld_pack reg name)"
    for name using reg1 by (auto simp: register_tool_def served_tool_def withheld_pack_def update_conv split: if_splits)
  ultimately show ?case using Cons.IH [of reg1] Cons.prems by (auto split: option.split)
qed (simp add: served_tool_def)

text \<open>
  every tool is either served, exactly when its pack is selected, or withheld with its pack named, but for
  vision without a model; and nothing else is served.
\<close>

lemma every_tool_is_served_or_withheld:
  assumes "new_tool_registry profile packs has_vision = Inr reg" and "spec \<in> set ALL_TOOLS"
  shows "resolve_tool_selection profile packs = Inr (tg_selection reg) \<and>
    served_tool reg (tl_name spec) =
      (if tl_pack spec \<in> ts_packs (tg_selection reg) \<and> (has_vision \<or> tl_name spec \<noteq> ''browser.find_by_vision'') then Some spec else None) \<and>
    withheld_pack reg (tl_name spec) = (if tl_pack spec \<in> ts_packs (tg_selection reg) then None else Some (tl_pack spec)) \<and>
    (\<forall>name spec'. served_tool reg name = Some spec' \<longrightarrow> spec' \<in> set ALL_TOOLS \<and> tl_name spec' = name)"
proof -
  obtain sel where sel: "resolve_tool_selection profile packs = Inr sel"
    using assms(1) by (cases "resolve_tool_selection profile packs") (auto simp: new_tool_registry_def)
  let ?empty = "\<lparr>tg_selection = sel, tg_tools = [], tg_withheld = []\<rparr>"
  obtain reg1 where registered: "register_tools ?empty ALL_TOOLS = Some reg1 \<and> tg_selection reg1 = tg_selection ?empty \<and>
      (\<forall>name. served_tool reg1 name = (case find (\<lambda>x. tl_name x = name) ALL_TOOLS of None \<Rightarrow> served_tool ?empty name
         | Some x \<Rightarrow> if tl_pack x \<in> ts_packs (tg_selection ?empty) then Some x else served_tool ?empty name)) \<and>
      (\<forall>name. withheld_pack reg1 name = (case find (\<lambda>x. tl_name x = name) ALL_TOOLS of None \<Rightarrow> withheld_pack ?empty name
         | Some x \<Rightarrow> if tl_pack x \<in> ts_packs (tg_selection ?empty) then withheld_pack ?empty name else Some (tl_pack x)))"
    using register_tools_spec [OF tools_facts(1,2), of ?empty] by blast
  then have reg1: "register_tools ?empty ALL_TOOLS = Some reg1" "tg_selection reg1 = sel"
    "\<And>name. served_tool reg1 name = (case find (\<lambda>x. tl_name x = name) ALL_TOOLS of None \<Rightarrow> None
       | Some x \<Rightarrow> if tl_pack x \<in> ts_packs sel then Some x else None)"
    "\<And>name. withheld_pack reg1 name = (case find (\<lambda>x. tl_name x = name) ALL_TOOLS of None \<Rightarrow> None
       | Some x \<Rightarrow> if tl_pack x \<in> ts_packs sel then None else Some (tl_pack x))"
    by (simp_all add: served_tool_def withheld_pack_def split: option.split)
  have reg: "reg = (if has_vision then reg1 else unregister_tool ''browser.find_by_vision'' reg1)"
    using assms(1) sel reg1(1) by (simp add: new_tool_registry_def)
  have served: "served_tool reg name = (if has_vision \<or> name \<noteq> ''browser.find_by_vision'' then served_tool reg1 name else None)" for name
    by (auto simp: reg unregister_tool_def served_tool_def delete_conv)
  have found: "find (\<lambda>x. tl_name x = tl_name spec) ALL_TOOLS = Some spec"
    using find_by_key [OF tools_facts(1) assms(2)] .
  have same: "tg_selection reg = sel" "withheld_pack reg name = withheld_pack reg1 name" for name
    using reg reg1(2) by (auto simp: unregister_tool_def withheld_pack_def)
  have only: "spec' \<in> set ALL_TOOLS \<and> tl_name spec' = name" if "served_tool reg name = Some spec'" for name spec'
    using that by (auto simp: served reg1(3) dest: find_Some_found split: if_splits option.splits)
  show ?thesis
  proof (intro conjI)
    show "resolve_tool_selection profile packs = Inr (tg_selection reg)" using sel same(1) by simp
    show "served_tool reg (tl_name spec) =
        (if tl_pack spec \<in> ts_packs (tg_selection reg) \<and> (has_vision \<or> tl_name spec \<noteq> ''browser.find_by_vision'') then Some spec else None)"
      unfolding served reg1(3) found same(1) option.case by presburger
    show "withheld_pack reg (tl_name spec) = (if tl_pack spec \<in> ts_packs (tg_selection reg) then None else Some (tl_pack spec))"
      unfolding same reg1(4) found option.case ..
    show "\<forall>name spec'. served_tool reg name = Some spec' \<longrightarrow> spec' \<in> set ALL_TOOLS \<and> tl_name spec' = name" using only by blast
  qed
qed

lemma every_tool_is_served_or_withheld_witness:
  "\<exists>reg. new_tool_registry ''lean'' [] False = Inr reg \<and> withheld_pack reg ''browser.set_cookies'' = Some ''storage''"
proof -
  have "resolve_tool_selection ''lean'' [] = Inr (selection_of ''lean'' [])"
    using resolve_Inr [of "''lean''" "[]" "selection_of ''lean'' []"] by code_simp
  then obtain reg where reg: "new_tool_registry ''lean'' [] False = Inr reg" "tg_selection reg = selection_of ''lean'' []"
    using register_tools_spec [OF tools_facts(1,2), of "\<lparr>tg_selection = selection_of ''lean'' [], tg_tools = [], tg_withheld = []\<rparr>"]
    by (auto simp: new_tool_registry_def unregister_tool_def)
  have "tool ''browser.set_cookies'' ''storage'' (Some ''account_change'') True False False None \<in> set ALL_TOOLS" by code_simp
  moreover have "''storage'' \<notin> ts_packs (selection_of ''lean'' [])" by code_simp
  ultimately show ?thesis using every_tool_is_served_or_withheld [OF reg(1)] reg by (fastforce simp: tool_def)
qed

end
