(* ===== verification/ToolCalls.thy ===== *)
theory ToolCalls
  imports ActionDispatch ToolText ToolSelection
begin

text \<open>
  One tool call (tool_gateway/gateway.py, tool_gateway/previews.py): what the server decides of its governance, the
  session it means, the approval it needs and what that approval says, the run of its handler and its answer.
  pydantic's validation, the handlers and the texts of other components' refusals are parameters.
\<close>

section \<open>What an operator is shown of the arguments\<close>

datatype redaction = Hidden | LengthOnly | RedactedUrl | StartUrlRedacted

definition REDACTED :: string where
  "REDACTED = ''<redacted>''"

fun redact_path :: "json \<Rightarrow> string list \<Rightarrow> (json \<Rightarrow> json) \<Rightarrow> json" where
  "redact_path v [] redact = redact v"
| "redact_path v (key # path) redact =
     (if key = ''*'' then (case v of JArr items \<Rightarrow> JArr (map (\<lambda>item. redact_path item path redact) items) | _ \<Rightarrow> v)
      else (case v of JObj ms \<Rightarrow> (case map_of ms key of
                None \<Rightarrow> v
              | Some w \<Rightarrow> JObj (AList.update key (redact_path w path redact) ms))
            | _ \<Rightarrow> v))"

text \<open>\<open>shown\<close> is Python's \<open>str\<close>, \<open>url\<close> is \<open>redacted_url\<close>.\<close>

fun redact_value :: "(json \<Rightarrow> string) \<Rightarrow> (json \<Rightarrow> json) \<Rightarrow> redaction \<Rightarrow> json \<Rightarrow> json" where
  "redact_value shown url Hidden v = JStr REDACTED"
| "redact_value shown url LengthOnly v = JStr (''<redacted, '' @ decimal (length (shown v)) @ '' characters>'')"
| "redact_value shown url RedactedUrl v = url v"
| "redact_value shown url StartUrlRedacted v =
     (case v of
        JObj ms \<Rightarrow> if map_of ms ''kind'' = Some (JStr ''start_url'')
                   then JObj (AList.update ''value'' (url (get_field ''value'' ms)) ms) else v
      | _ \<Rightarrow> v)"

definition redactions :: "string \<Rightarrow> (string list \<times> redaction) list" where
  "redactions name =
     (if name = ''browser.set_cookies'' then [([''cookies'', ''*'', ''value''], Hidden), ([''cookies'', ''*'', ''url''], RedactedUrl)]
      else if name = ''browser.set_local_storage'' then [([''value''], LengthOnly)]
      else if name = ''browser.cdp_attach'' then [([''cdp_url''], RedactedUrl)]
      else if name = ''browser.create_cron_job'' then [([''start_url''], RedactedUrl)]
      else if name = ''harness.start_convergence'' then
        [([''contract'', ''preconditions'', ''*''], StartUrlRedacted), ([''mock_final_observation'', ''url''], RedactedUrl)]
      else [])"

definition preview_arguments :: "(json \<Rightarrow> string) \<Rightarrow> (json \<Rightarrow> json) \<Rightarrow> string \<Rightarrow> json \<Rightarrow> json" where
  "preview_arguments shown url name args =
     fold (\<lambda>(path, r) v. redact_path v path (redact_value shown url r)) (redactions name) args"

section \<open>The environment of a call\<close>

text \<open>A call's validated arguments: \<open>ta_dump\<close> leaves out the session, the approval id and what is None.\<close>

record tool_arguments =
  ta_session_id :: "string option"
  ta_action :: "action_decision option"
  ta_dump :: members

datatype tool_failure =
    ApprovalAsked approval_record
  | ActionRaised string                \<comment> \<open>BrowserActionError: its code\<close>
  | InvalidArguments string
  | SessionMissingFailure string string  \<comment> \<open>its text and code\<close>
  | CronDisabled string
  | Unreachable
  | Said string                        \<comment> \<open>ValueError, KeyError, RuntimeError: its text\<close>
  | FileMissing string bool            \<comment> \<open>its text, and whether it carries an errno\<close>
  | Forbidden string bool
  | PageFailure string bool            \<comment> \<open>its text, and whether it is a timeout\<close>
  | Unexpected

record tool_env =
  te_dispatch :: dispatch_env
  te_sha256 :: "string \<Rightarrow> string"
  te_force :: bool                                        \<comment> \<open>\<open>force_governed_approvals\<close>\<close>
  te_harness :: bool                                      \<comment> \<open>there is a harness service\<close>
  te_str :: "json \<Rightarrow> string"                           \<comment> \<open>\<open>str\<close> of a value\<close>
  te_redacted_url :: "json \<Rightarrow> json"
  te_whole :: "json \<Rightarrow> string"                         \<comment> \<open>\<open>json.dumps\<close> with an indent\<close>
  te_validate :: "tool_spec \<Rightarrow> members \<Rightarrow> string + tool_arguments"
  te_live :: "string list"                                \<comment> \<open>the caller's live sessions\<close>
  te_live_again :: "string list"                          \<comment> \<open>the same once its lock is held\<close>
  te_created :: "tool_failure + string"
  te_accessible :: "string \<Rightarrow> bool"
  te_text :: "dispatch_refusal \<Rightarrow> string"
  te_session_code :: string
  te_failure :: "exn \<Rightarrow> tool_failure"                  \<comment> \<open>what the handler's exception says\<close>
  te_result :: "json option"                              \<comment> \<open>the handler's result, None if it cannot be encoded\<close>

section \<open>Governance\<close>

definition text_of :: "tool_env \<Rightarrow> json \<Rightarrow> string" where
  "text_of env v = (case v of JStr s \<Rightarrow> s | _ \<Rightarrow> te_str env v)"

definition or_json :: "json \<Rightarrow> json \<Rightarrow> json" where
  "or_json a b = (if json_truthy a then a else b)"

definition pop_policy_profile :: "tool_env \<Rightarrow> tool_spec \<Rightarrow> members \<Rightarrow> string \<times> members" where
  "pop_policy_profile env spec raw =
     (text_of env (or_json (get_field ''policy_profile'' raw) (or_json (get_field ''workflow_profile'' raw) (JStr ''fast''))),
      if tl_takes_profile spec then AList.delete ''policy_profile'' raw
      else AList.delete ''workflow_profile'' (AList.delete ''policy_profile'' raw))"

definition pop_policy_approval_id :: "tool_env \<Rightarrow> tool_spec \<Rightarrow> members \<Rightarrow> string option \<times> members" where
  "pop_policy_approval_id env spec raw =
     (let named = or_json (get_field ''governed_approval_id'' raw) (get_field ''approval_id'' raw) in
      (if json_truthy named then Some (text_of env named) else None,
       AList.delete ''governed_approval_id'' (if tl_takes_approval_id spec then raw else AList.delete ''approval_id'' raw)))"

definition QUEUE_TOOLS :: "string list" where
  "QUEUE_TOOLS = [''browser.queue_agent_run'', ''browser.queue_agent_step'']"

text \<open>The profile, the approval id and the arguments a call is held to.\<close>

definition governance :: "tool_env \<Rightarrow> tool_spec \<Rightarrow> members \<Rightarrow> string \<times> string option \<times> members" where
  "governance env spec raw =
     (case pop_policy_profile env spec raw of (named, raw1) \<Rightarrow>
      case pop_policy_approval_id env spec raw1 of (aid, raw2) \<Rightarrow>
        let asked = (if tl_name spec = ''browser.eval_js'' then ''governed'' else named);
            raw3 = (if tl_name spec = ''browser.create_cron_job''
                    then AList.update ''workflow_profile'' (JStr (if asked = ''governed'' then ''governed'' else ''fast'')) raw2 else raw2);
            raw4 = (if tl_name spec \<in> set QUEUE_TOOLS \<and> asked = ''governed''
                    then (case map_of raw3 ''request'' of
                            Some (JObj request) \<Rightarrow>
                              AList.update ''request'' (JObj (AList.update ''workflow_profile'' (JStr ''governed'') request)) raw3
                          | _ \<Rightarrow> raw3)
                    else raw3);
            profile = (if tl_governed_kind spec \<noteq> None \<and> te_force env then ''governed'' else asked)
        in (profile, aid, raw4))"

section \<open>The session a call means\<close>

definition SESSION_STARTER_TOOLS :: "string list" where
  "SESSION_STARTER_TOOLS = [''browser.observe'', ''browser.execute_action'', ''browser.get_html'', ''browser.find_elements'',
     ''browser.screenshot'', ''browser.wait_for_selector'']"

definition resolve_implicit_session :: "tool_env \<Rightarrow> tool_spec \<Rightarrow> tool_arguments \<Rightarrow> tool_failure + tool_arguments" where
  "resolve_implicit_session env spec args =
     (if \<not> tl_session_bound spec \<or> truthy (ta_session_id args) then Inr args
      else
        let starts = te_live env = [] \<and> tl_name spec \<in> set SESSION_STARTER_TOOLS;
            sessions = (if starts then te_live_again env else te_live env) in
        if starts \<and> sessions = [] then
          (case te_created env of Inl e \<Rightarrow> Inl e | Inr i \<Rightarrow> Inr (args\<lparr>ta_session_id := Some i\<rparr>))
        else case sessions of
          [] \<Rightarrow> Inl (ActionRaised ''no_session'')
        | [i] \<Rightarrow> Inr (args\<lparr>ta_session_id := Some i\<rparr>)
        | _ \<Rightarrow> Inl (ActionRaised ''ambiguous_session''))"

section \<open>The approval of a governed call\<close>

definition APPROVAL_PREVIEW_CHARS :: nat where
  "APPROVAL_PREVIEW_CHARS = 600"

text \<open>The preview: ASCII by construction, so \<open>shown_code_points\<close> leaves it as it is. The ellipsis is three dots here.\<close>

definition call_reason :: "tool_env \<Rightarrow> tool_spec \<Rightarrow> members \<Rightarrow> nat option \<Rightarrow> string" where
  "call_reason env spec args whole_size =
     ''Approve '' @ tl_name spec @
     (case whole_size of
        None \<Rightarrow> []
      | Some n \<Rightarrow>
          let text = dumped True '', '' '': '' (sorted_keys (preview_arguments (te_str env) (te_redacted_url env) (tl_name spec) (JObj args)))
          in '' with '' @ cut_between_characters text APPROVAL_PREVIEW_CHARS @
             (if APPROVAL_PREVIEW_CHARS < length text
              then ''... ('' @ decimal n @ '' characters in all: View all shows them)'' else []))"

definition governed_call_text :: "tool_env \<Rightarrow> tool_spec \<Rightarrow> members \<Rightarrow> string" where
  "governed_call_text env spec args = tl_name spec @ '' sha256:'' @ te_sha256 env (canonical_text args)"

definition governed_call_decision :: "tool_env \<Rightarrow> tool_spec \<Rightarrow> members \<Rightarrow> nat option \<Rightarrow> action_decision" where
  "governed_call_decision env spec args whole_size =
     \<lparr>act_action = ''request_human_takeover'', act_reason = take 1000 (call_reason env spec args whole_size), act_confidence = None,
      act_risk_category = (if tl_governed_kind spec = Some ''dynamic'' then Some ''write'' else tl_governed_kind spec),
      act_element_id = None, act_selector = None, act_x = None, act_y = None,
      act_text = Some (governed_call_text env spec args), act_clear_first = True, act_sensitive = False, act_key = None,
      act_value = None, act_label = None, act_index = None, act_delta_x = 0, act_delta_y = 600, act_wait_ms = 1000,
      act_url = None, act_file_path = None, act_recipient = None, act_platform = None, act_username = None\<rparr>"

definition require_tool_approval ::
  "tool_env \<Rightarrow> tool_spec \<Rightarrow> tool_arguments \<Rightarrow> string \<Rightarrow> string option \<Rightarrow> hold_context \<Rightarrow> approval_store \<Rightarrow>
   approval_store \<times> (dispatch_refusal + approval_record option)" where
  "require_tool_approval env spec args profile aid ctx s =
     (if profile \<noteq> ''governed'' \<or> tl_governed_kind spec = None then (s, Inr None)
      else
        let denv = te_dispatch env; session = or_none (ta_session_id args) in
        case ta_action args of
          None \<Rightarrow>
            let whole = te_whole env (sorted_keys (preview_arguments (te_str env) (te_redacted_url env) (tl_name spec) (JObj (ta_dump args))));
                whole_size = (if truthy aid then None else Some (length whole)) in
            require_governed_approval denv session (governed_call_decision env spec (ta_dump args) whole_size) aid
              (Some (call_reason env spec (ta_dump args) whole_size)) ToolCallOrigin (if truthy aid then None else Some whole) ctx s
        | Some d \<Rightarrow>
            if act_action d = ''upload'' \<and> session \<noteq> None \<and> \<not> dp_session_ok denv then (s, Inl NoSession)
            else if act_action d = ''upload'' \<and> \<not> dp_file_ok denv (the_default [] (act_file_path d)) then (s, Inl FileRefused)
            else require_governed_approval denv session d aid None ActionOrigin None ctx s)"

section \<open>The answer\<close>

datatype tool_answer =
    ToolResult json
  | ToolError string "string option" "(given_back_note \<times> given_back_note list) option"  \<comment> \<open>text, code, given back\<close>
  | ToolDetail tool_failure
  | ToolCancelled

definition TOOL_FAILED :: string where
  "TOOL_FAILED = ''Tool execution failed''"

fun failure_answer :: "tool_failure \<Rightarrow> (given_back_note \<times> given_back_note list) option \<Rightarrow> tool_answer" where
  "failure_answer (ApprovalAsked r) notes = ToolDetail (ApprovalAsked r)"
| "failure_answer (ActionRaised code) notes = ToolDetail (ActionRaised code)"
| "failure_answer (InvalidArguments text) notes = ToolError text None None"
| "failure_answer (SessionMissingFailure text code) notes = ToolError text (Some code) notes"
| "failure_answer (CronDisabled text) notes = ToolError text (Some ''cron_job_disabled'') notes"
| "failure_answer Unreachable notes = ToolError ''the browser could not be reached'' (Some ''browser_unreachable'') notes"
| "failure_answer (Said text) notes = ToolError text None notes"
| "failure_answer (FileMissing text os) notes = (if os then ToolError TOOL_FAILED None notes else ToolError text (Some ''not_found'') notes)"
| "failure_answer (Forbidden text os) notes = (if os then ToolError TOOL_FAILED None notes else ToolError text (Some ''not_permitted'') notes)"
| "failure_answer (PageFailure text timeout) notes =
     ToolError (take 2000 text) (Some (if timeout then ''timeout'' else ''browser_error'')) notes"
| "failure_answer Unexpected notes = ToolError TOOL_FAILED None notes"

fun refusal_failure :: "tool_env \<Rightarrow> dispatch_refusal \<Rightarrow> tool_failure" where
  "refusal_failure env NoSession = SessionMissingFailure (te_text env NoSession) (te_session_code env)"
| "refusal_failure env NothingRuns = Said (te_text env NothingRuns)"
| "refusal_failure env HostRefused = Forbidden (te_text env HostRefused) False"
| "refusal_failure env FileRefused = FileMissing (te_text env FileRefused) False"
| "refusal_failure env BadTarget = ActionRaised ''invalid_element_id''"
| "refusal_failure env (ApprovalRequired r) = ApprovalAsked r"
| "refusal_failure env (StoreSaid e) =
     (case e of
        KeyErr i \<Rightarrow> Said i | UnreadableErr i \<Rightarrow> Said i | StoresUntrusted _ \<Rightarrow> Said (te_text env (StoreSaid e))
      | SessionNotFound \<Rightarrow> SessionMissingFailure (te_text env (StoreSaid e)) (te_session_code env) | StoreFailure \<Rightarrow> Unexpected | OtherError \<Rightarrow> Unexpected
      | _ \<Rightarrow> Forbidden (te_text env (StoreSaid e)) False)"

definition ending_answer :: "tool_env \<Rightarrow> tool_spec \<Rightarrow> ending \<Rightarrow> tool_answer" where
  "ending_answer env spec ended =
     (case ended of
        Returned \<Rightarrow>
          (case te_result env of
             Some v \<Rightarrow> ToolResult v
           | None \<Rightarrow> ToolError (tl_name spec @ '' ran, but its result could not be encoded. Observe the page before acting again.'') None None)
      | Raised e \<Rightarrow> failure_answer (te_failure env e) (given_back_notes e)
      | CancelledEnding \<Rightarrow> ToolCancelled)"

section \<open>The call\<close>

definition EVALUATES_LIVE :: "members \<Rightarrow> bool" where
  "EVALUATES_LIVE raw \<longleftrightarrow> json_truthy (get_field ''session_id'' raw) \<and> get_field ''mock_final_observation'' raw = JNull"

text \<open>The call's checks before any approval: its arguments and its session.\<close>

definition checked_arguments :: "tool_env \<Rightarrow> tool_spec \<Rightarrow> string \<Rightarrow> members \<Rightarrow> tool_answer + tool_arguments" where
  "checked_arguments env spec profile raw =
     (if tl_name spec = ''harness.start_convergence'' \<and> EVALUATES_LIVE raw \<and> profile \<noteq> ''governed'' then
        Inl (ToolError ''harness.start_convergence with a live session requires workflow_profile=governed'' None None)
      else if take 8 (tl_name spec) = ''harness.'' \<and> \<not> te_harness env then
        Inl (ToolError ''harness service unavailable - check controller startup logs and HARNESS_* config'' None None)
      else case te_validate env spec raw of
        Inl text \<Rightarrow> Inl (failure_answer (InvalidArguments text) None)
      | Inr args \<Rightarrow>
          (case resolve_implicit_session env spec args of
             Inl e \<Rightarrow> Inl (failure_answer e None)
           | Inr args' \<Rightarrow>
               if truthy (ta_session_id args') \<and>
                  \<not> (tl_name spec = ''browser.list_approvals'' \<and> ta_session_id args' = Some CONTROLLER_SCOPE) \<and>
                  \<not> te_accessible env (the (ta_session_id args'))
               then Inl (failure_answer (SessionMissingFailure (te_text env NoSession) (te_session_code env)) None)
               else Inr args'))"

text \<open>A tool's handler runs as the block of the approval it was called with; only an action's may give it back.\<close>

definition run_tool :: "tool_env \<Rightarrow> tool_spec \<Rightarrow> approval_record option \<Rightarrow> block \<Rightarrow> hold_context \<Rightarrow> approval_store \<Rightarrow> approval_store \<times> ending"
where
  "run_tool env spec found handler ctx s =
     (let denv = te_dispatch env in
      case found of
        None \<Rightarrow> handler ctx s
      | Some r \<Rightarrow>
          (case held_for_execution (dp_claim denv) (dp_end denv) (ar_id r) (tl_name spec = ''browser.execute_action'')
                  (refusal_exn denv (StoreSaid OtherError)) (dp_cancelled denv) handler ctx s of
             (s', ctx', out) \<Rightarrow> (s', ending_of_hold denv out)))"

definition call_tool ::
  "tool_env \<Rightarrow> tool_spec \<Rightarrow> members \<Rightarrow> (tool_arguments \<Rightarrow> block) \<Rightarrow> hold_context \<Rightarrow> approval_store \<Rightarrow> approval_store \<times> tool_answer" where
  "call_tool env spec raw handler ctx s =
     (case governance env spec raw of (profile, aid, raw') \<Rightarrow>
      case checked_arguments env spec profile raw' of
        Inl answer \<Rightarrow> (s, answer)
      | Inr args \<Rightarrow>
          (case require_tool_approval env spec args profile aid ctx s of
             (s', Inl e) \<Rightarrow> (s', if e = StoreSaid CancelledErr then ToolCancelled
                                else failure_answer (refusal_failure env e) (given_back_notes (refusal_exn (te_dispatch env) e)))
           | (s', Inr found) \<Rightarrow>
               (case run_tool env spec found (handler args) ctx s' of (s'', ended) \<Rightarrow> (s'', ending_answer env spec ended))))"

text \<open>A call by name: an unknown tool and a withheld one are answered without running anything.\<close>

definition call_named ::
  "tool_env \<Rightarrow> tool_registry \<Rightarrow> (string \<Rightarrow> string) \<Rightarrow> string \<Rightarrow> members \<Rightarrow> (tool_spec \<Rightarrow> tool_arguments \<Rightarrow> block) \<Rightarrow> hold_context \<Rightarrow>
   approval_store \<Rightarrow> approval_store \<times> tool_answer" where
  "call_named env reg unknown name raw handler ctx s =
     (case served_tool reg name of
        Some spec \<Rightarrow> call_tool env spec raw (handler spec) ctx s
      | None \<Rightarrow>
          (s, ToolError (case withheld_pack reg name of
                Some pack \<Rightarrow> withheld_tool_message name pack (tg_selection reg) (map fst (tg_tools reg))
              | None \<Rightarrow> unknown name) None None))"

end
