(* ===== verification/ToolFacts.thy ===== *)
theory ToolFacts
  imports ToolCalls
begin

text \<open>
  What a tool call needs before its handler runs, who decides whether it is governed, and what the operator who
  approves it sees.
\<close>

section \<open>The approval is for the call\<close>

lemma governed_kinds:
  "list_all (\<lambda>spec. tl_governed_kind spec \<noteq> None \<longrightarrow>
     governed_approval_kind_for_decision (upload_decision None None [] \<lparr>act_action := ''request_human_takeover'',
       act_risk_category := (if tl_governed_kind spec = Some ''dynamic'' then Some ''write'' else tl_governed_kind spec)\<rparr>) \<noteq> None) ALL_TOOLS"
  "list_all (\<lambda>spec. (tl_governed_kind spec \<noteq> None \<longrightarrow> tl_name spec \<notin> set QUEUE_TOOLS) \<and>
     (tl_takes_profile spec \<longleftrightarrow> tl_name spec = ''browser.create_cron_job'')) ALL_TOOLS"
  by code_simp+

lemma governed_call_kind:
  assumes "spec \<in> set ALL_TOOLS" and "tl_governed_kind spec \<noteq> None"
  shows "governed_approval_kind_for_decision (governed_call_decision env spec args n) \<noteq> None"
  using governed_kinds(1) assms
  by (auto simp: list_all_iff governed_approval_kind_for_decision_def governed_call_decision_def upload_decision_def dest!: bspec)

lemma name_of_call_text:
  assumes "CHR '' '' \<notin> set x" and "CHR '' '' \<notin> set y" and "x @ '' sha256:'' @ d = y @ '' sha256:'' @ e"
  shows "x = y \<and> d = e"
proof -
  have "takeWhile (\<lambda>c. c \<noteq> CHR '' '') (z @ '' sha256:'' @ t) = z" if "CHR '' '' \<notin> set z" for z t
    using that by (subst takeWhile_append2) auto
  from this [OF assms(1), of d] this [OF assms(2), of e] assms(3) show ?thesis by simp
qed

lemma same_call:
  assumes "\<And>x y. te_sha256 env x = te_sha256 env y \<Longrightarrow> x = y"
    and "spec \<in> set ALL_TOOLS" and "spec' \<in> set ALL_TOOLS"
    and "bound_fields (governed_call_decision env spec args n) = bound_fields (governed_call_decision env spec' args' n')"
    and "numbers_ok (JObj args)" and "numbers_ok (JObj args')"
  shows "tl_name spec = tl_name spec' \<and> sorted_keys (JObj args) = sorted_keys (JObj args')"
proof -
  have "governed_call_text env spec args = governed_call_text env spec' args'"
    using assms(4) by (simp add: bound_fields_def governed_call_decision_def)
  moreover have "CHR '' '' \<notin> set (tl_name spec)" "CHR '' '' \<notin> set (tl_name spec')"
    using tools_facts(3) assms(2,3) by (auto simp: list_all_iff)
  ultimately have "tl_name spec = tl_name spec' \<and> te_sha256 env (canonical_text args) = te_sha256 env (canonical_text args')"
    by (intro name_of_call_text) (simp_all add: governed_call_text_def)
  then show ?thesis using assms(1) canonical_text_unique [OF assms(5,6)] by blast
qed

lemma require_governed_approval_Inr:
  assumes "require_governed_approval denv session d aid reason origin arguments ctx s = (s', Inr found)"
    and "governed_approval_kind_for_decision d = Some kind"
  shows "s' = s \<and> (\<exists>r. truthy aid \<and> found = Some r \<and>
    require_approved (dp_ask denv) (the aid) (the_default CONTROLLER_SCOPE session) kind d origin ctx s = Inr r)"
proof -
  have "require_decision_approval denv session d aid (Some (the_default (GOVERNED_REASON d) (or_none reason))) (Some kind) origin
      arguments ctx s = (s', Inr found)"
    using assms by (auto simp: require_governed_approval_def refuse_marked_def split: if_splits)
  from require_decision_approval_Inr [OF this] show ?thesis by auto
qed


section \<open>Who decides\<close>


section \<open>What the operator sees\<close>

lemma redact_path_comp: "redact_path (redact_path v path g) path f = redact_path v path (f \<circ> g)"
proof (induction path arbitrary: v)
  case (Cons key path)
  show ?case
  proof (cases "key = ''*''")
    case True
    then show ?thesis using Cons by (cases v) auto
  next
    case False
    then show ?thesis using Cons by (cases v) (auto split: option.splits simp: map_of_update)
  qed
qed simp

text \<open>
  the text an operator reads of a call that sets cookies does not depend on their values, nor that of one
  that sets a storage item on more than its value's length.
\<close>

theorem preview_hides_credentials:
  "preview_arguments shown url ''browser.set_cookies'' (redact_path args [''cookies'', ''*'', ''value''] g) =
     preview_arguments shown url ''browser.set_cookies'' args \<and>
   ((\<forall>v. length (shown (g v)) = length (shown v)) \<longrightarrow>
    preview_arguments shown url ''browser.set_local_storage'' (redact_path args [''value''] g) =
      preview_arguments shown url ''browser.set_local_storage'' args)"
proof -
  have "redact_value shown url Hidden \<circ> g = redact_value shown url Hidden" by auto
  moreover have "(\<forall>v. length (shown (g v)) = length (shown v)) \<Longrightarrow>
      redact_value shown url LengthOnly \<circ> g = redact_value shown url LengthOnly" by (auto simp: fun_eq_iff)
  ultimately show ?thesis
    by (simp add: preview_arguments_def redactions_def redact_path_comp del: redact_path.simps)
qed

section \<open>Samples\<close>

definition sample_call :: tool_env where
  "sample_call = \<lparr>te_dispatch = sample_dispatch, te_sha256 = (\<lambda>x. x), te_force = False, te_harness = False,
     te_str = (\<lambda>v. case v of JStr x \<Rightarrow> x | _ \<Rightarrow> []), te_redacted_url = (\<lambda>v. v), te_whole = (\<lambda>v. []),
     te_validate = (\<lambda>spec raw. Inr \<lparr>ta_session_id = Some ''s1'', ta_action = None, ta_dump = AList.delete ''session_id'' raw\<rparr>),
     te_live = [''s1''], te_live_again = [], te_created = Inl Unreachable, te_accessible = (\<lambda>_. True), te_text = (\<lambda>_. []),
     te_session_code = ''session_not_found'', te_failure = (\<lambda>_. Unexpected), te_result = Some JNull\<rparr>"

definition cookies_tool :: tool_spec where
  "cookies_tool = tool ''browser.set_cookies'' ''storage'' (Some ''account_change'') True False False None"

definition cookies_call :: members where
  "cookies_call = [(''session_id'', JStr ''s1''), (''cookies'', JArr []), (''policy_profile'', JStr ''governed''), (''approval_id'', JStr ''a1'')]"

definition approved_cookies :: approval_store where
  "approved_cookies = holding_record (sample_record\<lparr>ar_kind := KAccountChange, ar_origin := ToolCallOrigin,
     ar_action := stored_action rev (governed_call_decision sample_call cookies_tool [(''cookies'', JArr [])] None)\<rparr>)"

definition answers :: "tool_arguments \<Rightarrow> block" where
  "answers args ctx s = (s, Returned)"

definition fails :: "tool_arguments \<Rightarrow> block" where
  "fails args ctx s = (s, Raised sample_refusal)"

lemma cookies_call_reads:
  "governance sample_call cookies_tool cookies_call = (''governed'', Some ''a1'', [(''session_id'', JStr ''s1''), (''cookies'', JArr [])])"
  "checked_arguments sample_call cookies_tool ''governed'' [(''session_id'', JStr ''s1''), (''cookies'', JArr [])] =
     Inr \<lparr>ta_session_id = Some ''s1'', ta_action = None, ta_dump = [(''cookies'', JArr [])]\<rparr>"
  by code_simp+



theorem preview_hides_credentials_witness:
  "preview_arguments (te_str sample_call) (\<lambda>v. v) ''browser.set_local_storage''
     (redact_path (JObj [(''key'', JStr ''token''), (''value'', JStr ''hunter2'')]) [''value''] (\<lambda>v. JStr (rev (te_str sample_call v)))) =
   preview_arguments (te_str sample_call) (\<lambda>v. v) ''browser.set_local_storage'' (JObj [(''key'', JStr ''token''), (''value'', JStr ''hunter2'')])"
  by (rule preview_hides_credentials [THEN conjunct2, rule_format]) (simp add: sample_call_def)

end
