(* ===== verification/HarnessVerify.thy ===== *)
theory HarnessVerify
  imports ToolText Ownership UrlText ActionChecks "HOL-Library.Sublist"
begin

text \<open>
  The verdict on one attempt of a convergence run (harness/contracts.py, harness/trace.py, harness/verifier): what a
  contract asks of the page an attempt left, the programmatic verifier that reads the attempt's trace, the
  ensemble's vote, and the convergence detector. Texts are 8-bit; \<open>repr\<close> is Python's \<open>str\<close> of a list or an object.
\<close>

section \<open>Contracts and traces\<close>

datatype postcondition_kind =
    PageUrlContains | PageUrlMatches | PageTextContains | DomContains | NetworkResponseShape | ExtractedDataSchema

record postcondition =
  pc_kind :: postcondition_kind
  pc_value :: string
  pc_required :: bool

datatype forbidden_kind =
    ForbiddenUrl | ForbiddenUrlMatch | ForbiddenText | UrlStatus | CaptchaScreen | PaymentScreen | LoginRedirect

record forbidden_state =
  fb_kind :: forbidden_kind
  fb_value :: string

record task_contract =
  tc_id :: string
  tc_goal :: string
  tc_postconditions :: "postcondition list"
  tc_forbidden :: "forbidden_state list"
  tc_evidence :: "(string \<times> bool) list"        \<comment> \<open>a kind, and whether it is required\<close>
  tc_max_attempts :: nat

definition forbidden_ok :: "forbidden_state \<Rightarrow> bool" where
  "forbidden_ok f \<longleftrightarrow> fb_kind f \<in> {ForbiddenUrl, ForbiddenUrlMatch, ForbiddenText, UrlStatus} \<longrightarrow> fb_value f \<noteq> []"

definition contract_ok :: "task_contract \<Rightarrow> bool" where
  "contract_ok c \<longleftrightarrow> tc_postconditions c \<noteq> [] \<and> list_all (\<lambda>p. pc_value p \<noteq> []) (tc_postconditions c) \<and>
     list_all forbidden_ok (tc_forbidden c) \<and> 1 \<le> tc_max_attempts c \<and> tc_max_attempts c \<le> 20"

definition required_evidence :: "task_contract \<Rightarrow> string list" where
  "required_evidence c = map fst (filter snd (tc_evidence c))"

record trace_event =
  ev_type :: string
  ev_payload :: members

record trace_envelope =
  tr_events :: "trace_event list"
  tr_final_observation :: members
  tr_network :: "json list"
  tr_extracted :: members
  tr_mock :: bool                                 \<comment> \<open>its metadata's mode is mock\<close>

definition SCREENSHOT_KEYS :: "string list" where
  "SCREENSHOT_KEYS = [''screenshot_path'', ''screenshot_url'']"

definition screenshot_evidence :: "trace_event \<Rightarrow> bool" where
  "screenshot_evidence e \<longleftrightarrow> has_prefix ''screenshot'' (ev_type e) \<and> get_field ''available'' (ev_payload e) \<noteq> JBool False \<and>
     list_ex (\<lambda>key. json_truthy (get_field key (ev_payload e))) SCREENSHOT_KEYS"

definition evidence_kinds :: "trace_envelope \<Rightarrow> string list" where
  "evidence_kinds t =
     (let has = (\<lambda>P. list_ex (\<lambda>e. P (ev_type e)) (tr_events t)) in
      ''trace'' #
      (if has (has_prefix ''action'') then [''actions''] else []) @
      (if list_ex screenshot_evidence (tr_events t) then [''screenshots''] else []) @
      (if tr_network t \<noteq> [] \<or> has (has_prefix ''network'') then [''network''] else []) @
      (if has (has_prefix ''console'') then [''console''] else []) @
      (if has (has_prefix ''model'') \<or> has (\<lambda>t. t = ''decision'') then [''model_decisions''] else []))"

section \<open>What the page shows\<close>

definition py_str :: "(json \<Rightarrow> string) \<Rightarrow> json \<Rightarrow> string" where
  "py_str repr v = (case v of JNull \<Rightarrow> ''None'' | JBool b \<Rightarrow> (if b then ''True'' else ''False'') | JNum n \<Rightarrow> n | JStr s \<Rightarrow> s | _ \<Rightarrow> repr v)"

definition str_or_empty :: "(json \<Rightarrow> string) \<Rightarrow> json \<Rightarrow> string" where
  "str_or_empty repr v = (if json_truthy v then py_str repr v else [])"

record page_shown =
  pg_observation :: members
  pg_url :: string
  pg_text :: string
  pg_dom :: string

definition TEXT_FIELDS :: "string list" where
  "TEXT_FIELDS = [''text'', ''text_excerpt'', ''body_text'', ''content'', ''title'', ''active_element'']"

definition DOM_FIELDS :: "string list" where
  "DOM_FIELDS = [''dom'', ''dom_outline'', ''accessibility_outline'', ''text'', ''text_excerpt'', ''ocr'', ''interactables'']"

definition lines_of :: "(json \<Rightarrow> string) \<Rightarrow> string list \<Rightarrow> members \<Rightarrow> string" where
  "lines_of render keys obs =
     separated ''\<newline>'' (map (\<lambda>key. render (get_field key obs)) (filter (\<lambda>key. get_field key obs \<noteq> JNull) keys))"

definition page_shown_by :: "(json \<Rightarrow> string) \<Rightarrow> trace_envelope \<Rightarrow> page_shown" where
  "page_shown_by repr t =
     (let obs = tr_final_observation t;
          url = (if json_truthy (get_field ''url'' obs) then get_field ''url'' obs else get_field ''current_url'' obs)
      in \<lparr>pg_observation = obs, pg_url = str_or_empty repr url, pg_text = lines_of (py_str repr) TEXT_FIELDS obs,
          pg_dom = lines_of (\<lambda>v. dumped False '', '' '': '' (sorted_keys v)) DOM_FIELDS obs\<rparr>)"

text \<open>A text that contains another, ignoring case.\<close>

definition within_text :: "string \<Rightarrow> string \<Rightarrow> bool" where
  "within_text value where_to = sublist (lower value) (lower where_to)"

definition postcondition_passes :: "trace_envelope \<Rightarrow> page_shown \<Rightarrow> postcondition \<Rightarrow> bool" where
  "postcondition_passes t page p =
     (case pc_kind p of
        PageUrlContains \<Rightarrow> within_text (pc_value p) (pg_url page)
      | PageTextContains \<Rightarrow> within_text (pc_value p) (pg_text page)
      | DomContains \<Rightarrow> within_text (pc_value p) (pg_dom page)
      | NetworkResponseShape \<Rightarrow> list_ex (\<lambda>entry. within_text (pc_value p) (dumped False '', '' '': '' entry)) (tr_network t)
      | ExtractedDataSchema \<Rightarrow> pc_value p \<in> set (map fst (tr_extracted t)) \<or>
          within_text (pc_value p) (dumped False '', '' '': '' (JObj (tr_extracted t)))
      | PageUrlMatches \<Rightarrow> False)"

section \<open>Forbidden states\<close>

text \<open>A character of a word in Python's \<open>re\<close>: a letter, a digit or another number, or an underscore.\<close>

definition word_letter :: "char \<Rightarrow> bool" where
  "word_letter c \<longleftrightarrow> alnum_char c \<or>
     (let n = of_char c :: nat in n \<in> {170, 178, 179, 181, 185, 186, 188, 189, 190} \<or> (192 \<le> n \<and> n \<noteq> 215 \<and> n \<noteq> 247))"

definition word_char :: "char \<Rightarrow> bool" where
  "word_char c \<longleftrightarrow> word_letter c \<or> c = CHR ''_''"

fun phrase_after :: "(char \<Rightarrow> bool) \<Rightarrow> string \<Rightarrow> bool \<Rightarrow> string \<Rightarrow> bool" where
  "phrase_after word p inside [] = (p = [] \<and> \<not> inside)"
| "phrase_after word p inside (c # cs) =
     ((\<not> inside \<and> has_prefix p (lower (c # cs)) \<and>
       (case drop (length p) (c # cs) of [] \<Rightarrow> True | d # _ \<Rightarrow> \<not> word d)) \<or> phrase_after word p (word c) cs)"

definition has_phrase :: "bool \<Rightarrow> string list \<Rightarrow> string \<Rightarrow> bool" where
  "has_phrase underscore_ends_words phrases text_shown \<longleftrightarrow>
     list_ex (\<lambda>p. py_strip p \<noteq> [] \<and>
       phrase_after (if underscore_ends_words then word_letter else word_char) (lower (py_strip p)) False text_shown) phrases"

definition ascii_lower :: "char \<Rightarrow> bool" where
  "ascii_lower c \<longleftrightarrow> CHR ''a'' \<le> c \<and> c \<le> CHR ''z''"

definition ascii_upper :: "char \<Rightarrow> bool" where
  "ascii_upper c \<longleftrightarrow> CHR ''A'' \<le> c \<and> c \<le> CHR ''Z''"

fun split_humps :: "string \<Rightarrow> string" where
  "split_humps (a # b # cs) =
     a # (if (ascii_lower a \<or> digit_char a) \<and> ascii_upper b \<or>
             ascii_upper a \<and> ascii_upper b \<and> (case cs of c # _ \<Rightarrow> ascii_lower c | [] \<Rightarrow> False) then '' '' else []) @ split_humps (b # cs)"
| "split_humps cs = cs"

definition CAPTCHA_PHRASES :: "string list" where
  "CAPTCHA_PHRASES = [''captcha'', ''recaptcha'', ''hcaptcha'', ''grecaptcha'', ''verify you are human'', ''cloudflare'']"

definition PAYMENT_PHRASES :: "string list" where
  "PAYMENT_PHRASES = [''credit card'', ''card number'', ''billing address'', ''checkout payment'', ''payment method'',
     ''payment details'', ''payment information'']"

definition PAYMENT_SEGMENTS :: "string list" where
  "PAYMENT_SEGMENTS = [''payment'', ''payments'']"

definition LOGIN_SEGMENTS :: "string list" where
  "LOGIN_SEGMENTS = [''login'', ''log-in'', ''log_in'', ''logon'', ''signin'', ''sign-in'', ''sign_in'', ''auth'', ''authorize'',
     ''wp-login'', ''servicelogin'', ''login-actions'', ''signin-oidc'']"

definition LOGIN_HOST_LABELS :: "string list" where
  "LOGIN_HOST_LABELS = ''sso'' # LOGIN_SEGMENTS"

definition has_captcha_name :: "string \<Rightarrow> bool" where
  "has_captcha_name text_shown \<longleftrightarrow> has_phrase True CAPTCHA_PHRASES text_shown \<or> has_phrase True CAPTCHA_PHRASES (split_humps text_shown)"

definition has_value :: "string \<Rightarrow> string \<Rightarrow> bool" where
  "has_value text_shown value \<longleftrightarrow> value \<noteq> [] \<and> within_text value text_shown"

definition host_is_login :: "string \<Rightarrow> bool" where
  "host_is_login url =
     (case urlsplit url of
        None \<Rightarrow> False
      | Some u \<Rightarrow> hd (split_on (CHR ''.'') (the_default [] (url_hostname u))) \<in> set LOGIN_HOST_LABELS)"

definition segment_stem :: "string \<Rightarrow> string" where
  "segment_stem segment = hd (split_on (CHR ''.'') (hd (split_on (CHR '';'') segment)))"

definition paths_of :: "string \<Rightarrow> string list option" where
  "paths_of url =
     (case urlsplit url of
        None \<Rightarrow> None
      | Some u \<Rightarrow>
          if has_prefix ''/'' (su_fragment u) \<or> has_prefix ''!/'' (su_fragment u)
          then map_option (\<lambda>route. [su_path u, su_path route])
                 (urlsplit (if has_prefix ''!'' (su_fragment u) then tl (su_fragment u) else su_fragment u))
          else Some [su_path u])"

definition path_has_segment :: "string \<Rightarrow> string list \<Rightarrow> bool" where
  "path_has_segment url segments =
     (case paths_of url of
        None \<Rightarrow> False
      | Some paths \<Rightarrow> list_ex (\<lambda>path. list_ex (\<lambda>s. s \<noteq> [] \<and> segment_stem s \<in> set segments) (split_on (CHR ''/'') (lower path))) paths)"

definition STATUS_FIELDS :: "string list" where
  "STATUS_FIELDS = [''status_code'', ''http_status'', ''status'']"

definition forbidden_state_hit :: "(json \<Rightarrow> string) \<Rightarrow> page_shown \<Rightarrow> forbidden_state \<Rightarrow> bool" where
  "forbidden_state_hit repr page f =
     (let value = fb_value f;
          statuses = map (\<lambda>key. str_or_empty repr (get_field key (pg_observation page))) STATUS_FIELDS;
          combined = pg_url page @ ''\<newline>'' @ pg_text page @ ''\<newline>'' @ pg_dom page
      in case fb_kind f of
        ForbiddenUrl \<Rightarrow> within_text value (pg_url page)
      | ForbiddenText \<Rightarrow> within_text value (pg_text page) \<or> within_text value (pg_dom page)
      | UrlStatus \<Rightarrow> within_text value (pg_text page) \<or> within_text value (pg_url page) \<or> lower value \<in> set (map lower statuses)
      | CaptchaScreen \<Rightarrow> has_captcha_name combined \<or> has_value combined value
      | PaymentScreen \<Rightarrow> has_phrase False PAYMENT_PHRASES combined \<or> path_has_segment (pg_url page) PAYMENT_SEGMENTS \<or>
          has_value combined value
      | LoginRedirect \<Rightarrow> path_has_segment (pg_url page) LOGIN_SEGMENTS \<or> host_is_login (pg_url page) \<or>
          list_ex (\<lambda>s. py_strip s \<in> {''401'', ''403''}) statuses \<or> value \<noteq> [] \<and> within_text value (pg_url page)
      | ForbiddenUrlMatch \<Rightarrow> False)"

section \<open>Patterns\<close>

text \<open>
  What Python's \<open>re\<close> does with a pattern on the URL, in a child process that tests patterns in turn and prints each
  result: the child is killed at a pattern that outlasts the timeout, and fails as a whole at one that ends it.
\<close>

datatype pattern_answer = Matches | Differs | Hangs | EndsChild

fun child_results :: "(string \<Rightarrow> pattern_answer) \<Rightarrow> string list \<Rightarrow> bool list" where
  "child_results answer [] = []"
| "child_results answer (p # ps) = (if answer p = Matches then True # child_results answer ps
     else if answer p = Differs then False # child_results answer ps else [])"

text \<open>None: the child failed, and so does the verification. Otherwise what it finished, and whether it is stuck.\<close>

definition regex_search_child :: "(string \<Rightarrow> pattern_answer) \<Rightarrow> string list \<Rightarrow> (bool list \<times> bool) option" where
  "regex_search_child answer patterns =
     (let finished = child_results answer patterns in
      if length finished = length patterns then Some (finished, False)
      else if answer (patterns ! length finished) = EndsChild then None else Some (finished, True))"

text \<open>The patterns left for the next child; the stuck one is left out, with no verdict.\<close>

definition left_after :: "bool list \<Rightarrow> bool \<Rightarrow> string list \<Rightarrow> string list" where
  "left_after finished stuck remaining = drop (length finished + (if stuck then 1 else 0)) remaining"

function regex_search_many :: "(string \<Rightarrow> pattern_answer) \<Rightarrow> string list \<Rightarrow> (bool option list) option" where
  "regex_search_many answer remaining =
     (if remaining = [] then Some []
      else case regex_search_child answer remaining of
        None \<Rightarrow> None
      | Some (finished, stuck) \<Rightarrow>
          map_option (\<lambda>more. map Some finished @ (if stuck then [None] else []) @ more)
            (regex_search_many answer (left_after finished stuck remaining)))"
  by pat_completeness auto

lemma child_progress:
  assumes "regex_search_child answer patterns = Some (finished, stuck)" and "patterns \<noteq> []"
  shows "length (left_after finished stuck patterns) < length patterns"
  using assms by (auto simp: regex_search_child_def left_after_def Let_def split: if_splits)

termination regex_search_many
  by (relation "measure (\<lambda>(answer, remaining). length remaining)") (use child_progress in auto)

declare regex_search_many.simps [simp del]

text \<open>The child processes started for the patterns.\<close>

function regex_children :: "(string \<Rightarrow> pattern_answer) \<Rightarrow> string list \<Rightarrow> nat" where
  "regex_children answer remaining =
     (if remaining = [] then 0
      else case regex_search_child answer remaining of
        None \<Rightarrow> 1
      | Some (finished, stuck) \<Rightarrow> Suc (regex_children answer (left_after finished stuck remaining)))"
  by pat_completeness auto

termination regex_children
  by (relation "measure (\<lambda>(answer, remaining). length remaining)") (use child_progress in auto)

declare regex_children.simps [simp del]

section \<open>The verdict\<close>

record verification_result =
  vr_passed :: "bool option"
  vr_confidence :: rat
  vr_failed :: "string list"
  vr_satisfied :: "string list"
  vr_forbidden :: "string list"
  vr_missing :: "string list"
  vr_notes :: string
  vr_backend :: string

record verify_env =
  ve_repr :: "json \<Rightarrow> string"
  ve_answer :: "string \<Rightarrow> string \<Rightarrow> pattern_answer"     \<comment> \<open>by pattern and URL\<close>
  ve_timeout :: string

fun post_kind_name :: "postcondition_kind \<Rightarrow> string" where
  "post_kind_name PageUrlContains = ''url_contains''" | "post_kind_name PageUrlMatches = ''url_matches''"
| "post_kind_name PageTextContains = ''text_contains''" | "post_kind_name DomContains = ''dom_contains''"
| "post_kind_name NetworkResponseShape = ''network_response_shape''" | "post_kind_name ExtractedDataSchema = ''extracted_data_schema''"

fun forbidden_kind_name :: "forbidden_kind \<Rightarrow> string" where
  "forbidden_kind_name ForbiddenUrl = ''url_contains''" | "forbidden_kind_name ForbiddenUrlMatch = ''url_matches''"
| "forbidden_kind_name ForbiddenText = ''text_contains''" | "forbidden_kind_name UrlStatus = ''url_status''"
| "forbidden_kind_name CaptchaScreen = ''captcha_screen''" | "forbidden_kind_name PaymentScreen = ''payment_screen''"
| "forbidden_kind_name LoginRedirect = ''login_redirect''"

definition condition_key :: "nat \<Rightarrow> postcondition \<Rightarrow> string" where
  "condition_key index p = ''postcondition['' @ decimal index @ '']:'' @ post_kind_name (pc_kind p) @ '':'' @ pc_value p"

definition hit_label :: "nat \<Rightarrow> forbidden_state \<Rightarrow> string" where
  "hit_label index f = ''forbidden['' @ decimal index @ '']:'' @ forbidden_kind_name (fb_kind f) @ '':'' @
     (if fb_value f = [] then forbidden_kind_name (fb_kind f) else fb_value f)"

text \<open>What the two loops gather: the keys that failed, those satisfied (or hit), the patterns that timed out.\<close>

record tally =
  ta_failed :: "string list"
  ta_satisfied :: "string list"
  ta_timeouts :: "string list"

fun check_postconditions ::
  "trace_envelope \<Rightarrow> page_shown \<Rightarrow> nat \<Rightarrow> postcondition list \<Rightarrow> bool option list \<Rightarrow> tally \<Rightarrow> tally \<times> bool option list" where
  "check_postconditions t page index [] matches acc = (acc, matches)"
| "check_postconditions t page index (p # ps) matches acc =
     (let key = condition_key index p;
          by_pattern = pc_kind p = PageUrlMatches;
          matched = (if by_pattern then hd matches else None);
          passes = (if by_pattern then matched = Some True else postcondition_passes t page p);
          acc1 = (if by_pattern \<and> matched = None then acc\<lparr>ta_timeouts := ta_timeouts acc @ [key]\<rparr> else acc);
          acc2 = (if passes then acc1\<lparr>ta_satisfied := ta_satisfied acc1 @ [key]\<rparr>
                  else if pc_required p then acc1\<lparr>ta_failed := ta_failed acc1 @ [key]\<rparr> else acc1)
      in check_postconditions t page (Suc index) ps (if by_pattern then tl matches else matches) acc2)"

fun check_forbidden ::
  "(json \<Rightarrow> string) \<Rightarrow> page_shown \<Rightarrow> nat \<Rightarrow> forbidden_state list \<Rightarrow> bool option list \<Rightarrow> string list \<times> string list \<Rightarrow> string list \<times> string list"
where
  "check_forbidden repr page index [] matches acc = acc"
| "check_forbidden repr page index (f # fs) matches (hits, timeouts) =
     (let label = hit_label index f;
          by_pattern = fb_kind f = ForbiddenUrlMatch;
          matched = (if by_pattern then hd matches else None);
          hit = (if by_pattern then matched \<noteq> Some False else forbidden_state_hit repr page f)
      in check_forbidden repr page (Suc index) fs (if by_pattern then tl matches else matches)
           (if hit then hits @ [label] else hits, if by_pattern \<and> matched = None then timeouts @ [label] else timeouts))"

definition url_patterns :: "task_contract \<Rightarrow> string list" where
  "url_patterns c = map pc_value (filter (\<lambda>p. pc_kind p = PageUrlMatches) (tc_postconditions c)) @
     map fb_value (filter (\<lambda>f. fb_kind f = ForbiddenUrlMatch) (tc_forbidden c))"

text \<open>\<open>ProgrammaticVerifier.verify\<close>; None: its regex worker failed, and it raises.\<close>

definition verify_attempt :: "verify_env \<Rightarrow> task_contract \<Rightarrow> trace_envelope \<Rightarrow> verification_result option" where
  "verify_attempt env c t =
     (let page = page_shown_by (ve_repr env) t in
      case regex_search_many (\<lambda>p. ve_answer env p (pg_url page)) (url_patterns c) of
        None \<Rightarrow> None
      | Some matches \<Rightarrow>
          let (found, rest) = check_postconditions t page 0 (tc_postconditions c) matches \<lparr>ta_failed = [], ta_satisfied = [], ta_timeouts = []\<rparr>;
              (hits, timeouts) = check_forbidden (ve_repr env) page 0 (tc_forbidden c) rest ([], ta_timeouts found);
              missing = sort (remdups (filter (\<lambda>e. e \<notin> set (evidence_kinds t)) (required_evidence c)));
              nothing = (ta_satisfied found = [] \<and> \<not> list_ex pc_required (tc_postconditions c));
              passed = (ta_failed found = [] \<and> hits = [] \<and> missing = [] \<and> \<not> nothing)
          in Some \<lparr>vr_passed = Some passed, vr_confidence = (if passed then 1 else 0), vr_failed = ta_failed found,
                 vr_satisfied = ta_satisfied found, vr_forbidden = hits, vr_missing = missing,
                 vr_notes = (if passed then ''Programmatic postconditions passed.'' else ''Programmatic verification failed.'') @
                   (if nothing then '' Every postcondition is optional and none was satisfied.'' else []) @
                   (if timeouts \<noteq> [] then '' A url_matches pattern did not finish within '' @ ve_timeout env @ ''s.'' else []),
                 vr_backend = ''programmatic''\<rparr>)"

section \<open>The ensemble\<close>

definition vote :: "bool \<Rightarrow> verification_result list \<Rightarrow> nat" where
  "vote b rs = length (filter (\<lambda>r. vr_passed r = Some b) rs)"

definition mean_confidence :: "verification_result list \<Rightarrow> rat" where
  "mean_confidence rs = sum_list (map vr_confidence rs) / of_nat (length rs)"

definition abstaining :: "rat \<Rightarrow> string \<Rightarrow> verification_result" where
  "abstaining confidence notes =
     \<lparr>vr_passed = None, vr_confidence = confidence, vr_failed = [], vr_satisfied = [], vr_forbidden = [], vr_missing = [],
      vr_notes = notes, vr_backend = ''ensemble''\<rparr>"

definition merged :: "(verification_result \<Rightarrow> string list) \<Rightarrow> verification_result list \<Rightarrow> string list" where
  "merged field rs = sort (remdups (concat (map field rs)))"

definition ensemble_result :: "verification_result list \<Rightarrow> verification_result" where
  "ensemble_result results =
     (let decisive = filter (\<lambda>r. vr_passed r \<noteq> None) results in
      if decisive = [] then abstaining 0 ''No verifier produced a decisive result.''
      else if 1 < length results \<and> length decisive < 2
      then abstaining (mean_confidence decisive) ''Insufficient decisive verifier votes; abstaining.''
      else
        let passes = vote True decisive; fails = vote False decisive;
            passed = (if 2 \<le> passes \<or> (length decisive = 1 \<and> passes = 1) then Some True
                      else if 2 \<le> fails \<or> (length decisive = 1 \<and> fails = 1) then Some False else None)
        in \<lparr>vr_passed = passed, vr_confidence = mean_confidence decisive, vr_failed = merged vr_failed results,
            vr_satisfied = merged vr_satisfied results, vr_forbidden = merged vr_forbidden results,
            vr_missing = merged vr_missing results,
            vr_notes = (if passed \<noteq> None then ''Ensemble verification complete.'' else ''Verifier disagreement; abstaining.''),
            vr_backend = ''ensemble''\<rparr>)"

section \<open>Convergence\<close>

datatype harness_status = Running | Converged | Unconverged | OverBudget | FailedRun | CancelledRun | InterruptedRun

record convergence_decision =
  cd_status :: harness_status
  cd_continue :: bool
  cd_reason :: string
  cd_successes :: nat
  cd_total :: nat

record convergence_detector =
  dt_required :: int
  dt_max :: int

definition new_detector :: "int \<Rightarrow> int \<Rightarrow> convergence_detector" where
  "new_detector required most = \<lparr>dt_required = max 1 required, dt_max = max 1 most\<rparr>"

definition trailing_passes :: "verification_result list \<Rightarrow> nat" where
  "trailing_passes results = length (takeWhile (\<lambda>r. vr_passed r = Some True) (rev results))"

definition decide_convergence :: "convergence_detector \<Rightarrow> verification_result list \<Rightarrow> convergence_decision" where
  "decide_convergence d results =
     (let consecutive = trailing_passes results in
      if dt_required d \<le> int consecutive then
        \<lparr>cd_status = Converged, cd_continue = False, cd_reason = decimal consecutive @ '' consecutive verified runs'',
         cd_successes = consecutive, cd_total = length results\<rparr>
      else if dt_max d \<le> int (length results) then
        \<lparr>cd_status = Unconverged, cd_continue = False, cd_reason = ''attempt budget exhausted'',
         cd_successes = consecutive, cd_total = length results\<rparr>
      else
        \<lparr>cd_status = Running, cd_continue = True, cd_reason = ''convergence threshold not reached'',
         cd_successes = consecutive, cd_total = length results\<rparr>)"

end
