(* ===== verification/HarnessVerdicts.thy ===== *)
theory HarnessVerdicts
  imports HarnessVerify
begin

text \<open>
  What the verdicts mean: every pattern keeps its own result however many others hang, the verifier passes exactly
  the pages the contract describes, and the ensemble of two passes only what both pass.
\<close>

section \<open>Patterns\<close>

definition pattern_verdict :: "pattern_answer \<Rightarrow> bool option" where
  "pattern_verdict a = (case a of Matches \<Rightarrow> Some True | Differs \<Rightarrow> Some False | _ \<Rightarrow> None)"

definition pattern_settles :: "pattern_answer \<Rightarrow> bool" where
  "pattern_settles a \<longleftrightarrow> a = Matches \<or> a = Differs"

lemma child_results_settled:
  "map Some (child_results answer ps) = map (pattern_verdict \<circ> answer) (takeWhile (pattern_settles \<circ> answer) ps)"
  by (induction ps) (auto simp: pattern_settles_def pattern_verdict_def)

lemma child_results_length: "length (child_results answer ps) = length (takeWhile (pattern_settles \<circ> answer) ps)"
  using arg_cong [OF child_results_settled, of length answer ps] by simp

lemma takeWhile_all: "list_all P xs \<Longrightarrow> takeWhile P xs = xs"
  by (induction xs) auto

lemma child_cases:
  obtains "list_all (pattern_settles \<circ> answer) ps" "regex_search_child answer ps = Some (child_results answer ps, False)"
    "left_after (child_results answer ps) False ps = []"
  | front p later where "ps = front @ p # later" "list_all (pattern_settles \<circ> answer) front" "takeWhile (pattern_settles \<circ> answer) ps = front"
    "answer p = Hangs" "regex_search_child answer ps = Some (child_results answer ps, True)" "left_after (child_results answer ps) True ps = later"
  | front p later where "ps = front @ p # later" "answer p = EndsChild" "regex_search_child answer ps = None"
proof (cases "list_all (pattern_settles \<circ> answer) ps")
  case True
  then show ?thesis using that(1) [OF True]
    by (simp add: regex_search_child_def child_results_length left_after_def takeWhile_all)
next
  case False
  let ?front = "takeWhile (pattern_settles \<circ> answer) ps"
  obtain p later where split: "dropWhile (pattern_settles \<circ> answer) ps = p # later" "\<not> pattern_settles (answer p)"
    using False by (cases "dropWhile (pattern_settles \<circ> answer) ps") (auto simp: list_all_iff dropWhile_eq_Nil_conv dropWhile_eq_Cons_conv)
  then have ps: "ps = ?front @ p # later" by (metis takeWhile_dropWhile_id)
  have front: "list_all (pattern_settles \<circ> answer) ?front" by (auto simp: list_all_iff dest: set_takeWhileD)
  have "length ?front < length ps" "ps ! length ?front = p" "drop (Suc (length ?front)) ps = later"
    by (subst ps, simp add: nth_append)+
  then have child: "regex_search_child answer ps = (if answer p = EndsChild then None else Some (child_results answer ps, True))"
    "left_after (child_results answer ps) True ps = later"
    by (simp_all add: regex_search_child_def child_results_length left_after_def Let_def)
  show ?thesis
  proof (cases "answer p = EndsChild")
    case True
    with that(3) [OF ps] child show ?thesis by simp
  next
    case False
    then have "answer p = Hangs" using split(2) by (cases "answer p") (simp_all add: pattern_settles_def)
    with that(2) [OF ps front refl] child False show ?thesis by simp
  qed
qed

lemma regex_search_many_each:
  "regex_search_many answer ps =
     (if \<exists>p \<in> set ps. answer p = EndsChild then None else Some (map (pattern_verdict \<circ> answer) ps))"
proof (induction answer ps rule: regex_search_many.induct)
  case (1 answer ps)
  show ?case
  proof (cases "ps = []")
    case False
    show ?thesis
    proof (cases rule: child_cases [where answer = answer and ps = ps])
      case 1
      have "\<not> (\<exists>p \<in> set ps. answer p = EndsChild)" using 1(1) by (auto simp: list_all_iff pattern_settles_def)
      then show ?thesis
        using 1 False child_results_settled [of answer ps]
        by (subst regex_search_many.simps) (simp add: regex_search_many.simps [of _ "[]"] takeWhile_all)
    next
      case (2 front p later)
      have none: "\<not> (\<exists>q \<in> set front. answer q = EndsChild)" using 2(2) by (auto simp: list_all_iff pattern_settles_def)
      have IH: "regex_search_many answer later =
          (if \<exists>q \<in> set later. answer q = EndsChild then None else Some (map (pattern_verdict \<circ> answer) later))"
        using "1.IH" [OF False 2(5) refl] 2(6) by simp
      show ?thesis
        using 2 False none IH child_results_settled [of answer ps]
        by (subst regex_search_many.simps) (auto simp: pattern_verdict_def [of Hangs])
    next
      case (3 front p later)
      then show ?thesis using False by (subst regex_search_many.simps) auto
    qed
  qed (simp add: regex_search_many.simps)
qed

lemma regex_children_bound: "regex_children answer ps \<le> Suc (length (filter (\<lambda>p. answer p = Hangs) (butlast ps)))"
proof (induction answer ps rule: regex_children.induct)
  case (1 answer ps)
  show ?case
  proof (cases "ps = []")
    case False
    show ?thesis
    proof (cases rule: child_cases [where answer = answer and ps = ps])
      case (2 front p later)
      have IH: "regex_children answer later \<le> Suc (length (filter (\<lambda>q. answer q = Hangs) (butlast later)))"
        using "1.IH" [OF False 2(5) refl] 2(6) by simp
      show ?thesis
      proof (cases "later = []")
        case True
        then show ?thesis using 2 False by (subst regex_children.simps) (simp add: regex_children.simps [of _ "[]"])
      next
        case later: False
        have step: "regex_children answer ps = Suc (regex_children answer later)"
          using 2(5,6) False by (subst regex_children.simps) simp
        have "butlast ps = front @ p # butlast later" using 2(1) later by (simp add: butlast_append)
        then show ?thesis using IH step 2(4) by simp
      qed
    qed (use False in \<open>subst regex_children.simps, simp add: regex_children.simps [of _ "[]"]\<close>)+
  qed (simp add: regex_children.simps)
qed

text \<open>
  C36: each pattern of a verification keeps its own verdict, however many of the others hang, as if it were tested
  alone; no more children are started than one and one for each stuck pattern that others follow.
\<close>

theorem patterns_keep_their_verdicts:
  assumes "\<forall>p \<in> set patterns. answer p \<noteq> EndsChild"
  shows "regex_search_many answer patterns = Some (concat (map (\<lambda>p. the (regex_search_many answer [p])) patterns)) \<and>
    regex_children answer patterns \<le> Suc (length (filter (\<lambda>p. answer p = Hangs) (butlast patterns)))"
proof -
  have "the (regex_search_many answer [p]) = [pattern_verdict (answer p)]" if "p \<in> set patterns" for p
    using assms that by (simp add: regex_search_many_each)
  then have "concat (map (\<lambda>p. the (regex_search_many answer [p])) patterns) = concat (map (\<lambda>p. [pattern_verdict (answer p)]) patterns)"
    by (metis (no_types, lifting) map_cong)
  then show ?thesis using assms regex_children_bound by (auto simp: regex_search_many_each)
qed

theorem patterns_keep_their_verdicts_witness:
  "regex_search_many (\<lambda>p. if p = ''a+'' then Hangs else Matches) [''x'', ''a+'', ''y''] = Some [Some True, None, Some True]"
  using patterns_keep_their_verdicts [of "[''x'', ''a+'', ''y'']" "\<lambda>p. if p = ''a+'' then Hangs else Matches"]
  by (simp add: regex_search_many_each pattern_verdict_def)

section \<open>The verifier\<close>

text \<open>What a contract asks, one condition at a time: an unknown pattern does not hold and is not ruled out.\<close>

definition condition_holds :: "verify_env \<Rightarrow> trace_envelope \<Rightarrow> page_shown \<Rightarrow> postcondition \<Rightarrow> bool" where
  "condition_holds env t page p \<longleftrightarrow>
     (if pc_kind p = PageUrlMatches then ve_answer env (pc_value p) (pg_url page) = Matches else postcondition_passes t page p)"

definition ruled_out :: "verify_env \<Rightarrow> page_shown \<Rightarrow> forbidden_state \<Rightarrow> bool" where
  "ruled_out env page f \<longleftrightarrow>
     (if fb_kind f = ForbiddenUrlMatch then ve_answer env (fb_value f) (pg_url page) = Differs
      else \<not> forbidden_state_hit (ve_repr env) page f)"

definition contract_met :: "verify_env \<Rightarrow> task_contract \<Rightarrow> trace_envelope \<Rightarrow> bool" where
  "contract_met env c t \<longleftrightarrow>
     (let page = page_shown_by (ve_repr env) t in
      (\<forall>p \<in> set (tc_postconditions c). pc_required p \<longrightarrow> condition_holds env t page p) \<and>
      (\<exists>p \<in> set (tc_postconditions c). pc_required p \<or> condition_holds env t page p) \<and>
      (\<forall>f \<in> set (tc_forbidden c). ruled_out env page f) \<and>
      set (required_evidence c) \<subseteq> set (evidence_kinds t))"

lemma verdict_is_match: "pattern_verdict a = Some True \<longleftrightarrow> a = Matches" "pattern_verdict a = Some False \<longleftrightarrow> a = Differs"
  by (cases a; simp add: pattern_verdict_def)+

lemma check_postconditions_spec:
  assumes "matches = map (\<lambda>p. pattern_verdict (ve_answer env (pc_value p) (pg_url page))) (filter (\<lambda>p. pc_kind p = PageUrlMatches) ps) @ rest"
  shows "snd (check_postconditions t page index ps matches acc) = rest \<and>
    (ta_failed (fst (check_postconditions t page index ps matches acc)) = [] \<longleftrightarrow>
      ta_failed acc = [] \<and> (\<forall>p \<in> set ps. pc_required p \<longrightarrow> condition_holds env t page p)) \<and>
    (ta_satisfied (fst (check_postconditions t page index ps matches acc)) = [] \<longleftrightarrow>
      ta_satisfied acc = [] \<and> (\<forall>p \<in> set ps. \<not> condition_holds env t page p))"
  using assms
proof (induction ps arbitrary: index matches acc)
  case (Cons p ps)
  show ?case
  proof (cases "pc_kind p = PageUrlMatches")
    case True
    then have holds: "condition_holds env t page p \<longleftrightarrow> hd matches = Some True"
      using Cons.prems by (simp add: condition_holds_def verdict_is_match)
    have "tl matches = map (\<lambda>p. pattern_verdict (ve_answer env (pc_value p) (pg_url page))) (filter (\<lambda>p. pc_kind p = PageUrlMatches) ps) @ rest"
      using Cons.prems True by simp
    from Cons.IH [OF this] True holds show ?thesis by (simp add: Let_def)
  next
    case False
    then have holds: "condition_holds env t page p \<longleftrightarrow> postcondition_passes t page p"
      and "matches = map (\<lambda>p. pattern_verdict (ve_answer env (pc_value p) (pg_url page))) (filter (\<lambda>p. pc_kind p = PageUrlMatches) ps) @ rest"
      using Cons.prems by (simp_all add: condition_holds_def)
    from Cons.IH [OF this(2)] False holds show ?thesis by (simp add: Let_def)
  qed
qed simp

lemma check_forbidden_spec:
  assumes "matches = map (\<lambda>f. pattern_verdict (ve_answer env (fb_value f) (pg_url page))) (filter (\<lambda>f. fb_kind f = ForbiddenUrlMatch) fs)"
  shows "fst (check_forbidden (ve_repr env) page index fs matches acc) = [] \<longleftrightarrow>
    fst acc = [] \<and> (\<forall>f \<in> set fs. ruled_out env page f)"
  using assms
proof (induction fs arbitrary: index matches acc)
  case (Cons f fs)
  obtain hits timeouts where acc: "acc = (hits, timeouts)" by (cases acc)
  show ?case
  proof (cases "fb_kind f = ForbiddenUrlMatch")
    case True
    then have ruled: "ruled_out env page f \<longleftrightarrow> hd matches = Some False"
      using Cons.prems by (simp add: ruled_out_def verdict_is_match)
    have "tl matches = map (\<lambda>f. pattern_verdict (ve_answer env (fb_value f) (pg_url page))) (filter (\<lambda>f. fb_kind f = ForbiddenUrlMatch) fs)"
      using Cons.prems True by simp
    from Cons.IH [OF this] True ruled acc show ?thesis by (simp add: Let_def)
  next
    case False
    then have ruled: "ruled_out env page f \<longleftrightarrow> \<not> forbidden_state_hit (ve_repr env) page f"
      and "matches = map (\<lambda>f. pattern_verdict (ve_answer env (fb_value f) (pg_url page))) (filter (\<lambda>f. fb_kind f = ForbiddenUrlMatch) fs)"
      using Cons.prems by (simp_all add: ruled_out_def)
    from Cons.IH [OF this(2)] False ruled acc show ?thesis by (simp add: Let_def)
  qed
qed simp

lemma verifier_verdict:
  assumes "\<forall>p \<in> set (url_patterns c). ve_answer env p (pg_url (page_shown_by (ve_repr env) t)) \<noteq> EndsChild"
  shows "\<exists>r. verify_attempt env c t = Some r \<and> vr_passed r = Some (contract_met env c t)"
proof -
  let ?page = "page_shown_by (ve_repr env) t"
  let ?verdict = "\<lambda>value. pattern_verdict (ve_answer env value (pg_url ?page))"
  let ?posts = "map (\<lambda>p. ?verdict (pc_value p)) (filter (\<lambda>p. pc_kind p = PageUrlMatches) (tc_postconditions c))"
  let ?forbs = "map (\<lambda>f. ?verdict (fb_value f)) (filter (\<lambda>f. fb_kind f = ForbiddenUrlMatch) (tc_forbidden c))"
  let ?empty = "\<lparr>ta_failed = [], ta_satisfied = [], ta_timeouts = []\<rparr>"
  have many: "regex_search_many (\<lambda>p. ve_answer env p (pg_url ?page)) (url_patterns c) = Some (?posts @ ?forbs)"
    using assms by (simp add: regex_search_many_each url_patterns_def)
  obtain found rest where found: "check_postconditions t ?page 0 (tc_postconditions c) (?posts @ ?forbs) ?empty = (found, rest)"
    by (cases "check_postconditions t ?page 0 (tc_postconditions c) (?posts @ ?forbs) ?empty")
  obtain hits timeouts where hits: "check_forbidden (ve_repr env) ?page 0 (tc_forbidden c) rest ([], ta_timeouts found) = (hits, timeouts)"
    by (cases "check_forbidden (ve_repr env) ?page 0 (tc_forbidden c) rest ([], ta_timeouts found)")
  have posts: "rest = ?forbs"
    "ta_failed found = [] \<longleftrightarrow> (\<forall>p \<in> set (tc_postconditions c). pc_required p \<longrightarrow> condition_holds env t ?page p)"
    "ta_satisfied found = [] \<longleftrightarrow> (\<forall>p \<in> set (tc_postconditions c). \<not> condition_holds env t ?page p)"
    using check_postconditions_spec [of "?posts @ ?forbs" env ?page "tc_postconditions c" ?forbs t 0 ?empty] found by simp_all
  have forbs: "hits = [] \<longleftrightarrow> (\<forall>f \<in> set (tc_forbidden c). ruled_out env ?page f)"
    using check_forbidden_spec [of rest env ?page "tc_forbidden c" 0 "([], ta_timeouts found)"] hits posts(1) by simp
  have missing: "sort (remdups (filter (\<lambda>e. e \<notin> set (evidence_kinds t)) (required_evidence c))) = [] \<longleftrightarrow>
      set (required_evidence c) \<subseteq> set (evidence_kinds t)"
    by (auto simp: filter_empty_conv simp flip: set_empty)
  have "verify_attempt env c t \<noteq> None" "\<And>r. verify_attempt env c t = Some r \<Longrightarrow> vr_passed r = Some (contract_met env c t)"
    unfolding verify_attempt_def contract_met_def Let_def many option.case found hits prod.case
    using posts(2,3) forbs missing by (auto simp: list_ex_iff)
  then show ?thesis by blast
qed

text \<open>
  C25: the programmatic verifier passes an attempt exactly when every required postcondition holds, at least one
  postcondition counts, every forbidden state is ruled out and no required evidence is missing; a pattern that
  could not be tested in time neither holds nor is ruled out. It always has a verdict.
\<close>

theorem verifier_passes_exactly:
  assumes "\<forall>p \<in> set (url_patterns c). ve_answer env p (pg_url (page_shown_by (ve_repr env) t)) \<noteq> EndsChild"
  shows "\<exists>r. verify_attempt env c t = Some r \<and> vr_passed r = Some (contract_met env c t)"
  using assms by (rule verifier_verdict)

lemma verified_met: "verify_attempt env c t = Some r \<Longrightarrow> vr_passed r = Some (contract_met env c t)"
proof -
  assume some: "verify_attempt env c t = Some r"
  then have "\<forall>p \<in> set (url_patterns c). ve_answer env p (pg_url (page_shown_by (ve_repr env) t)) \<noteq> EndsChild"
    by (auto simp: verify_attempt_def Let_def regex_search_many_each split: if_splits)
  from verifier_verdict [OF this] some show ?thesis by simp
qed

definition sample_verify :: verify_env where
  "sample_verify = \<lparr>ve_repr = (\<lambda>_. []), ve_answer = (\<lambda>p url. if p = url then Matches else Differs), ve_timeout = ''2''\<rparr>"

definition sample_contract :: task_contract where
  "sample_contract = \<lparr>tc_id = ''order'', tc_goal = ''Open the order'',
     tc_postconditions = [\<lparr>pc_kind = PageUrlMatches, pc_value = ''https://a.test/o/7'', pc_required = True\<rparr>,
       \<lparr>pc_kind = PageTextContains, pc_value = ''Order 7'', pc_required = False\<rparr>],
     tc_forbidden = [\<lparr>fb_kind = LoginRedirect, fb_value = []\<rparr>], tc_evidence = [(''trace'', True), (''screenshots'', False)],
     tc_max_attempts = 3\<rparr>"

definition sample_trace :: trace_envelope where
  "sample_trace = \<lparr>tr_events = [], tr_final_observation = [(''url'', JStr ''https://a.test/o/7''), (''text'', JStr ''Order 8'')],
     tr_network = [], tr_extracted = [], tr_mock = False\<rparr>"

theorem verifier_passes_exactly_witness:
  "\<exists>r. verify_attempt sample_verify sample_contract sample_trace = Some r \<and> vr_passed r = Some True"
proof -
  have "contract_met sample_verify sample_contract sample_trace" by code_simp
  moreover have "\<forall>p \<in> set (url_patterns sample_contract).
      ve_answer sample_verify p (pg_url (page_shown_by (ve_repr sample_verify) sample_trace)) \<noteq> EndsChild"
    by (simp add: sample_verify_def)
  ultimately show ?thesis using verifier_passes_exactly [of sample_contract sample_verify sample_trace] by simp
qed

section \<open>The ensemble\<close>

lemma ensemble_of_two:
  "vr_passed (ensemble_result [r, s]) =
     (if vr_passed r = vr_passed s then vr_passed r else None)"
  by (cases "vr_passed r"; cases "vr_passed s") (auto simp: ensemble_result_def abstaining_def vote_def Let_def)

text \<open>
  of the two verifiers the application runs (the programmatic one and an external one) the ensemble passes or
  fails only what both pass or both fail, and abstains otherwise.
\<close>

theorem ensemble_needs_both:
  "vr_passed (ensemble_result [r, s]) = Some b \<longleftrightarrow> vr_passed r = Some b \<and> vr_passed s = Some b"
  by (auto simp: ensemble_of_two)

text \<open>With more verifiers two passes win whatever the others found.\<close>

lemma two_passes_win: "2 \<le> vote True results \<Longrightarrow> vr_passed (ensemble_result results) = Some True"
proof -
  assume two: "2 \<le> vote True results"
  have "vote True (filter (\<lambda>r. vr_passed r \<noteq> None) results) = vote True results"
    unfolding vote_def by (rule arg_cong [of _ _ length]) (induction results, auto)
  moreover have "vote True rs \<le> length rs" for rs by (simp add: vote_def)
  from this [of "filter (\<lambda>r. vr_passed r \<noteq> None) results"]
  have "vote True (filter (\<lambda>r. vr_passed r \<noteq> None) results) \<le> length (filter (\<lambda>r. vr_passed r \<noteq> None) results)" .
  ultimately have two': "2 \<le> vote True (filter (\<lambda>r. vr_passed r \<noteq> None) results)"
    "2 \<le> length (filter (\<lambda>r. vr_passed r \<noteq> None) results)" using two by simp_all
  then have "filter (\<lambda>r. vr_passed r \<noteq> None) results \<noteq> []" by auto
  with two' show ?thesis by (simp add: ensemble_result_def Let_def)
qed

section \<open>Convergence\<close>

lemma trailing_passes_iff:
  "k \<le> trailing_passes results \<longleftrightarrow> k \<le> length results \<and> list_all (\<lambda>r. vr_passed r = Some True) (drop (length results - k) results)"
proof -
  have "k \<le> length (takeWhile P xs) \<longleftrightarrow> k \<le> length xs \<and> list_all P (take k xs)" for P and xs :: "verification_result list"
  proof (induction xs arbitrary: k)
    case (Cons x xs)
    then show ?case by (cases k) auto
  qed simp
  from this [of "\<lambda>r. vr_passed r = Some True" "rev results"] show ?thesis
    by (simp add: trailing_passes_def take_rev list_all_iff)
qed

lemma trailing_passes_le: "trailing_passes results \<le> length results"
  using trailing_passes_iff [of "trailing_passes results" results] by simp

lemma trailing_passes_snoc:
  "trailing_passes (results @ [r]) = (if vr_passed r = Some True then Suc (trailing_passes results) else 0)"
  by (simp add: trailing_passes_def)

end
