(* ===== verification/HarnessRuns.thy ===== *)
theory HarnessRuns
  imports HarnessVerdicts Runs
begin

text \<open>
  One convergence run (\<open>HarnessService.start_convergence\<close>, harness/iterate.py): its attempts, what is recorded of each,
  the decision after each, the staging of the skill candidate, and the end of a run that raised or was cancelled.
  What an attempt's awaits and the files answer is the script of the run.
\<close>

section \<open>Records\<close>

record skill_candidate =
  sk_id :: string
  sk_name :: string
  sk_contract_hash :: string
  sk_trace_hash :: string
  sk_verifier_passed :: "bool option"
  sk_attempts :: nat
  sk_signed :: bool
  sk_owner :: "string option"
  sk_simulated :: bool

record harness_attempt =
  ha_index :: nat
  ha_verification :: verification_result
  ha_trace_hash :: string

record harness_run =
  hr_id :: string
  hr_contract_id :: string
  hr_contract_hash :: string
  hr_status :: harness_status
  hr_owner :: "string option"
  hr_generation :: "string option"
  hr_attempts :: "harness_attempt list"
  hr_decision :: "convergence_decision option"
  hr_candidate :: "skill_candidate option"
  hr_notes :: "string list"

text \<open>An exception by its type's name, and whether it is a \<open>TimeoutError\<close>; a cancellation.\<close>

datatype run_error = RaisedError string bool | CutOff

text \<open>
  One attempt: its trace, the trace's hash once scrubbed and the verifier's result, or what was raised; whether the
  deadline had passed by then; and which of the steps that record it work.
\<close>

record attempt_script =
  at_outcome :: "run_error + (trace_envelope \<times> string \<times> verification_result)"
  at_late :: bool
  at_trace_ok :: bool           \<comment> \<open>the error's trace can be written\<close>
  at_error_hash :: string
  at_scrub :: "verification_result \<Rightarrow> verification_result option"   \<comment> \<open>None: the scrubber raised\<close>
  at_note_ok :: bool            \<comment> \<open>strategy.md can be appended to\<close>
  at_save_ok :: bool

record run_env =
  rn_contract :: task_contract
  rn_hash :: string
  rn_id :: string
  rn_owner :: "string option"
  rn_generation :: string
  rn_max_attempts :: "int option"
  rn_script :: "nat \<Rightarrow> attempt_script"
  rn_set_up_ok :: bool          \<comment> \<open>the run's files and its first record can be written\<close>
  rn_induced :: "string + skill_candidate"
  rn_end_save_ok :: bool
  rn_close_save_ok :: bool

text \<open>The record in memory, what \<open>run.json\<close> holds, and the notes on the attempts in strategy.md.\<close>

record drive_state =
  rs_record :: harness_run
  rs_stored :: "harness_run option"
  rs_reflexions :: "nat list"

type_synonym 'a harness = "(drive_state, run_error, 'a) run"

section \<open>Steps\<close>

definition change_record :: "(harness_run \<Rightarrow> harness_run) \<Rightarrow> unit harness" where
  "change_record f = update (\<lambda>s. s\<lparr>rs_record := f (rs_record s)\<rparr>)"

definition save_run :: "bool \<Rightarrow> unit harness" where
  "save_run ok = (if ok then update (\<lambda>s. s\<lparr>rs_stored := Some (rs_record s)\<rparr>) else raise (RaisedError ''OSError'' False))"

definition append_reflexion :: "bool \<Rightarrow> nat \<Rightarrow> unit harness" where
  "append_reflexion ok index =
     (if ok then update (\<lambda>s. s\<lparr>rs_reflexions := rs_reflexions s @ [index]\<rparr>) else raise (RaisedError ''OSError'' False))"

definition attempt_budget :: "run_env \<Rightarrow> int" where
  "attempt_budget env =
     (let most = int (tc_max_attempts (rn_contract env)) in
      min (case rn_max_attempts env of None \<Rightarrow> most | Some k \<Rightarrow> if k = 0 then most else k) most)"

definition run_detector :: "run_env \<Rightarrow> convergence_detector" where
  "run_detector env = new_detector (min 3 (attempt_budget env)) (attempt_budget env)"

definition passes :: "verification_result list \<Rightarrow> nat" where
  "passes results = length (filter (\<lambda>r. vr_passed r = Some True) results)"

definition add_attempt :: "nat \<Rightarrow> verification_result \<Rightarrow> string \<Rightarrow> harness_run \<Rightarrow> harness_run" where
  "add_attempt index verification trace_hash r =
     r\<lparr>hr_attempts := hr_attempts r @ [\<lparr>ha_index = index, ha_verification = verification, ha_trace_hash = trace_hash\<rparr>]\<rparr>"

definition set_decision :: "convergence_decision \<Rightarrow> harness_run \<Rightarrow> harness_run" where
  "set_decision d r = r\<lparr>hr_decision := Some d, hr_status := cd_status d\<rparr>"

definition add_note :: "string \<Rightarrow> harness_run \<Rightarrow> harness_run" where
  "add_note note r = r\<lparr>hr_notes := hr_notes r @ [note]\<rparr>"

definition error_note :: "bool \<Rightarrow> string \<Rightarrow> string" where
  "error_note over_budget name =
     (if over_budget then ''Harness budget exceeded: max_wall_seconds'' else ''Harness attempt failed: '' @ name)"

definition error_verification :: "bool \<Rightarrow> string \<Rightarrow> verification_result" where
  "error_verification over_budget name =
     \<lparr>vr_passed = None, vr_confidence = 0, vr_failed = [], vr_satisfied = [], vr_forbidden = [], vr_missing = [],
      vr_notes = error_note over_budget name, vr_backend = ''harness''\<rparr>"

definition stop_on_error :: "run_env \<Rightarrow> nat \<Rightarrow> string \<Rightarrow> bool \<Rightarrow> nat \<Rightarrow> unit harness" where
  "stop_on_error env index name timeout successes =
     (let a = rn_script env index;
          over_budget = (timeout \<and> at_late a);
          status = (if over_budget then OverBudget else FailedRun);
          reason = (if over_budget then ''max_wall_seconds budget exhausted'' else ''attempt '' @ decimal index @ '' failed'')
      in seq (guard (if at_trace_ok a then None else Some (RaisedError ''OSError'' False))) (\<lambda>_.
         case at_scrub a (error_verification over_budget name) of
           None \<Rightarrow> raise (RaisedError ''ValueError'' False)
         | Some verification \<Rightarrow>
             seq (change_record (add_attempt index verification (at_error_hash a))) (\<lambda>_.
             seq (look (\<lambda>s. change_record (set_decision \<lparr>cd_status = status, cd_continue = False, cd_reason = reason,
               cd_successes = successes, cd_total = length (hr_attempts (rs_record s))\<rparr>))) (\<lambda>_.
             seq (change_record (add_note (error_note over_budget name))) (\<lambda>_.
             seq (append_reflexion (at_note_ok a) index) (\<lambda>_.
             save_run (at_save_ok a)))))))"

text \<open>The loop over the attempts still to come, with the results so far and the last trace.\<close>

fun drive_attempts ::
  "run_env \<Rightarrow> nat list \<Rightarrow> verification_result list \<Rightarrow> trace_envelope option \<Rightarrow> (verification_result list \<times> trace_envelope option) harness"
where
  "drive_attempts env [] results latest = ret (results, latest)"
| "drive_attempts env (i # is) results latest =
     (let a = rn_script env i in
      case at_outcome a of
        Inl CutOff \<Rightarrow> raise CutOff
      | Inl (RaisedError name timeout) \<Rightarrow> seq (stop_on_error env i name timeout (passes results)) (\<lambda>_. ret (results, latest))
      | Inr (trace, trace_hash, verification) \<Rightarrow>
          let results' = results @ [verification]; decision = decide_convergence (run_detector env) results' in
          case at_scrub a verification of
            None \<Rightarrow> raise (RaisedError ''ValueError'' False)
          | Some scrubbed \<Rightarrow>
              seq (change_record (add_attempt i scrubbed trace_hash)) (\<lambda>_.
              seq (change_record (set_decision decision)) (\<lambda>_.
              seq (unless_run (vr_passed verification = Some True) (append_reflexion (at_note_ok a) i)) (\<lambda>_.
              seq (save_run (at_save_ok a)) (\<lambda>_.
              if cd_continue decision then drive_attempts env is results' (Some trace) else ret (results', Some trace))))))"

definition staging_failed :: "string \<Rightarrow> harness_run \<Rightarrow> harness_run" where
  "staging_failed name r =
     add_note (''Skill candidate staging failed: '' @ name)
       (set_decision \<lparr>cd_status = FailedRun, cd_continue = False, cd_reason = ''staging the skill candidate failed: '' @ name,
          cd_successes = (case hr_decision r of None \<Rightarrow> 0 | Some d \<Rightarrow> cd_successes d), cd_total = length (hr_attempts r)\<rparr> r)"

definition stage_candidate :: "run_env \<Rightarrow> unit harness" where
  "stage_candidate env =
     (case rn_induced env of
        Inl name \<Rightarrow> seq (change_record (staging_failed name)) (\<lambda>_. save_run (rn_end_save_ok env))
      | Inr candidate \<Rightarrow>
          seq (change_record (\<lambda>r. r\<lparr>hr_candidate := Some candidate\<rparr>)) (\<lambda>_.
          seq (change_record (add_note ''Staged skill candidate emitted; promotion requires review.'')) (\<lambda>_.
          save_run (rn_end_save_ok env))))"

definition drive :: "run_env \<Rightarrow> unit harness" where
  "drive env =
     seq (drive_attempts env [1 ..< Suc (nat (attempt_budget env))] [] None) (\<lambda>(results, latest).
     look (\<lambda>s. if hr_status (rs_record s) = Converged \<and> latest \<noteq> None \<and> results \<noteq> [] then stage_candidate env else ret ()))"

definition close_unfinished :: "run_env \<Rightarrow> run_error \<Rightarrow> drive_state \<Rightarrow> drive_state" where
  "close_unfinished env e s =
     (if hr_status (rs_record s) \<noteq> Running then s
      else
        let r = (case e of
            RaisedError name _ \<Rightarrow> add_note (''Harness run failed: '' @ name) ((rs_record s)\<lparr>hr_status := FailedRun\<rparr>)
          | CutOff \<Rightarrow> add_note ''Harness run cancelled before it finished.'' ((rs_record s)\<lparr>hr_status := CancelledRun\<rparr>))
        in s\<lparr>rs_record := r, rs_stored := (if rn_close_save_ok env then Some r else rs_stored s)\<rparr>)"

definition new_harness_run :: "run_env \<Rightarrow> harness_run" where
  "new_harness_run env =
     \<lparr>hr_id = rn_id env, hr_contract_id = tc_id (rn_contract env), hr_contract_hash = rn_hash env, hr_status = Running,
      hr_owner = rn_owner env, hr_generation = Some (rn_generation env), hr_attempts = [], hr_decision = None,
      hr_candidate = None, hr_notes = []\<rparr>"

definition unstarted :: "run_env \<Rightarrow> drive_state" where
  "unstarted env = \<lparr>rs_record = new_harness_run env, rs_stored = None, rs_reflexions = []\<rparr>"

text \<open>An admitted run, up to its release.\<close>

definition start_convergence :: "run_env \<Rightarrow> drive_state \<times> (run_error + unit)" where
  "start_convergence env =
     seq (save_run (rn_set_up_ok env)) (\<lambda>_.
     catch (drive env) (\<lambda>e. seq (update (close_unfinished env e)) (\<lambda>_. raise e))) (unstarted env)"

end
