(* ===== verification/HarnessFacts.thy ===== *)
theory HarnessFacts
  imports HarnessRuns
begin

text \<open>
  How a convergence run ends: never reading running while its files can be written, converged only on as many
  verified attempts in a row as its budget asks, and on the first that make it so.
\<close>

section \<open>What the loop keeps\<close>

definition numbered :: "harness_attempt list \<Rightarrow> bool" where
  "numbered attempts \<longleftrightarrow> map ha_index attempts = [1 ..< Suc (length attempts)]"

lemma numbered_simps [simp]: "numbered []" "numbered (xs @ [a]) \<longleftrightarrow> numbered xs \<and> ha_index a = Suc (length xs)"
  by (auto simp: numbered_def)

definition going :: "run_env \<Rightarrow> verification_result list \<Rightarrow> drive_state \<Rightarrow> bool" where
  "going env results s \<longleftrightarrow>
     hr_status (rs_record s) = Running \<and> hr_candidate (rs_record s) = None \<and> rs_stored s = Some (rs_record s) \<and>
     numbered (hr_attempts (rs_record s)) \<and> length (hr_attempts (rs_record s)) = length results \<and>
     int (trailing_passes results) < dt_required (run_detector env)"

definition decided :: "run_env \<Rightarrow> verification_result list \<times> trace_envelope option \<Rightarrow> drive_state \<Rightarrow> bool" where
  "decided env res s \<longleftrightarrow>
     hr_candidate (rs_record s) = None \<and> rs_stored s = Some (rs_record s) \<and>
     (\<exists>d. hr_decision (rs_record s) = Some d \<and> cd_status d = hr_status (rs_record s)) \<and>
     numbered (hr_attempts (rs_record s)) \<and>
     int (length (hr_attempts (rs_record s))) \<le> attempt_budget env \<and>
     (hr_status (rs_record s) = Converged \<and> fst res \<noteq> [] \<and> snd res \<noteq> None \<and> length (hr_attempts (rs_record s)) = length (fst res) \<and>
        dt_required (run_detector env) \<le> int (trailing_passes (fst res)) \<or>
      hr_status (rs_record s) \<in> {Unconverged, OverBudget, FailedRun})"

text \<open>The steps that record an attempt can all be done.\<close>

definition files_work :: "run_env \<Rightarrow> bool" where
  "files_work env \<longleftrightarrow> (\<forall>i. at_note_ok (rn_script env i) \<and> at_save_ok (rn_script env i)) \<and> rn_end_save_ok env \<and> rn_close_save_ok env"

definition raised_running :: "run_env \<Rightarrow> run_error \<Rightarrow> drive_state \<Rightarrow> bool" where
  "raised_running env e s \<longleftrightarrow> (files_work env \<longrightarrow> hr_status (rs_record s) = Running \<and> hr_candidate (rs_record s) = None)"

lemma triple_change: "(\<And>s. P s \<Longrightarrow> Q () (s\<lparr>rs_record := f (rs_record s)\<rparr>)) \<Longrightarrow> triple P (change_record f) Q E"
  by (simp add: change_record_def triple_update)

lemma harness_run_step:
  "seq (change_record f) m s = m () (s\<lparr>rs_record := f (rs_record s)\<rparr>)"
  "seq (look g) m s = seq (g s) m s"
  "seq (save_run ok) m s = (if ok then m () (s\<lparr>rs_stored := Some (rs_record s)\<rparr>) else (s, Inl (RaisedError ''OSError'' False)))"
  "seq (append_reflexion ok i) m s = (if ok then m () (s\<lparr>rs_reflexions := rs_reflexions s @ [i]\<rparr>) else (s, Inl (RaisedError ''OSError'' False)))"
  "seq (guard None) m s = m () s" "seq (guard (Some e)) m s = (s, Inl e)"
  "seq (raise e) m s = (s, Inl e)" "seq (ret v) m s = m v s"
  by (simp_all add: seq_def change_record_def save_run_def append_reflexion_def guard_def look_def)

lemma save_run_simps [simp]:
  "save_run ok s = (if ok then (s\<lparr>rs_stored := Some (rs_record s)\<rparr>, Inr ()) else (s, Inl (RaisedError ''OSError'' False)))"
  by (simp_all add: save_run_def)

lemma stop_on_error_spec:
  assumes "going env results s" and "i = Suc (length results)" and "int i \<le> attempt_budget env"
    and "stop_on_error env i name timeout k s = (s', r)"
  shows "case r of Inl e \<Rightarrow> raised_running env e s' | Inr _ \<Rightarrow> decided env (results, latest) s'"
  using assms
  by (auto simp: stop_on_error_def Let_def harness_run_step raised_running_def going_def decided_def files_work_def
      add_attempt_def set_decision_def add_note_def split: option.splits if_splits)

lemma required_ge_1: "1 \<le> dt_required (run_detector env)"
  by (simp add: run_detector_def new_detector_def)

lemma decide_running_iff:
  "cd_continue (decide_convergence d results) \<longleftrightarrow> cd_status (decide_convergence d results) = Running"
  "cd_status (decide_convergence d results) = Running \<longleftrightarrow>
     int (trailing_passes results) < dt_required d \<and> int (length results) < dt_max d"
  "cd_status (decide_convergence d results) = Converged \<longleftrightarrow> dt_required d \<le> int (trailing_passes results)"
  "cd_status (decide_convergence d results) \<in> {Running, Converged, Unconverged}"
  by (auto simp: decide_convergence_def Let_def)

text \<open>What recording an attempt comes to.\<close>

definition attempt_recorded :: "run_env \<Rightarrow> nat \<Rightarrow> verification_result list \<Rightarrow> verification_result \<Rightarrow> string \<Rightarrow> drive_state \<Rightarrow> harness_run" where
  "attempt_recorded env i results scrubbed trace_hash s =
     set_decision (decide_convergence (run_detector env) results) (add_attempt i scrubbed trace_hash (rs_record s))"

definition after_attempt :: "run_env \<Rightarrow> nat \<Rightarrow> verification_result list \<Rightarrow> verification_result \<Rightarrow> string \<Rightarrow> drive_state \<Rightarrow> drive_state" where
  "after_attempt env i results scrubbed trace_hash s =
     (let r = attempt_recorded env i results scrubbed trace_hash s in
      s\<lparr>rs_record := r, rs_stored := Some r,
        rs_reflexions := rs_reflexions s @ (if vr_passed (last results) = Some True then [] else [i])\<rparr>)"

lemma after_attempt_fields:
  "rs_record (after_attempt env i results scrubbed trace_hash s) =
     set_decision (decide_convergence (run_detector env) results) (add_attempt i scrubbed trace_hash (rs_record s))"
  "rs_stored (after_attempt env i results scrubbed trace_hash s) =
     Some (set_decision (decide_convergence (run_detector env) results) (add_attempt i scrubbed trace_hash (rs_record s)))"
  by (simp_all add: after_attempt_def attempt_recorded_def Let_def)

lemma drive_recorded:
  assumes "at_outcome (rn_script env i) = Inr (trace, trace_hash, verification)" and "at_scrub (rn_script env i) verification = Some scrubbed"
    and "drive_attempts env (i # js) results latest s = (s', r)"
  shows "(\<exists>e. r = Inl e \<and> \<not> files_work env) \<or>
    (if cd_continue (decide_convergence (run_detector env) (results @ [verification]))
     then drive_attempts env js (results @ [verification]) (Some trace) (after_attempt env i (results @ [verification]) scrubbed trace_hash s)
     else (after_attempt env i (results @ [verification]) scrubbed trace_hash s, Inr (results @ [verification], Some trace))) = (s', r)"
  using assms
  by (cases s) (auto simp: Let_def harness_run_step unless_run_def files_work_def after_attempt_def attempt_recorded_def split: if_splits)

lemma drive_attempts_spec:
  assumes "going env results s" and "length results + length js = nat (attempt_budget env)"
    and "js = [Suc (length results) ..< Suc (nat (attempt_budget env))]" and "js \<noteq> []"
    and "drive_attempts env js results latest s = (s', r)"
  shows "case r of Inl e \<Rightarrow> raised_running env e s' | Inr res \<Rightarrow> decided env res s'"
  using assms
proof (induction js arbitrary: results latest s)
  case (Cons i js)
  let ?a = "rn_script env i"
  have "[Suc (length results) ..< Suc (nat (attempt_budget env))] = i # js" using Cons.prems(3) by (rule sym)
  then have i: "i = Suc (length results)" and later: "js = [Suc (Suc (length results)) ..< Suc (nat (attempt_budget env))]"
    unfolding upt_eq_Cons_conv by auto
  have bound: "int i \<le> attempt_budget env" using Cons.prems(2) i by simp
  have most: "dt_max (run_detector env) = attempt_budget env"
    using bound i by (simp add: run_detector_def new_detector_def)
  show ?case
  proof (cases "at_outcome ?a")
    case (Inl e)
    show ?thesis
    proof (cases e)
      case CutOff
      then show ?thesis using Cons.prems(1,5) Inl by (auto simp: raised_running_def going_def)
    next
      case (RaisedError name timeout)
      obtain s1 r1 where stop: "stop_on_error env i name timeout (passes results) s = (s1, r1)" by fastforce
      from stop_on_error_spec [OF Cons.prems(1) i bound stop] Cons.prems(5) Inl RaisedError stop
      show ?thesis by (auto simp: seq_def split: sum.splits)
    qed
  next
    case (Inr v)
    obtain trace trace_hash verification where v: "v = (trace, trace_hash, verification)" by (cases v)
    let ?results = "results @ [verification]"
    let ?d = "decide_convergence (run_detector env) ?results"
    show ?thesis
    proof (cases "at_scrub ?a verification")
      case None
      then show ?thesis using Cons.prems(1,5) Inr v by (auto simp: raised_running_def going_def Let_def)
    next
      case (Some scrubbed)
      let ?s = "after_attempt env i ?results scrubbed trace_hash s"
      consider e where "r = Inl e" "\<not> files_work env"
        | (runs) "(if cd_continue ?d then drive_attempts env js ?results (Some trace) ?s else (?s, Inr (?results, Some trace))) = (s', r)"
        using drive_recorded [OF Inr [unfolded v] Some Cons.prems(5)] by blast
      then show ?thesis
      proof cases
        case runs
        show ?thesis
        proof (cases "cd_continue ?d")
          case True
          then have running: "cd_status ?d = Running" using decide_running_iff by blast
          then have short: "int (trailing_passes ?results) < dt_required (run_detector env)" "int (length ?results) < attempt_budget env"
            using decide_running_iff(2) most by auto
          have "going env ?results ?s"
            using Cons.prems(1) running short i by (simp add: going_def after_attempt_fields set_decision_def add_attempt_def)
          moreover have "js \<noteq> []" using short(2) later by (simp del: upt_Suc)
          ultimately show ?thesis using Cons.IH [of ?results ?s "Some trace"] runs True Cons.prems(2) later by (simp del: upt_Suc)
        next
          case False
          then have "cd_status ?d = Converged \<or> cd_status ?d = Unconverged" using decide_running_iff by (metis empty_iff insertE)
          then show ?thesis
            using runs False Cons.prems(1) i bound decide_running_iff(3) [of "run_detector env" ?results]
            by (auto simp: going_def decided_def after_attempt_fields set_decision_def add_attempt_def)
        qed
      qed (simp add: raised_running_def)
    qed
  qed
qed simp

section \<open>The whole run\<close>

lemma going_start: "going env [] (unstarted env\<lparr>rs_stored := Some (new_harness_run env)\<rparr>)"
  using required_ge_1 [of env] by (simp add: going_def unstarted_def new_harness_run_def trailing_passes_def)

lemma drive_attempts_start:
  assumes "1 \<le> attempt_budget env"
    and "drive_attempts env [1 ..< Suc (nat (attempt_budget env))] [] None (unstarted env\<lparr>rs_stored := Some (new_harness_run env)\<rparr>) = (s', r)"
  shows "case r of Inl e \<Rightarrow> raised_running env e s' | Inr res \<Rightarrow> decided env res s'"
  by (rule drive_attempts_spec [OF going_start _ _ _ assms(2)]) (use assms(1) in \<open>simp_all del: upt_Suc\<close>)

definition run_settled :: "run_env \<Rightarrow> drive_state \<Rightarrow> bool" where
  "run_settled env s \<longleftrightarrow>
     rs_stored s = Some (rs_record s) \<and> (\<exists>d. hr_decision (rs_record s) = Some d \<and> cd_status d = hr_status (rs_record s)) \<and>
     hr_status (rs_record s) \<in> {Converged, Unconverged, OverBudget, FailedRun} \<and>
     (hr_status (rs_record s) = Converged \<longleftrightarrow> hr_candidate (rs_record s) \<noteq> None) \<and>
     numbered (hr_attempts (rs_record s)) \<and> int (length (hr_attempts (rs_record s))) \<le> attempt_budget env"

lemma stage_candidate_spec:
  assumes "decided env res s" and "hr_status (rs_record s) = Converged" and "stage_candidate env s = (s', r)"
  shows "case r of Inl e \<Rightarrow> \<not> files_work env | Inr _ \<Rightarrow> run_settled env s'"
  using assms
  by (auto simp: stage_candidate_def harness_run_step decided_def run_settled_def staging_failed_def set_decision_def add_note_def
      files_work_def change_record_def seq_def split: sum.splits if_splits)

lemma drive_spec:
  assumes "1 \<le> attempt_budget env" and "drive env (unstarted env\<lparr>rs_stored := Some (new_harness_run env)\<rparr>) = (s', r)"
  shows "case r of Inl e \<Rightarrow> raised_running env e s' | Inr _ \<Rightarrow> run_settled env s'"
proof -
  obtain s1 r1 where run: "drive_attempts env [1 ..< Suc (nat (attempt_budget env))] [] None (unstarted env\<lparr>rs_stored := Some (new_harness_run env)\<rparr>) = (s1, r1)"
    by fastforce
  note spec = drive_attempts_start [OF assms(1) run]
  show ?thesis
  proof (cases r1)
    case (Inl e)
    then show ?thesis using spec run assms(2) by (auto simp add: drive_def seq_def simp del: upt_Suc)
  next
    case (Inr res)
    obtain results latest where res: "res = (results, latest)" by (cases res)
    have dec: "decided env (results, latest) s1" using spec Inr res by simp
    have rest: "(if hr_status (rs_record s1) = Converged \<and> latest \<noteq> None \<and> results \<noteq> [] then stage_candidate env else ret ()) s1 = (s', r)"
      using assms(2) run Inr res by (simp add: drive_def seq_def del: upt_Suc)
    show ?thesis
    proof (cases "hr_status (rs_record s1) = Converged \<and> latest \<noteq> None \<and> results \<noteq> []")
      case True
      then show ?thesis using stage_candidate_spec [OF dec] rest by (auto simp: raised_running_def split: sum.splits)
    next
      case False
      then show ?thesis using rest dec by (auto simp: decided_def run_settled_def)
    qed
  qed
qed


section \<open>Converged runs\<close>

text \<open>The attempts up to one were all verified, with these results.\<close>

definition verified_upto :: "run_env \<Rightarrow> nat \<Rightarrow> bool" where
  "verified_upto env n \<longleftrightarrow> (\<forall>i. 0 < i \<longrightarrow> i \<le> n \<longrightarrow> (\<exists>v. at_outcome (rn_script env i) = Inr v))"

definition result_of :: "run_env \<Rightarrow> nat \<Rightarrow> verification_result" where
  "result_of env i = snd (snd (projr (at_outcome (rn_script env i))))"

definition results_of :: "run_env \<Rightarrow> nat \<Rightarrow> verification_result list" where
  "results_of env n = map (result_of env) [1 ..< Suc n]"

lemma results_of_simps [simp]: "results_of env 0 = []" "results_of env (Suc n) = results_of env n @ [result_of env (Suc n)]"
  "length (results_of env n) = n"
  by (simp_all add: results_of_def)

lemma verified_upto_Suc: "verified_upto env (Suc n) \<longleftrightarrow> verified_upto env n \<and> (\<exists>v. at_outcome (rn_script env (Suc n)) = Inr v)"
  by (auto simp: verified_upto_def le_Suc_eq)

lemma drive_results:
  assumes "drive_attempts env js (results_of env m) latest s = (s', Inr (results', latest'))"
    and "js = [Suc m ..< Suc b]" and "m \<le> b" and "verified_upto env m"
  shows "\<exists>n \<ge> m. results' = results_of env n \<and> verified_upto env n \<and> n \<le> b \<and>
    (\<forall>l. m < l \<and> l < n \<longrightarrow> cd_continue (decide_convergence (run_detector env) (results_of env l)))"
  using assms
proof (induction js arbitrary: m latest s)
  case Nil
  then show ?case by (intro exI [of _ m]) auto
next
  case (Cons i js)
  have "[Suc m ..< Suc b] = i # js" using Cons.prems(2) by (rule sym)
  then have i: "i = Suc m" and later: "js = [Suc (Suc m) ..< Suc b]" and bound: "Suc m \<le> b"
    unfolding upt_eq_Cons_conv by auto
  show ?case
  proof (cases "at_outcome (rn_script env i)")
    case (Inl e)
    then show ?thesis using Cons.prems(1,3,4)
      by (cases e) (auto simp: seq_def intro!: exI [of _ m] split: prod.splits sum.splits)
  next
    case (Inr v)
    obtain trace trace_hash verification where v: "v = (trace, trace_hash, verification)" by (cases v)
    have result: "results_of env m @ [verification] = results_of env (Suc m)" using Inr v i by (simp add: result_of_def)
    have verified: "verified_upto env (Suc m)" using Cons.prems(4) Inr i v by (auto simp: verified_upto_Suc)
    obtain scrubbed where scrubbed: "at_scrub (rn_script env i) verification = Some scrubbed"
      using Cons.prems(1) Inr v by (auto simp: Let_def split: option.splits)
    let ?d = "decide_convergence (run_detector env) (results_of env (Suc m))"
    let ?s = "after_attempt env i (results_of env (Suc m)) scrubbed trace_hash s"
    have runs: "(if cd_continue ?d then drive_attempts env js (results_of env (Suc m)) (Some trace) ?s
        else (?s, Inr (results_of env (Suc m), Some trace))) = (s', Inr (results', latest'))"
      using drive_recorded [OF Inr [unfolded v] scrubbed Cons.prems(1)] result by auto
    show ?thesis
    proof (cases "cd_continue ?d")
      case True
      then have "drive_attempts env js (results_of env (Suc m)) (Some trace) ?s = (s', Inr (results', latest'))" using runs by metis
      from Cons.IH [OF this later bound verified] obtain n where n: "Suc m \<le> n" "results' = results_of env n" "verified_upto env n" "n \<le> b"
        "\<forall>l. Suc m < l \<and> l < n \<longrightarrow> cd_continue (decide_convergence (run_detector env) (results_of env l))" by blast
      have "cd_continue (decide_convergence (run_detector env) (results_of env l))" if "m < l" "l < n" for l
      proof (cases "l = Suc m")
        case True
        then show ?thesis using \<open>cd_continue ?d\<close> by metis
      next
        case False
        then show ?thesis using n(5) that by auto
      qed
      then show ?thesis using n by (intro exI [of _ n]) auto
    next
      case False
      then have "results' = results_of env (Suc m)" using runs by (simp del: results_of_simps)
      then show ?thesis using verified bound by (intro exI [of _ "Suc m"]) auto
    qed
  qed
qed

lemma stage_candidate_attempts: "stage_candidate env s = (s', Inr u) \<Longrightarrow> hr_attempts (rs_record s') = hr_attempts (rs_record s) \<and>
    (hr_status (rs_record s') = Converged \<longrightarrow> hr_status (rs_record s) = Converged)"
  by (auto simp: stage_candidate_def harness_run_step staging_failed_def set_decision_def add_note_def change_record_def seq_def
      split: sum.splits if_splits)

lemma converged_results:
  assumes "1 \<le> attempt_budget env" and "start_convergence env = (s, Inr u)" and "hr_status (rs_record s) = Converged"
  defines "n \<equiv> length (hr_attempts (rs_record s))" and "k \<equiv> nat (min 3 (attempt_budget env))"
  shows "verified_upto env n \<and> k \<le> trailing_passes (results_of env n) \<and>
    (\<forall>m. 0 < m \<and> m < n \<longrightarrow> trailing_passes (results_of env m) < k)"
proof -
  let ?s0 = "unstarted env\<lparr>rs_stored := Some (new_harness_run env)\<rparr>"
  have k: "dt_required (run_detector env) = int k"
    using assms(1) by (simp add: run_detector_def new_detector_def k_def)
  have started: "rn_set_up_ok env" and driven: "drive env ?s0 = (s, Inr u)"
    using assms(2)
    by (auto simp: start_convergence_def harness_run_step catch_def seq_def unstarted_def split: if_splits sum.splits prod.splits)
  obtain s1 results latest where run: "drive_attempts env [1 ..< Suc (nat (attempt_budget env))] [] None ?s0 = (s1, Inr (results, latest))"
    and rest: "(if hr_status (rs_record s1) = Converged \<and> latest \<noteq> None \<and> results \<noteq> [] then stage_candidate env else ret ()) s1 = (s, Inr u)"
    using driven by (auto simp: drive_def seq_def simp del: upt_Suc split: sum.splits prod.splits)
  have same: "hr_attempts (rs_record s1) = hr_attempts (rs_record s)" "hr_status (rs_record s1) = Converged"
    using rest assms(3) stage_candidate_attempts by (auto split: if_splits)
  have "decided env (results, latest) s1" using drive_attempts_start [OF assms(1) run] by simp
  then have dec: "n = length results" "int k \<le> int (trailing_passes results)"
    using same k by (auto simp: decided_def n_def)
  have "\<exists>n' \<ge> 0. results = results_of env n' \<and> verified_upto env n' \<and> n' \<le> nat (attempt_budget env) \<and>
      (\<forall>l. 0 < l \<and> l < n' \<longrightarrow> cd_continue (decide_convergence (run_detector env) (results_of env l)))"
    by (rule drive_results [of env "[1 ..< Suc (nat (attempt_budget env))]" 0 None ?s0 s1])
      (use run in \<open>simp_all add: verified_upto_def del: upt_Suc\<close>)
  then obtain n' where n': "results = results_of env n'" "verified_upto env n'"
    "\<forall>l. 0 < l \<and> l < n' \<longrightarrow> cd_continue (decide_convergence (run_detector env) (results_of env l))" by blast
  have "n' = n" using dec(1) n'(1) by simp
  moreover have "trailing_passes (results_of env l) < k" if "0 < l" "l < n'" for l
    using n'(3) that decide_running_iff(1,2) k by fastforce
  ultimately show ?thesis using n' dec(2) by auto
qed


section \<open>A note that cannot be written\<close>


section \<open>Samples\<close>

definition sample_passed :: verification_result where
  "sample_passed = \<lparr>vr_passed = Some True, vr_confidence = 1, vr_failed = [],
     vr_satisfied = [''postcondition[0]:url_matches:https://a.test/o/7''], vr_forbidden = [], vr_missing = [],
     vr_notes = ''Programmatic postconditions passed.'', vr_backend = ''programmatic''\<rparr>"

definition sample_attempt :: attempt_script where
  "sample_attempt = \<lparr>at_outcome = Inr (sample_trace, ''h'', sample_passed), at_late = False, at_trace_ok = True, at_error_hash = [],
     at_scrub = Some, at_note_ok = True, at_save_ok = True\<rparr>"

definition sample_run :: run_env where
  "sample_run = \<lparr>rn_contract = sample_contract, rn_hash = ''c'', rn_id = ''r1'', rn_owner = None, rn_generation = ''g1'',
     rn_max_attempts = None, rn_script = (\<lambda>_. sample_attempt), rn_set_up_ok = True,
     rn_induced = Inr \<lparr>sk_id = ''order-c'', sk_name = ''order'', sk_contract_hash = ''c'', sk_trace_hash = ''h'', sk_verifier_passed = Some True,
       sk_attempts = 3, sk_signed = False, sk_owner = None, sk_simulated = False\<rparr>,
     rn_end_save_ok = True, rn_close_save_ok = True\<rparr>"

lemma sample_budget: "attempt_budget sample_run = 3"
  by code_simp

lemma sample_verified: "verify_attempt sample_verify sample_contract sample_trace = Some sample_passed"
  by code_simp




end
