(* ===== verification/HarnessStore.thy ===== *)
theory HarnessStore
  imports HarnessFacts Machines
begin

text \<open>
  The stored runs (\<open>HarnessRunStore\<close>, harness/iterate.py): the admission of a run under an operator's cap, cut at
  its awaits and interleaved with runs that are saved, released and pruned; the sweep at startup; and what the
  service shows of a run to a caller (\<open>HarnessService\<close>).
\<close>

section \<open>Files\<close>

text \<open>A \<open>run.json\<close>: a record, or a file that is none, with the owner it names if it is a JSON object at all.\<close>

datatype stored_run = RunFile harness_run | OtherFile "string option option"

type_synonym run_files = "(string \<times> stored_run) list"

fun file_owner :: "stored_run \<Rightarrow> string option option" where
  "file_owner (RunFile r) = Some (hr_owner r)"
| "file_owner (OtherFile named) = named"

definition valid_run_id :: "string \<Rightarrow> bool" where
  "valid_run_id i \<longleftrightarrow> i \<noteq> [] \<and> alnum_char (hd i) \<and> list_all record_char (tl i) \<and> length i \<le> 120"

text \<open>None: the write failed, or the record's id names no directory.\<close>

definition save_record :: "(string \<Rightarrow> bool) \<Rightarrow> harness_run \<Rightarrow> run_files \<Rightarrow> run_files option" where
  "save_record works r files =
     (if valid_run_id (hr_id r) \<and> works (hr_id r) then Some (AList.update (hr_id r) (RunFile r) files) else None)"

datatype store_error = NoRun string | BadRun | NotYours string | NotStaged | NoAttempt | TraceChanged

definition get_run :: "run_files \<Rightarrow> string \<Rightarrow> store_error + harness_run" where
  "get_run files i =
     (if \<not> valid_run_id i then Inl (NoRun i)
      else case map_of files i of None \<Rightarrow> Inl (NoRun i) | Some (RunFile r) \<Rightarrow> Inr r | Some (OtherFile _) \<Rightarrow> Inl BadRun)"

text \<open>The listing is newest first, by modification time.\<close>

definition list_run_records :: "(string \<Rightarrow> nat) \<Rightarrow> harness_status option \<Rightarrow> nat \<Rightarrow> (harness_run \<Rightarrow> bool) \<Rightarrow> run_files \<Rightarrow> harness_run list" where
  "list_run_records mtime status limit visible files =
     take (max 1 limit) (filter (\<lambda>r. (case status of None \<Rightarrow> True | Some st \<Rightarrow> hr_status r = st) \<and> visible r)
       (List.map_filter (\<lambda>(i, f). case f of RunFile r \<Rightarrow> Some r | OtherFile _ \<Rightarrow> None) (sort_desc (mtime \<circ> fst) files)))"

section \<open>Admission\<close>

type_synonym active_runs = "(string \<times> string option) list"

definition starting_runs :: "string option \<Rightarrow> active_runs \<Rightarrow> string list" where
  "starting_runs owner active = map fst (filter (\<lambda>(i, who). who = owner) active)"

definition owned_runs :: "string option \<Rightarrow> run_files \<Rightarrow> string list" where
  "owned_runs owner files = map fst (filter (\<lambda>(i, f). file_owner f = Some owner) files)"

text \<open>Whether the run has its place, and the active runs then.\<close>

definition reserve :: "string \<Rightarrow> string option \<Rightarrow> string list \<Rightarrow> nat \<Rightarrow> active_runs \<Rightarrow> bool \<times> active_runs" where
  "reserve i owner counted max_owned active =
     (if 0 < max_owned \<and> max_owned \<le> card (set counted \<union> set (starting_runs owner active)) then (False, active)
      else (True, AList.update i owner active))"

definition begin_harness_run :: "string \<Rightarrow> string option \<Rightarrow> nat \<Rightarrow> run_files \<Rightarrow> active_runs \<Rightarrow> bool \<times> active_runs" where
  "begin_harness_run i owner max_owned files active =
     reserve i owner (starting_runs owner active @ (if 0 < max_owned then owned_runs owner files else [])) max_owned active"

definition release_active :: "string \<Rightarrow> active_runs \<Rightarrow> active_runs" where
  "release_active i active = AList.delete i active"

text \<open>
  The caller that holds the admission lock: what it has counted, and the directories the scan in the worker thread
  has listed and not yet read (None before it lists them).
\<close>

record admission =
  ad_run :: string
  ad_owner :: "string option"
  ad_counted :: "string list"
  ad_listed :: "string list option"

record harness_state =
  hs_files :: run_files
  hs_active :: active_runs
  hs_admission :: "admission option"

definition enter_admission :: "nat \<Rightarrow> string \<Rightarrow> string option \<Rightarrow> harness_state \<Rightarrow> harness_state" where
  "enter_admission max_owned i owner s =
     s\<lparr>hs_admission := Some \<lparr>ad_run = i, ad_owner = owner,
         ad_counted = (if 0 < max_owned then starting_runs owner (hs_active s) else []),
         ad_listed = (if 0 < max_owned then None else Some [])\<rparr>\<rparr>"

definition scan_file :: "run_files \<Rightarrow> string \<Rightarrow> admission \<Rightarrow> admission" where
  "scan_file files i a =
     (if (case map_of files i of None \<Rightarrow> False | Some f \<Rightarrow> file_owner f = Some (ad_owner a))
      then a\<lparr>ad_counted := ad_counted a @ [i]\<rparr> else a)"

definition end_admission :: "nat \<Rightarrow> admission \<Rightarrow> harness_state \<Rightarrow> harness_state" where
  "end_admission max_owned a s =
     s\<lparr>hs_active := snd (reserve (ad_run a) (ad_owner a) (ad_counted a) max_owned (hs_active s)), hs_admission := None\<rparr>"

text \<open>A run of this process saves its record under its own id and owner; a prune leaves the active ones.\<close>

inductive harness_step :: "nat \<Rightarrow> harness_state \<Rightarrow> harness_state \<Rightarrow> bool" for max_owned where
  enter: "hs_admission s = None \<Longrightarrow> harness_step max_owned s (enter_admission max_owned i owner s)"
| list_dirs: "hs_admission s = Some a \<Longrightarrow> ad_listed a = None \<Longrightarrow>
    harness_step max_owned s (s\<lparr>hs_admission := Some (a\<lparr>ad_listed := Some (map fst (hs_files s))\<rparr>)\<rparr>)"
| read_file: "hs_admission s = Some a \<Longrightarrow> ad_listed a = Some (i # rest) \<Longrightarrow>
    harness_step max_owned s (s\<lparr>hs_admission := Some ((scan_file (hs_files s) i a)\<lparr>ad_listed := Some rest\<rparr>)\<rparr>)"
| admit: "hs_admission s = Some a \<Longrightarrow> ad_listed a = Some [] \<Longrightarrow> harness_step max_owned s (end_admission max_owned a s)"
| give_up: "hs_admission s = Some a \<Longrightarrow> harness_step max_owned s (s\<lparr>hs_admission := None\<rparr>)"
| save_active: "map_of (hs_active s) i = Some (hr_owner r) \<Longrightarrow> hr_id r = i \<Longrightarrow> save_record works r (hs_files s) = Some files \<Longrightarrow>
    harness_step max_owned s (s\<lparr>hs_files := files\<rparr>)"
| run_ends: "harness_step max_owned s (s\<lparr>hs_active := release_active i (hs_active s)\<rparr>)"
| prune_run: "map_of (hs_active s) i = None \<Longrightarrow> harness_step max_owned s (s\<lparr>hs_files := AList.delete i (hs_files s)\<rparr>)"

inductive_cases harness_stepE: "harness_step max_owned s t"

text \<open>The runs that count against an operator's cap: stored, or starting or driven in this process.\<close>

definition runs_counted :: "harness_state \<Rightarrow> string option \<Rightarrow> string set" where
  "runs_counted s owner = {i. (\<exists>f. map_of (hs_files s) i = Some f \<and> file_owner f = Some owner) \<or> map_of (hs_active s) i = Some owner}"

definition admission_ok :: "harness_state \<Rightarrow> admission \<Rightarrow> bool" where
  "admission_ok s a \<longleftrightarrow>
     (\<forall>i. map_of (hs_active s) i = Some (ad_owner a) \<longrightarrow> i \<in> set (ad_counted a)) \<and>
     (\<forall>i f. map_of (hs_files s) i = Some f \<longrightarrow> file_owner f = Some (ad_owner a) \<longrightarrow>
        i \<in> set (ad_counted a) \<or> (case ad_listed a of None \<Rightarrow> True | Some rest \<Rightarrow> i \<in> set rest))"

definition within_cap :: "nat \<Rightarrow> (string option \<Rightarrow> nat) \<Rightarrow> harness_state \<Rightarrow> bool" where
  "within_cap max_owned bound s \<longleftrightarrow>
     distinct (map fst (hs_active s)) \<and> (\<forall>owner. card (runs_counted s owner) \<le> max max_owned (bound owner)) \<and>
     (case hs_admission s of None \<Rightarrow> True | Some a \<Rightarrow> admission_ok s a)"

lemma finite_runs_counted [simp]: "finite (runs_counted s owner)"
proof -
  have "runs_counted s owner \<subseteq> fst ` set (hs_files s) \<union> fst ` set (hs_active s)"
    by (auto simp: runs_counted_def dest!: map_of_SomeD intro: rev_image_eqI)
  then show ?thesis by (rule finite_subset) simp
qed

lemma starting_runs_iff: "distinct (map fst active) \<Longrightarrow> i \<in> set (starting_runs owner active) \<longleftrightarrow> map_of active i = Some owner"
  by (force simp: starting_runs_def)

lemma within_cap_smaller:
  assumes "within_cap m b s" and "\<And>owner. runs_counted t owner \<subseteq> runs_counted s owner" and "distinct (map fst (hs_active t))"
    and "\<And>a. hs_admission t = Some a \<Longrightarrow> admission_ok t a"
  shows "within_cap m b t"
proof -
  have "card (runs_counted t owner) \<le> max m (b owner)" for owner
    using card_mono [OF finite_runs_counted assms(2) [of owner]] assms(1) order_trans unfolding within_cap_def by blast
  then show ?thesis using assms(3,4) by (simp add: within_cap_def split: option.split)
qed

lemma admit_within_cap:
  assumes ok: "within_cap m b s" and adm: "hs_admission s = Some a" "ad_listed a = Some []" and "0 < m"
  shows "within_cap m b (end_admission m a s)"
proof (cases "fst (reserve (ad_run a) (ad_owner a) (ad_counted a) m (hs_active s))")
  case False
  then have "end_admission m a s = s\<lparr>hs_admission := None\<rparr>" by (auto simp: end_admission_def reserve_def split: if_splits)
  then show ?thesis using ok by (auto simp: within_cap_def runs_counted_def)
next
  case True
  let ?t = "end_admission m a s"
  have active: "hs_active ?t = AList.update (ad_run a) (ad_owner a) (hs_active s)" "hs_files ?t = hs_files s" "hs_admission ?t = None"
    using True by (auto simp: end_admission_def reserve_def split: if_splits)
  have few: "card (set (ad_counted a) \<union> set (starting_runs (ad_owner a) (hs_active s))) < m"
    using True \<open>0 < m\<close> by (auto simp: reserve_def split: if_splits)
  have "runs_counted s (ad_owner a) \<subseteq> set (ad_counted a)"
    using ok adm by (auto simp: within_cap_def admission_ok_def runs_counted_def)
  then have "card (runs_counted s (ad_owner a)) \<le> card (set (ad_counted a) \<union> set (starting_runs (ad_owner a) (hs_active s)))"
    by (intro card_mono) auto
  then have small: "card (runs_counted s (ad_owner a)) < m" using few by simp
  have own: "runs_counted ?t owner \<subseteq> (if owner = ad_owner a then insert (ad_run a) else id) (runs_counted s owner)" for owner
    by (auto simp: runs_counted_def active map_of_update split: if_splits)
  have "card (runs_counted ?t owner) \<le> max m (b owner)" for owner
  proof (cases "owner = ad_owner a")
    case True
    then have "card (runs_counted ?t owner) \<le> card (insert (ad_run a) (runs_counted s owner))" using own [of owner] by (intro card_mono) auto
    also have "\<dots> \<le> Suc (card (runs_counted s owner))" by (rule card_insert_le_m1) simp_all
    finally show ?thesis using small True by simp
  next
    case False
    then have "card (runs_counted ?t owner) \<le> card (runs_counted s owner)" using own [of owner] by (intro card_mono) auto
    then show ?thesis using ok by (force simp: within_cap_def intro: order_trans)
  qed
  then show ?thesis using ok active by (simp add: within_cap_def distinct_update)
qed

lemma runs_counted_admission [simp]: "runs_counted (s\<lparr>hs_admission := x\<rparr>) owner = runs_counted s owner"
  by (simp add: runs_counted_def)

lemma scan_keeps:
  assumes "admission_ok s a" and "ad_listed a = Some (i # rest)"
  shows "admission_ok (s\<lparr>hs_admission := x\<rparr>) ((scan_file (hs_files s) i a)\<lparr>ad_listed := Some rest\<rparr>)"
proof -
  have "j \<in> set (ad_counted (scan_file (hs_files s) i a)) \<or> j \<in> set rest"
    if "map_of (hs_files s) j = Some f" "file_owner f = Some (ad_owner a)" for j f
    using assms that by (cases "j = i") (auto simp: admission_ok_def scan_file_def split: option.splits)
  moreover have "j \<in> set (ad_counted (scan_file (hs_files s) i a))" if "map_of (hs_active s) j = Some (ad_owner a)" for j
    using assms that by (auto simp: admission_ok_def scan_file_def)
  ultimately show ?thesis by (auto simp: admission_ok_def scan_file_def)
qed

lemma step_within_cap:
  assumes "within_cap m b s" and "harness_step m s t" and "0 < m"
  shows "within_cap m b t"
  using assms(2)
proof (cases rule: harness_step.cases)
  case (enter i owner)
  have "admission_ok t \<lparr>ad_run = i, ad_owner = owner, ad_counted = starting_runs owner (hs_active s), ad_listed = None\<rparr>"
    using assms(1) enter by (auto simp: admission_ok_def enter_admission_def within_cap_def starting_runs_iff)
  then show ?thesis using assms enter by (auto simp: within_cap_def enter_admission_def runs_counted_def)
next
  case (list_dirs a)
  then show ?thesis using assms(1)
    by (auto simp: within_cap_def admission_ok_def runs_counted_def dest!: map_of_SomeD intro: rev_image_eqI)
next
  case (read_file a i rest)
  then show ?thesis using assms(1) scan_keeps [of s a i rest] by (simp add: within_cap_def)
next
  case (admit a)
  then show ?thesis using admit_within_cap assms(1,3) by simp
next
  case (give_up a)
  then show ?thesis using assms(1) by (auto simp: within_cap_def runs_counted_def)
next
  case (save_active i r works files)
  have files: "hs_files t = AList.update i (RunFile r) (hs_files s)" "hs_active t = hs_active s" "hs_admission t = hs_admission s"
    using save_active by (auto simp: save_record_def split: if_splits)
  show ?thesis
  proof (rule within_cap_smaller [OF assms(1)])
    show "runs_counted t owner \<subseteq> runs_counted s owner" for owner
      using save_active(2,3) by (auto simp: runs_counted_def files map_of_update split: if_splits)
    show "admission_ok t a" if "hs_admission t = Some a" for a
      using assms(1) that save_active(2) files by (auto simp: within_cap_def admission_ok_def map_of_update split: if_splits)
  qed (use assms(1) files in \<open>simp add: within_cap_def\<close>)
next
  case (run_ends i)
  show ?thesis
    by (rule within_cap_smaller [OF assms(1)])
      (use assms(1) run_ends in \<open>auto simp: runs_counted_def release_active_def map_of_delete_key within_cap_def admission_ok_def
        distinct_delete split: if_splits\<close>)
next
  case (prune_run i)
  show ?thesis
    by (rule within_cap_smaller [OF assms(1)])
      (use assms(1) prune_run in \<open>auto simp: runs_counted_def map_of_delete_key within_cap_def admission_ok_def split: if_splits\<close>)
qed

interpretation admissions: machine "harness_step (Suc m)" "within_cap (Suc m) b" for m b
  by unfold_locales (rule step_within_cap, auto)


definition empty_harness :: harness_state where
  "empty_harness = \<lparr>hs_files = [], hs_active = [], hs_admission = None\<rparr>"


section \<open>The sweep at startup\<close>

definition RESTART_NOTE :: string where
  "RESTART_NOTE = ''Harness run interrupted by a controller restart.''"

definition stale_run :: "string \<Rightarrow> active_runs \<Rightarrow> harness_run \<Rightarrow> bool" where
  "stale_run generation active r \<longleftrightarrow>
     \<not> (hr_status r \<noteq> Running \<or> hr_id r \<in> fst ` set active \<or> hr_generation r = Some generation)"

definition interrupted_run :: "harness_run \<Rightarrow> harness_run" where
  "interrupted_run r = add_note RESTART_NOTE (r\<lparr>hr_status := InterruptedRun\<rparr>)"

text \<open>
  The loop of both passes at startup: the files read in turn, a record changed and saved if it is to be; how many
  were. What cannot be rewritten is logged and left.
\<close>

fun sweep_records :: "(harness_run \<Rightarrow> harness_run option) \<Rightarrow> (string \<Rightarrow> bool) \<Rightarrow> string list \<Rightarrow> run_files \<times> nat \<Rightarrow> run_files \<times> nat" where
  "sweep_records change works [] acc = acc"
| "sweep_records change works (i # rest) (files, changed) =
     sweep_records change works rest
       (case map_of files i of
          Some (RunFile r) \<Rightarrow>
            (case change r of
               None \<Rightarrow> (files, changed)
             | Some r' \<Rightarrow> (case save_record works r' files of None \<Rightarrow> (files, changed) | Some files' \<Rightarrow> (files', Suc changed)))
        | _ \<Rightarrow> (files, changed))"

definition interrupt_stale :: "string \<Rightarrow> active_runs \<Rightarrow> harness_run \<Rightarrow> harness_run option" where
  "interrupt_stale generation active r = (if stale_run generation active r then Some (interrupted_run r) else None)"

definition mark_stale_running :: "string \<Rightarrow> active_runs \<Rightarrow> (string \<Rightarrow> bool) \<Rightarrow> run_files \<Rightarrow> run_files \<times> nat" where
  "mark_stale_running generation active works files =
     sweep_records (interrupt_stale generation active) works (map fst files) (files, 0)"

text \<open>Every record is in the directory its id names.\<close>

definition runs_named :: "run_files \<Rightarrow> bool" where
  "runs_named files \<longleftrightarrow> (\<forall>i r. map_of files i = Some (RunFile r) \<longrightarrow> hr_id r = i \<and> valid_run_id i)"

definition swept :: "(harness_run \<Rightarrow> harness_run option) \<Rightarrow> (string \<Rightarrow> bool) \<Rightarrow> string \<Rightarrow> stored_run \<Rightarrow> stored_run" where
  "swept change works i f =
     (case f of RunFile r \<Rightarrow> RunFile (if works i then the_default r (change r) else r) | _ \<Rightarrow> f)"

lemma swept_RunFile:
  "swept change works i f = RunFile r \<longleftrightarrow> (\<exists>r0. f = RunFile r0 \<and> r = (if works i then the_default r0 (change r0) else r0))"
  by (cases f) (auto simp: swept_def)

lemma interrupted_fields: "hr_id (interrupted_run r) = hr_id r" "hr_status (interrupted_run r) = InterruptedRun"
  by (simp_all add: interrupted_run_def add_note_def)

lemma sweep_spec:
  assumes "runs_named files" and "distinct names" and keeps: "\<And>r r'. change r = Some r' \<Longrightarrow> hr_id r' = hr_id r"
  shows "map_of (fst (sweep_records change works names (files, n))) i =
    (if i \<in> set names then map_option (swept change works i) (map_of files i) else map_of files i)"
  using assms(1,2)
proof (induction names arbitrary: files n)
  case (Cons j names)
  obtain files' n' where one: "sweep_records change works (j # names) (files, n) = sweep_records change works names (files', n')"
    "map_of files' = (map_of files)(j := map_option (swept change works j) (map_of files j))"
  proof (cases "\<exists>r r'. map_of files j = Some (RunFile r) \<and> change r = Some r' \<and> works j")
    case True
    then obtain r r' where r: "map_of files j = Some (RunFile r)" "change r = Some r'" "works j" by blast
    have named: "hr_id r' = j" "valid_run_id j" using Cons.prems(1) r(1) keeps [OF r(2)] by (auto simp: runs_named_def)
    have "sweep_records change works (j # names) (files, n) = sweep_records change works names (AList.update j (RunFile r') files, Suc n)"
      using r named by (simp add: save_record_def)
    moreover have "map_of (AList.update j (RunFile r') files) = (map_of files)(j := map_option (swept change works j) (map_of files j))"
      using r by (simp add: update_conv' swept_def the_default_def)
    ultimately show ?thesis by (rule that)
  next
    case False
    have "sweep_records change works (j # names) (files, n) = sweep_records change works names (files, n)"
    proof (cases "map_of files j")
      case (Some f)
      then show ?thesis using False Cons.prems(1) keeps
        by (cases f) (auto simp: save_record_def runs_named_def split: option.split)
    qed simp
    moreover have "map_of files = (map_of files)(j := map_option (swept change works j) (map_of files j))"
    proof (cases "map_of files j")
      case (Some f)
      then show ?thesis using False by (cases f) (auto simp: swept_def the_default_def fun_eq_iff split: option.split)
    qed (simp add: fun_eq_iff)
    ultimately show ?thesis by (rule that)
  qed
  have "runs_named files'"
    using Cons.prems(1) one(2) keeps
    by (auto simp: runs_named_def swept_RunFile the_default_def split: if_splits option.splits)
  from Cons.IH [OF this, of n'] Cons.prems(2) one show ?case by auto
qed simp

lemma sweep_all:
  assumes "runs_named files" and "distinct (map fst files)" and "\<And>r r'. change r = Some r' \<Longrightarrow> hr_id r' = hr_id r"
  shows "map_of (fst (sweep_records change works (map fst files) (files, n))) i = map_option (swept change works i) (map_of files i)"
  using sweep_spec [OF assms, where works = works and n = n and i = i] map_of_eq_None_iff [of files i] by auto

text \<open>
  C27: after the sweep at startup a stored run reads running only if this process drives it, created it, or could not
  rewrite it; every run an earlier process left running that can be rewritten is interrupted, with a note of it and
  nothing else changed, and every other file is as it was.
\<close>

theorem startup_interrupts_stale_runs:
  assumes "runs_named files" and "distinct (map fst files)"
    and files': "files' = fst (mark_stale_running generation active works files)"
  shows "(\<forall>i r. map_of files' i = Some (RunFile r) \<longrightarrow> hr_status r = Running \<longrightarrow>
      i \<in> fst ` set active \<or> hr_generation r = Some generation \<or> \<not> works i) \<and>
    (\<forall>i. map_of files' i = (case map_of files i of
       Some (RunFile r) \<Rightarrow> Some (RunFile (if hr_status r = Running \<and> i \<notin> fst ` set active \<and> hr_generation r \<noteq> Some generation \<and> works i
         then r\<lparr>hr_status := InterruptedRun, hr_notes := hr_notes r @ [RESTART_NOTE]\<rparr> else r))
     | other \<Rightarrow> other))"
proof -
  have spec: "map_of files' i = map_option (swept (interrupt_stale generation active) works i) (map_of files i)" for i
    unfolding files' mark_stale_running_def
    by (rule sweep_all [OF assms(1,2)]) (auto simp: interrupt_stale_def interrupted_fields split: if_splits)
  have "i \<in> fst ` set active \<or> hr_generation r = Some generation \<or> \<not> works i"
    if now: "map_of files' i = Some (RunFile r)" and reads: "hr_status r = Running" for i r
  proof -
    obtain r0 where r0: "map_of files i = Some (RunFile r0)"
      and r: "r = (if stale_run generation active r0 \<and> works i then interrupted_run r0 else r0)"
      using now by (auto simp: spec swept_RunFile interrupt_stale_def the_default_def)
    have "r = r0" "\<not> (stale_run generation active r0 \<and> works i)"
      using r reads interrupted_fields(2) [of r0] by (auto split: if_splits)
    then show ?thesis using reads assms(1) r0 by (auto simp: stale_run_def runs_named_def)
  qed
  moreover have "map_of files' i = (case map_of files i of
       Some (RunFile r) \<Rightarrow> Some (RunFile (if hr_status r = Running \<and> i \<notin> fst ` set active \<and> hr_generation r \<noteq> Some generation \<and> works i
         then r\<lparr>hr_status := InterruptedRun, hr_notes := hr_notes r @ [RESTART_NOTE]\<rparr> else r))
     | other \<Rightarrow> other)" for i
    using assms(1) by (auto simp: spec swept_def interrupt_stale_def stale_run_def interrupted_run_def add_note_def the_default_def runs_named_def
        split: option.split stored_run.split)
  ultimately show ?thesis by blast
qed

definition sample_stored :: run_files where
  "sample_stored = [(''r1'', RunFile (new_harness_run sample_run))]"

theorem startup_interrupts_stale_runs_witness:
  "map_of (fst (mark_stale_running ''g2'' [] (\<lambda>_. True) sample_stored)) ''r1'' = Some (RunFile (interrupted_run (new_harness_run sample_run)))"
proof -
  have "runs_named sample_stored"
    by (auto simp: runs_named_def sample_stored_def new_harness_run_def sample_run_def valid_run_id_def alnum_char_def record_char_def split: if_splits)
  from startup_interrupts_stale_runs [OF this _ refl, of "''g2''" "[]" "\<lambda>_. True"] show ?thesis
    by (simp add: sample_stored_def new_harness_run_def sample_run_def interrupted_run_def add_note_def)
qed

section \<open>What a caller is shown\<close>

definition get_owned :: "operator_var \<Rightarrow> run_files \<Rightarrow> string \<Rightarrow> store_error + harness_run" where
  "get_owned cur files i =
     (case get_run files i of Inl e \<Rightarrow> Inl e | Inr r \<Rightarrow> if may_use cur (hr_owner r) then Inr r else Inl (NotYours i))"

definition list_runs :: "operator_var \<Rightarrow> (string \<Rightarrow> nat) \<Rightarrow> harness_status option \<Rightarrow> nat \<Rightarrow> run_files \<Rightarrow> harness_run list" where
  "list_runs cur mtime status limit files = list_run_records mtime status limit (\<lambda>r. may_use cur (hr_owner r)) files"

text \<open>An attempt's trace, as its file holds it now, with its hash; None: it cannot be read or its chain is broken.\<close>

definition get_attempt_trace ::
  "(nat \<Rightarrow> (trace_envelope \<times> string) option) \<Rightarrow> operator_var \<Rightarrow> run_files \<Rightarrow> string \<Rightarrow> int option \<Rightarrow> store_error + trace_envelope" where
  "get_attempt_trace stored_trace cur files i asked =
     (case get_owned cur files i of
        Inl e \<Rightarrow> Inl e
      | Inr r \<Rightarrow>
          let most = length (hr_attempts r); selected = (case asked of None \<Rightarrow> int most | Some k \<Rightarrow> if k = 0 then int most else k) in
          if hr_attempts r = [] then Inl NoAttempt
          else if selected < 1 \<or> int most < selected then Inl NoAttempt
          else
            let attempt = hr_attempts r ! (nat selected - 1) in
            case stored_trace (nat selected) of
              None \<Rightarrow> Inl TraceChanged
            | Some (trace, trace_hash) \<Rightarrow>
                if ha_trace_hash attempt \<noteq> [] \<and> trace_hash \<noteq> ha_trace_hash attempt then Inl TraceChanged else Inr trace)"

definition graduate :: "operator_var \<Rightarrow> run_files \<Rightarrow> string \<Rightarrow> store_error + skill_candidate" where
  "graduate cur files i =
     (case get_owned cur files i of
        Inl e \<Rightarrow> Inl e
      | Inr r \<Rightarrow> (case hr_candidate r of
            Some c \<Rightarrow> if hr_status r = Converged then Inr c else Inl NotStaged
          | None \<Rightarrow> Inl NotStaged))"

end
