(* ===== verification/HarnessStaging.thy ===== *)
theory HarnessStaging
  imports HarnessStore
begin

text \<open>
  The staging of a skill candidate (harness/induce.py) as the file operations it makes, a kill after any of them, and
  the recovery at the next start (\<open>HarnessRunStore.recover_interrupted_staging\<close>, harness/iterate.py). A directory is
  the files it holds; a file is what the recovery reads of it. Entries of the staging root that are no directories
  and links are left out.
\<close>

section \<open>Names\<close>

definition SIGNED_SKILL_FILES :: "string list" where
  "SIGNED_SKILL_FILES = [''SKILL.md'', ''helper.py'', ''test_skill.py'']"

definition CANDIDATE_FILES :: "string list" where
  "CANDIDATE_FILES = SIGNED_SKILL_FILES @ [''provenance.json'', ''envelope.json'', ''contract.json'', ''trace.json'', ''candidate.json'']"

text \<open>Characters outside a record's name become one hyphen each run.\<close>

fun dashed :: "bool \<Rightarrow> string \<Rightarrow> string" where
  "dashed inside [] = []"
| "dashed inside (c # cs) =
     (if record_char c then c # dashed False cs else if inside then dashed True cs else CHR ''-'' # dashed True cs)"

definition dash_or_dot :: "char \<Rightarrow> bool" where
  "dash_or_dot c \<longleftrightarrow> c = CHR ''-'' \<or> c = CHR ''.''"

definition rstrip_dashes :: "string \<Rightarrow> string" where
  "rstrip_dashes s = rev (dropWhile dash_or_dot (rev s))"

definition slug :: "string \<Rightarrow> string \<Rightarrow> string" where
  "slug value digest =
     (let normalized = lower (strip_chars dash_or_dot (dashed False (py_strip value)));
          base = (if normalized \<noteq> [] \<and> \<not> set normalized \<subseteq> {CHR ''.''} then normalized else ''skill'');
          cut_base = rstrip_dashes (take (max 1 (79 - length digest)) base)
      in (if cut_base = [] then ''skill'' else cut_base) @ ''-'' @ digest)"

definition skill_id_for :: "(string \<Rightarrow> string) \<Rightarrow> string \<Rightarrow> string \<Rightarrow> string option \<Rightarrow> string" where
  "skill_id_for sha256 contract_id contract_hash owner =
     slug contract_id (take 12 (if truthy owner then sha256 (contract_hash @ '':'' @ the owner) else contract_hash))"

definition plain_skill_id :: "string \<Rightarrow> bool" where
  "plain_skill_id i \<longleftrightarrow> i \<noteq> [] \<and> hd i \<noteq> CHR ''.'' \<and> CHR ''/'' \<notin> set i \<and> CHR 0x5C \<notin> set i \<and> CHR 0x00 \<notin> set i"

section \<open>Directories\<close>

text \<open>A stored candidate, a file that names a skill id, and any other text, a half-written one included.\<close>

datatype staged_file = CandidateJson skill_candidate | NamesSkill string | OtherText

type_synonym staged_dir = "(string \<times> staged_file) list"
type_synonym staging = "(string \<times> staged_dir) list"

fun named_skill :: "staged_file \<Rightarrow> string option" where
  "named_skill (CandidateJson c) = Some (sk_id c)"
| "named_skill (NamesSkill i) = Some i"
| "named_skill OtherText = None"

datatype fs_op =
    MakeDir string
  | WriteFile string string staged_file
  | RenameDir string string
  | RemoveFile string string
  | RemoveDir string

fun apply_op :: "fs_op \<Rightarrow> staging \<Rightarrow> staging" where
  "apply_op (MakeDir d) dirs = AList.update d [] dirs"
| "apply_op (WriteFile d name content) dirs =
     (case map_of dirs d of None \<Rightarrow> dirs | Some files \<Rightarrow> AList.update d (AList.update name content files) dirs)"
| "apply_op (RenameDir d e) dirs = (case map_of dirs d of None \<Rightarrow> dirs | Some files \<Rightarrow> AList.update e files (AList.delete d dirs))"
| "apply_op (RemoveFile d name) dirs =
     (case map_of dirs d of None \<Rightarrow> dirs | Some files \<Rightarrow> AList.update d (AList.delete name files) dirs)"
| "apply_op (RemoveDir d) dirs = AList.delete d dirs"

definition run_ops :: "fs_op list \<Rightarrow> staging \<Rightarrow> staging" where
  "run_ops ops dirs = fold apply_op ops dirs"

section \<open>Staging\<close>

text \<open>The files of a candidate in the order they are written.\<close>

definition candidate_dir :: "skill_candidate \<Rightarrow> staged_dir" where
  "candidate_dir c =
     [(''SKILL.md'', OtherText), (''helper.py'', OtherText), (''test_skill.py'', OtherText), (''provenance.json'', NamesSkill (sk_id c)),
      (''envelope.json'', NamesSkill (sk_id c)), (''contract.json'', OtherText), (''trace.json'', OtherText), (''candidate.json'', CandidateJson c)]"

text \<open>A write may be cut short: the file is there before its content is.\<close>

definition build_ops :: "string \<Rightarrow> skill_candidate \<Rightarrow> fs_op list" where
  "build_ops build c = MakeDir build # concat (map (\<lambda>(name, content). [WriteFile build name OtherText, WriteFile build name content]) (candidate_dir c))"

definition remove_tree :: "string \<Rightarrow> string list \<Rightarrow> fs_op list" where
  "remove_tree d order = map (RemoveFile d) order @ [RemoveDir d]"

definition aside_of :: "string \<Rightarrow> string" where
  "aside_of build = build @ ''.old''"

definition place_ops :: "string \<Rightarrow> string \<Rightarrow> bool \<Rightarrow> string list \<Rightarrow> fs_op list" where
  "place_ops build target there order =
     (if there then [RenameDir target (aside_of build), RenameDir build target] @ remove_tree (aside_of build) order
      else [RenameDir build target])"

text \<open>
  What \<open>induce\<close> does to the files: all of it, or up to the operation that raises, then the old candidate back in place
  if it was aside, and the build removed. The removal of the aside ignores its errors.
\<close>

definition induce_ops :: "string \<Rightarrow> skill_candidate \<Rightarrow> bool \<Rightarrow> nat option \<Rightarrow> string list \<Rightarrow> fs_op list" where
  "induce_ops build c there raises order =
     (let built = build_ops build c; target = sk_id c in
      case raises of
        None \<Rightarrow> built @ place_ops build target there order
      | Some k \<Rightarrow>
          if k < length built then take k built @ remove_tree build order
          else if there \<and> k = Suc (length built)
          then built @ [RenameDir target (aside_of build), RenameDir (aside_of build) target] @ remove_tree build order
          else built @ remove_tree build order)"

section \<open>Recovery\<close>

definition aside_skill_id :: "staged_dir \<Rightarrow> string option" where
  "aside_skill_id files =
     (case map_of files ''candidate.json'' of
        None \<Rightarrow> None
      | Some f \<Rightarrow> (case named_skill f of Some i \<Rightarrow> if plain_skill_id i then Some i else None | None \<Rightarrow> None))"

definition half_removed_id :: "staged_dir \<Rightarrow> string option" where
  "half_removed_id files =
     (case List.map_filter (\<lambda>name. Option.bind (map_of files name) named_skill) [''envelope.json'', ''provenance.json''] of
        ids \<Rightarrow> find plain_skill_id ids)"

definition only_staged_files :: "staged_dir \<Rightarrow> bool" where
  "only_staged_files files \<longleftrightarrow> list_all (\<lambda>(name, _). name \<in> set CANDIDATE_FILES) files"

definition settle_aside :: "(string \<Rightarrow> bool) \<Rightarrow> string \<Rightarrow> staging \<Rightarrow> staging" where
  "settle_aside works aside dirs =
     (case map_of dirs aside of
        None \<Rightarrow> dirs
      | Some files \<Rightarrow>
          if \<not> works aside then dirs
          else case aside_skill_id files of
            Some target \<Rightarrow>
              if map_of dirs target \<noteq> None then AList.delete aside dirs else apply_op (RenameDir aside target) dirs
          | None \<Rightarrow>
              if map_of files ''candidate.json'' = None \<and>
                 ((case half_removed_id files of None \<Rightarrow> False | Some i \<Rightarrow> map_of dirs i \<noteq> None) \<or> only_staged_files files)
              then AList.delete aside dirs else dirs)"

definition remove_build :: "(string \<Rightarrow> bool) \<Rightarrow> string \<Rightarrow> staging \<Rightarrow> staging" where
  "remove_build works build dirs = (if works build then AList.delete build dirs else dirs)"

definition recover_staging :: "(string \<Rightarrow> bool) \<Rightarrow> staging \<Rightarrow> staging" where
  "recover_staging works dirs =
     (let entries = filter (has_prefix ''.tmp-'') (map fst dirs);
          asides = filter (has_suffix ''.old'') entries;
          builds = filter (\<lambda>e. \<not> has_suffix ''.old'' e) entries
      in fold (remove_build works) builds (fold (settle_aside works) asides dirs))"

text \<open>
  A run that converged without a candidate on record gets the one staged for it, if it is in place, and reads
  failed otherwise. What is placed is read from the staging root as the recovery left it.
\<close>

definition staged_candidate_of :: "(string \<Rightarrow> string) \<Rightarrow> staging \<Rightarrow> harness_run \<Rightarrow> skill_candidate option" where
  "staged_candidate_of sha256 dirs r =
     (let expected = (if hr_attempts r = [] then [] else ha_trace_hash (last (hr_attempts r))) in
      if expected = [] then None
      else case map_of dirs (skill_id_for sha256 (hr_contract_id r) (hr_contract_hash r) (hr_owner r)) of
        None \<Rightarrow> None
      | Some files \<Rightarrow>
          (case map_of files ''candidate.json'' of
             Some (CandidateJson c) \<Rightarrow>
               if sk_contract_hash c \<noteq> hr_contract_hash r \<or> sk_owner c \<noteq> hr_owner r then None
               else if sk_trace_hash c = expected then Some c else None
           | _ \<Rightarrow> None))"

definition NO_CANDIDATE_NOTE :: string where
  "NO_CANDIDATE_NOTE = ''The run converged, but no skill candidate is attempt_recorded for it and none staged matches its last '' @
     ''attempt: the controller stopped before the candidate was attempt_recorded.''"

definition settle_converged :: "(string \<Rightarrow> string) \<Rightarrow> staging \<Rightarrow> active_runs \<Rightarrow> harness_run \<Rightarrow> harness_run option" where
  "settle_converged sha256 dirs active r =
     (if hr_status r \<noteq> Converged \<or> hr_candidate r \<noteq> None \<or> hr_id r \<in> fst ` set active then None
      else case staged_candidate_of sha256 dirs r of
        Some c \<Rightarrow> Some (add_note ''Staged skill candidate attempt_recorded at startup: the last process staged it.'' (r\<lparr>hr_candidate := Some c\<rparr>))
      | None \<Rightarrow>
          Some (add_note NO_CANDIDATE_NOTE (set_decision
            \<lparr>cd_status = FailedRun, cd_continue = False, cd_reason = ''no skill candidate was attempt_recorded for this run'',
             cd_successes = (case hr_decision r of None \<Rightarrow> 0 | Some d \<Rightarrow> cd_successes d), cd_total = length (hr_attempts r)\<rparr> r)))"

definition recover_interrupted_staging ::
  "(string \<Rightarrow> string) \<Rightarrow> (string \<Rightarrow> bool) \<Rightarrow> active_runs \<Rightarrow> staging \<times> run_files \<Rightarrow> staging \<times> run_files" where
  "recover_interrupted_staging sha256 works active = (\<lambda>(dirs, files).
     let dirs' = recover_staging works dirs in
     (dirs', fst (sweep_records (settle_converged sha256 dirs' active) works (map fst files) (files, 0))))"

section \<open>A kill at any point\<close>

definition touches :: "string \<Rightarrow> fs_op \<Rightarrow> bool" where
  "touches d op \<longleftrightarrow> (case op of MakeDir e \<Rightarrow> e = d | WriteFile e _ _ \<Rightarrow> e = d | RenameDir e f \<Rightarrow> e = d \<or> f = d
     | RemoveFile e _ \<Rightarrow> e = d | RemoveDir e \<Rightarrow> e = d)"

lemma run_ops_append [simp]: "run_ops (xs @ ys) dirs = run_ops ys (run_ops xs dirs)"
  by (simp add: run_ops_def)

lemma run_ops_simps [simp]: "run_ops [] dirs = dirs" "run_ops (op # ops) dirs = run_ops ops (apply_op op dirs)"
  by (simp_all add: run_ops_def)

lemma apply_op_untouched: "\<not> touches d op \<Longrightarrow> map_of (apply_op op dirs) d = map_of dirs d"
  by (cases op) (auto simp: touches_def map_of_update map_of_delete_key split: option.split)

lemma run_ops_untouched: "list_all (\<lambda>op. \<not> touches d op) ops \<Longrightarrow> map_of (run_ops ops dirs) d = map_of dirs d"
  by (induction ops arbitrary: dirs) (auto simp: apply_op_untouched)

lemma apply_op_distinct: "distinct (map fst dirs) \<Longrightarrow> distinct (map fst (apply_op op dirs))"
  by (cases op) (auto simp: distinct_update distinct_delete split: option.split)

lemma run_ops_distinct: "distinct (map fst dirs) \<Longrightarrow> distinct (map fst (run_ops ops dirs))"
  by (induction ops arbitrary: dirs) (auto simp: apply_op_distinct)

lemma built: "map_of (run_ops (build_ops build c) dirs) build = Some (candidate_dir c)"
  by (simp add: build_ops_def candidate_dir_def map_of_update)

text \<open>A property of the root before and after every operation.\<close>

fun throughout :: "(staging \<Rightarrow> bool) \<Rightarrow> fs_op list \<Rightarrow> staging \<Rightarrow> bool" where
  "throughout P [] dirs = P dirs"
| "throughout P (op # ops) dirs = (P dirs \<and> throughout P ops (apply_op op dirs))"

lemma throughout_append: "throughout P (xs @ ys) dirs \<longleftrightarrow> throughout P xs dirs \<and> throughout P ys (run_ops xs dirs)"
  by (induction xs arbitrary: dirs) (cases ys; auto)+

lemma throughout_take: "throughout P ops dirs \<Longrightarrow> P (run_ops (take j ops) dirs)"
proof (induction ops arbitrary: dirs j)
  case (Cons op ops)
  then show ?case by (cases j) auto
qed simp

lemma throughout_kept: "P dirs \<Longrightarrow> (\<And>op dirs. op \<in> set ops \<Longrightarrow> P dirs \<Longrightarrow> P (apply_op op dirs)) \<Longrightarrow> throughout P ops dirs"
  by (induction ops arbitrary: dirs) auto

text \<open>Where a staging has come to.\<close>

definition aside_leftover :: "string \<Rightarrow> staged_dir \<Rightarrow> bool" where
  "aside_leftover k files \<longleftrightarrow> only_staged_files files \<and>
     (case map_of files ''candidate.json'' of None \<Rightarrow> True | Some f \<Rightarrow> named_skill f = Some k)"

definition staging_phase :: "staging \<Rightarrow> skill_candidate \<Rightarrow> string \<Rightarrow> staging \<Rightarrow> bool" where
  "staging_phase dirs0 c build dirs \<longleftrightarrow>
     (\<forall>d. d \<notin> {sk_id c, build, aside_of build} \<longrightarrow> map_of dirs d = map_of dirs0 d) \<and>
     (map_of dirs (sk_id c) = map_of dirs0 (sk_id c) \<and> map_of dirs (aside_of build) = None \<or>
      map_of dirs (sk_id c) = None \<and> map_of dirs (aside_of build) = map_of dirs0 (sk_id c) \<and> map_of dirs0 (sk_id c) \<noteq> None \<or>
      map_of dirs (sk_id c) = Some (candidate_dir c) \<and> map_of dirs build = None \<and>
        (case map_of dirs (aside_of build) of None \<Rightarrow> True | Some files \<Rightarrow> aside_leftover (sk_id c) files))"

text \<open>A staging root with nothing half done, and a candidate and a build to be staged in it.\<close>

definition staging_start :: "staging \<Rightarrow> skill_candidate \<Rightarrow> string \<Rightarrow> bool" where
  "staging_start dirs0 c build \<longleftrightarrow>
     distinct (map fst dirs0) \<and> list_all (\<lambda>d. \<not> has_prefix ''.tmp-'' d) (map fst dirs0) \<and> plain_skill_id (sk_id c) \<and>
     has_prefix ''.tmp-'' build \<and> \<not> has_suffix ''.old'' build \<and>
     (case map_of dirs0 (sk_id c) of None \<Rightarrow> True | Some files \<Rightarrow>
        only_staged_files files \<and> Option.bind (map_of files ''candidate.json'') named_skill = Some (sk_id c))"

lemma has_prefix_append_iff: "has_prefix p s \<longleftrightarrow> (\<exists>t. s = p @ t)"
  unfolding has_prefix_def by (metis append_eq_conv_conj append_take_drop_id)

lemma staging_names:
  assumes "staging_start dirs0 c build"
  shows "sk_id c \<noteq> build" "sk_id c \<noteq> aside_of build" "build \<noteq> aside_of build" "has_suffix ''.old'' (aside_of build)"
    "has_prefix ''.tmp-'' (aside_of build)" "map_of dirs0 build = None" "map_of dirs0 (aside_of build) = None"
proof -
  obtain t where t: "build = ''.tmp-'' @ t" using assms by (auto simp: staging_start_def has_prefix_append_iff)
  show "has_suffix ''.old'' (aside_of build)" by (simp add: has_suffix_def has_prefix_def aside_of_def)
  show prefix: "has_prefix ''.tmp-'' (aside_of build)" using t by (simp add: has_prefix_def aside_of_def)
  show "sk_id c \<noteq> build" "sk_id c \<noteq> aside_of build" "build \<noteq> aside_of build"
    using assms t by (auto simp: staging_start_def plain_skill_id_def aside_of_def)
  have absent: "map_of dirs0 d = None" if "has_prefix ''.tmp-'' d" for d
    using assms that by (force simp: staging_start_def list_all_iff map_of_eq_None_iff)
  show "map_of dirs0 build = None" "map_of dirs0 (aside_of build) = None"
    by (rule absent, use prefix assms in \<open>simp add: staging_start_def\<close>)+
qed

lemma deleted_leftover: "aside_leftover k files \<Longrightarrow> aside_leftover k (AList.delete name files)"
proof -
  have "set (AList.delete name files) \<subseteq> set files" by (auto simp: AList.delete_eq)
  then show "aside_leftover k files \<Longrightarrow> aside_leftover k (AList.delete name files)"
    by (auto simp: aside_leftover_def only_staged_files_def list_all_iff map_of_delete_key)
qed

lemma leftover_phase:
  assumes "staging_phase dirs0 c build dirs" and "map_of dirs (sk_id c) = Some (candidate_dir c)" and "map_of dirs build = None"
    and "case map_of dirs (aside_of build) of None \<Rightarrow> True | Some files \<Rightarrow> aside_leftover (sk_id c) files"
    and "staging_start dirs0 c build"
  shows "throughout (staging_phase dirs0 c build) (remove_tree (aside_of build) order) dirs"
proof -
  define P where "P r \<longleftrightarrow> staging_phase dirs0 c build r \<and> map_of r (sk_id c) = Some (candidate_dir c) \<and> map_of r build = None \<and>
    (case map_of r (aside_of build) of None \<Rightarrow> True | Some files \<Rightarrow> aside_leftover (sk_id c) files)" for r
  note names = staging_names [OF assms(5)]
  have "P (apply_op op r)" if op: "op \<in> set (remove_tree (aside_of build) order)" and "P r" for op r
  proof -
    have other: "map_of (apply_op op r) d = map_of r d" if "d \<noteq> aside_of build" for d
      using op that by (intro apply_op_untouched) (auto simp: remove_tree_def touches_def)
    have "case map_of (apply_op op r) (aside_of build) of None \<Rightarrow> True | Some files \<Rightarrow> aside_leftover (sk_id c) files"
      using op \<open>P r\<close> deleted_leftover
      by (auto simp: remove_tree_def P_def map_of_update map_of_delete_key split: option.splits)
    then show ?thesis using \<open>P r\<close> other names unfolding P_def staging_phase_def by auto
  qed
  then have "throughout P (remove_tree (aside_of build) order) dirs"
    by (intro throughout_kept) (use assms in \<open>simp_all add: P_def\<close>)
  moreover have "throughout Q ops r" if "throughout P ops r" "\<And>x. P x \<Longrightarrow> Q x" for Q ops r
    using that by (induction ops arbitrary: r) auto
  ultimately show ?thesis by (auto simp: P_def)
qed

lemma only_the_build:
  assumes "op \<in> set (build_ops build c) \<union> set (remove_tree build order)" and "d \<noteq> build"
  shows "\<not> touches d op"
  using assms by (auto simp: build_ops_def remove_tree_def touches_def)

lemma untouched_phase:
  assumes "staging_start dirs0 c build" and "\<And>d. d \<noteq> build \<Longrightarrow> map_of dirs d = map_of dirs0 d"
    and "ops = take k (build_ops build c) \<or> ops = remove_tree build order"
  shows "throughout (staging_phase dirs0 c build) ops dirs \<and> (\<forall>d. d \<noteq> build \<longrightarrow> map_of (run_ops ops dirs) d = map_of dirs0 d)"
proof -
  note names = staging_names [OF assms(1)]
  have only: "\<not> touches d op" if "op \<in> set ops" "d \<noteq> build" for op d
    using assms(3) that in_set_takeD [of op k "build_ops build c"] by (intro only_the_build [of op build c order]) auto
  define P where "P r \<longleftrightarrow> (\<forall>d. d \<noteq> build \<longrightarrow> map_of r d = map_of dirs0 d)" for r
  have "throughout P ops dirs"
    using assms(2) only apply_op_untouched by (intro throughout_kept) (auto simp: P_def)
  moreover have "throughout Q ops r" if "throughout P ops r" "\<And>x. P x \<Longrightarrow> Q x" for Q ops r
    using that by (induction ops arbitrary: r) auto
  moreover have "staging_phase dirs0 c build r" if "P r" for r
    using that names by (auto simp: P_def staging_phase_def)
  ultimately show ?thesis using throughout_take [of P ops dirs "length ops"] by (auto simp: P_def)
qed

lemma renamed:
  "map_of dirs d = Some files \<Longrightarrow> map_of (apply_op (RenameDir d e) dirs) x =
     (if x = e then Some files else if x = d then None else map_of dirs x)"
  by (simp add: map_of_update map_of_delete_key)

declare apply_op.simps(3) [simp del]

lemma place_phase:
  assumes start: "staging_start dirs0 c build" and same: "\<And>d. d \<noteq> build \<Longrightarrow> map_of dirs d = map_of dirs0 d"
    and build: "map_of dirs build = Some (candidate_dir c)" and there: "there \<longleftrightarrow> map_of dirs0 (sk_id c) \<noteq> None"
  shows "throughout (staging_phase dirs0 c build) (place_ops build (sk_id c) there order) dirs"
proof (cases there)
  case False
  note names = staging_names [OF start]
  have "map_of dirs0 (sk_id c) = None" using False there by simp
  then show ?thesis using False names same build
    by (auto simp: place_ops_def staging_phase_def renamed [OF build])
next
  case True
  note names = staging_names [OF start]
  obtain old where old: "map_of dirs0 (sk_id c) = Some old" using True there by blast
  let ?one = "apply_op (RenameDir (sk_id c) (aside_of build)) dirs" let ?two = "apply_op (RenameDir build (sk_id c)) ?one"
  have one: "map_of ?one d = (if d = aside_of build then Some old else if d = sk_id c then None else map_of dirs d)" for d
    using renamed [of dirs "sk_id c" old] same [of "sk_id c"] old names by auto
  have two: "map_of ?two d = (if d = sk_id c then Some (candidate_dir c) else if d = build then None
      else if d = aside_of build then Some old else map_of dirs d)" for d
    using renamed [of ?one build "candidate_dir c"] one [of build] build names by (auto simp: one)
  have "aside_leftover (sk_id c) old"
    using start old by (auto simp: staging_start_def aside_leftover_def bind_eq_Some_conv)
  then have phases: "staging_phase dirs0 c build dirs" "staging_phase dirs0 c build ?one" "staging_phase dirs0 c build ?two"
    using names same old by (auto simp: staging_phase_def one two)
  have "throughout (staging_phase dirs0 c build) (remove_tree (aside_of build) order) ?two"
    by (rule leftover_phase [OF phases(3)])
      (use start names \<open>aside_leftover (sk_id c) old\<close> in \<open>simp_all add: two\<close>)
  then show ?thesis using True phases by (simp add: place_ops_def)
qed

lemma build_phase:
  assumes "staging_start dirs0 c build"
  shows "throughout (staging_phase dirs0 c build) (take k (build_ops build c)) dirs0"
    "d \<noteq> build \<Longrightarrow> map_of (run_ops (take k (build_ops build c)) dirs0) d = map_of dirs0 d"
  using untouched_phase [OF assms, of dirs0 "take k (build_ops build c)" k] by blast+

lemma back_in_place:
  assumes start: "staging_start dirs0 c build" and same: "\<And>d. d \<noteq> build \<Longrightarrow> map_of dirs d = map_of dirs0 d"
    and there: "map_of dirs0 (sk_id c) \<noteq> None"
  shows "throughout (staging_phase dirs0 c build)
    ([RenameDir (sk_id c) (aside_of build), RenameDir (aside_of build) (sk_id c)] @ remove_tree build order) dirs"
proof -
  note names = staging_names [OF start]
  obtain old where old: "map_of dirs0 (sk_id c) = Some old" using there by blast
  let ?one = "apply_op (RenameDir (sk_id c) (aside_of build)) dirs" let ?two = "apply_op (RenameDir (aside_of build) (sk_id c)) ?one"
  have one: "map_of ?one d = (if d = aside_of build then Some old else if d = sk_id c then None else map_of dirs d)" for d
    using renamed [of dirs "sk_id c" old] same [of "sk_id c"] old names by auto
  have two: "map_of ?two d = map_of dirs0 d" if "d \<noteq> build" for d
    using renamed [of ?one "aside_of build" old] that one [of "aside_of build"] old names same by (auto simp: one)
  have phases: "staging_phase dirs0 c build dirs" "staging_phase dirs0 c build ?one"
    using names same old by (auto simp: staging_phase_def one)
  moreover have "throughout (staging_phase dirs0 c build) (remove_tree build order) ?two"
    using untouched_phase [OF start two, of "remove_tree build order" 0 order] by blast
  ultimately show ?thesis by simp
qed

lemma induce_phase:
  assumes start: "staging_start dirs0 c build" and there: "there \<longleftrightarrow> map_of dirs0 (sk_id c) \<noteq> None"
  shows "throughout (staging_phase dirs0 c build) (induce_ops build c there raises order) dirs0"
proof -
  let ?built = "build_ops build c"
  note whole = build_phase [OF start, where k = "length ?built"]
  have gone: "throughout (staging_phase dirs0 c build) (remove_tree build order) (run_ops (take k ?built) dirs0)" for k
    using untouched_phase [OF start build_phase(2) [OF start, where k = k], of "remove_tree build order" 0 order] by blast
  show ?thesis
  proof (cases raises)
    case None
    have "throughout (staging_phase dirs0 c build) (place_ops build (sk_id c) there order) (run_ops ?built dirs0)"
      by (rule place_phase [OF start _ built there]) (use whole(2) in simp)
    then show ?thesis using None whole(1) by (simp add: induce_ops_def throughout_append)
  next
    case (Some k)
    have "throughout (staging_phase dirs0 c build)
        ([RenameDir (sk_id c) (aside_of build), RenameDir (aside_of build) (sk_id c)] @ remove_tree build order) (run_ops ?built dirs0)" if there
      by (rule back_in_place [OF start]) (use whole(2) there that in simp_all)
    then show ?thesis
      using Some whole(1) gone [of "length ?built"] gone [of k] build_phase(1) [OF start, of k]
      by (simp add: induce_ops_def throughout_append Let_def del: append.simps)
  qed
qed

section \<open>The recovery\<close>

lemma distinct_subset_singleton: "distinct xs \<Longrightarrow> set xs \<subseteq> {a} \<Longrightarrow> xs = (if a \<in> set xs then [a] else [])"
  by (cases xs; cases "tl xs") auto

lemma recovered:
  assumes start: "staging_start dirs0 c build" and phase: "staging_phase dirs0 c build dirs" and "distinct (map fst dirs)"
  shows "(\<forall>d. d \<noteq> sk_id c \<longrightarrow> map_of (recover_staging (\<lambda>_. True) dirs) d = map_of dirs0 d) \<and>
    map_of (recover_staging (\<lambda>_. True) dirs) (sk_id c) \<in> {map_of dirs0 (sk_id c), Some (candidate_dir c)} \<and>
    (map_of dirs (sk_id c) = Some (candidate_dir c) \<longrightarrow> map_of (recover_staging (\<lambda>_. True) dirs) (sk_id c) = Some (candidate_dir c))"
proof -
  note names = staging_names [OF start]
  let ?entries = "filter (has_prefix ''.tmp-'') (map fst dirs)"
  have none: "\<not> has_prefix ''.tmp-'' d" if "map_of dirs0 d \<noteq> None" for d
    using start that by (force simp: staging_start_def list_all_iff map_of_eq_None_iff)
  have plain: "\<not> has_prefix ''.tmp-'' (sk_id c)" using start by (auto simp: staging_start_def plain_skill_id_def has_prefix_append_iff)
  have entries: "d \<in> {build, aside_of build}" if "d \<in> set ?entries" for d
  proof (rule ccontr)
    assume "d \<notin> {build, aside_of build}"
    moreover have "d \<noteq> sk_id c" using that plain by auto
    ultimately have "map_of dirs d = map_of dirs0 d" using phase unfolding staging_phase_def by blast
    moreover have "map_of dirs d \<noteq> None" using that by (simp add: map_of_eq_None_iff)
    ultimately have "map_of dirs0 d \<noteq> None" by simp
    then show False using none that by auto
  qed
  have within: "set (filter (has_suffix ''.old'') ?entries) \<subseteq> {aside_of build}"
    "set (filter (\<lambda>e. \<not> has_suffix ''.old'' e) ?entries) \<subseteq> {build}"
  proof -
    have old: "\<not> has_suffix ''.old'' build" using start by (simp add: staging_start_def)
    show "set (filter (has_suffix ''.old'') ?entries) \<subseteq> {aside_of build}"
    proof
      fix d assume "d \<in> set (filter (has_suffix ''.old'') ?entries)"
      then have "d \<in> set ?entries" "has_suffix ''.old'' d" by simp_all
      then show "d \<in> {aside_of build}" using entries old by blast
    qed
    show "set (filter (\<lambda>e. \<not> has_suffix ''.old'' e) ?entries) \<subseteq> {build}"
    proof
      fix d assume "d \<in> set (filter (\<lambda>e. \<not> has_suffix ''.old'' e) ?entries)"
      then have "d \<in> set ?entries" "\<not> has_suffix ''.old'' d" by simp_all
      then show "d \<in> {build}" using entries names(4) by blast
    qed
  qed
  have lists: "filter (has_suffix ''.old'') ?entries = (if map_of dirs (aside_of build) = None then [] else [aside_of build])"
    "filter (\<lambda>e. \<not> has_suffix ''.old'' e) ?entries = (if map_of dirs build = None then [] else [build])"
    using distinct_subset_singleton [OF _ within(1)] distinct_subset_singleton [OF _ within(2)] assms(3) names(4,5) start
    by (auto simp: staging_start_def map_of_eq_None_iff distinct_filter)
  let ?run_settled = "settle_aside (\<lambda>_. True) (aside_of build) dirs"
  have recover: "recover_staging (\<lambda>_. True) dirs = (if map_of dirs build = None then ?run_settled else AList.delete build ?run_settled)"
    unfolding recover_staging_def Let_def lists by (simp add: remove_build_def settle_aside_def)
  have plain_id: "plain_skill_id (sk_id c)" using start by (simp add: staging_start_def)
  have run_settled: "map_of ?run_settled d = (if d = aside_of build then None
      else if d = sk_id c \<and> map_of dirs (sk_id c) = None then map_of dirs (aside_of build) else map_of dirs d)" for d
  proof (cases "map_of dirs (aside_of build)")
    case None
    then show ?thesis by (simp add: settle_aside_def)
  next
    case (Some files)
    consider (aside) "map_of dirs (sk_id c) = None" "aside_skill_id files = Some (sk_id c)"
      | (placed) "map_of dirs (sk_id c) = Some (candidate_dir c)" "aside_leftover (sk_id c) files"
      using phase start Some plain_id
      by (auto simp: staging_phase_def staging_start_def aside_skill_id_def bind_eq_Some_conv)
    then show ?thesis
    proof cases
      case aside
      then show ?thesis using Some names renamed [OF Some, of "sk_id c" d] by (auto simp: settle_aside_def)
    next
      case placed
      then have "?run_settled = AList.delete (aside_of build) dirs"
        using Some plain_id by (auto simp: settle_aside_def aside_skill_id_def aside_leftover_def split: option.splits)
      then show ?thesis using placed names by (simp add: map_of_delete_key)
    qed
  qed
  have result: "map_of (recover_staging (\<lambda>_. True) dirs) d = (if d = build \<or> d = aside_of build then None
      else if d = sk_id c \<and> map_of dirs (sk_id c) = None then map_of dirs (aside_of build) else map_of dirs d)" for d
    unfolding recover using names by (simp add: map_of_delete_key run_settled)
  have others: "map_of dirs d = map_of dirs0 d" if "d \<notin> {sk_id c, build, aside_of build}" for d
    using phase that unfolding staging_phase_def by blast
  have target: "map_of (recover_staging (\<lambda>_. True) dirs) (sk_id c) =
      (if map_of dirs (sk_id c) = None then map_of dirs (aside_of build) else map_of dirs (sk_id c))"
    using names by (simp add: result)
  have "map_of (recover_staging (\<lambda>_. True) dirs) d = map_of dirs0 d" if "d \<noteq> sk_id c" for d
    using that others [of d] names(6,7) by (simp add: result)
  moreover have "map_of (recover_staging (\<lambda>_. True) dirs) (sk_id c) \<in> {map_of dirs0 (sk_id c), Some (candidate_dir c)}"
    using phase unfolding target staging_phase_def by (elim conjE disjE) simp_all
  ultimately show ?thesis unfolding target by simp
qed

lemma induced_in_place:
  assumes start: "staging_start dirs0 c build" and there: "there \<longleftrightarrow> map_of dirs0 (sk_id c) \<noteq> None"
  shows "map_of (run_ops (induce_ops build c there None order) dirs0) (sk_id c) = Some (candidate_dir c)"
proof -
  note names = staging_names [OF start]
  let ?dirs = "run_ops (build_ops build c) dirs0"
  have same: "map_of ?dirs d = map_of dirs0 d" if "d \<noteq> build" for d
    using build_phase(2) [OF start that, where k = "length (build_ops build c)"] by simp
  show ?thesis
  proof (cases there)
    case False
    then show ?thesis by (simp add: induce_ops_def place_ops_def renamed [OF built])
  next
    case True
    then obtain old where old: "map_of dirs0 (sk_id c) = Some old" using there by blast
    let ?one = "apply_op (RenameDir (sk_id c) (aside_of build)) ?dirs"
    have "map_of ?dirs (sk_id c) = Some old" using same names old by auto
    then have "map_of ?one build = Some (candidate_dir c)"
      using names built [of build c dirs0] by (simp add: renamed)
    then have "map_of (apply_op (RenameDir build (sk_id c)) ?one) (sk_id c) = Some (candidate_dir c)" by (simp add: renamed)
    moreover have "list_all (\<lambda>op. \<not> touches (sk_id c) op) (remove_tree (aside_of build) order)"
      using names by (auto simp: list_all_iff remove_tree_def touches_def)
    ultimately show ?thesis using True by (simp add: induce_ops_def place_ops_def run_ops_untouched Let_def)
  qed
qed

text \<open>
  C5: whenever the process is killed while it stages a candidate, or an operation of the staging raises, the recovery
  leaves the old candidate or the new one in place, whole, nothing half done, and every other candidate as it was;
  a staging that got through leaves the new one.
\<close>

theorem staging_survives_a_kill:
  assumes "staging_start dirs0 c build" and "there \<longleftrightarrow> map_of dirs0 (sk_id c) \<noteq> None"
    and ops: "ops = induce_ops build c there raises order"
    and after: "dirs = recover_staging (\<lambda>_. True) (run_ops (take j ops) dirs0)"
  shows "(\<forall>d. d \<noteq> sk_id c \<longrightarrow> map_of dirs d = map_of dirs0 d) \<and>
    map_of dirs (sk_id c) \<in> {map_of dirs0 (sk_id c), Some (candidate_dir c)} \<and>
    (raises = None \<and> length ops \<le> j \<longrightarrow> map_of dirs (sk_id c) = Some (candidate_dir c))"
proof -
  have phase: "staging_phase dirs0 c build (run_ops (take j ops) dirs0)"
    unfolding ops by (rule throughout_take) (rule induce_phase [OF assms(1,2)])
  have "distinct (map fst (run_ops (take j ops) dirs0))"
    using assms(1) by (intro run_ops_distinct) (simp add: staging_start_def)
  from recovered [OF assms(1) phase this] induced_in_place [OF assms(1,2), of order] show ?thesis
    unfolding after by (auto simp: ops)
qed

text \<open>The runs the recovery settles.\<close>

lemma settle_converged_fields: "settle_converged sha256 dirs active r = Some r' \<Longrightarrow> hr_id r' = hr_id r"
  by (auto simp: settle_converged_def set_decision_def add_note_def split: if_splits option.splits)

lemma recovered_run:
  assumes "runs_named files" and "distinct (map fst files)" and "map_of files i = Some (RunFile r)"
    and "recover_interrupted_staging sha256 (\<lambda>_. True) active (dirs, files) = (dirs', files')"
  shows "dirs' = recover_staging (\<lambda>_. True) dirs \<and> map_of files' i = Some (RunFile (the_default r (settle_converged sha256 dirs' active r)))"
proof -
  have "map_of (fst (sweep_records (settle_converged sha256 dirs' active) (\<lambda>_. True) (map fst files) (files, 0))) i =
      map_option (swept (settle_converged sha256 dirs' active) (\<lambda>_. True) i) (map_of files i)"
    by (rule sweep_all [OF assms(1,2) settle_converged_fields])
  then show ?thesis using assms(3,4) by (auto simp: recover_interrupted_staging_def Let_def swept_def)
qed


section \<open>Samples\<close>

definition sample_candidate :: "string \<Rightarrow> skill_candidate" where
  "sample_candidate trace_hash = \<lparr>sk_id = ''order-c'', sk_name = ''order'', sk_contract_hash = ''c'', sk_trace_hash = trace_hash,
     sk_verifier_passed = Some True, sk_attempts = 3, sk_signed = False, sk_owner = None, sk_simulated = False\<rparr>"

definition staged_before :: staging where
  "staged_before = [(''order-c'', candidate_dir (sample_candidate ''old''))]"

lemma sample_staging: "staging_start staged_before (sample_candidate ''h'') ''.tmp-1f''"
  by code_simp

theorem staging_survives_a_kill_witness:
  "map_of (recover_staging (\<lambda>_. True) (run_ops (take 18 (induce_ops ''.tmp-1f'' (sample_candidate ''h'') True None CANDIDATE_FILES)) staged_before))
     ''order-c'' \<in> {map_of staged_before ''order-c'', Some (candidate_dir (sample_candidate ''h''))}"
proof -
  have id: "sk_id (sample_candidate ''h'') = ''order-c''" by (simp add: sample_candidate_def)
  have there: "True \<longleftrightarrow> map_of staged_before (sk_id (sample_candidate ''h'')) \<noteq> None" by (simp add: id staged_before_def)
  from staging_survives_a_kill [OF sample_staging there refl refl, where j = 18 and raises = None and order = CANDIDATE_FILES] show ?thesis unfolding id by blast
qed

definition converged_before_the_kill :: harness_run where
  "converged_before_the_kill = (new_harness_run sample_run)\<lparr>hr_status := Converged,
     hr_attempts := [\<lparr>ha_index = 1, ha_verification = sample_passed, ha_trace_hash = ''h''\<rparr>]\<rparr>"


end
