(* ===== verification/HarnessRegistry.thy ===== *)
theory HarnessRegistry
  imports HarnessStaging MeshDelegation
begin

text \<open>
  Signed skill candidates: what induction writes and signs (\<open>SkillInducer._build\<close>, harness/induce.py), and what the
  staging registry serves of it after checking the signature and the files (harness/register.py). \<open>h\<close> is the
  SHA-256 of a value's canonical JSON, \<open>sha256\<close> that of a file's bytes; the texts of the generated files are given.
\<close>

section \<open>What is signed\<close>

text \<open>A candidate.json: the candidate, its other signed fields, the map of its files and its envelope.\<close>

record candidate_doc =
  doc_candidate :: skill_candidate
  doc_rest :: members
  doc_files :: "(string \<times> string) list"
  doc_envelope :: "members option"

definition json_text :: "string option \<Rightarrow> json" where
  "json_text s = (case s of None \<Rightarrow> JNull | Some t \<Rightarrow> JStr t)"

definition json_verdict :: "bool option \<Rightarrow> json" where
  "json_verdict b = (case b of None \<Rightarrow> JNull | Some x \<Rightarrow> JBool x)"

text \<open>\<open>model_dump\<close> without the files and the envelope.\<close>

definition candidate_json :: "candidate_doc \<Rightarrow> json" where
  "candidate_json d =
     (let c = doc_candidate d in
      JObj ([(''skill_id'', JStr (sk_id c)), (''name'', JStr (sk_name c)), (''contract_hash'', JStr (sk_contract_hash c)),
         (''trace_hash'', JStr (sk_trace_hash c)), (''verifier_passed'', json_verdict (sk_verifier_passed c)),
         (''attempts'', JNum (decimal (sk_attempts c))), (''signed'', JBool (sk_signed c)), (''owner'', json_text (sk_owner c)),
         (''simulated'', JBool (sk_simulated c))] @ doc_rest d))"

text \<open>What one induction is given: the rendered texts in the order of the signed files, and the rest as JSON.\<close>

record skill_build =
  sb_id :: string
  sb_name :: string
  sb_contract_hash :: string
  sb_trace_hash :: string
  sb_passed :: "bool option"
  sb_attempts :: nat
  sb_owner :: "string option"
  sb_mode :: string                \<comment> \<open>the trace's mode, as text\<close>
  sb_rest :: members               \<comment> \<open>description, safety class, verifier's backend and confidence, cost, tiers, time\<close>
  sb_rendered :: "string list"
  sb_contract :: json
  sb_trace :: members              \<comment> \<open>its run, number of events and evidence\<close>
  sb_verification :: members       \<comment> \<open>the verification's fields but its verdict\<close>
  sb_task_class :: json
  sb_cost :: json
  sb_tiers :: members

definition built_candidate :: "bool \<Rightarrow> skill_build \<Rightarrow> skill_candidate" where
  "built_candidate signs b =
     \<lparr>sk_id = sb_id b, sk_name = sb_name b, sk_contract_hash = sb_contract_hash b, sk_trace_hash = sb_trace_hash b,
      sk_verifier_passed = sb_passed b, sk_attempts = sb_attempts b, sk_signed = signs, sk_owner = sb_owner b,
      sk_simulated = (lower (sb_mode b) = ''mock'')\<rparr>"

definition files_sha256 :: "(string \<Rightarrow> string) \<Rightarrow> skill_build \<Rightarrow> (string \<times> string) list" where
  "files_sha256 sha256 b = map (\<lambda>(name, body). (name, sha256 body)) (zip SIGNED_SKILL_FILES (sb_rendered b))"

definition hashes_json :: "(string \<times> string) list \<Rightarrow> json" where
  "hashes_json hashes = JObj (map (\<lambda>(name, digest). (name, JStr digest)) hashes)"

definition verification_json :: "skill_build \<Rightarrow> json" where
  "verification_json b = JObj ((''passed'', json_verdict (sb_passed b)) # sb_verification b)"

definition built_doc :: "bool \<Rightarrow> skill_build \<Rightarrow> candidate_doc" where
  "built_doc signs b = \<lparr>doc_candidate = built_candidate signs b, doc_rest = sb_rest b, doc_files = [], doc_envelope = None\<rparr>"

definition provenance :: "bool \<Rightarrow> (string \<Rightarrow> string) \<Rightarrow> skill_build \<Rightarrow> json" where
  "provenance signs sha256 b =
     JObj [(''files_sha256'', hashes_json (files_sha256 sha256 b)), (''candidate'', candidate_json (built_doc signs b)),
       (''contract'', sb_contract b),
       (''trace'', JObj ([(''trace_hash'', JStr (sb_trace_hash b)), (''simulated'', JBool (sk_simulated (built_candidate signs b)))] @ sb_trace b)),
       (''verification'', verification_json b)]"

definition envelope_payload :: "bool \<Rightarrow> (json \<Rightarrow> string) \<Rightarrow> (string \<Rightarrow> string) \<Rightarrow> skill_build \<Rightarrow> members" where
  "envelope_payload signs h sha256 b =
     [(''kind'', JStr ''skill_candidate''), (''version'', JNum ''1''), (''artifact_type'', JStr ''auto_browser.skill_candidate''),
      (''schema_version'', JStr ''1''), (''candidate_id'', JStr (sb_id b)), (''skill_id'', JStr (sb_id b)), (''name'', JStr (sb_name b)),
      (''contract_hash'', JStr (sb_contract_hash b)), (''trace_hash'', JStr (sb_trace_hash b)), (''verifier'', verification_json b),
      (''files_sha256'', hashes_json (files_sha256 sha256 b)), (''provenance_hash'', JStr (h (provenance signs sha256 b))),
      (''candidate_hash'', JStr (h (candidate_json (built_doc signs b)))),
      (''metadata'', JObj ([(''task_class'', sb_task_class b), (''attempts'', JNum (decimal (sb_attempts b))), (''cost_usd'', sb_cost b),
         (''model_tiers'', JObj (sb_tiers b)), (''validated_executor_model'', the_default (JStr []) (map_of (sb_tiers b) ''executor'')),
         (''simulated'', JBool (sk_simulated (built_candidate signs b)))] @
         (if truthy (sb_owner b) then [(''owner'', JStr (the (sb_owner b)))] else [])))]"

text \<open>The candidate.json written, or None: the signer raised. Without a signer the payload says it is unsigned.\<close>

definition build_candidate ::
  "(json \<Rightarrow> string) \<Rightarrow> (string \<Rightarrow> string) \<Rightarrow> (members \<Rightarrow> members option) option \<Rightarrow> (string \<times> string) list \<Rightarrow> skill_build \<Rightarrow> candidate_doc option" where
  "build_candidate h sha256 signer paths b =
     (let signs = (signer \<noteq> None); payload = envelope_payload signs h sha256 b in
      case (case signer of Some sign \<Rightarrow> sign payload | None \<Rightarrow> Some (payload @ [(''signed'', JBool False)])) of
        None \<Rightarrow> None
      | Some envelope \<Rightarrow> Some ((built_doc signs b)\<lparr>doc_files := paths, doc_envelope := Some envelope\<rparr>))"

text \<open>
  The signer and its counterpart: this node's envelope to no one, checked against its own key before it is stored.
  \<open>dump\<close> and \<open>load\<close> are pydantic's.
\<close>

definition mesh_identity_verifier ::
  "mesh_library \<Rightarrow> peer_record \<Rightarrow> (members \<Rightarrow> signed_envelope option) \<Rightarrow> members \<Rightarrow> members option" where
  "mesh_identity_verifier lib peer load envelope =
     (case load envelope of
        None \<Rightarrow> None
      | Some e \<Rightarrow> (case verify_envelope lib e peer (Some []) of Inl _ \<Rightarrow> None | Inr payload \<Rightarrow> Some payload))"

definition mesh_identity_signer ::
  "mesh_library \<Rightarrow> peer_record \<Rightarrow> (signed_envelope \<Rightarrow> members) \<Rightarrow> (canonical \<Rightarrow> string) \<Rightarrow> string \<Rightarrow> stamp \<Rightarrow> members \<Rightarrow> members option" where
  "mesh_identity_signer lib peer dump sign nonce now payload =
     (let e = make_envelope sign (pr_node_id peer) nonce now payload [] in
      case verify_envelope lib e peer (Some []) of
        Inl _ \<Rightarrow> None
      | Inr verified \<Rightarrow> if verified \<noteq> payload then None else Some (dump e))"

section \<open>The staging root as the registry reads it\<close>

text \<open>
  A path below the root is its names in order. \<open>vw_resolved\<close> says where the candidate.json under a name really is,
  links followed (None: outside the root); \<open>vw_doc\<close> what is there: nothing, a text that is no candidate, or one;
  \<open>vw_file\<close> a file of a directory.
\<close>

datatype skill_text = OutsideDir | NoFile | Bytes string

record staging_view =
  vw_root :: string
  vw_listed :: "string list"
  vw_resolved :: "string \<Rightarrow> string list option"
  vw_doc :: "string list \<Rightarrow> candidate_doc option option"
  vw_file :: "string list \<Rightarrow> string \<Rightarrow> skill_text"

definition dir_name :: "staging_view \<Rightarrow> string list \<Rightarrow> string" where
  "dir_name view dir = (if dir = [] then vw_root view else last dir)"

definition path_text :: "staging_view \<Rightarrow> string list \<Rightarrow> string" where
  "path_text view path = vw_root view @ concat (map (\<lambda>name. CHR ''/'' # name) path)"

datatype registry_error =
    NoCandidate string | NotACandidate | AnothersCandidate | NotSigned | SignatureFails | ClaimDiffers string | WrongDirectory
  | NoCandidateHash | CandidateDiffers | NoFileHashes | FileOutside string | FileDiffers string | VerifierCrashed

definition permission_error :: "registry_error \<Rightarrow> bool" where
  "permission_error e \<longleftrightarrow> (case e of NoCandidate _ \<Rightarrow> False | NotACandidate \<Rightarrow> False | VerifierCrashed \<Rightarrow> False | _ \<Rightarrow> True)"

text \<open>Python's \<open>==\<close> of a JSON value and a truth value: 1 and 1.0 equal True.\<close>

definition same_truth :: "json \<Rightarrow> bool \<Rightarrow> bool" where
  "same_truth v b = (case v of
       JBool x \<Rightarrow> x = b
     | JNum s \<Rightarrow> s \<in> (if b then {''1'', ''1.0''} else {''0'', ''0.0'', ''-0.0''})
     | _ \<Rightarrow> False)"

text \<open>\<open>(payload.get(key) or {})\<close>, for a \<open>.get\<close> on it: None when that is no object.\<close>

definition inner_object :: "string \<Rightarrow> members \<Rightarrow> members option" where
  "inner_object key payload =
     (let v = get_field key payload in
      if \<not> json_truthy v then Some [] else case v of JObj ms \<Rightarrow> Some ms | _ \<Rightarrow> None)"

definition claims :: "members \<Rightarrow> members \<Rightarrow> members \<Rightarrow> skill_candidate \<Rightarrow> (string \<times> bool) list" where
  "claims payload verifier metadata c =
     [(''contract_hash'', get_field ''contract_hash'' payload = JStr (sk_contract_hash c)),
      (''trace_hash'', get_field ''trace_hash'' payload = JStr (sk_trace_hash c)),
      (''skill_id'', get_field ''skill_id'' payload = JStr (sk_id c)),
      (''verifier passed'', (case sk_verifier_passed c of
          None \<Rightarrow> get_field ''passed'' verifier = JNull | Some b \<Rightarrow> same_truth (get_field ''passed'' verifier) b)),
      (''simulated'', same_truth (the_default (JBool False) (map_of metadata ''simulated'')) (sk_simulated c)),
      (''owner'', get_field ''owner'' metadata = json_text (sk_owner c))]"

fun verify_each_file :: "(string \<Rightarrow> string) \<Rightarrow> staging_view \<Rightarrow> string list \<Rightarrow> members \<Rightarrow> registry_error option" where
  "verify_each_file sha256 view dir [] = None"
| "verify_each_file sha256 view dir ((name, digest) # hashes) =
     (case vw_file view dir name of
        OutsideDir \<Rightarrow> Some (FileOutside name)
      | NoFile \<Rightarrow> Some (FileDiffers name)
      | Bytes body \<Rightarrow> if JStr (sha256 body) \<noteq> digest then Some (FileDiffers name) else verify_each_file sha256 view dir hashes)"

definition verify_files :: "(string \<Rightarrow> string) \<Rightarrow> staging_view \<Rightarrow> string list \<Rightarrow> json \<Rightarrow> registry_error option" where
  "verify_files sha256 view dir signed =
     (case signed of
        JObj hashes \<Rightarrow> if set (map fst hashes) \<noteq> set SIGNED_SKILL_FILES then Some NoFileHashes else verify_each_file sha256 view dir hashes
      | _ \<Rightarrow> Some NoFileHashes)"

definition verify_candidate ::
  "(json \<Rightarrow> string) \<Rightarrow> (string \<Rightarrow> string) \<Rightarrow> (members \<Rightarrow> members option) option \<Rightarrow> staging_view \<Rightarrow> string list \<Rightarrow> candidate_doc \<Rightarrow> registry_error option" where
  "verify_candidate h sha256 verifier view dir d =
     (case verifier of
        None \<Rightarrow> None
      | Some attested \<Rightarrow>
          let c = doc_candidate d; envelope = the_default [] (doc_envelope d) in
          if envelope = [] \<or> map_of envelope ''signed'' = Some (JBool False) then Some NotSigned
          else case attested envelope of
            None \<Rightarrow> Some SignatureFails
          | Some payload \<Rightarrow>
              (case (inner_object ''verifier'' payload, inner_object ''metadata'' payload) of
                 (Some verdict, Some metadata) \<Rightarrow>
                   (case find (\<lambda>(field, same). \<not> same) (claims payload verdict metadata c) of
                      Some (field, _) \<Rightarrow> Some (ClaimDiffers field)
                    | None \<Rightarrow>
                        if dir_name view dir \<noteq> sk_id c then Some WrongDirectory
                        else case get_field ''candidate_hash'' payload of
                          JStr signed \<Rightarrow>
                            if signed \<noteq> h (candidate_json d) then Some CandidateDiffers
                            else verify_files sha256 view dir (get_field ''files_sha256'' payload)
                        | _ \<Rightarrow> Some NoCandidateHash)
               | _ \<Rightarrow> Some VerifierCrashed))"

text \<open>As served, the candidate's files are those of the directory it was read from.\<close>

definition with_files_of :: "staging_view \<Rightarrow> string list \<Rightarrow> candidate_doc \<Rightarrow> candidate_doc" where
  "with_files_of view dir d = d\<lparr>doc_files := map (\<lambda>name. (name, path_text view (dir @ [name]))) CANDIDATE_FILES\<rparr>"

definition get_candidate ::
  "(json \<Rightarrow> string) \<Rightarrow> (string \<Rightarrow> string) \<Rightarrow> (members \<Rightarrow> members option) option \<Rightarrow> operator_var \<Rightarrow> staging_view \<Rightarrow> string \<Rightarrow> registry_error + candidate_doc" where
  "get_candidate h sha256 verifier cur view skill_id =
     (case vw_resolved view skill_id of
        None \<Rightarrow> Inl (NoCandidate skill_id)
      | Some path \<Rightarrow>
          (case vw_doc view path of
             None \<Rightarrow> Inl (NoCandidate skill_id)
           | Some None \<Rightarrow> Inl NotACandidate
           | Some (Some d) \<Rightarrow>
               if \<not> may_use cur (sk_owner (doc_candidate d)) then Inl AnothersCandidate
               else case verify_candidate h sha256 verifier view (butlast path) d of
                 Some e \<Rightarrow> Inl e
               | None \<Rightarrow> Inr (with_files_of view (butlast path) d)))"

text \<open>The listing skips what it may not serve; only a crash of the check ends it.\<close>

fun list_entries ::
  "(json \<Rightarrow> string) \<Rightarrow> (string \<Rightarrow> string) \<Rightarrow> (members \<Rightarrow> members option) option \<Rightarrow> operator_var \<Rightarrow> staging_view \<Rightarrow>
   string list \<Rightarrow> string list list \<Rightarrow> registry_error + candidate_doc list" where
  "list_entries h sha256 verifier cur view [] seen = Inr []"
| "list_entries h sha256 verifier cur view (entry # entries) seen =
     (if has_prefix ''.'' entry then list_entries h sha256 verifier cur view entries seen
      else case vw_resolved view entry of
        None \<Rightarrow> list_entries h sha256 verifier cur view entries seen
      | Some path \<Rightarrow>
          if path \<in> set seen then list_entries h sha256 verifier cur view entries seen
          else case vw_doc view path of
            Some (Some d) \<Rightarrow>
              if \<not> may_use cur (sk_owner (doc_candidate d)) then list_entries h sha256 verifier cur view entries (path # seen)
              else (case verify_candidate h sha256 verifier view (butlast path) d of
                  Some e \<Rightarrow> if permission_error e then list_entries h sha256 verifier cur view entries (path # seen) else Inl e
                | None \<Rightarrow>
                    (case list_entries h sha256 verifier cur view entries (path # seen) of
                       Inl e \<Rightarrow> Inl e | Inr ds \<Rightarrow> Inr (with_files_of view (butlast path) d # ds)))
          | _ \<Rightarrow> list_entries h sha256 verifier cur view entries (path # seen))"

definition list_candidates ::
  "(json \<Rightarrow> string) \<Rightarrow> (string \<Rightarrow> string) \<Rightarrow> (members \<Rightarrow> members option) option \<Rightarrow> operator_var \<Rightarrow> staging_view \<Rightarrow> registry_error + candidate_doc list" where
  "list_candidates h sha256 verifier cur view = list_entries h sha256 verifier cur view (vw_listed view) []"

end
