(* ===== verification/HarnessRegistryFacts.thy ===== *)
theory HarnessRegistryFacts
  imports HarnessRegistry
begin

text \<open>
  What the registry serves: under a configured verifier only what induction signed, all of what it signed and placed,
  and the same in a listing as one by one.
\<close>

section \<open>What was signed is what is served\<close>

lemma verify_each_file_None:
  "verify_each_file sha256 view dir hashes = None \<longleftrightarrow>
     (\<forall>(name, digest) \<in> set hashes. \<exists>body. vw_file view dir name = Bytes body \<and> JStr (sha256 body) = digest)"
  by (induction hashes) (auto split: skill_text.splits if_splits)

lemma verify_files_None:
  "verify_files sha256 view dir signed = None \<longleftrightarrow>
     (\<exists>hashes. signed = JObj hashes \<and> set (map fst hashes) = set SIGNED_SKILL_FILES \<and>
       (\<forall>(name, digest) \<in> set hashes. \<exists>body. vw_file view dir name = Bytes body \<and> JStr (sha256 body) = digest))"
  by (cases signed) (auto simp: verify_files_def verify_each_file_None)

lemma payload_fields [simp]:
  "get_field ''contract_hash'' (envelope_payload signs h sha256 b) = JStr (sb_contract_hash b)"
  "get_field ''trace_hash'' (envelope_payload signs h sha256 b) = JStr (sb_trace_hash b)"
  "get_field ''skill_id'' (envelope_payload signs h sha256 b) = JStr (sb_id b)"
  "get_field ''candidate_hash'' (envelope_payload signs h sha256 b) = JStr (h (candidate_json (built_doc signs b)))"
  "get_field ''files_sha256'' (envelope_payload signs h sha256 b) = hashes_json (files_sha256 sha256 b)"
  by (simp_all add: envelope_payload_def get_field_def the_default_def)

lemma payload_verdict:
  "\<exists>verdict metadata. inner_object ''verifier'' (envelope_payload signs h sha256 b) = Some verdict \<and>
     inner_object ''metadata'' (envelope_payload signs h sha256 b) = Some metadata \<and>
     get_field ''passed'' verdict = json_verdict (sb_passed b) \<and>
     map_of metadata ''simulated'' = Some (JBool (lower (sb_mode b) = ''mock'')) \<and>
     get_field ''owner'' metadata = json_text (or_none (sb_owner b))"
  by (auto simp: inner_object_def envelope_payload_def verification_json_def get_field_def the_default_def built_candidate_def
      json_text_def or_none_def truthy_def)

lemma same_truth_JBool [simp]: "same_truth (JBool x) b \<longleftrightarrow> x = b"
  by (simp add: same_truth_def)

lemma same_verdict:
  "v = json_verdict q \<Longrightarrow> (case p of None \<Rightarrow> v = JNull | Some b \<Rightarrow> same_truth v b) \<longleftrightarrow> p = q"
  by (auto simp: json_verdict_def same_truth_def split: option.splits)

lemma json_text_inj [simp]: "json_text s = json_text t \<longleftrightarrow> s = t"
  by (auto simp: json_text_def split: option.splits)

lemma find_None_all: "find P xs = None \<longleftrightarrow> list_all (\<lambda>x. \<not> P x) xs"
  by (induction xs) auto

definition same_claims :: "skill_build \<Rightarrow> skill_candidate \<Rightarrow> bool" where
  "same_claims b c \<longleftrightarrow> sk_contract_hash c = sb_contract_hash b \<and> sk_trace_hash c = sb_trace_hash b \<and> sk_id c = sb_id b \<and>
     sk_verifier_passed c = sb_passed b \<and> sk_simulated c = (lower (sb_mode b) = ''mock'') \<and> sk_owner c = or_none (sb_owner b)"

lemma verified_against_payload:
  assumes "attested (the_default [] (doc_envelope d)) = Some (envelope_payload signs h sha256 b)"
  shows "verify_candidate h sha256 (Some attested) view dir d = None \<longleftrightarrow>
    the_default [] (doc_envelope d) \<noteq> [] \<and> map_of (the_default [] (doc_envelope d)) ''signed'' \<noteq> Some (JBool False) \<and>
    same_claims b (doc_candidate d) \<and> dir_name view dir = sb_id b \<and>
    h (candidate_json (built_doc signs b)) = h (candidate_json d) \<and>
    verify_files sha256 view dir (hashes_json (files_sha256 sha256 b)) = None"
proof -
  let ?payload = "envelope_payload signs h sha256 b" and ?c = "doc_candidate d"
  obtain verdict metadata where inner: "inner_object ''verifier'' ?payload = Some verdict" "inner_object ''metadata'' ?payload = Some metadata"
    "get_field ''passed'' verdict = json_verdict (sb_passed b)"
    "map_of metadata ''simulated'' = Some (JBool (lower (sb_mode b) = ''mock''))" "get_field ''owner'' metadata = json_text (or_none (sb_owner b))"
    using payload_verdict by blast
  have all: "find (\<lambda>(field, same). \<not> same) (claims ?payload verdict metadata ?c) = None \<longleftrightarrow> same_claims b ?c"
    unfolding find_None_all claims_def by (auto simp: inner(4,5) same_verdict [OF inner(3)] same_claims_def the_default_def)
  show ?thesis
    using assms all by (auto simp: verify_candidate_def Let_def inner same_claims_def split: option.splits)
qed

lemma signed_files_match:
  assumes "verify_files sha256 view dir (hashes_json (files_sha256 sha256 b)) = None" and "(name, body) \<in> set (zip SIGNED_SKILL_FILES (sb_rendered b))"
  shows "\<exists>stored. vw_file view dir name = Bytes stored \<and> sha256 stored = sha256 body"
  using assms by (force simp: verify_files_None hashes_json_def files_sha256_def)

text \<open>
  C11: a candidate served under a configured verifier whose envelope attests to what an induction signed is that
  induction's: its claims, its directory, its fields and each generated file, unless SHA-256 collides on the very
  texts, and it is shown only to its owner.
\<close>

theorem served_candidate_is_the_signed_one:
  assumes "get_candidate h sha256 (Some attested) cur view i = Inr d"
    and "attested (the_default [] (doc_envelope d)) = Some (envelope_payload signs h sha256 b)"
  shows "same_claims b (doc_candidate d) \<and> may_use cur (or_none (sb_owner b)) \<and>
    h (candidate_json d) = h (candidate_json (built_doc signs b)) \<and>
    (\<exists>path. vw_resolved view i = Some path \<and> dir_name view (butlast path) = sb_id b \<and>
      (\<forall>(name, body) \<in> set (zip SIGNED_SKILL_FILES (sb_rendered b)). \<exists>stored. vw_file view (butlast path) name = Bytes stored \<and> sha256 stored = sha256 body))"
proof -
  obtain path d0 where path: "vw_resolved view i = Some path" "may_use cur (sk_owner (doc_candidate d0))"
    "verify_candidate h sha256 (Some attested) view (butlast path) d0 = None" and d: "d = with_files_of view (butlast path) d0"
    using assms(1) by (auto simp: get_candidate_def split: option.splits if_splits)
  have same: "doc_envelope d = doc_envelope d0" "doc_candidate d = doc_candidate d0" "candidate_json d = candidate_json d0"
    by (simp_all add: d with_files_of_def candidate_json_def)
  then have "attested (the_default [] (doc_envelope d0)) = Some (envelope_payload signs h sha256 b)" using assms(2) by simp
  from verified_against_payload [where attested = attested and d = d0 and view = view and dir = "butlast path", OF this] path(3)
  have "same_claims b (doc_candidate d0)" "dir_name view (butlast path) = sb_id b" "h (candidate_json (built_doc signs b)) = h (candidate_json d0)"
    and files: "verify_files sha256 view (butlast path) (hashes_json (files_sha256 sha256 b)) = None" by simp_all
  then show ?thesis using same path(1,2) signed_files_match [OF files] by (auto simp: same_claims_def)
qed

text \<open>What the signer signs, its counterpart attests to.\<close>

lemma signer_round_trip:
  assumes "mesh_identity_signer lib peer dump sign nonce now payload = Some envelope"
    and "load (dump (make_envelope sign (pr_node_id peer) nonce now payload [])) = Some (make_envelope sign (pr_node_id peer) nonce now payload [])"
  shows "mesh_identity_verifier lib peer load envelope = Some payload"
  using assms by (auto simp: mesh_identity_signer_def mesh_identity_verifier_def Let_def split: sum.splits if_splits)

lemma staged_files_verify:
  assumes "length (sb_rendered b) = length SIGNED_SKILL_FILES"
    and "\<forall>(name, body) \<in> set (zip SIGNED_SKILL_FILES (sb_rendered b)). vw_file view dir name = Bytes body"
  shows "verify_files sha256 view dir (hashes_json (files_sha256 sha256 b)) = None"
proof -
  have "map fst (zip SIGNED_SKILL_FILES (sb_rendered b)) = SIGNED_SKILL_FILES" using assms(1) by simp
  then have "fst ` set (zip SIGNED_SKILL_FILES (sb_rendered b)) = set SIGNED_SKILL_FILES" by (metis set_map)
  then show ?thesis using assms(2) by (force simp: verify_files_None hashes_json_def files_sha256_def image_image split_beta)
qed

text \<open>
  C28: a candidate induced with the node's signer and placed under its id is served, as it was built, by a registry
  with the signer's counterpart, to a caller who may use it.
\<close>

theorem signed_candidate_is_served:
  assumes built: "build_candidate h sha256 (Some (mesh_identity_signer lib peer dump sign nonce now)) paths b = Some d"
    and wire: "\<And>payload e. e = make_envelope sign (pr_node_id peer) nonce now payload [] \<Longrightarrow> load (dump e) = Some e \<and> dump e \<noteq> [] \<and> map_of (dump e) ''signed'' = None"
    and placed: "vw_resolved view (sb_id b) = Some [sb_id b, ''candidate.json'']" "vw_doc view [sb_id b, ''candidate.json''] = Some (Some d)"
      "\<forall>(name, body) \<in> set (zip SIGNED_SKILL_FILES (sb_rendered b)). vw_file view [sb_id b] name = Bytes body"
    and "length (sb_rendered b) = length SIGNED_SKILL_FILES" and owner: "may_use cur (sb_owner b)" "sb_owner b \<noteq> Some []"
  shows "get_candidate h sha256 (Some (mesh_identity_verifier lib peer load)) cur view (sb_id b) = Inr (with_files_of view [sb_id b] d)"
proof -
  let ?payload = "envelope_payload True h sha256 b" and ?e = "make_envelope sign (pr_node_id peer) nonce now (envelope_payload True h sha256 b) []"
  obtain envelope where envelope: "mesh_identity_signer lib peer dump sign nonce now ?payload = Some envelope"
    and d: "d = (built_doc True b)\<lparr>doc_files := paths, doc_envelope := Some envelope\<rparr>"
    using built by (auto simp: build_candidate_def Let_def split: option.splits)
  have dumped: "envelope = dump ?e" using envelope by (auto simp: mesh_identity_signer_def Let_def split: sum.splits if_splits)
  have "load (dump ?e) = Some ?e" using wire [OF refl] by blast
  then have attested: "mesh_identity_verifier lib peer load (the_default [] (doc_envelope d)) = Some ?payload"
    using signer_round_trip [OF envelope] by (simp add: d the_default_def)
  have claims: "same_claims b (doc_candidate d)"
    using owner(2) by (auto simp: d built_doc_def built_candidate_def same_claims_def or_none_def truthy_def)
  moreover have "candidate_json d = candidate_json (built_doc True b)" by (simp add: d candidate_json_def built_doc_def)
  moreover have "the_default [] (doc_envelope d) \<noteq> []" "map_of (the_default [] (doc_envelope d)) ''signed'' = None"
    using wire [OF refl, of ?payload] by (simp_all add: d dumped the_default_def)
  ultimately have "verify_candidate h sha256 (Some (mesh_identity_verifier lib peer load)) view [sb_id b] d = None"
    using verified_against_payload [where attested = "mesh_identity_verifier lib peer load" and d = d and view = view and dir = "[sb_id b]", OF attested] staged_files_verify [OF assms(6) placed(3)] by (simp add: dir_name_def)
  moreover have "sk_owner (doc_candidate d) = sb_owner b" by (simp add: d built_doc_def built_candidate_def)
  ultimately show ?thesis using placed(1,2) owner(1) by (simp add: get_candidate_def)
qed

section \<open>The listing\<close>

lemma served_by_path:
  assumes "vw_resolved view entry = Some path"
  shows "get_candidate h sha256 verifier cur view entry = Inr d \<longleftrightarrow>
    (\<exists>d0. vw_doc view path = Some (Some d0) \<and> may_use cur (sk_owner (doc_candidate d0)) \<and>
      verify_candidate h sha256 verifier view (butlast path) d0 = None \<and> d = with_files_of view (butlast path) d0)"
  using assms by (auto simp: get_candidate_def split: option.splits)

definition serves_from ::
  "(json \<Rightarrow> string) \<Rightarrow> (string \<Rightarrow> string) \<Rightarrow> (members \<Rightarrow> members option) option \<Rightarrow> operator_var \<Rightarrow> staging_view \<Rightarrow> string list list \<Rightarrow> string \<Rightarrow> candidate_doc \<Rightarrow> bool" where
  "serves_from h sha256 verifier cur view seen entry d \<longleftrightarrow> \<not> has_prefix ''.'' entry \<and>
     (\<exists>path. vw_resolved view entry = Some path \<and> path \<notin> set seen) \<and> get_candidate h sha256 verifier cur view entry = Inr d"

lemma listed_entries:
  assumes "list_entries h sha256 verifier cur view entries seen = Inr ds"
  shows "set ds = {d. \<exists>entry \<in> set entries. serves_from h sha256 verifier cur view seen entry d}"
  using assms
proof (induction entries arbitrary: seen ds)
  case (Cons entry entries)
  let ?later = "\<lambda>seen. {d. \<exists>entry \<in> set entries. serves_from h sha256 verifier cur view seen entry d}"
  let ?here = "\<lambda>seen. {d. serves_from h sha256 verifier cur view seen entry d}"
  have split: "{d. \<exists>e \<in> set (entry # entries). serves_from h sha256 verifier cur view seen e d} = ?here seen \<union> ?later seen" by auto
  show ?case
  proof (cases "has_prefix ''.'' entry \<or> (case vw_resolved view entry of None \<Rightarrow> True | Some path \<Rightarrow> path \<in> set seen)")
    case True
    then have "list_entries h sha256 verifier cur view entries seen = Inr ds" "?here seen = {}"
      using Cons.prems by (auto simp: serves_from_def split: option.splits if_splits)
    then show ?thesis unfolding split using Cons.IH by auto
  next
    case False
    then obtain path where path: "vw_resolved view entry = Some path" "path \<notin> set seen" and plain: "\<not> has_prefix ''.'' entry"
      by (auto split: option.splits)
    have here: "?here seen = {d. get_candidate h sha256 verifier cur view entry = Inr d}" using path plain by (auto simp: serves_from_def)
    have later: "?here seen \<union> ?later seen = ?here seen \<union> ?later (path # seen)"
    proof -
      have "d \<in> ?here seen \<union> ?later (path # seen)" if "serves_from h sha256 verifier cur view seen e d" "e \<in> set entries" for e d
      proof (cases "vw_resolved view e = Some path")
        case True
        then have "get_candidate h sha256 verifier cur view entry = Inr d"
          using that(1) served_by_path [OF True] served_by_path [OF path(1)] by (simp add: serves_from_def)
        then show ?thesis using here by blast
      next
        case False
        then have "serves_from h sha256 verifier cur view (path # seen) e d" using that(1) by (auto simp: serves_from_def)
        then show ?thesis using that(2) by blast
      qed
      moreover have "serves_from h sha256 verifier cur view seen e d" if "serves_from h sha256 verifier cur view (path # seen) e d" for e d
        using that by (auto simp: serves_from_def)
      ultimately show ?thesis by blast
    qed
    show ?thesis
    proof (cases "\<exists>d. get_candidate h sha256 verifier cur view entry = Inr d")
      case True
      then obtain d d0 where d0: "vw_doc view path = Some (Some d0)" "may_use cur (sk_owner (doc_candidate d0))"
        "verify_candidate h sha256 verifier view (butlast path) d0 = None" and d: "get_candidate h sha256 verifier cur view entry = Inr d"
        "d = with_files_of view (butlast path) d0" using served_by_path [OF path(1)] by metis
      obtain rest where "list_entries h sha256 verifier cur view entries (path # seen) = Inr rest" "ds = d # rest"
        using Cons.prems path plain d0 d(2) by (auto split: sum.splits)
      then have "set ds = ?here seen \<union> ?later (path # seen)" using Cons.IH [of "path # seen" rest] d(1) unfolding here by auto
      then show ?thesis unfolding split later .
    next
      case False
      then have "list_entries h sha256 verifier cur view entries (path # seen) = Inr ds"
        using Cons.prems path plain served_by_path [OF path(1)] by (auto split: option.splits if_splits)
      then have "set ds = ?here seen \<union> ?later (path # seen)" using Cons.IH [of "path # seen" ds] False unfolding here by auto
      then show ?thesis unfolding split later .
    qed
  qed
qed simp

text \<open>
  the listing shows a caller what asking for each name in turn would serve, and nothing else: no candidate still
  being built, none outside the root, none that fails its check, none of another operator.
\<close>

theorem listing_serves_what_get_serves:
  assumes "list_candidates h sha256 verifier cur view = Inr ds"
  shows "set ds = {d. \<exists>name \<in> set (vw_listed view). \<not> has_prefix ''.'' name \<and> get_candidate h sha256 verifier cur view name = Inr d}"
proof -
  have "vw_resolved view name \<noteq> None" if "get_candidate h sha256 verifier cur view name = Inr d" for name d
    using that by (auto simp: get_candidate_def split: option.splits)
  then show ?thesis using listed_entries [OF assms [unfolded list_candidates_def]] by (auto simp: serves_from_def)
qed

section \<open>A sample\<close>

definition sample_build :: skill_build where
  "sample_build = \<lparr>sb_id = ''s-1'', sb_name = ''s'', sb_contract_hash = ''c'', sb_trace_hash = ''t'', sb_passed = Some True, sb_attempts = 3,
     sb_owner = None, sb_mode = [], sb_rest = [], sb_rendered = [''skill'', ''helper'', ''test''], sb_contract = JNull, sb_trace = [],
     sb_verification = [], sb_task_class = JNull, sb_cost = JNum ''0.0'', sb_tiers = []\<rparr>"

definition sample_dump :: "signed_envelope \<Rightarrow> members" where
  "sample_dump e = [(''payload'', JObj (se_payload e))]"

definition sample_load :: "members \<Rightarrow> signed_envelope option" where
  "sample_load ms = (case map_of ms ''payload'' of Some (JObj p) \<Rightarrow> Some (make_envelope (\<lambda>_. ''sig'') ''id'' ''n1'' 0 p []) | _ \<Rightarrow> None)"

definition sample_signer :: "members \<Rightarrow> members option" where
  "sample_signer = mesh_identity_signer sample_library sample_node sample_dump (\<lambda>_. ''sig'') ''n1'' 0"

definition sample_attested :: "members \<Rightarrow> members option" where
  "sample_attested = mesh_identity_verifier sample_library sample_node sample_load"

definition sample_doc :: candidate_doc where
  "sample_doc = the (build_candidate (\<lambda>_. ''h'') id (Some sample_signer) [] sample_build)"

definition sample_view :: staging_view where
  "sample_view = \<lparr>vw_root = ''staging'', vw_listed = [''s-1''], vw_resolved = (\<lambda>name. Some [name, ''candidate.json'']),
     vw_doc = (\<lambda>path. if path = [''s-1'', ''candidate.json''] then Some (Some sample_doc) else None),
     vw_file = (\<lambda>dir name. case map_of (zip SIGNED_SKILL_FILES (sb_rendered sample_build)) name of None \<Rightarrow> NoFile | Some body \<Rightarrow> Bytes body)\<rparr>"

lemma sample_wire:
  assumes "e = make_envelope (\<lambda>_. ''sig'') (pr_node_id sample_node) ''n1'' 0 payload []"
  shows "sample_load (sample_dump e) = Some e \<and> sample_dump e \<noteq> [] \<and> map_of (sample_dump e) ''signed'' = None"
  using assms by (simp add: sample_load_def sample_dump_def make_envelope_def sample_node_def)

lemma sample_signs: "sample_signer payload = Some (sample_dump (make_envelope (\<lambda>_. ''sig'') ''id'' ''n1'' 0 payload []))"
  by (simp add: sample_signer_def mesh_identity_signer_def make_envelope_def verify_envelope_def sample_library_def sample_node_def)

lemma sample_doc_built:
  "sample_doc = (built_doc True sample_build)\<lparr>doc_files := [], doc_envelope := Some (sample_dump (make_envelope (\<lambda>_. ''sig'') ''id'' ''n1'' 0
     (envelope_payload True (\<lambda>_. ''h'') id sample_build) []))\<rparr>"
  by (simp add: sample_doc_def build_candidate_def sample_signs Let_def)

lemma sample_built: "build_candidate (\<lambda>_. ''h'') id (Some sample_signer) [] sample_build = Some sample_doc"
  by (simp add: sample_doc_built build_candidate_def sample_signs Let_def)

lemma sample_owner: "sk_owner (doc_candidate sample_doc) = None"
  by (simp add: sample_doc_built built_doc_def built_candidate_def sample_build_def)

lemma sample_files: "\<forall>(name, body) \<in> set (zip SIGNED_SKILL_FILES (sb_rendered sample_build)). vw_file sample_view [sb_id sample_build] name = Bytes body"
  by (simp add: sample_view_def sample_build_def SIGNED_SKILL_FILES_def)

theorem signed_candidate_is_served_witness:
  "get_candidate (\<lambda>_. ''h'') id (Some sample_attested) None sample_view ''s-1'' = Inr (with_files_of sample_view [''s-1''] sample_doc)"
proof -
  have id: "sb_id sample_build = ''s-1''" "sb_owner sample_build = None" "length (sb_rendered sample_build) = length SIGNED_SKILL_FILES"
    by (simp_all add: sample_build_def SIGNED_SKILL_FILES_def)
  have placed: "vw_resolved sample_view (sb_id sample_build) = Some [sb_id sample_build, ''candidate.json'']"
    "vw_doc sample_view [sb_id sample_build, ''candidate.json''] = Some (Some sample_doc)" by (simp_all add: sample_view_def id)
  have "may_use None (sb_owner sample_build)" "sb_owner sample_build \<noteq> Some []" by (simp_all add: id may_use_def)
  from signed_candidate_is_served [OF sample_built [unfolded sample_signer_def] sample_wire placed sample_files id(3) this] show ?thesis
    by (simp add: sample_attested_def id)
qed

lemma sample_envelope_attests: "sample_attested (the_default [] (doc_envelope sample_doc)) = Some (envelope_payload True (\<lambda>_. ''h'') id sample_build)"
  by (simp add: sample_doc_built sample_attested_def mesh_identity_verifier_def make_envelope_def
      verify_envelope_def sample_library_def sample_node_def sample_dump_def sample_load_def the_default_def)

lemma sample_served: "\<exists>d. get_candidate (\<lambda>_. ''h'') id (Some sample_attested) None sample_view ''s-1'' = Inr d \<and> doc_envelope d = doc_envelope sample_doc"
proof -
  have dir: "dir_name sample_view [''s-1''] = sb_id sample_build" "sb_id sample_build = ''s-1''" by (simp_all add: dir_name_def sample_build_def)
  have claims: "same_claims sample_build (doc_candidate sample_doc)"
    by (simp add: sample_doc_built built_doc_def built_candidate_def same_claims_def sample_build_def or_none_def lower_def)
  have files: "verify_files id sample_view [''s-1''] (hashes_json (files_sha256 id sample_build)) = None"
    by (rule staged_files_verify) (use sample_files in \<open>simp_all add: sample_build_def SIGNED_SKILL_FILES_def sample_view_def\<close>)
  have envelope: "the_default [] (doc_envelope sample_doc) \<noteq> [] \<and> map_of (the_default [] (doc_envelope sample_doc)) ''signed'' \<noteq> Some (JBool False)"
    by (simp add: sample_doc_built sample_dump_def the_default_def)
  have "verify_candidate (\<lambda>_. ''h'') id (Some sample_attested) sample_view [''s-1''] sample_doc = None"
    using verified_against_payload [where attested = sample_attested and d = sample_doc and view = sample_view and dir = "[''s-1'']", OF sample_envelope_attests]
      dir claims files envelope by simp
  then show ?thesis using sample_owner by (simp add: get_candidate_def sample_view_def may_use_def with_files_of_def)
qed

theorem served_candidate_is_the_signed_one_witness:
  "\<exists>d. get_candidate (\<lambda>_. ''h'') id (Some sample_attested) None sample_view ''s-1'' = Inr d \<and> same_claims sample_build (doc_candidate d)"
proof -
  obtain d where d: "get_candidate (\<lambda>_. ''h'') id (Some sample_attested) None sample_view ''s-1'' = Inr d" "doc_envelope d = doc_envelope sample_doc"
    using sample_served by blast
  have "sample_attested (the_default [] (doc_envelope d)) = Some (envelope_payload True (\<lambda>_. ''h'') id sample_build)"
    using sample_envelope_attests d(2) by simp
  from served_candidate_is_the_signed_one [where attested = sample_attested and d = d, OF d(1) this] d(1) show ?thesis by blast
qed

theorem listing_serves_what_get_serves_witness:
  "\<exists>ds. list_candidates (\<lambda>_. ''h'') id None None sample_view = Inr ds \<and> with_files_of sample_view [''s-1''] sample_doc \<in> set ds"
proof -
  have served: "get_candidate (\<lambda>_. ''h'') id None None sample_view ''s-1'' = Inr (with_files_of sample_view [''s-1''] sample_doc)"
    by (simp add: get_candidate_def verify_candidate_def sample_view_def may_use_def sample_owner)
  have "\<exists>ds. list_candidates (\<lambda>_. ''h'') id None None sample_view = Inr ds"
    by (simp add: list_candidates_def verify_candidate_def sample_view_def may_use_def sample_owner has_prefix_def)
  then obtain ds where ds: "list_candidates (\<lambda>_. ''h'') id None None sample_view = Inr ds" ..
  from listing_serves_what_get_serves [OF ds] served have "with_files_of sample_view [''s-1''] sample_doc \<in> set ds"
    by (force simp: sample_view_def has_prefix_def)
  then show ?thesis using ds by blast
qed

end
