(* ===== verification/HarnessTrace.thy ===== *)
theory HarnessTrace
  imports HarnessVerify
begin

text \<open>
  The trace of an attempt (harness/trace.py): its hash chain, the redaction of what is stored, the trace made of an
  agent's steps, and the recorder. \<open>h\<close> is the SHA-256 of a value's canonical JSON; \<open>strings\<close> rewrites the strings
  (the PII and URL scrubbers, None to keep them). A step is a JSON object whose decision, observation and final
  session are objects or absent, as the agent loop's results are.
\<close>

section \<open>The chain\<close>

record chained_event =
  ce_run :: string
  ce_step :: nat
  ce_type :: string
  ce_time :: string
  ce_payload :: members
  ce_previous :: string
  ce_hash :: string

definition event_json :: "chained_event \<Rightarrow> json" where
  "event_json e =
     JObj [(''run_id'', JStr (ce_run e)), (''step_idx'', JNum (decimal (ce_step e))), (''event_type'', JStr (ce_type e)),
       (''timestamp'', JNum (ce_time e)), (''payload'', JObj (ce_payload e)), (''previous_hash'', JStr (ce_previous e))]"

definition with_hash :: "(json \<Rightarrow> string) \<Rightarrow> chained_event \<Rightarrow> chained_event" where
  "with_hash h e = e\<lparr>ce_hash := h (event_json e)\<rparr>"

datatype chain_break = PreviousDiffers nat | EntryDiffers nat

fun check_events :: "(json \<Rightarrow> string) \<Rightarrow> nat \<Rightarrow> string \<Rightarrow> chained_event list \<Rightarrow> chain_break option" where
  "check_events h index previous [] = None"
| "check_events h index previous (e # events) =
     (if ce_previous e \<noteq> previous then Some (PreviousDiffers index)
      else if ce_hash e \<noteq> h (event_json e) then Some (EntryDiffers index)
      else check_events h (Suc index) (ce_hash e) events)"

definition verify_trace_chain :: "(json \<Rightarrow> string) \<Rightarrow> chained_event list \<Rightarrow> chain_break option" where
  "verify_trace_chain h events = check_events h 0 [] events"

section \<open>Redaction\<close>

definition SENSITIVE_KEY_FRAGMENTS :: "string list" where
  "SENSITIVE_KEY_FRAGMENTS =
     [''authorization'', ''cookie'', ''set-cookie'', ''api-key'', ''api_key'', ''token'', ''password'', ''secret'']"

definition TYPED_TEXT_KEYS :: "string list" where
  "TYPED_TEXT_KEYS = [''text'', ''text_preview'']"

definition ACTION_TYPED_TEXT_KEYS :: "string list" where
  "ACTION_TYPED_TEXT_KEYS = TYPED_TEXT_KEYS @ [''value'', ''label'', ''username'']"

definition PAGE_DATA_KEYS :: "string list" where
  "PAGE_DATA_KEYS = [''observation'', ''before'', ''after'']"

definition SENSITIVE_FLAG_KEYS :: "string list" where
  "SENSITIVE_FLAG_KEYS = [''sensitive'', ''text_redacted'']"

definition TRACE_REDACTED :: json where
  "TRACE_REDACTED = JStr ''[REDACTED]''"

definition typed_keys :: "bool \<Rightarrow> string list" where
  "typed_keys decision = (if decision then ACTION_TYPED_TEXT_KEYS else TYPED_TEXT_KEYS)"

definition flagged :: "members \<Rightarrow> bool" where
  "flagged ms \<longleftrightarrow> list_ex (\<lambda>flag. json_truthy (get_field flag ms)) SENSITIVE_FLAG_KEYS"

definition secret_key :: "string \<Rightarrow> bool" where
  "secret_key key \<longleftrightarrow> list_ex (\<lambda>fragment. sublist fragment (lower key)) SENSITIVE_KEY_FRAGMENTS"

fun redact_json :: "(string \<Rightarrow> string) option \<Rightarrow> bool \<Rightarrow> json \<Rightarrow> json"
and redact_items :: "(string \<Rightarrow> string) option \<Rightarrow> bool \<Rightarrow> json list \<Rightarrow> json list"
and redact_members :: "(string \<Rightarrow> string) option \<Rightarrow> bool \<Rightarrow> bool \<Rightarrow> members \<Rightarrow> members" where
  "redact_json strings decision (JObj ms) = JObj (redact_members strings decision (flagged ms) ms)"
| "redact_json strings decision (JArr items) = JArr (redact_items strings decision items)"
| "redact_json strings decision (JStr s) = JStr (case strings of None \<Rightarrow> s | Some f \<Rightarrow> f s)"
| "redact_json strings decision JNull = JNull"
| "redact_json strings decision (JBool b) = JBool b"
| "redact_json strings decision (JNum n) = JNum n"
| "redact_items strings decision [] = []"
| "redact_items strings decision (x # items) = redact_json strings decision x # redact_items strings decision items"
| "redact_members strings decision hides [] = []"
| "redact_members strings decision hides ((key, x) # ms) =
     (key, if secret_key key then TRACE_REDACTED
           else if hides \<and> lower key \<in> set (typed_keys decision) then TRACE_REDACTED
           else redact_json strings (decision \<and> lower key \<notin> set PAGE_DATA_KEYS) x) # redact_members strings decision hides ms"

definition redact_object :: "(string \<Rightarrow> string) option \<Rightarrow> bool \<Rightarrow> members \<Rightarrow> members" where
  "redact_object strings decision ms = redact_members strings decision (flagged ms) ms"

section \<open>An agent's steps\<close>

definition flag_object :: "members \<Rightarrow> members" where
  "flag_object ms = AList.update ''sensitive'' (JBool True) ms"

definition flag_field :: "string \<Rightarrow> members \<Rightarrow> members" where
  "flag_field key ms = (case map_of ms key of Some (JObj inner) \<Rightarrow> AList.update key (JObj (flag_object inner)) ms | _ \<Rightarrow> ms)"

definition flag_sensitive_execution :: "json \<Rightarrow> json" where
  "flag_sensitive_execution execution =
     (case execution of JObj ms \<Rightarrow> JObj (fold flag_field [''target'', ''before'', ''after''] ms) | _ \<Rightarrow> execution)"

definition page_after :: "json \<Rightarrow> members" where
  "page_after execution =
     (case get_field ''after'' (object_of execution) of
        JObj after \<Rightarrow>
          if map_of after ''text_excerpt'' = None then []
          else if map_of after ''observation_error'' \<noteq> None \<or> map_of after ''snapshot_error'' \<noteq> None then []
          else after
      | _ \<Rightarrow> [])"

definition execution_redacted_the_text :: "json \<Rightarrow> bool" where
  "execution_redacted_the_text execution =
     json_truthy (get_field ''text_redacted'' (object_of (get_field ''target'' (object_of execution))))"

definition screenshot_of :: "members \<Rightarrow> members" where
  "screenshot_of page = map (\<lambda>key. (key, get_field key page)) (filter (\<lambda>key. json_truthy (get_field key page)) SCREENSHOT_KEYS)"

definition screenshot_payload :: "members \<Rightarrow> (string \<times> members) list" where
  "screenshot_payload page = (if screenshot_of page = [] then [] else [(''screenshot'', screenshot_of page)])"

definition step_decision :: "members \<Rightarrow> members" where
  "step_decision step =
     (let decision = object_of (get_field ''decision'' step) in
      if execution_redacted_the_text (get_field ''execution'' step) then flag_object decision else decision)"

definition step_execution :: "members \<Rightarrow> json" where
  "step_execution step =
     (let execution = get_field ''execution'' step in
      if json_truthy (get_field ''sensitive'' (step_decision step)) then flag_sensitive_execution execution else execution)"

definition step_payloads :: "members \<Rightarrow> (string \<times> members) list" where
  "step_payloads step =
     (let observation = object_of (get_field ''observation'' step); decision = step_decision step; execution = step_execution step in
      screenshot_payload observation @
      (if object_of (get_field ''decision'' step) = [] then [] else [(''model_decision'', [(''decision'', JObj decision)])]) @
      [(''action'', [(''status'', get_field ''status'' step), (''decision'', JObj decision), (''observation'', JObj observation),
         (''execution'', execution)])] @
      screenshot_payload (object_of (get_field ''after'' (object_of execution))))"

text \<open>The page shown at the end so far, and the last step's observation.\<close>

definition see_step :: "members \<Rightarrow> members \<times> members \<Rightarrow> members \<times> members" where
  "see_step step = (\<lambda>(last_page, previous).
     let observation = object_of (get_field ''observation'' step); after = page_after (get_field ''execution'' step) in
     (if after \<noteq> [] then after
      else if observation \<noteq> [] \<and> \<not> same_json (JObj observation) (JObj previous) then observation else last_page, observation))"

fun chain_events ::
  "(json \<Rightarrow> string) \<Rightarrow> (string \<Rightarrow> string) option \<Rightarrow> (nat \<Rightarrow> string) \<Rightarrow> string \<Rightarrow> nat \<Rightarrow> (string \<times> members) list \<Rightarrow>
   string \<times> chained_event list \<Rightarrow> string \<times> chained_event list" where
  "chain_events h strings clock run index [] made = made"
| "chain_events h strings clock run index ((type, payload) # payloads) (previous, events) =
     (let e = with_hash h \<lparr>ce_run = run, ce_step = index, ce_type = type, ce_time = clock (length events),
            ce_payload = redact_object strings True payload, ce_previous = previous, ce_hash = []\<rparr>
      in chain_events h strings clock run index payloads (ce_hash e, events @ [e]))"

fun chain_steps ::
  "(json \<Rightarrow> string) \<Rightarrow> (string \<Rightarrow> string) option \<Rightarrow> (nat \<Rightarrow> string) \<Rightarrow> string \<Rightarrow> nat \<Rightarrow> members list \<Rightarrow>
   string \<times> chained_event list \<Rightarrow> string \<times> chained_event list" where
  "chain_steps h strings clock run index [] made = made"
| "chain_steps h strings clock run index (step # steps) made =
     chain_steps h strings clock run (Suc index) steps (chain_events h strings clock run index (step_payloads step) made)"

record harness_trace =
  ht_run :: string
  ht_contract_hash :: string
  ht_events :: "chained_event list"
  ht_final_observation :: members
  ht_network :: "json list"
  ht_extracted :: members
  ht_metadata :: members

definition or_else_json :: "json \<Rightarrow> json \<Rightarrow> json" where
  "or_else_json a b = (if json_truthy a then a else b)"

definition final_page :: "members list \<Rightarrow> members \<Rightarrow> members" where
  "final_page steps session =
     (let page = fst (fold see_step steps ([], [])) in
      if session = [] then page
      else AList.update ''title'' (or_else_json (get_field ''title'' session) (get_field ''title'' page))
        (AList.update ''url'' (or_else_json (get_field ''current_url'' session) (get_field ''url'' page)) page))"

definition from_agent_result ::
  "(json \<Rightarrow> string) \<Rightarrow> (string \<Rightarrow> string) \<Rightarrow> (nat \<Rightarrow> string) \<Rightarrow> string \<Rightarrow> string \<Rightarrow> members list \<Rightarrow> members \<Rightarrow> harness_trace" where
  "from_agent_result h strings clock run contract_hash steps session =
     \<lparr>ht_run = run, ht_contract_hash = contract_hash, ht_events = snd (chain_steps h (Some strings) clock run 1 steps ([], [])),
      ht_final_observation = redact_object None False (final_page steps session), ht_network = [], ht_extracted = [],
      ht_metadata = [(''source'', JStr ''agent_result'')]\<rparr>"

section \<open>Stored traces\<close>

definition trace_json :: "harness_trace \<Rightarrow> json" where
  "trace_json t =
     JObj [(''run_id'', JStr (ht_run t)), (''contract_hash'', JStr (ht_contract_hash t)),
       (''events'', JArr (map (\<lambda>e. case event_json e of JObj ms \<Rightarrow> JObj (ms @ [(''entry_hash'', JStr (ce_hash e))]) | j \<Rightarrow> j) (ht_events t))),
       (''final_observation'', JObj (ht_final_observation t)), (''network_entries'', JArr (ht_network t)),
       (''extracted_data'', JObj (ht_extracted t))]"

definition trace_hash :: "(json \<Rightarrow> string) \<Rightarrow> harness_trace \<Rightarrow> string" where
  "trace_hash h t = h (trace_json t)"

text \<open>\<open>everything\<close> scrubs URLs and the text around them, \<open>urls\<close> only URLs.\<close>

definition scrubbed_trace :: "(string \<Rightarrow> string) \<Rightarrow> (string \<Rightarrow> string) \<Rightarrow> harness_trace \<Rightarrow> harness_trace" where
  "scrubbed_trace everything urls t =
     t\<lparr>ht_final_observation := redact_object (Some everything) False (ht_final_observation t),
       ht_network := redact_items (Some everything) False (ht_network t),
       ht_extracted := redact_object (Some urls) False (ht_extracted t)\<rparr>"

text \<open>A stored trace is checked when it is read.\<close>

definition read_trace :: "(json \<Rightarrow> string) \<Rightarrow> harness_trace \<Rightarrow> chain_break + harness_trace" where
  "read_trace h t = (case verify_trace_chain h (ht_events t) of None \<Rightarrow> Inr t | Some e \<Rightarrow> Inl e)"

text \<open>What the verifier reads of a trace.\<close>

definition envelope_of :: "harness_trace \<Rightarrow> trace_envelope" where
  "envelope_of t =
     \<lparr>tr_events = map (\<lambda>e. \<lparr>ev_type = ce_type e, ev_payload = ce_payload e\<rparr>) (ht_events t),
      tr_final_observation = ht_final_observation t, tr_network = ht_network t, tr_extracted = ht_extracted t,
      tr_mock = (map_of (ht_metadata t) ''mode'' = Some (JStr ''mock''))\<rparr>"

section \<open>The recorder\<close>

text \<open>The lines of trace.jsonl, the rows of the index, and the hash the next event follows.\<close>

record trace_recorder =
  rc_run :: string
  rc_lines :: "chained_event list"
  rc_rows :: "chained_event list"
  rc_previous :: string

definition new_recorder :: "string \<Rightarrow> trace_recorder" where
  "new_recorder run = \<lparr>rc_run = run, rc_lines = [], rc_rows = [], rc_previous = []\<rparr>"

text \<open>An event whose line cannot be written, or whose row cannot be inserted, raises.\<close>

definition append_event ::
  "(json \<Rightarrow> string) \<Rightarrow> (string \<Rightarrow> string) \<Rightarrow> bool \<Rightarrow> bool \<Rightarrow> string \<Rightarrow> string \<Rightarrow> members \<Rightarrow> nat \<Rightarrow> trace_recorder \<Rightarrow>
   trace_recorder \<times> chained_event option" where
  "append_event h strings writes inserts now type payload index rc =
     (let e = with_hash h \<lparr>ce_run = rc_run rc, ce_step = index, ce_type = type, ce_time = now,
            ce_payload = redact_object (Some strings) True payload, ce_previous = rc_previous rc, ce_hash = []\<rparr>
      in if \<not> writes then (rc, None)
         else if \<not> inserts then (rc\<lparr>rc_lines := rc_lines rc @ [e]\<rparr>, None)
         else (rc\<lparr>rc_lines := rc_lines rc @ [e], rc_rows := rc_rows rc @ [e], rc_previous := ce_hash e\<rparr>, Some e))"

definition finalize :: "string \<Rightarrow> members \<Rightarrow> json list \<Rightarrow> members \<Rightarrow> members \<Rightarrow> trace_recorder \<Rightarrow> harness_trace" where
  "finalize contract_hash final network extracted metadata rc =
     \<lparr>ht_run = rc_run rc, ht_contract_hash = contract_hash, ht_events = rc_lines rc,
      ht_final_observation = redact_object None False final, ht_network = redact_items None False network,
      ht_extracted = redact_object None False extracted, ht_metadata = metadata\<rparr>"

text \<open>
  \<open>_run_attempt\<close>: a live attempt's trace is made of what the agent loop returned, a mock one's of the observation the
  caller or the contract's metadata gives. None: the recorder raised, which ends the attempt.
\<close>

definition mock_observation :: "members \<Rightarrow> members \<Rightarrow> members" where
  "mock_observation given metadata =
     (if given \<noteq> [] then given else object_of (get_field ''mock_final_observation'' metadata))"

definition append_mock_events ::
  "(json \<Rightarrow> string) \<Rightarrow> (string \<Rightarrow> string) \<Rightarrow> (nat \<Rightarrow> string) \<Rightarrow> bool \<Rightarrow> string \<Rightarrow> trace_recorder \<Rightarrow> trace_recorder option" where
  "append_mock_events h strings clock works goal rc =
     (case append_event h strings works works (clock 1) ''action''
         [(''action'', JStr ''mock_attempt''), (''goal'', JStr goal), (''simulated'', JBool True)] 1 rc of
        (_, None) \<Rightarrow> None
      | (rc', Some _) \<Rightarrow>
          (case append_event h strings works works (clock 2) ''screenshot''
              [(''available'', JBool False), (''reason'', JStr ''mock_mode'')] 1 rc' of
             (_, None) \<Rightarrow> None | (rc'', Some _) \<Rightarrow> Some rc''))"

definition run_attempt ::
  "(json \<Rightarrow> string) \<Rightarrow> (string \<Rightarrow> string) \<Rightarrow> (nat \<Rightarrow> string) \<Rightarrow> bool \<Rightarrow> (members list \<times> members) option \<Rightarrow> task_contract \<Rightarrow> string \<Rightarrow>
   members \<Rightarrow> members \<Rightarrow> json \<Rightarrow> string \<Rightarrow> nat \<Rightarrow> harness_trace option" where
  "run_attempt h strings clock works live c contract_hash given metadata tiers run_id index =
     (let run = run_id @ ''-'' @ decimal index in
      case append_event h strings works works (clock 0) ''model_decision''
          [(''strategy'', JStr (if index = 1 then ''initial'' else ''reflexion'')), (''simulated'', JBool (live = None))] 0 (new_recorder run) of
        (_, None) \<Rightarrow> None
      | (rc, Some _) \<Rightarrow>
          (case live of
             Some (steps, session) \<Rightarrow> Some (from_agent_result h strings clock run contract_hash steps session)
           | None \<Rightarrow>
               (case append_mock_events h strings clock works (tc_goal c) rc of
                  None \<Rightarrow> None
                | Some rc' \<Rightarrow>
                    Some (finalize contract_hash (mock_observation given metadata) [] []
                      [(''mode'', JStr ''mock''), (''attempt_index'', JNum (decimal index)), (''model_tiers'', tiers)] rc'))))"

definition error_trace :: "(json \<Rightarrow> string) \<Rightarrow> string \<Rightarrow> string \<Rightarrow> string \<Rightarrow> nat \<Rightarrow> string \<Rightarrow> harness_trace" where
  "error_trace h now contract_hash run_id index name =
     \<lparr>ht_run = run_id @ ''-'' @ decimal index, ht_contract_hash = contract_hash,
      ht_events = [with_hash h \<lparr>ce_run = run_id @ ''-'' @ decimal index, ce_step = index, ce_type = ''error'', ce_time = now,
        ce_payload = [(''error_type'', JStr name), (''message'', JStr ''attempt failed'')], ce_previous = [], ce_hash = []\<rparr>],
      ht_final_observation = [], ht_network = [], ht_extracted = [],
      ht_metadata = [(''mode'', JStr ''error''), (''attempt_index'', JNum (decimal index))]\<rparr>"

end
