(* ===== verification/HarnessTraceFacts.thy ===== *)
theory HarnessTraceFacts
  imports HarnessTrace HarnessVerdicts
begin

text \<open>
  What the traces promise: every trace an attempt leaves passes the check of its chain, and the text typed into a
  sensitive field is in none of its events.
\<close>

section \<open>The chain\<close>

definition follows :: "string \<Rightarrow> chained_event list \<Rightarrow> string" where
  "follows previous events = (if events = [] then previous else ce_hash (last events))"

lemma check_events_snoc:
  "check_events h i p (es @ [e]) =
     (case check_events h i p es of
        Some b \<Rightarrow> Some b
      | None \<Rightarrow> if ce_previous e \<noteq> follows p es then Some (PreviousDiffers (i + length es))
          else if ce_hash e \<noteq> h (event_json e) then Some (EntryDiffers (i + length es)) else None)"
  by (induction es arbitrary: i p) (auto simp: follows_def split: option.splits)

lemma with_hash_fields [simp]:
  "ce_hash (with_hash h e) = h (event_json e)" "event_json (with_hash h e) = event_json e"
  "ce_previous (with_hash h e) = ce_previous e" "ce_type (with_hash h e) = ce_type e" "ce_payload (with_hash h e) = ce_payload e"
  by (simp_all add: with_hash_def event_json_def)

definition hash_chained :: "(json \<Rightarrow> string) \<Rightarrow> string \<times> chained_event list \<Rightarrow> bool" where
  "hash_chained h = (\<lambda>(previous, events). verify_trace_chain h events = None \<and> previous = follows [] events)"

lemma hash_chained_snoc:
  assumes "hash_chained h (previous, events)" and "ce_previous e = previous"
  shows "hash_chained h (h (event_json e), events @ [with_hash h e])"
  using assms by (simp add: hash_chained_def verify_trace_chain_def check_events_snoc follows_def)

lemma chain_events_chained: "hash_chained h made \<Longrightarrow> hash_chained h (chain_events h strings clock run index payloads made)"
proof (induction payloads arbitrary: made)
  case (Cons p payloads)
  obtain type payload previous events where "p = (type, payload)" "made = (previous, events)" by (cases p, cases made)
  with Cons.IH Cons.prems show ?case by (simp add: Let_def hash_chained_snoc)
qed simp

lemma chain_steps_chained: "hash_chained h made \<Longrightarrow> hash_chained h (chain_steps h strings clock run index steps made)"
  by (induction steps arbitrary: made index) (simp_all add: chain_events_chained)

lemma agent_trace_chained: "verify_trace_chain h (ht_events (from_agent_result h strings clock run c steps session)) = None"
proof -
  have "hash_chained h ([], [])" by (simp add: hash_chained_def verify_trace_chain_def follows_def)
  from chain_steps_chained [OF this, of "Some strings" clock run 1 steps] show ?thesis
    by (simp add: from_agent_result_def hash_chained_def split_beta)
qed

definition recording :: "(json \<Rightarrow> string) \<Rightarrow> trace_recorder \<Rightarrow> bool" where
  "recording h rc \<longleftrightarrow> hash_chained h (rc_previous rc, rc_lines rc)"

lemma append_event_recording:
  assumes "recording h rc" and "append_event h strings writes inserts now type payload index rc = (rc', Some e)"
  shows "recording h rc' \<and> rc_lines rc' = rc_lines rc @ [e] \<and> ce_type e = type \<and> ce_payload e = redact_object (Some strings) True payload"
  using assms hash_chained_snoc by (auto simp: append_event_def recording_def Let_def split: if_splits)

lemma new_recorder_recording: "recording h (new_recorder run)" "rc_lines (new_recorder run) = []"
  by (simp_all add: recording_def new_recorder_def hash_chained_def verify_trace_chain_def follows_def)

lemma append_mock_recording:
  assumes "recording h rc" and "append_mock_events h strings clock works goal rc = Some rc'"
  shows "recording h rc' \<and> (\<exists>a s. rc_lines rc' = rc_lines rc @ [a, s] \<and> ce_type a = ''action'' \<and> ce_type s = ''screenshot'' \<and>
    ce_payload s = redact_object (Some strings) True [(''available'', JBool False), (''reason'', JStr ''mock_mode'')])"
proof -
  obtain rc1 a where one: "append_event h strings works works (clock 1) ''action''
      [(''action'', JStr ''mock_attempt''), (''goal'', JStr goal), (''simulated'', JBool True)] 1 rc = (rc1, Some a)"
    and two: "\<exists>s. append_event h strings works works (clock 2) ''screenshot''
      [(''available'', JBool False), (''reason'', JStr ''mock_mode'')] 1 rc1 = (rc', Some s)"
    using assms(2) by (auto simp: append_mock_events_def split: prod.splits option.splits)
  from two obtain s where "append_event h strings works works (clock 2) ''screenshot''
      [(''available'', JBool False), (''reason'', JStr ''mock_mode'')] 1 rc1 = (rc', Some s)" ..
  from append_event_recording [OF _ this] append_event_recording [OF assms(1) one] show ?thesis by auto
qed

lemma plain_keys:
  "list_all (\<lambda>key. \<not> secret_key key) [''available'', ''reason'', ''status'', ''decision'', ''observation'', ''execution'', ''target'', ''before'', ''after'']"
  by code_simp

lemma redacted_shot: "redact_object strings True [(''available'', JBool False), (''reason'', JStr ''mock_mode'')] =
    [(''available'', JBool False), (''reason'', redact_json strings True (JStr ''mock_mode''))]"
  using plain_keys by (simp add: redact_object_def flagged_def SENSITIVE_FLAG_KEYS_def get_field_def the_default_def lower_def lower_char_def PAGE_DATA_KEYS_def)

lemma run_attempt_mock:
  assumes "run_attempt h strings clock works None c contract_hash given metadata tiers run_id index = Some t"
  shows "verify_trace_chain h (ht_events t) = None \<and> ht_network t = [] \<and> (\<exists>d a s. ht_events t = [d, a, s] \<and>
    ce_type d = ''model_decision'' \<and> ce_type a = ''action'' \<and> ce_type s = ''screenshot'' \<and>
    ce_payload s = [(''available'', JBool False), (''reason'', redact_json (Some strings) True (JStr ''mock_mode''))])"
proof -
  let ?run = "run_id @ ''-'' @ decimal index"
  obtain rc d rc' where first: "append_event h strings works works (clock 0) ''model_decision''
      [(''strategy'', JStr (if index = 1 then ''initial'' else ''reflexion'')), (''simulated'', JBool (None = (None :: (members list \<times> members) option)))] 0
      (new_recorder ?run) = (rc, Some d)"
    and rest: "append_mock_events h strings clock works (tc_goal c) rc = Some rc'"
    and t: "t = finalize contract_hash (mock_observation given metadata) [] []
      [(''mode'', JStr ''mock''), (''attempt_index'', JNum (decimal index)), (''model_tiers'', tiers)] rc'"
    using assms by (auto simp: run_attempt_def Let_def split: prod.splits option.splits)
  note d = append_event_recording [OF new_recorder_recording(1) first]
  from append_mock_recording [OF conjunct1 [OF d] rest] obtain a s where made: "recording h rc'" "rc_lines rc' = rc_lines rc @ [a, s]"
    "ce_type a = ''action''" "ce_type s = ''screenshot''"
    "ce_payload s = redact_object (Some strings) True [(''available'', JBool False), (''reason'', JStr ''mock_mode'')]" by blast
  have "verify_trace_chain h (rc_lines rc') = None" using made(1) by (simp add: recording_def hash_chained_def)
  moreover have "rc_lines rc' = [d, a, s]" using made(2) d by (simp add: new_recorder_recording)
  ultimately show ?thesis using made(3-5) d by (simp add: t finalize_def redacted_shot)
qed

text \<open>
  the trace of every attempt, scrubbed and stored, passes the check of its hash chain when it is read back, and a
  mock attempt never counts as having taken a screenshot or seen the network, so no contract that asks for either
  can be met by one.
\<close>

theorem attempt_trace_verifies:
  assumes "run_attempt h strings clock works live c contract_hash given metadata tiers run_id index = Some t"
  shows "read_trace h (scrubbed_trace everything urls t) = Inr (scrubbed_trace everything urls t) \<and>
    (live = None \<longrightarrow> set (evidence_kinds (envelope_of t)) = {''trace'', ''actions'', ''model_decisions''})"
proof (cases live)
  case None
  note mock = run_attempt_mock [OF assms [unfolded None]]
  then obtain d a s where events: "ht_events t = [d, a, s]" "ce_type d = ''model_decision''" "ce_type a = ''action''" "ce_type s = ''screenshot''"
    "ce_payload s = [(''available'', JBool False), (''reason'', redact_json (Some strings) True (JStr ''mock_mode''))]" by blast
  have "set (evidence_kinds (envelope_of t)) = {''trace'', ''actions'', ''model_decisions''}"
    using mock by (simp add: evidence_kinds_def envelope_of_def events screenshot_evidence_def has_prefix_def get_field_def the_default_def)
  then show ?thesis using mock by (simp add: read_trace_def scrubbed_trace_def)
next
  case (Some run)
  then obtain steps session where "t = from_agent_result h strings clock (run_id @ ''-'' @ decimal index) contract_hash steps session"
    using assms by (cases run) (auto simp: run_attempt_def Let_def split: prod.splits option.splits)
  then show ?thesis using Some by (simp add: read_trace_def scrubbed_trace_def agent_trace_chained)
qed

section \<open>What was typed\<close>

text \<open>Two objects that differ only in the values of hidden keys.\<close>

definition alike :: "(string \<Rightarrow> bool) \<Rightarrow> members \<Rightarrow> members \<Rightarrow> bool" where
  "alike hidden a b \<longleftrightarrow> list_all2 (\<lambda>(k, v) (k', v'). k = k' \<and> (hidden k \<or> v = v')) a b"

definition typed_key :: "bool \<Rightarrow> string \<Rightarrow> bool" where
  "typed_key decision k \<longleftrightarrow> lower k \<in> set (typed_keys decision)"

lemma alike_simps [simp]:
  "alike hidden [] b \<longleftrightarrow> b = []" "alike hidden a [] \<longleftrightarrow> a = []"
  "alike hidden ((k, v) # a) ((k', v') # b) \<longleftrightarrow> k = k' \<and> (hidden k \<or> v = v') \<and> alike hidden a b"
  by (simp_all add: alike_def)

lemma alike_refl [simp]: "alike hidden a a"
  by (simp add: alike_def list_all2_refl split: prod.split)

lemma alike_induct [consumes 1, case_names Nil Cons]:
  assumes "alike hidden a b" and "P [] []"
    and "\<And>k v v' a b. hidden k \<or> v = v' \<Longrightarrow> alike hidden a b \<Longrightarrow> P a b \<Longrightarrow> P ((k, v) # a) ((k, v') # b)"
  shows "P a b"
  using assms(1)
proof (induction a arbitrary: b)
  case (Cons x a)
  obtain k v where x: "x = (k, v)" by (cases x)
  from Cons.prems x obtain v' b' where "b = (k, v') # b'" "hidden k \<or> v = v'" "alike hidden a b'"
    by (cases b) auto
  then show ?case using Cons.IH assms(3) x by simp
qed (simp add: assms(2))

lemma alike_field: "alike hidden a b \<Longrightarrow> \<not> hidden k \<Longrightarrow> map_of a k = map_of b k"
  by (induction rule: alike_induct) auto

lemma alike_get_field: "alike hidden a b \<Longrightarrow> \<not> hidden k \<Longrightarrow> get_field k a = get_field k b"
  by (simp add: get_field_def alike_field)

lemma alike_flag: "alike hidden a b \<Longrightarrow> alike hidden (flag_object a) (flag_object b)"
  unfolding flag_object_def by (induction rule: alike_induct) auto

lemma flag_not_typed [simp]: "\<not> typed_key d ''sensitive''" "\<not> typed_key d ''text_redacted''"
  by (auto simp: typed_key_def typed_keys_def ACTION_TYPED_TEXT_KEYS_def TYPED_TEXT_KEYS_def lower_def lower_char_def)

lemma flagged_alike: "alike (typed_key d) a b \<Longrightarrow> flagged a = flagged b"
  by (simp add: flagged_def SENSITIVE_FLAG_KEYS_def alike_get_field [of "typed_key d" a b])

lemma flagged_iff: "flagged ms \<longleftrightarrow> json_truthy (get_field ''sensitive'' ms) \<or> json_truthy (get_field ''text_redacted'' ms)"
  by (simp add: flagged_def SENSITIVE_FLAG_KEYS_def)

lemma redacted_alike: "alike (typed_key d) a b \<Longrightarrow> redact_members strings d True a = redact_members strings d True b"
  by (induction rule: alike_induct) (auto simp: typed_key_def)

lemma redact_object_alike: "alike (typed_key d) a b \<Longrightarrow> flagged a \<Longrightarrow> redact_json strings d (JObj a) = redact_json strings d (JObj b)"
proof -
  assume alike: "alike (typed_key d) a b" and "flagged a"
  then have "flagged b" using flagged_alike by blast
  then show ?thesis using redacted_alike [OF alike] \<open>flagged a\<close> by simp
qed

lemma flag_object_flagged: "flagged (flag_object ms)"
  by (simp add: flagged_iff flag_object_def get_field_def the_default_def map_of_update)

text \<open>Two executions that differ only in the text typed into their targets and shown in their snapshots.\<close>

fun field_alike :: "string \<Rightarrow> json \<Rightarrow> json \<Rightarrow> bool" where
  "field_alike key (JObj a) (JObj b) =
     (if key = ''target'' then alike (typed_key True) a b
      else if key = ''before'' \<or> key = ''after'' then alike (typed_key False) a b else a = b)"
| "field_alike key v w = (v = w)"

definition execution_alike :: "json \<Rightarrow> json \<Rightarrow> bool" where
  "execution_alike v w \<longleftrightarrow> v = w \<or> (case (v, w) of
     (JObj a, JObj b) \<Rightarrow> distinct (map fst a) \<and> list_all2 (\<lambda>(k, x) (k', y). k = k' \<and> field_alike k x y) a b
   | _ \<Rightarrow> False)"

definition step_alike :: "members \<Rightarrow> members \<Rightarrow> bool" where
  "step_alike step step' \<longleftrightarrow> step = step' \<or>
     get_field ''status'' step = get_field ''status'' step' \<and> get_field ''observation'' step = get_field ''observation'' step' \<and>
     json_truthy (get_field ''sensitive'' (step_decision step)) \<and>
     alike (typed_key True) (object_of (get_field ''decision'' step)) (object_of (get_field ''decision'' step')) \<and>
     execution_alike (get_field ''execution'' step) (get_field ''execution'' step')"


definition flag_json :: "json \<Rightarrow> json" where
  "flag_json v = (case v of JObj inner \<Rightarrow> JObj (flag_object inner) | _ \<Rightarrow> v)"

lemma flag_field_Cons: "flag_field key ((k, v) # ms) = (if k = key then (k, flag_json v) # ms else (k, v) # flag_field key ms)"
  by (simp add: flag_field_def flag_json_def split: json.split option.split)

lemma flag_field_map:
  "distinct (map fst ms) \<Longrightarrow> flag_field key ms = map (\<lambda>(k, v). (k, if k = key then flag_json v else v)) ms"
proof (induction ms)
  case Nil
  then show ?case by (simp add: flag_field_def)
next
  case (Cons x ms)
  obtain k v where x: "x = (k, v)" by (cases x)
  have "map (\<lambda>(k, v). (k, if k = key then flag_json v else v)) ms = ms" if "key \<notin> fst ` set ms"
    using that by (intro map_idI) force
  then show ?case using Cons x by (auto simp: flag_field_Cons)
qed

lemma flag_field_keys: "distinct (map fst ms) \<Longrightarrow> map fst (flag_field key ms) = map fst ms"
  by (simp add: flag_field_map split_beta comp_def)

definition flag_value :: "string \<Rightarrow> json \<Rightarrow> json" where
  "flag_value k v = (if k \<in> {''target'', ''before'', ''after''} then flag_json v else v)"

lemma flag_execution_map:
  "distinct (map fst ms) \<Longrightarrow> flag_sensitive_execution (JObj ms) = JObj (map (\<lambda>(k, v). (k, flag_value k v)) ms)"
  by (auto simp: flag_sensitive_execution_def flag_field_map flag_field_keys flag_value_def split_beta comp_def)

lemma redact_flagged_alike:
  "alike (typed_key d) a b \<Longrightarrow> redact_json strings d (JObj (flag_object a)) = redact_json strings d (JObj (flag_object b))"
  by (rule redact_object_alike) (simp_all add: alike_flag flag_object_flagged)

lemma redact_field_alike:
  assumes "field_alike k v w"
  shows "redact_json strings (lower k \<notin> set PAGE_DATA_KEYS) (flag_value k v) = redact_json strings (lower k \<notin> set PAGE_DATA_KEYS) (flag_value k w)"
proof (cases "v = w")
  case False
  then obtain a b where vw: "v = JObj a" "w = JObj b" using assms by (cases "(k, v, w)" rule: field_alike.cases) auto
  have "lower ''target'' \<notin> set PAGE_DATA_KEYS" "lower ''before'' \<in> set PAGE_DATA_KEYS" "lower ''after'' \<in> set PAGE_DATA_KEYS"
    by (simp_all add: lower_def lower_char_def PAGE_DATA_KEYS_def)
  then show ?thesis using False assms vw redact_flagged_alike [of True a b strings] redact_flagged_alike [of False a b strings]
    by (auto simp: flag_value_def flag_json_def simp del: redact_json.simps split: if_splits)
qed simp


lemma redact_fields_alike:
  assumes "list_all2 (\<lambda>(k, x) (k', y). k = k' \<and> field_alike k x y) a b"
  shows "redact_members strings True hides (map (\<lambda>(k, v). (k, flag_value k v)) a) = redact_members strings True hides (map (\<lambda>(k, v). (k, flag_value k v)) b)"
  using assms
proof (induction rule: list_all2_induct)
  case (Cons x a y b)
  obtain k v w where "x = (k, v)" "y = (k, w)" "field_alike k v w" using Cons(1) by (cases x, cases y) auto
  then show ?case using Cons.IH redact_field_alike [of k v w strings] by simp
qed simp

lemma fields_alike_get:
  assumes "list_all2 (\<lambda>(k, x) (k', y). k = k' \<and> field_alike k x y) a b"
  shows "(case (map_of a key, map_of b key) of (None, None) \<Rightarrow> True | (Some x, Some y) \<Rightarrow> field_alike key x y | _ \<Rightarrow> False)"
  using assms by (induction rule: list_all2_induct) (auto split: option.splits prod.splits)

lemma field_alike_other: "field_alike k x y \<Longrightarrow> k \<notin> {''target'', ''before'', ''after''} \<Longrightarrow> x = y"
  by (cases "(k, x, y)" rule: field_alike.cases) auto

lemma fields_alike_same:
  assumes "list_all2 (\<lambda>(k, x) (k', y). k = k' \<and> field_alike k x y) a b" and "key \<notin> {''target'', ''before'', ''after''}"
  shows "get_field key a = get_field key b"
  using fields_alike_get [OF assms(1), of key] assms(2) field_alike_other by (auto simp: get_field_def the_default_def split: option.splits)

lemma keys_alike: "list_all2 (\<lambda>(k, x) (k', y). k = k' \<and> field_alike k x y) a b \<Longrightarrow> map fst a = map fst b"
  by (induction rule: list_all2_induct) auto

text \<open>The flag the execution itself may carry is outside the fields that differ, and none is added to it.\<close>

lemma flag_values_flagged:
  assumes "list_all2 (\<lambda>(k, x) (k', y). k = k' \<and> field_alike k x y) a b"
  shows "flagged (map (\<lambda>(k, v). (k, flag_value k v)) a) = flagged (map (\<lambda>(k, v). (k, flag_value k v)) b)"
proof -
  have same: "map_of (map (\<lambda>(k, v). (k, flag_value k v)) ms) key = map_of ms key" if "key \<notin> {''target'', ''before'', ''after''}" for ms key
    using that by (induction ms) (auto simp: flag_value_def)
  show ?thesis using fields_alike_same [OF assms] by (simp add: flagged_iff get_field_def same)
qed

lemma redact_execution_alike:
  assumes "execution_alike v w"
  shows "redact_json strings True (flag_sensitive_execution v) = redact_json strings True (flag_sensitive_execution w)"
proof (cases "v = w")
  case False
  then obtain a b where "v = JObj a" "w = JObj b" "distinct (map fst a)" "list_all2 (\<lambda>(k, x) (k', y). k = k' \<and> field_alike k x y) a b"
    using assms by (auto simp: execution_alike_def split: json.splits)
  then show ?thesis using keys_alike [of a b] flag_values_flagged [of a b]
    by (simp add: flag_execution_map redact_fields_alike [of a b])
qed simp

text \<open>What an execution shows beside the typed text is the same.\<close>

lemma object_of_simps [simp]: "object_of (JObj ms) = ms" "object_of JNull = []"
  by (simp_all add: object_of_def)

lemma object_field_alike:
  "field_alike ''target'' x y \<Longrightarrow> alike (typed_key True) (object_of x) (object_of y)"
  "field_alike ''after'' x y \<Longrightarrow> alike (typed_key False) (object_of x) (object_of y)"
  by (cases "(''target'', x, y)" rule: field_alike.cases; simp) (cases "(''after'', x, y)" rule: field_alike.cases; simp)

lemma execution_target_alike:
  assumes "execution_alike v w"
  shows "alike (typed_key True) (object_of (get_field ''target'' (object_of v))) (object_of (get_field ''target'' (object_of w)))"
proof (cases "v = w")
  case False
  then obtain a b where vw: "v = JObj a" "w = JObj b" "list_all2 (\<lambda>(k, x) (k', y). k = k' \<and> field_alike k x y) a b"
    using assms by (auto simp: execution_alike_def split: json.splits)
  then show ?thesis using fields_alike_get [OF vw(3), of "''target''"] object_field_alike(1)
    by (auto simp: get_field_def the_default_def split: option.splits)
qed simp

lemma flagged_after_alike:
  assumes "execution_alike v w"
  shows "alike (typed_key False) (object_of (get_field ''after'' (object_of (flag_sensitive_execution v))))
    (object_of (get_field ''after'' (object_of (flag_sensitive_execution w))))"
proof (cases "v = w")
  case False
  then obtain a b where vw: "v = JObj a" "w = JObj b" "distinct (map fst a)" "list_all2 (\<lambda>(k, x) (k', y). k = k' \<and> field_alike k x y) a b"
    using assms by (auto simp: execution_alike_def split: json.splits)
  have got: "map_of (map (\<lambda>(k, v). (k, flag_value k v)) ms) key = map_option (flag_value key) (map_of ms key)" for ms key
    by (induction ms) auto
  have flagged: "alike (typed_key False) (object_of (flag_value ''after'' x)) (object_of (flag_value ''after'' y))" if "field_alike ''after'' x y" for x y
    using that by (cases "(''after'', x, y)" rule: field_alike.cases) (simp_all add: flag_value_def flag_json_def alike_flag)
  have "flag_sensitive_execution v = JObj (map (\<lambda>(k, v). (k, flag_value k v)) a)" "flag_sensitive_execution w = JObj (map (\<lambda>(k, v). (k, flag_value k v)) b)"
    using vw(3) keys_alike [OF vw(4)] by (simp_all add: vw(1,2) flag_execution_map)
  then show ?thesis using fields_alike_get [OF vw(4), of "''after''"] flagged
    by (auto simp: get_field_def the_default_def got split: option.splits)
qed simp

lemma screenshots_alike: "alike (typed_key d) a b \<Longrightarrow> screenshot_of a = screenshot_of b"
proof -
  assume alike: "alike (typed_key d) a b"
  have "\<not> typed_key d ''screenshot_path''" "\<not> typed_key d ''screenshot_url''"
    by (auto simp: typed_key_def typed_keys_def ACTION_TYPED_TEXT_KEYS_def TYPED_TEXT_KEYS_def lower_def lower_char_def)
  then show ?thesis using alike_get_field [OF alike] by (simp add: screenshot_of_def SCREENSHOT_KEYS_def)
qed


lemma step_decision_alike:
  assumes "execution_alike (get_field ''execution'' step) (get_field ''execution'' step')"
    and "alike (typed_key True) (object_of (get_field ''decision'' step)) (object_of (get_field ''decision'' step'))"
  shows "alike (typed_key True) (step_decision step) (step_decision step')"
proof -
  have "execution_redacted_the_text (get_field ''execution'' step) = execution_redacted_the_text (get_field ''execution'' step')"
    using alike_get_field [OF execution_target_alike [OF assms(1)], of "''text_redacted''"] by (simp add: execution_redacted_the_text_def)
  then show ?thesis using assms(2) by (simp add: step_decision_def alike_flag Let_def)
qed

definition payload_alike :: "(string \<Rightarrow> string) option \<Rightarrow> string \<times> members \<Rightarrow> string \<times> members \<Rightarrow> bool" where
  "payload_alike strings p q \<longleftrightarrow> fst p = fst q \<and> redact_object strings True (snd p) = redact_object strings True (snd q)"

lemma step_payloads_alike:
  assumes "step_alike step step'"
  shows "list_all2 (payload_alike strings) (step_payloads step) (step_payloads step')"
proof (cases "step = step'")
  case True
  then show ?thesis by (simp add: list_all2_refl payload_alike_def)
next
  case False
  then have same: "get_field ''status'' step = get_field ''status'' step'" "get_field ''observation'' step = get_field ''observation'' step'"
    and sensitive: "json_truthy (get_field ''sensitive'' (step_decision step))"
    and decision: "alike (typed_key True) (object_of (get_field ''decision'' step)) (object_of (get_field ''decision'' step'))"
    and execution: "execution_alike (get_field ''execution'' step) (get_field ''execution'' step')"
    using assms by (simp_all add: step_alike_def)
  note decisions = step_decision_alike [OF execution decision]
  have flags: "flagged (step_decision step)" "flagged (step_decision step')" using sensitive flagged_alike [OF decisions] by (auto simp: flagged_iff)
  have "json_truthy (get_field ''sensitive'' (step_decision step'))" using sensitive alike_get_field [OF decisions, of "''sensitive''"] by simp
  then have executions: "step_execution step = flag_sensitive_execution (get_field ''execution'' step)"
    "step_execution step' = flag_sensitive_execution (get_field ''execution'' step')" using sensitive by (simp_all add: step_execution_def)
  have redacted: "redact_members strings True True (step_decision step) = redact_members strings True True (step_decision step')"
    by (rule redacted_alike [OF decisions])
  have no_flags: "\<not> flagged [(''decision'', x)]" "\<not> flagged [(''status'', x), (''decision'', y), (''observation'', z), (''execution'', w)]" for x y z w
    by (simp_all add: flagged_iff get_field_def the_default_def)
  have below: "lower ''decision'' \<notin> set PAGE_DATA_KEYS" "lower ''execution'' \<notin> set PAGE_DATA_KEYS"
    by (simp_all add: lower_def lower_char_def PAGE_DATA_KEYS_def)
  have empty: "object_of (get_field ''decision'' step) = [] \<longleftrightarrow> object_of (get_field ''decision'' step') = []"
    using decision by (auto simp: alike_def)
  have shot: "screenshot_of (object_of (get_field ''after'' (object_of (step_execution step)))) =
      screenshot_of (object_of (get_field ''after'' (object_of (step_execution step'))))"
    unfolding executions by (rule screenshots_alike [OF flagged_after_alike [OF execution]])
  have "payload_alike strings (''model_decision'', [(''decision'', JObj (step_decision step))]) (''model_decision'', [(''decision'', JObj (step_decision step'))])"
    using redacted flags plain_keys by (simp add: payload_alike_def redact_object_def no_flags below)
  moreover have "payload_alike strings
      (''action'', [(''status'', get_field ''status'' step), (''decision'', JObj (step_decision step)), (''observation'', JObj (object_of (get_field ''observation'' step))),
         (''execution'', step_execution step)])
      (''action'', [(''status'', get_field ''status'' step'), (''decision'', JObj (step_decision step')), (''observation'', JObj (object_of (get_field ''observation'' step'))),
         (''execution'', step_execution step')])"
    using redacted flags plain_keys same redact_execution_alike [OF execution, of strings]
    by (simp add: payload_alike_def redact_object_def no_flags below executions)
  moreover have "payload_alike strings p p" for p by (simp add: payload_alike_def)
  ultimately show ?thesis
    using same empty shot by (auto simp: step_payloads_def Let_def screenshot_payload_def intro!: list_all2_appendI)
qed

lemma chain_events_alike:
  "list_all2 (payload_alike strings) ps qs \<Longrightarrow> chain_events h strings clock run index ps made = chain_events h strings clock run index qs made"
proof (induction ps qs arbitrary: made rule: list_all2_induct)
  case (Cons p ps q qs)
  obtain type a b previous events where "p = (type, a)" "q = (type, b)" "redact_object strings True a = redact_object strings True b" "made = (previous, events)"
    using Cons(1) by (cases p, cases q, cases made) (auto simp: payload_alike_def)
  then show ?case using Cons.IH by simp
qed simp

lemma chain_steps_alike:
  "list_all2 step_alike steps steps' \<Longrightarrow> chain_steps h strings clock run index steps made = chain_steps h strings clock run index steps' made"
  by (induction steps steps' arbitrary: made index rule: list_all2_induct) (simp_all add: chain_events_alike [OF step_payloads_alike])

text \<open>
  C20: nothing typed, chosen or signed in with in a step marked sensitive, by the agent or by the controller, leaves a mark on the
  trace's events: two results that differ only there give the same events, hashes included.
\<close>

theorem sensitive_text_leaves_no_event:
  assumes "list_all2 step_alike steps steps'"
  shows "ht_events (from_agent_result h strings clock run c steps session) = ht_events (from_agent_result h strings clock run c steps' session)"
  using chain_steps_alike [OF assms] by (simp add: from_agent_result_def)

definition typed_step :: "string \<Rightarrow> members" where
  "typed_step s =
     [(''status'', JStr ''acted''), (''decision'', JObj [(''action'', JStr ''type''), (''text'', JStr s), (''sensitive'', JBool True)]),
      (''observation'', JObj [(''url'', JStr ''https://a/'')]),
      (''execution'', JObj [(''target'', JObj [(''selector'', JStr ''#pw''), (''value'', JStr s)]), (''after'', JObj [(''text'', JStr s)])])]"

theorem sensitive_text_leaves_no_event_witness:
  "ht_events (from_agent_result (\<lambda>_. ''h'') id (\<lambda>_. ''0'') ''r1-1'' ''c'' [typed_step ''hunter2''] []) =
   ht_events (from_agent_result (\<lambda>_. ''h'') id (\<lambda>_. ''0'') ''r1-1'' ''c'' [typed_step ''other''] [])"
proof -
  have "list_all2 step_alike [typed_step ''hunter2''] [typed_step ''other'']"
    by (simp add: step_alike_def typed_step_def step_decision_def get_field_def the_default_def execution_redacted_the_text_def typed_key_def typed_keys_def
        ACTION_TYPED_TEXT_KEYS_def TYPED_TEXT_KEYS_def lower_def lower_char_def execution_alike_def)
  from sensitive_text_leaves_no_event [OF this] show ?thesis .
qed

theorem attempt_trace_verifies_witness:
  "\<exists>t. run_attempt (\<lambda>_. ''h'') id (\<lambda>_. ''0'') True None sample_contract ''c'' [] [] JNull ''r1'' 1 = Some t \<and>
     set (evidence_kinds (envelope_of t)) = {''trace'', ''actions'', ''model_decisions''}"
proof -
  obtain t where t: "run_attempt (\<lambda>_. ''h'') id (\<lambda>_. ''0'') True None sample_contract ''c'' [] [] JNull ''r1'' 1 = Some t"
    by (simp add: run_attempt_def append_event_def append_mock_events_def Let_def)
  from attempt_trace_verifies [OF this] t show ?thesis by blast
qed

end
