(* ===== verification/HarnessDrift.thy ===== *)
theory HarnessDrift
  imports HarnessRegistryFacts HarnessTraceFacts
begin

text \<open>
  The drift check of a staged candidate (harness/drift.py): its stored contract against its stored trace, both as the
  registry vouches for them, the contract's expectations scrubbed as the stored trace was (harness/trace.py, the
  rewriting of the URLs in a text). The PII scrubber of a text and of a URL's query are given.
\<close>

section \<open>The URLs in a text\<close>

definition closes_quote :: "string \<Rightarrow> bool" where
  "closes_quote after = (case after of
       [] \<Rightarrow> True
     | c # cs \<Rightarrow> py_space c \<or> c \<in> set '',;:)]}'' \<or> (c \<in> set ''.!?'' \<and> (cs = [] \<or> py_space (hd cs))))"

fun url_run :: "string \<Rightarrow> string" where
  "url_run [] = []"
| "url_run (c # cs) =
     (if py_space c \<or> c \<in> {CHR 0x22, CHR ''<'', CHR ''>''} \<or> (c = CHR 0x27 \<and> closes_quote cs) then [] else c # url_run cs)"

definition not_url_end :: "char \<Rightarrow> bool" where
  "not_url_end c \<longleftrightarrow> c = CHR 0x27 \<or> c \<in> set '',;)]}''"

definition url_body :: "string \<Rightarrow> string" where
  "url_body s = rev (dropWhile not_url_end (rev (url_run s)))"

text \<open>The match of \<open>_URL_PATTERN\<close> at the start of a text.\<close>

definition url_at :: "string \<Rightarrow> string option" where
  "url_at s =
     (let n = (if lower (take 8 s) = ''https://'' then 8 else if lower (take 7 s) = ''http://'' then 7 else 0) in
      if n = 0 \<or> url_body (drop n s) = [] then None else Some (take n s @ url_body (drop n s)))"

lemma url_run_prefix: "\<exists>rest. s = url_run s @ rest"
  by (induction s) auto

lemma url_body_prefix: "\<exists>rest. s = url_body s @ rest"
proof -
  have "url_run s = url_body s @ rev (takeWhile not_url_end (rev (url_run s)))"
    unfolding url_body_def by (metis rev_append rev_rev_ident takeWhile_dropWhile_id)
  then show ?thesis using url_run_prefix [of s] by (metis append_assoc)
qed

lemma url_at_prefix: "url_at s = Some part \<Longrightarrow> part \<noteq> [] \<and> (\<exists>rest. s = part @ rest)"
proof -
  assume "url_at s = Some part"
  then obtain n where n: "part = take n s @ url_body (drop n s)" "url_body (drop n s) \<noteq> []"
    by (auto simp: url_at_def Let_def split: if_splits)
  obtain rest where "drop n s = url_body (drop n s) @ rest" using url_body_prefix by blast
  then have "s = part @ rest" using n(1) by (metis append.assoc append_take_drop_id)
  then show ?thesis using n by blast
qed

function map_spans :: "(string \<Rightarrow> string) \<Rightarrow> (string \<Rightarrow> string) \<Rightarrow> string \<Rightarrow> string \<Rightarrow> string" where
  "map_spans on_url on_text held [] = on_text (rev held)"
| "map_spans on_url on_text held (c # cs) =
     (case url_at (c # cs) of
        None \<Rightarrow> map_spans on_url on_text (c # held) cs
      | Some part \<Rightarrow> on_text (rev held) @ on_url part @ map_spans on_url on_text [] (drop (length part) (c # cs)))"
  by pat_completeness auto
termination
proof (relation "measure (\<lambda>(_, _, _, s). length s)")
  fix on_url on_text :: "string \<Rightarrow> string" and held cs part :: string and c :: char
  assume "url_at (c # cs) = Some part"
  then have "part \<noteq> []" using url_at_prefix by blast
  then show "((on_url, on_text, [], drop (length part) (c # cs)), (on_url, on_text, held, c # cs)) \<in> measure (\<lambda>(_, _, _, s). length s)"
    by (cases part) auto
qed auto

definition map_urls :: "(string \<Rightarrow> string) \<Rightarrow> (string \<Rightarrow> string) \<Rightarrow> string \<Rightarrow> string" where
  "map_urls on_url on_text value = map_spans on_url on_text [] value"

text \<open>The spans and the texts between them make up the text.\<close>

lemma map_urls_same: "map_urls id id value = value"
proof -
  have "map_spans on_url on_text held s = rev held @ s" if "on_url = id" "on_text = id" for on_url on_text held s
    using that
  proof (induction on_url on_text held s rule: map_spans.induct)
    case (2 on_url on_text held c cs)
    then show ?case using url_at_prefix [of "c # cs"] by (auto split: option.split)
  qed simp
  from this [OF refl refl] show ?thesis by (simp add: map_urls_def)
qed

section \<open>Scrubbing\<close>

record scrubbers =
  sr_text :: "string \<Rightarrow> string"
  sr_url :: "string \<Rightarrow> string"

definition query_mark :: "char \<Rightarrow> bool" where
  "query_mark c \<longleftrightarrow> c = CHR ''?'' \<or> c = CHR ''#''"

definition scrub_url_and_path :: "scrubbers \<Rightarrow> string \<Rightarrow> string" where
  "scrub_url_and_path sr url =
     (let scrubbed = sr_url sr url;
          front = takeWhile (\<lambda>c. \<not> query_mark c) scrubbed; tail = dropWhile (\<lambda>c. \<not> query_mark c) scrubbed
      in (case partition_text ''://'' front of (scheme, found, rest) \<Rightarrow> if found then scheme @ ''://'' @ sr_text sr rest else sr_text sr front) @ tail)"

definition scrub_string :: "scrubbers \<Rightarrow> string \<Rightarrow> string" where
  "scrub_string sr value = map_urls (scrub_url_and_path sr) (sr_text sr) value"

definition scrub_urls_only :: "scrubbers \<Rightarrow> string \<Rightarrow> string" where
  "scrub_urls_only sr value = map_urls (sr_url sr) id value"

definition lost_query_or_fragment :: "string \<Rightarrow> string \<Rightarrow> bool" where
  "lost_query_or_fragment value scrubbed \<longleftrightarrow> list_ex (\<lambda>mark. mark \<in> set value \<and> mark \<notin> set scrubbed) ''?#''"

definition scrub_url_contains :: "scrubbers \<Rightarrow> string \<Rightarrow> string" where
  "scrub_url_contains sr value =
     (if CHR ''?'' \<in> set value \<or> CHR ''#'' \<in> set value then scrub_url_and_path sr value
      else if CHR ''='' \<in> set value then
        let scrubbed = drop 1 (sr_url sr (CHR ''?'' # value)) in if scrubbed = [] then value else scrubbed
      else sr_text sr value)"

definition url_span_or_as_written :: "scrubbers \<Rightarrow> string \<Rightarrow> string" where
  "url_span_or_as_written sr part =
     (let scrubbed = scrub_url_and_path sr part in if lost_query_or_fragment part scrubbed then part else scrubbed)"

definition scrub_page_text :: "scrubbers \<Rightarrow> string \<Rightarrow> string" where
  "scrub_page_text sr value = map_urls (url_span_or_as_written sr) (sr_text sr) value"

definition stored_text_scrubber :: "scrubbers \<Rightarrow> postcondition_kind \<Rightarrow> (string \<Rightarrow> string) option" where
  "stored_text_scrubber sr kind = (case kind of
       PageUrlContains \<Rightarrow> Some (scrub_url_contains sr)
     | PageTextContains \<Rightarrow> Some (scrub_page_text sr)
     | DomContains \<Rightarrow> Some (scrub_page_text sr)
     | NetworkResponseShape \<Rightarrow> Some (scrub_string sr)
     | ExtractedDataSchema \<Rightarrow> Some (scrub_urls_only sr)
     | PageUrlMatches \<Rightarrow> None)"

definition scrubbed_or_as_written :: "(string \<Rightarrow> string) \<Rightarrow> postcondition \<Rightarrow> string" where
  "scrubbed_or_as_written scrub item =
     (let scrubbed = scrub (pc_value item); lost = (pc_kind item = PageUrlContains \<and> lost_query_or_fragment (pc_value item) scrubbed)
      in if scrubbed = [] \<or> lost then pc_value item else scrubbed)"

definition expected_item :: "scrubbers \<Rightarrow> postcondition \<Rightarrow> postcondition" where
  "expected_item sr item =
     (case stored_text_scrubber sr (pc_kind item) of
        None \<Rightarrow> item | Some scrub \<Rightarrow> item\<lparr>pc_value := scrubbed_or_as_written scrub item\<rparr>)"

definition expecting_scrubbed_text :: "scrubbers \<Rightarrow> task_contract \<Rightarrow> task_contract" where
  "expecting_scrubbed_text sr c = c\<lparr>tc_postconditions := map (expected_item sr) (tc_postconditions c)\<rparr>"

section \<open>The check\<close>

datatype drift_status = MissingSkill | DegradedSkill | UnverifiedSkill | HealthySkill

record drift_result =
  dr_skill :: string
  dr_status :: drift_status
  dr_contract_hash :: string
  dr_trace_hash :: string
  dr_verification :: "verification_result option"
  dr_notes :: "string list"

text \<open>
  What the check reads below the root: whether a directory is there, and its contract with its hash and its trace, or
  the type of what reading them raised. \<open>ds_scrubs\<close> is None when the scrubber works, else what it raised.
\<close>

record drift_source =
  ds_exists :: "string list \<Rightarrow> bool"
  ds_artifacts :: "string list \<Rightarrow> string + (task_contract \<times> string \<times> harness_trace)"
  ds_scrubs :: "string option"

datatype drift_error = NotServed registry_error | VerifierRaised

definition drift_notes :: "skill_candidate \<Rightarrow> string \<Rightarrow> string \<Rightarrow> string list" where
  "drift_notes c contract_hash hashed =
     (if contract_hash \<noteq> sk_contract_hash c then [''contract hash differs from candidate provenance''] else []) @
     (if hashed \<noteq> sk_trace_hash c then [''trace hash differs from candidate provenance''] else [])"

definition drift_status_of :: "bool option \<Rightarrow> string list \<Rightarrow> drift_status" where
  "drift_status_of passed notes =
     (if passed = Some True \<and> notes = [] then HealthySkill else if passed = None \<and> notes = [] then UnverifiedSkill else DegradedSkill)"

text \<open>A stored trace is read with its chain checked; a broken one raises \<open>TraceIntegrityError\<close>.\<close>

definition read_artifacts :: "(json \<Rightarrow> string) \<Rightarrow> drift_source \<Rightarrow> string list \<Rightarrow> string + (task_contract \<times> string \<times> harness_trace)" where
  "read_artifacts h source dir =
     (case ds_artifacts source dir of
        Inl name \<Rightarrow> Inl name
      | Inr (c, contract_hash, stored) \<Rightarrow>
          (case read_trace h stored of Inl _ \<Rightarrow> Inl ''TraceIntegrityError'' | Inr t \<Rightarrow> Inr (c, contract_hash, t)))"

definition check_candidate ::
  "(json \<Rightarrow> string) \<Rightarrow> (string \<Rightarrow> string) \<Rightarrow> (members \<Rightarrow> members option) option \<Rightarrow> operator_var \<Rightarrow> staging_view \<Rightarrow> drift_source \<Rightarrow> scrubbers \<Rightarrow>
   (task_contract \<Rightarrow> trace_envelope \<Rightarrow> verification_result option) \<Rightarrow> string \<Rightarrow> drift_error + drift_result" where
  "check_candidate h sha256 verifier cur view source sr verify skill_id =
     (case get_candidate h sha256 verifier cur view skill_id of
        Inl (NoCandidate _) \<Rightarrow> Inr \<lparr>dr_skill = skill_id, dr_status = MissingSkill, dr_contract_hash = [], dr_trace_hash = [],
          dr_verification = None, dr_notes = [''candidate not found'']\<rparr>
      | Inl e \<Rightarrow> Inl (NotServed e)
      | Inr d \<Rightarrow>
          let c = doc_candidate d in
          case vw_resolved view (sk_id c) of
            None \<Rightarrow> Inl (NotServed (NoCandidate (sk_id c)))
          | Some path \<Rightarrow>
              if \<not> ds_exists source (butlast path) then Inl (NotServed (NoCandidate (sk_id c)))
              else case read_artifacts h source (butlast path) of
                Inl name \<Rightarrow> Inr \<lparr>dr_skill = skill_id, dr_status = DegradedSkill, dr_contract_hash = [], dr_trace_hash = [],
                  dr_verification = None, dr_notes = [''candidate artifacts unreadable: '' @ name]\<rparr>
              | Inr (contract, contract_hash, trace) \<Rightarrow>
                  let notes = drift_notes c contract_hash (trace_hash h trace) in
                  case ds_scrubs source of
                    Some name \<Rightarrow> Inr \<lparr>dr_skill = skill_id, dr_status = UnverifiedSkill, dr_contract_hash = contract_hash,
                      dr_trace_hash = trace_hash h trace, dr_verification = None,
                      dr_notes = notes @ [''expected text could not be scrubbed: '' @ name]\<rparr>
                  | None \<Rightarrow>
                      (case verify (expecting_scrubbed_text sr contract) (envelope_of trace) of
                         None \<Rightarrow> Inl VerifierRaised
                       | Some v \<Rightarrow> Inr \<lparr>dr_skill = skill_id, dr_status = drift_status_of (vr_passed v) notes,
                           dr_contract_hash = contract_hash, dr_trace_hash = trace_hash h trace, dr_verification = Some v,
                           dr_notes = notes @ (if vr_notes v = [] then [] else [scrub_string sr (vr_notes v)])\<rparr>))"

section \<open>What a healthy skill is\<close>

text \<open>No expectation is scrubbed away, nor does one on the URL lose its query or its fragment.\<close>

lemma expectation_stays:
  assumes "pc_value item \<noteq> []"
  shows "pc_value (expected_item sr item) \<noteq> []"
    "pc_kind item = PageUrlContains \<Longrightarrow> mark \<in> set ''?#'' \<Longrightarrow> mark \<in> set (pc_value item) \<Longrightarrow> mark \<in> set (pc_value (expected_item sr item))"
  using assms by (auto simp: expected_item_def scrubbed_or_as_written_def lost_query_or_fragment_def Let_def split: option.splits if_splits)

lemma expected_contract_ok: "contract_ok c \<Longrightarrow> contract_ok (expecting_scrubbed_text sr c)"
  by (auto simp: contract_ok_def expecting_scrubbed_text_def list_all_iff expectation_stays(1))

text \<open>
  C33: a skill the drift check calls healthy was served by the registry to this caller, its stored contract and trace
  are the ones it was induced from (by their hashes), the trace's chain is whole, and the trace meets the contract,
  whose expectations are those of the stored contract, scrubbed as the trace was and none of them to nothing.
\<close>

theorem healthy_skill_meets_its_contract:
  assumes "check_candidate h sha256 verifier cur view source sr (verify_attempt env) i = Inr r" and "dr_status r = HealthySkill"
  shows "\<exists>d path contract trace. get_candidate h sha256 verifier cur view i = Inr d \<and>
    vw_resolved view (sk_id (doc_candidate d)) = Some path \<and>
    ds_artifacts source (butlast path) = Inr (contract, sk_contract_hash (doc_candidate d), trace) \<and>
    trace_hash h trace = sk_trace_hash (doc_candidate d) \<and> verify_trace_chain h (ht_events trace) = None \<and>
    contract_met env (expecting_scrubbed_text sr contract) (envelope_of trace) \<and>
    (contract_ok contract \<longrightarrow> contract_ok (expecting_scrubbed_text sr contract))"
proof -
  obtain d where d: "get_candidate h sha256 verifier cur view i = Inr d"
    using assms by (auto simp: check_candidate_def split: sum.splits registry_error.splits)
  let ?c = "doc_candidate d"
  obtain path where path: "vw_resolved view (sk_id ?c) = Some path" "ds_exists source (butlast path)"
    using assms d by (auto simp: check_candidate_def Let_def split: option.splits if_splits)
  obtain contract contract_hash trace where read: "read_artifacts h source (butlast path) = Inr (contract, contract_hash, trace)"
    using assms d path by (auto simp: check_candidate_def Let_def split: sum.splits)
  have scrubs: "ds_scrubs source = None"
    using assms d path read by (auto simp: check_candidate_def Let_def split: option.splits)
  obtain v where v: "verify_attempt env (expecting_scrubbed_text sr contract) (envelope_of trace) = Some v"
    and status: "drift_status_of (vr_passed v) (drift_notes ?c contract_hash (trace_hash h trace)) = HealthySkill"
    using assms d path read scrubs by (auto simp: check_candidate_def Let_def split: option.splits)
  have "vr_passed v = Some True" "contract_hash = sk_contract_hash ?c" "trace_hash h trace = sk_trace_hash ?c"
    using status by (auto simp: drift_status_of_def drift_notes_def split: if_splits)
  moreover have "ds_artifacts source (butlast path) = Inr (contract, contract_hash, trace)" "verify_trace_chain h (ht_events trace) = None"
    using read by (auto simp: read_artifacts_def read_trace_def split: sum.splits option.splits)
  ultimately show ?thesis using d path(1) verified_met [OF v] expected_contract_ok by auto
qed

definition drift_contract :: task_contract where
  "drift_contract = \<lparr>tc_id = ''order'', tc_goal = ''Open the order'',
     tc_postconditions = [\<lparr>pc_kind = PageUrlContains, pc_value = ''/orders?id=7'', pc_required = True\<rparr>],
     tc_forbidden = [], tc_evidence = [(''trace'', True)], tc_max_attempts = 3\<rparr>"

definition drift_trace :: harness_trace where
  "drift_trace = \<lparr>ht_run = ''r1-3'', ht_contract_hash = ''c'', ht_events = [], ht_final_observation = [(''url'', JStr ''https://shop/orders?id=7'')],
     ht_network = [], ht_extracted = [], ht_metadata = []\<rparr>"

definition drift_files :: drift_source where
  "drift_files = \<lparr>ds_exists = (\<lambda>_. True), ds_artifacts = (\<lambda>_. Inr (drift_contract, ''c'', drift_trace)), ds_scrubs = None\<rparr>"

definition plain_scrubbers :: scrubbers where
  "plain_scrubbers = \<lparr>sr_text = id, sr_url = id\<rparr>"

theorem healthy_skill_meets_its_contract_witness:
  "\<exists>r. check_candidate (\<lambda>_. ''t'') id None None sample_view drift_files plain_scrubbers (verify_attempt sample_verify) ''s-1'' = Inr r \<and>
     dr_status r = HealthySkill \<and> contract_met sample_verify (expecting_scrubbed_text plain_scrubbers drift_contract) (envelope_of drift_trace)"
proof -
  let ?expected = "expecting_scrubbed_text plain_scrubbers drift_contract"
  have met: "contract_met sample_verify ?expected (envelope_of drift_trace)" by code_simp
  have none: "url_patterns ?expected = []" by code_simp
  have "\<forall>p \<in> set (url_patterns ?expected). ve_answer sample_verify p (pg_url (page_shown_by (ve_repr sample_verify) (envelope_of drift_trace))) \<noteq> EndsChild"
    by (simp add: none)
  from verifier_verdict [OF this] met obtain v where v: "verify_attempt sample_verify ?expected (envelope_of drift_trace) = Some v" "vr_passed v = Some True"
    by auto
  have doc: "sk_id (doc_candidate sample_doc) = ''s-1''" "sk_contract_hash (doc_candidate sample_doc) = ''c''" "sk_trace_hash (doc_candidate sample_doc) = ''t''"
    by (simp_all add: sample_doc_built built_doc_def built_candidate_def sample_build_def)
  have "get_candidate (\<lambda>_. ''t'') id None None sample_view ''s-1'' = Inr (with_files_of sample_view [''s-1''] sample_doc)"
    by (simp add: get_candidate_def verify_candidate_def sample_view_def may_use_def sample_owner)
  then have "\<exists>r. check_candidate (\<lambda>_. ''t'') id None None sample_view drift_files plain_scrubbers (verify_attempt sample_verify) ''s-1'' = Inr r \<and>
     dr_status r = HealthySkill"
    using v by (simp add: check_candidate_def with_files_of_def doc sample_view_def drift_files_def read_artifacts_def read_trace_def drift_trace_def
        verify_trace_chain_def trace_hash_def drift_notes_def drift_status_of_def Let_def)
  then obtain r where r: "check_candidate (\<lambda>_. ''t'') id None None sample_view drift_files plain_scrubbers (verify_attempt sample_verify) ''s-1'' = Inr r"
    "dr_status r = HealthySkill" by blast
  from healthy_skill_meets_its_contract [OF r] r show ?thesis by (auto simp: drift_files_def)
qed

end
